(* ===== verification/Prelude.thy ===== *)
theory Prelude
  imports Main "HOL-Library.Word" "HOL-Library.List_Lexorder" "HOL-Library.Char_ord"
begin

text \<open>
  Shared vocabulary of the development.

  \<^item> \<open>named_theorems\<close> collections: \<open>guard_simps\<close> (unfoldings of the guard predicates that the
    operations test) and \<open>op_defs\<close> (the operations of a component, for symbolic execution).
  \<^item> Time. A Python \<open>datetime\<close> is a wall clock without a zone or an instant with a UTC offset; all
    quantities are integers of microseconds, the resolution of the type, so that comparisons and
    \<open>timedelta\<close> arithmetic are exact.
  \<^item> \<open>seq_result\<close>: a loop whose body may raise.
  \<^item> Two interfaces used by several components: \<open>transition_system\<close> (a guarded state machine with
    an invariant) and \<open>slot_grid\<close> (an evenly spaced grid of due times).
\<close>

named_theorems guard_simps
named_theorems op_defs

section \<open>Time\<close>

type_synonym instant = int \<comment> \<open>microseconds since 1970-01-01T00:00:00Z\<close>
type_synonym duration = int \<comment> \<open>microseconds\<close>

datatype datetime = Naive int | Aware instant duration

abbreviation usec_per_second :: int where "usec_per_second \<equiv> 1000000"
abbreviation usec_per_minute :: int where "usec_per_minute \<equiv> 60000000"
abbreviation usec_per_hour :: int where "usec_per_hour \<equiv> 3600000000"
abbreviation usec_per_day :: int where "usec_per_day \<equiv> 86400000000"

definition seconds :: "int \<Rightarrow> duration" where "seconds n = n * usec_per_second"
definition minutes :: "int \<Rightarrow> duration" where "minutes n = n * usec_per_minute"
definition hours :: "int \<Rightarrow> duration" where "hours n = n * usec_per_hour"
definition days :: "int \<Rightarrow> duration" where "days n = n * usec_per_day"

lemmas duration_defs = seconds_def minutes_def hours_def days_def

fun instant_of :: "datetime \<Rightarrow> int" where
  "instant_of (Naive t) = t"
| "instant_of (Aware t off) = t"

text \<open>The fields of a UTC time of day, as \<open>datetime.hour\<close>, \<open>.minute\<close>, \<open>.second\<close>, \<open>.microsecond\<close>.\<close>

definition utc_hour :: "instant \<Rightarrow> int" where "utc_hour t = (t div usec_per_hour) mod 24"
definition utc_minute :: "instant \<Rightarrow> int" where "utc_minute t = (t div usec_per_minute) mod 60"
definition utc_second :: "instant \<Rightarrow> int" where "utc_second t = (t div usec_per_second) mod 60"
definition utc_microsecond :: "instant \<Rightarrow> int" where "utc_microsecond t = t mod usec_per_second"

text \<open>\<open>int(delta.total_seconds())\<close>: conversion to \<open>int\<close> truncates towards zero.\<close>

definition trunc_seconds :: "duration \<Rightarrow> int" where
  "trunc_seconds d = (if 0 \<le> d then d div usec_per_second else - ((- d) div usec_per_second))"

lemma div_le_iff_less: "0 < k \<Longrightarrow> (d :: int) div k \<le> n \<longleftrightarrow> d < (n + 1) * k"
proof -
  assume k: "0 < k"
  then have m: "0 \<le> d mod k" "d mod k < k" by simp_all
  have d: "d = (d div k) * k + d mod k" by simp
  have e: "(n + 1) * k = n * k + k" by (simp add: distrib_right)
  show ?thesis
  proof
    assume "d div k \<le> n"
    then have "(d div k) * k \<le> n * k" using k by (simp add: mult_right_mono)
    then show "d < (n + 1) * k" using d m e by linarith
  next
    assume a: "d < (n + 1) * k"
    show "d div k \<le> n"
    proof (rule ccontr)
      assume "\<not> d div k \<le> n"
      then have "(n + 1) * k \<le> (d div k) * k" using k by (intro mult_right_mono) simp_all
      then show False using a d m by linarith
    qed
  qed
qed

lemma trunc_seconds_nonneg_iff: "0 \<le> trunc_seconds d \<longleftrightarrow> - usec_per_second < d"
  using div_le_iff_less [of usec_per_second "- d" 0]
  by (auto simp: trunc_seconds_def pos_imp_zdiv_nonneg_iff)

lemma trunc_seconds_le_iff:
  assumes "0 \<le> n"
  shows "trunc_seconds d \<le> n \<longleftrightarrow> d < (n + 1) * usec_per_second"
proof (cases "0 \<le> d")
  case True
  then show ?thesis by (simp add: trunc_seconds_def div_le_iff_less)
next
  case False
  then have "0 \<le> (- d) div usec_per_second" by (simp add: pos_imp_zdiv_nonneg_iff)
  with False assms show ?thesis by (simp add: trunc_seconds_def)
qed

text \<open>The Gregorian date of a day number counted from 1970-01-01.\<close>

definition civil_from_days :: "int \<Rightarrow> int \<times> int \<times> int" where
  "civil_from_days n =
     (let z = n + 719468; era = z div 146097; doe = z mod 146097;
          yoe = (doe - doe div 1460 + doe div 36524 - doe div 146096) div 365;
          doy = doe - (365 * yoe + yoe div 4 - yoe div 100);
          mp = (5 * doy + 2) div 153;
          d = doy - (153 * mp + 2) div 5 + 1;
          m = (if mp < 10 then mp + 3 else mp - 9);
          y = yoe + era * 400 + (if m \<le> 2 then 1 else 0)
      in (y, m, d))"

section \<open>Loops whose body may raise\<close>

fun seq_result :: "('a \<Rightarrow> 'e + 'b) \<Rightarrow> 'a list \<Rightarrow> 'e + 'b list" where
  "seq_result f [] = Inr []"
| "seq_result f (x # xs) =
     (case f x of Inl e \<Rightarrow> Inl e
      | Inr y \<Rightarrow> (case seq_result f xs of Inl e \<Rightarrow> Inl e | Inr ys \<Rightarrow> Inr (y # ys)))"

lemma seq_result_length: "seq_result f xs = Inr ys \<Longrightarrow> length ys = length xs"
  by (induction xs arbitrary: ys) (auto split: sum.splits)

lemma seq_result_Inr_iff:
  "seq_result f xs = Inr ys \<longleftrightarrow> list_all2 (\<lambda>x y. f x = Inr y) xs ys"
proof (induction xs arbitrary: ys)
  case Nil
  then show ?case by auto
next
  case (Cons x xs)
  show ?case
  proof (cases "f x")
    case (Inr y)
    show ?thesis
      using Inr Cons.IH by (cases "seq_result f xs") (auto simp: list_all2_Cons1)
  qed (auto simp: list_all2_Cons1)
qed

lemma seq_result_nth:
  "seq_result f xs = Inr ys \<Longrightarrow> i < length xs \<Longrightarrow> f (xs ! i) = Inr (ys ! i)"
  by (simp add: seq_result_Inr_iff list_all2_conv_all_nth)

lemma seq_result_total:
  "(\<forall>x \<in> set xs. \<exists>y. f x = Inr y) \<Longrightarrow> \<exists>ys. seq_result f xs = Inr ys"
  by (induction xs) auto

lemma seq_result_Inr_ex:
  "seq_result f xs = Inr ys \<Longrightarrow> y \<in> set ys \<Longrightarrow> \<exists>x \<in> set xs. f x = Inr y"
  by (metis in_set_conv_nth seq_result_length seq_result_nth)

text \<open>A loop that threads a state through a body that may raise.\<close>

fun fold_result :: "('s \<Rightarrow> 'a \<Rightarrow> 'e + 's) \<Rightarrow> 's \<Rightarrow> 'a list \<Rightarrow> 'e + 's" where
  "fold_result f s [] = Inr s"
| "fold_result f s (x # xs) = (case f s x of Inl e \<Rightarrow> Inl e | Inr t \<Rightarrow> fold_result f t xs)"

lemma fold_result_append:
  "fold_result f s (xs @ ys) =
     (case fold_result f s xs of Inl e \<Rightarrow> Inl e | Inr t \<Rightarrow> fold_result f t ys)"
  by (induction xs arbitrary: s) (auto split: sum.split)

lemma fold_result_snocI:
  "fold_result f s xs = Inr t \<Longrightarrow> f t x = Inr u \<Longrightarrow> fold_result f s (xs @ [x]) = Inr u"
  by (simp add: fold_result_append)

text \<open>Python's \<open>next((x for x in xs if p(x)), None)\<close> is \<^const>\<open>List.find\<close>.\<close>

lemma find_SomeD: "List.find p xs = Some x \<Longrightarrow> x \<in> set xs \<and> p x"
  by (induction xs) (auto split: if_splits)

lemma find_append: "List.find p (xs @ ys) = (case List.find p xs of None \<Rightarrow> List.find p ys | Some x \<Rightarrow> Some x)"
  by (induction xs) simp_all

text \<open>Counting with \<open>sum(p(x) for x in xs)\<close>.\<close>

definition count_where :: "('a \<Rightarrow> bool) \<Rightarrow> 'a list \<Rightarrow> int" where
  "count_where p xs = int (length (filter p xs))"

lemma count_where_nonneg [simp]: "0 \<le> count_where p xs"
  by (simp add: count_where_def)

lemma count_where_Nil [simp]: "count_where p [] = 0"
  by (simp add: count_where_def)

lemma count_where_Cons [simp]:
  "count_where p (x # xs) = (if p x then 1 else 0) + count_where p xs"
  by (simp add: count_where_def)

lemma count_where_all: "count_where p xs = int (length xs) \<longleftrightarrow> (\<forall>x \<in> set xs. p x)"
  by (metis count_where_def filter_True length_filter_less less_irrefl of_nat_eq_iff)

lemma count_where_pos: "0 < count_where p xs \<longleftrightarrow> (\<exists>x \<in> set xs. p x)"
  by (auto simp: count_where_def filter_empty_conv)

section \<open>Guarded state machines\<close>

text \<open>
  A component whose operations are partial functions on a state: a step is one successful operation.
  The invariant holds initially and is kept by every step, so it holds in every state that a sequence
  of operations can reach.
\<close>

locale transition_system =
  fixes init :: "'s \<Rightarrow> bool"
    and step :: "'s \<Rightarrow> 's \<Rightarrow> bool"
    and inv :: "'s \<Rightarrow> bool"
  assumes init_inv: "init s \<Longrightarrow> inv s"
    and step_inv: "inv s \<Longrightarrow> step s t \<Longrightarrow> inv t"
begin

lemma steps_inv: "step\<^sup>*\<^sup>* s t \<Longrightarrow> inv s \<Longrightarrow> inv t"
  by (induction rule: rtranclp_induct) (auto intro: step_inv)

lemma reachable_inv: "init s \<Longrightarrow> step\<^sup>*\<^sup>* s t \<Longrightarrow> inv t"
  by (blast intro: steps_inv init_inv)

end

text \<open>A measure that no step decreases and that the invariant bounds.\<close>

locale bounded_progress = transition_system +
  fixes rank :: "'a \<Rightarrow> int" and bound :: int
  assumes rank_mono: "inv s \<Longrightarrow> step s t \<Longrightarrow> rank s \<le> rank t"
    and rank_bound: "inv s \<Longrightarrow> rank s \<le> bound"
begin

lemma steps_rank_mono: "step\<^sup>*\<^sup>* s t \<Longrightarrow> inv s \<Longrightarrow> rank s \<le> rank t"
proof (induction rule: rtranclp_induct)
  case base
  then show ?case by simp
next
  case (step y z)
  then have "inv y" by (blast intro: steps_inv)
  with step show ?case using rank_mono [of y z] by simp
qed

lemma reachable_rank: "init s \<Longrightarrow> step\<^sup>*\<^sup>* s t \<Longrightarrow> rank s \<le> rank t \<and> rank t \<le> bound"
  by (blast intro: steps_rank_mono rank_bound reachable_inv init_inv)

end

section \<open>Evenly spaced due times\<close>

text \<open>\<open>while due <= now: append(due); due += interval\<close>\<close>

function slots_from :: "duration \<Rightarrow> instant \<Rightarrow> instant \<Rightarrow> instant list" where
  "slots_from w due now = (if due \<le> now \<and> 0 < w then due # slots_from w (due + w) now else [])"
  by pat_completeness auto
termination
  by (relation "measure (\<lambda>(w, due, now). nat (now - due + 1))") auto

declare slots_from.simps [simp del]

locale slot_grid =
  fixes interval :: duration
  assumes interval_pos: "0 < interval"
begin

lemma slots_from_Nil: "now < due \<Longrightarrow> slots_from interval due now = []"
  by (simp add: slots_from.simps)

lemma slots_from_step: "due \<le> now \<Longrightarrow> slots_from interval due now = due # slots_from interval (due + interval) now"
  using interval_pos by (simp add: slots_from.simps [of interval due now])

lemma slots_from_Nil_iff: "slots_from interval due now = [] \<longleftrightarrow> now < due"
  using interval_pos by (simp add: slots_from.simps [of interval due now] not_le)

lemma slots_from_nth:
  "i < length (slots_from interval due now) \<Longrightarrow>
     slots_from interval due now ! i = due + int i * interval \<and> due + int i * interval \<le> now"
proof (induction i arbitrary: due)
  case 0
  then have "due \<le> now" using slots_from_Nil_iff [of due now] by force
  then show ?case by (simp add: slots_from_step [of due now])
next
  case (Suc i)
  then have "due \<le> now" using slots_from_Nil_iff [of due now] by force
  with Suc.prems Suc.IH [of "due + interval"] show ?case
    by (simp add: slots_from_step [of due now] algebra_simps)
qed

lemma slots_from_complete:
  "due + int i * interval \<le> now \<Longrightarrow> i < length (slots_from interval due now)"
proof (induction i arbitrary: due)
  case 0
  then show ?case by (simp add: slots_from_step [of due now])
next
  case (Suc i)
  have "0 \<le> int (Suc i) * interval" using interval_pos by simp
  with Suc.prems have "due \<le> now" by linarith
  with Suc.prems Suc.IH [of "due + interval"] show ?case
    by (simp add: slots_from_step [of due now] algebra_simps)
qed

lemma slots_from_set:
  "t \<in> set (slots_from interval due now) \<longleftrightarrow> (\<exists>i. t = due + int i * interval \<and> t \<le> now)"
  by (metis in_set_conv_nth slots_from_nth slots_from_complete)

lemma slots_from_congruent:
  "set (slots_from interval due now) = {t. (t - due) mod interval = 0 \<and> due \<le> t \<and> t \<le> now}"
proof (intro set_eqI iffI)
  fix t assume "t \<in> set (slots_from interval due now)"
  then show "t \<in> {t. (t - due) mod interval = 0 \<and> due \<le> t \<and> t \<le> now}"
    using interval_pos by (auto simp: slots_from_set)
next
  fix t assume t: "t \<in> {t. (t - due) mod interval = 0 \<and> due \<le> t \<and> t \<le> now}"
  then obtain k where k: "t - due = interval * k" by (auto dest!: mod_0_imp_dvd simp: dvd_def)
  with t have "0 \<le> interval * k" by (metis diff_ge_0_iff_ge mem_Collect_eq)
  with interval_pos have "0 \<le> k" by (simp add: zero_le_mult_iff)
  with k have "t = due + int (nat k) * interval" by (simp add: mult.commute)
  with t show "t \<in> set (slots_from interval due now)" unfolding slots_from_set by blast
qed

text \<open>Two points of one residue class are at least one interval apart.\<close>

lemma congruent_gap:
  assumes "s mod interval = t mod interval" and "s < t"
  shows "s + interval \<le> t"
proof -
  have "interval dvd t - s" using assms(1) by (metis mod_eq_dvd_iff)
  then show ?thesis using zdvd_imp_le [of interval "t - s"] assms(2) by linarith
qed

lemma slots_from_sorted: "sorted_wrt (<) (slots_from interval due now)"
proof -
  have "slots_from interval due now ! i < slots_from interval due now ! j"
    if "i < j" and "j < length (slots_from interval due now)" for i j
    using that interval_pos by (simp add: slots_from_nth)
  then show ?thesis by (simp add: sorted_wrt_iff_nth_less)
qed

text \<open>Materialising up to one time and resuming after its last slot covers what one pass would.\<close>

lemma slots_from_append:
  assumes "mid \<le> now"
  shows "slots_from interval due now =
           slots_from interval due mid @
           slots_from interval (due + int (length (slots_from interval due mid)) * interval) now"
proof (induction "length (slots_from interval due mid)" arbitrary: due)
  case 0
  then show ?case by simp
next
  case (Suc n)
  then have le: "due \<le> mid" using slots_from_Nil_iff [of due mid] by force
  with Suc.hyps(2) have "n = length (slots_from interval (due + interval) mid)"
    by (simp add: slots_from_step [of due mid])
  from Suc.hyps(1) [OF this] le assms show ?case
    by (simp add: slots_from_step [of due mid] slots_from_step [of due now] algebra_simps)
qed

end

end
