(* ===== verification/Digest.thy ===== *)
theory Digest
  imports Prelude
begin

text \<open>
  The parts of the Python standard library that the program hashes and prints with: \<open>hashlib.sha256\<close>
  (FIPS 180-4), \<open>hmac.digest\<close> (RFC 2104), \<open>bytes.hex\<close> and \<open>bytes.fromhex\<close>, \<open>str(int)\<close> and the two
  printed forms of a \<open>UUID\<close>.

  A \<open>bytes\<close> value is a list of 8-bit characters. A \<open>str\<close> is represented by its UTF-8 encoding, so
  \<open>.encode()\<close> is the identity, equality and concatenation are those of lists, and the code point order
  that Python compares strings by is the lexicographic order of the encodings.
\<close>

unbundle bit_operations_syntax

section \<open>SHA-256 and HMAC\<close>

type_synonym w32 = "32 word"

definition rotr :: "nat \<Rightarrow> w32 \<Rightarrow> w32" where
  "rotr n x = (drop_bit n x) OR (push_bit (32 - n) x)"

text \<open>
  The constants are the first 32 bits of the fractional parts of the cube roots of the first 64 primes
  and of the square roots of the first eight. \<open>root_bits k n b r\<close> extends \<open>r\<close> by its \<open>b\<close> low bits to the
  integer part of the \<open>k\<close>-th root of \<open>n\<close>.
\<close>

primrec root_bits :: "nat \<Rightarrow> nat \<Rightarrow> nat \<Rightarrow> nat \<Rightarrow> nat" where
  "root_bits k n 0 r = r"
| "root_bits k n (Suc b) r = root_bits k n b (if (r + 2 ^ b) ^ k \<le> n then r + 2 ^ b else r)"

definition root_fraction :: "nat \<Rightarrow> nat \<Rightarrow> w32" where
  "root_fraction k p = word_of_nat (root_bits k (p * 2 ^ (32 * k)) 36 0)"

definition sha_primes :: "nat list" where
  "sha_primes = filter (\<lambda>p. list_all (\<lambda>d. p mod d \<noteq> 0) [2..<p]) [2..<312]"

definition sha_K :: "w32 list" where "sha_K = map (root_fraction 3) sha_primes"

definition sha_H0 :: "w32 list" where "sha_H0 = map (root_fraction 2) [2, 3, 5, 7, 11, 13, 17, 19]"

definition byte_of :: "char \<Rightarrow> w32" where
  "byte_of c = word_of_nat (of_char c)"

fun words_of_bytes :: "string \<Rightarrow> w32 list" where
  "words_of_bytes (a # b # c # d # rest) =
     (push_bit 24 (byte_of a) OR push_bit 16 (byte_of b) OR push_bit 8 (byte_of c) OR byte_of d)
       # words_of_bytes rest"
| "words_of_bytes _ = []"

definition sched_word :: "w32 list \<Rightarrow> w32" where
  "sched_word ws =
     (let w2 = ws ! 1; w7 = ws ! 6; w15 = ws ! 14; w16 = ws ! 15;
          s0 = rotr 7 w15 XOR rotr 18 w15 XOR drop_bit 3 w15;
          s1 = rotr 17 w2 XOR rotr 19 w2 XOR drop_bit 10 w2
      in w16 + s0 + w7 + s1)"

primrec schedule_rev :: "nat \<Rightarrow> w32 list \<Rightarrow> w32 list" where
  "schedule_rev 0 ws = ws"
| "schedule_rev (Suc n) ws = schedule_rev n (sched_word ws # ws)"

fun sha_round :: "w32 list \<Rightarrow> w32 \<times> w32 \<Rightarrow> w32 list" where
  "sha_round [a, b, c, d, e, f, g, h] (k, w) =
     (let s1 = rotr 6 e XOR rotr 11 e XOR rotr 25 e;
          ch = (e AND f) XOR ((NOT e) AND g);
          t1 = h + s1 + ch + k + w;
          s0 = rotr 2 a XOR rotr 13 a XOR rotr 22 a;
          maj = (a AND b) XOR (a AND c) XOR (b AND c);
          t2 = s0 + maj
      in [t1 + t2, a, b, c, d + t1, e, f, g])"
| "sha_round s _ = s"

definition compress :: "w32 list \<Rightarrow> string \<Rightarrow> w32 list" where
  "compress h block =
     (let w = rev (schedule_rev 48 (rev (words_of_bytes block)))
      in map2 (+) h (foldl sha_round h (zip sha_K w)))"

definition be_bytes :: "nat \<Rightarrow> nat \<Rightarrow> string" where
  "be_bytes k n = map (\<lambda>i. char_of (n div 256 ^ i)) (rev [0..<k])"

definition sha_pad :: "string \<Rightarrow> string" where
  "sha_pad m = m @ [char_of (128::nat)] @ replicate ((119 - length m mod 64) mod 64) (char_of (0::nat))
                 @ be_bytes 8 (8 * length m)"

fun chunks :: "nat \<Rightarrow> string \<Rightarrow> string list" where
  "chunks n xs = (if n = 0 \<or> xs = [] then [] else take n xs # chunks n (drop n xs))"
declare chunks.simps [simp del]

definition sha256 :: "string \<Rightarrow> string" where
  "sha256 m = concat (map (\<lambda>w. be_bytes 4 (unat w)) (foldl compress sha_H0 (chunks 64 (sha_pad m))))"


lemma length_be_bytes [simp]: "length (be_bytes k n) = k"
  by (simp add: be_bytes_def)

lemma length_schedule_rev [simp]: "length (schedule_rev n ws) = n + length ws"
  by (induction n arbitrary: ws) simp_all

lemma length_sha_round: "length h = 8 \<Longrightarrow> length (sha_round h kw) = 8"
  by (cases "(h, kw)" rule: sha_round.cases) (simp_all add: Let_def)

lemma length_sha_rounds: "length h = 8 \<Longrightarrow> length (foldl sha_round h kws) = 8"
  by (induction kws arbitrary: h) (simp_all add: length_sha_round)

lemma length_compress: "length h = 8 \<Longrightarrow> length (compress h b) = 8"
  by (simp add: compress_def Let_def length_sha_rounds)

lemma length_compress_blocks: "length h = 8 \<Longrightarrow> length (foldl compress h bs) = 8"
  by (induction bs arbitrary: h) (simp_all add: length_compress)

lemma length_concat_const: "(\<And>x. x \<in> set xs \<Longrightarrow> length (f x) = k) \<Longrightarrow> length (concat (map f xs)) = length xs * k"
  by (induction xs) simp_all

lemma length_sha256 [simp]: "length (sha256 m) = 32"
proof -
  have "length sha_H0 = 8" by (simp add: sha_H0_def)
  then have "length (foldl compress sha_H0 (chunks 64 (sha_pad m))) = 8"
    by (rule length_compress_blocks)
  then show ?thesis
    by (simp add: sha256_def length_concat_const [where k = 4])
qed

definition xor_byte :: "nat \<Rightarrow> char \<Rightarrow> char" where
  "xor_byte n c = char_of (of_char c XOR n)"

definition hmac_sha256 :: "string \<Rightarrow> string \<Rightarrow> string" where
  "hmac_sha256 key msg =
     (let k0 = (if 64 < length key then sha256 key else key);
          k = k0 @ replicate (64 - length k0) (char_of (0 :: nat))
      in sha256 (map (xor_byte 0x5c) k @ sha256 (map (xor_byte 0x36) k @ msg)))"

lemma length_hmac_sha256 [simp]: "length (hmac_sha256 key msg) = 32"
  by (simp add: hmac_sha256_def Let_def)

text \<open>\<open>int.from_bytes(bs, "big")\<close>\<close>

definition from_bytes_big :: "string \<Rightarrow> int" where
  "from_bytes_big bs = foldl (\<lambda>acc c. acc * 256 + of_char c) 0 bs"

lemma from_bytes_big_nonneg: "0 \<le> from_bytes_big bs"
proof -
  have "0 \<le> foldl (\<lambda>acc c. acc * 256 + of_char c) (a :: int) bs" if "0 \<le> a" for a
    using that by (induction bs arbitrary: a) (simp_all add: of_char_def of_bool_def)
  then show ?thesis by (simp add: from_bytes_big_def)
qed

section \<open>Hexadecimal\<close>

definition hex_chars :: string where "hex_chars = ''0123456789abcdef''"

definition hex_digit :: "nat \<Rightarrow> char" where "hex_digit n = hex_chars ! (n mod 16)"

definition hexdigest :: "string \<Rightarrow> string" where
  "hexdigest bs = concat (map (\<lambda>c. [hex_digit (of_char c div 16), hex_digit (of_char c mod 16)]) bs)"

lemma length_hexdigest [simp]: "length (hexdigest bs) = 2 * length bs"
  by (simp add: hexdigest_def length_concat_const [where k = 2])

fun hex_value :: "char \<Rightarrow> nat option" where
  "hex_value c =
     (let n = of_char c :: nat in
      if 48 \<le> n \<and> n \<le> 57 then Some (n - 48)
      else if 97 \<le> n \<and> n \<le> 102 then Some (n - 87)
      else if 65 \<le> n \<and> n \<le> 70 then Some (n - 55)
      else None)"

definition ascii_space :: "char \<Rightarrow> bool" where
  "ascii_space c \<longleftrightarrow> (let n = of_char c :: nat in n = 32 \<or> (9 \<le> n \<and> n \<le> 13))"

text \<open>\<open>bytes.fromhex\<close>: whitespace is skipped between bytes, anything else that is not a pair of
  hexadecimal digits raises \<open>ValueError\<close> (\<open>None\<close>).\<close>

fun fromhex :: "string \<Rightarrow> string option" where
  "fromhex [] = Some []"
| "fromhex [c] = (if ascii_space c then Some [] else None)"
| "fromhex (c # d # rest) =
     (if ascii_space c then fromhex (d # rest)
      else case (hex_value c, hex_value d) of
        (Some h, Some l) \<Rightarrow>
          (case fromhex rest of Some bs \<Rightarrow> Some (char_of (16 * h + l) # bs) | None \<Rightarrow> None)
      | _ \<Rightarrow> None)"

lemma hex_value_all: "\<forall>n \<in> set [0..<16]. hex_value (hex_digit n) = Some n \<and> \<not> ascii_space (hex_digit n)"
  by code_simp

lemma hex_value_hex_digit: "n < 16 \<Longrightarrow> hex_value (hex_digit n) = Some n \<and> \<not> ascii_space (hex_digit n)"
  using hex_value_all by simp

lemma fromhex_hexdigest [simp]: "fromhex (hexdigest bs) = Some bs"
proof (induction bs)
  case Nil
  then show ?case by (simp add: hexdigest_def)
next
  case (Cons c bs)
  have hi: "of_char c div 16 < (16 :: nat)" using nat_of_char_less_256 [of c] by (simp add: less_mult_imp_div_less)
  have lo: "of_char c mod 16 < (16 :: nat)" by simp
  have "char_of (16 * (of_char c div 16) + of_char c mod 16 :: nat) = c" by simp
  moreover have "hexdigest (c # bs) =
      hex_digit (of_char c div 16) # hex_digit (of_char c mod 16) # hexdigest bs"
    by (simp add: hexdigest_def)
  ultimately show ?case
    using Cons.IH hex_value_hex_digit [OF hi] hex_value_hex_digit [OF lo]
    by (simp del: hex_value.simps)
qed

lemma hexdigest_inject: "hexdigest xs = hexdigest ys \<longleftrightarrow> xs = ys"
  by (metis fromhex_hexdigest option.inject)

text \<open>\<open>sha256(...).hexdigest()\<close>\<close>

definition sha256_hex :: "string \<Rightarrow> string" where
  "sha256_hex bs = hexdigest (sha256 bs)"

lemma length_sha256_hex [simp]: "length (sha256_hex bs) = 64"
  by (simp add: sha256_hex_def)

lemma fromhex_sha256_hex [simp]: "fromhex (sha256_hex bs) = Some (sha256 bs)"
  by (simp add: sha256_hex_def)

section \<open>Integers and UUIDs as text\<close>

fun show_nat :: "nat \<Rightarrow> string" where
  "show_nat n = (if n < 10 then [hex_digit n] else show_nat (n div 10) @ [hex_digit (n mod 10)])"

declare show_nat.simps [simp del]

definition show_int :: "int \<Rightarrow> string" where
  "show_int i = (if i < 0 then CHR ''-'' # show_nat (nat (- i)) else show_nat (nat i))"

text \<open>Zero padded decimal field of a \<open>strftime\<close> format.\<close>

definition pad_int :: "nat \<Rightarrow> int \<Rightarrow> string" where
  "pad_int w i = (let s = show_int i in replicate (w - length s) (CHR ''0'') @ s)"

type_synonym uuid = "128 word"

definition uuid_hex :: "uuid \<Rightarrow> string" where
  "uuid_hex u = map (\<lambda>i. hex_digit (unat (drop_bit (4 * i) u AND 15))) (rev [0..<32])"

definition uuid_str :: "uuid \<Rightarrow> string" where
  "uuid_str u =
     (let h = uuid_hex u
      in take 8 h @ ''-'' @ take 4 (drop 8 h) @ ''-'' @ take 4 (drop 12 h) @ ''-''
           @ take 4 (drop 16 h) @ ''-'' @ drop 20 h)"

lemma length_uuid_hex [simp]: "length (uuid_hex u) = 32"
  by (simp add: uuid_hex_def)

lemma hex_digit_inject: "m < 16 \<Longrightarrow> n < 16 \<Longrightarrow> hex_digit m = hex_digit n \<longleftrightarrow> m = n"
  by (metis hex_value_hex_digit option.inject)

lemma uuid_hex_inject: "uuid_hex u = uuid_hex v \<longleftrightarrow> u = v"
proof
  assume eq: "uuid_hex u = uuid_hex v"
  have small: "unat (w AND 15 :: uuid) < 16" for w
    using word_and_le1 [of w 15] by (simp add: word_le_nat_alt)
  have nibble: "drop_bit (4 * i) u AND 15 = drop_bit (4 * i) v AND 15" if "i < 32" for i
  proof -
    have "unat (drop_bit (4 * i) u AND 15) = unat (drop_bit (4 * i) v AND 15)"
      using eq that by (auto simp: uuid_hex_def hex_digit_inject small)
    then show ?thesis by (simp only: word_unat_eq_iff)
  qed
  show "u = v"
  proof (rule bit_word_eqI)
    fix n assume "n < LENGTH(128)"
    then have n: "n div 4 < 32" by simp
    have "bit (drop_bit (4 * (n div 4)) u AND 15) (n mod 4) = bit (drop_bit (4 * (n div 4)) v AND 15) (n mod 4)"
      using nibble [OF n] by simp
    moreover have "bit (15 :: uuid) (n mod 4)"
    proof -
      have "n mod 4 \<in> {0, 1, 2, 3}" by auto
      then show ?thesis by (auto simp: bit_numeral_rec)
    qed
    ultimately show "bit u n = bit v n"
      by (simp add: bit_and_iff bit_drop_bit_eq)
  qed
qed simp

text \<open>The key by which a \<open>str\<close> or \<open>.hex\<close> ordered sort compares UUIDs is injective, so such a sort has
  one result for any order of its input.\<close>

lemma inj_uuid_hex: "inj uuid_hex"
  by (rule injI) (simp add: uuid_hex_inject)

end
