(* ===== verification/Canonical.thy ===== *)
theory Canonical
  imports Digest "HOL-Library.AList" "HOL-Library.Multiset"
begin

text \<open>
  \<open>services/configuration/canonical.py\<close>: the canonical JSON bytes that every digest of the program is
  computed over. A JSON value is normalised (NFC text, objects ordered by key) and printed with
  \<open>json.dumps(ensure_ascii=False, separators=(",", ":"), sort_keys=True)\<close>.

  Unicode normalisation (\<open>unicodedata.normalize("NFC", \<cdot>)\<close>) is a parameter \<open>nfc\<close>. Floats do not occur
  in the digests modelled here. Main results: permuting the fields of an object does not change the
  canonical bytes, and the length of an object's canonical bytes is the sum over its fields.
\<close>

datatype json =
    JNull
  | JBool bool
  | JInt int
  | JStr string
  | JArr "json list"
  | JObj "(string \<times> json) list"

fun json_opt :: "('a \<Rightarrow> json) \<Rightarrow> 'a option \<Rightarrow> json" where
  "json_opt f None = JNull"
| "json_opt f (Some x) = f x"

section \<open>Normalisation\<close>

text \<open>A dict comprehension: a later equal key overwrites the value of the earlier one.\<close>

definition dict_of :: "('k \<times> 'v) list \<Rightarrow> ('k \<times> 'v) list" where
  "dict_of kvs = foldl (\<lambda>d (k, v). AList.update k v d) [] kvs"

fun normalize :: "(string \<Rightarrow> string) \<Rightarrow> json \<Rightarrow> json" where
  "normalize nfc (JStr s) = JStr (nfc s)"
| "normalize nfc (JObj kvs) =
     JObj (dict_of (map snd (sort_key fst (map (\<lambda>(k, v). (k, nfc k, normalize nfc v)) kvs))))"
| "normalize nfc (JArr vs) = JArr (map (normalize nfc) vs)"
| "normalize nfc v = v"

section \<open>Printing\<close>

definition json_escape_char :: "char \<Rightarrow> string" where
  "json_escape_char c =
     (let n = of_char c :: nat in
      if n = 34 then [CHR 0x5C, CHR 0x22]
      else if n = 92 then [CHR 0x5C, CHR 0x5C]
      else if n = 10 then [CHR 0x5C, CHR ''n'']
      else if n = 13 then [CHR 0x5C, CHR ''r'']
      else if n = 9 then [CHR 0x5C, CHR ''t'']
      else if n = 12 then [CHR 0x5C, CHR ''f'']
      else if n = 8 then [CHR 0x5C, CHR ''b'']
      else if n < 32 then CHR 0x5C # ''u00'' @ [hex_digit (n div 16), hex_digit (n mod 16)]
      else [c])"

definition json_quote :: "string \<Rightarrow> string" where
  "json_quote s = CHR 0x22 # concat (map json_escape_char s) @ [CHR 0x22]"

fun join_with :: "string \<Rightarrow> string list \<Rightarrow> string" where
  "join_with sep [] = []"
| "join_with sep [x] = x"
| "join_with sep (x # y # ys) = x @ sep @ join_with sep (y # ys)"

fun dumps :: "json \<Rightarrow> string" where
  "dumps JNull = ''null''"
| "dumps (JBool b) = (if b then ''true'' else ''false'')"
| "dumps (JInt i) = show_int i"
| "dumps (JStr s) = json_quote s"
| "dumps (JArr vs) = CHR ''['' # join_with '','' (map dumps vs) @ '']''"
| "dumps (JObj kvs) =
     CHR ''{'' # join_with '',''
       (map snd (sort_key fst (map (\<lambda>(k, v). (k, json_quote k @ '':'' @ dumps v)) kvs))) @ ''}''"

definition canonical_bytes :: "(string \<Rightarrow> string) \<Rightarrow> json \<Rightarrow> string" where
  "canonical_bytes nfc v = dumps (normalize nfc v)"

definition canonical_sha256 :: "(string \<Rightarrow> string) \<Rightarrow> json \<Rightarrow> string" where
  "canonical_sha256 nfc v = sha256_hex (canonical_bytes nfc v)"

lemma length_canonical_sha256 [simp]: "length (canonical_sha256 nfc v) = 64"
  by (simp add: canonical_sha256_def)

lemma fromhex_canonical_sha256 [simp]:
  "fromhex (canonical_sha256 nfc v) = Some (sha256 (canonical_bytes nfc v))"
  by (simp add: canonical_sha256_def)

section \<open>Canonical bytes do not depend on the order of fields\<close>

lemma filter_eq_single: "distinct xs \<Longrightarrow> k \<in> set xs \<Longrightarrow> filter (\<lambda>x. x = k) xs = [k]"
  by (induction xs) (auto simp: filter_empty_conv)

lemma sort_key_perm_unique:
  assumes "mset xs = mset ys" and "distinct (map f xs)"
  shows "sort_key f xs = sort_key f ys"
proof (rule properties_for_sort_key)
  show "mset (sort_key f ys) = mset xs" by (simp add: assms(1))
  show "sorted (map f (sort_key f ys))" by simp
  have inj: "inj_on f (set xs)" and dx: "distinct xs" using assms(2) by (simp_all add: distinct_map)
  have dy: "distinct ys" using assms(1) dx by (metis mset_eq_imp_distinct_iff)
  have sety: "set ys = set xs" using assms(1) by (metis set_mset_mset)
  fix k assume "k \<in> set (sort_key f ys)"
  then have k: "k \<in> set xs" by (simp add: sety)
  have single: "filter (\<lambda>x. f k = f x) zs = [k]" if "distinct zs" "set zs = set xs" for zs
  proof -
    have "filter (\<lambda>x. f k = f x) zs = filter (\<lambda>x. x = k) zs"
      using inj that k by (intro filter_cong) (auto dest: inj_onD)
    also have "\<dots> = [k]"
      using that k by (intro filter_eq_single) simp_all
    finally show ?thesis .
  qed
  show "filter (\<lambda>x. f k = f x) (sort_key f ys) = filter (\<lambda>x. f k = f x) xs"
    using single [of "sort_key f ys"] single [of xs] dx dy sety by simp
qed

lemma canonical_bytes_field_order:
  assumes "mset kvs = mset kvs'" and "distinct (map fst kvs)"
  shows "canonical_bytes nfc (JObj kvs) = canonical_bytes nfc (JObj kvs')"
proof -
  let ?g = "\<lambda>(k, v). (k, nfc k, normalize nfc v)"
  have "mset (map ?g kvs) = mset (map ?g kvs')" using assms(1) by simp
  moreover have "distinct (map fst (map ?g kvs))"
    using assms(2) by (simp add: comp_def case_prod_unfold)
  ultimately have "sort_key fst (map ?g kvs) = sort_key fst (map ?g kvs')"
    by (rule sort_key_perm_unique)
  then show ?thesis by (simp add: canonical_bytes_def)
qed

section \<open>The length of canonical bytes\<close>

lemma dict_of_snoc: "dict_of (kvs @ [(k, v)]) = AList.update k v (dict_of kvs)"
  by (simp add: dict_of_def)

lemma alist_update_new: "k \<notin> fst ` set d \<Longrightarrow> AList.update k v d = d @ [(k, v)]"
  by (induction d) auto

lemma dict_of_distinct: "distinct (map fst kvs) \<Longrightarrow> dict_of kvs = kvs"
proof (induction kvs rule: rev_induct)
  case Nil
  then show ?case by (simp add: dict_of_def)
next
  case (snoc kv kvs)
  then show ?case by (cases kv) (auto simp: dict_of_snoc alist_update_new)
qed

lemma length_join_comma: "xs \<noteq> [] \<Longrightarrow> length (join_with '','' xs) + 1 = sum_list (map length xs) + length xs"
  by (induction "'',''" xs rule: join_with.induct) auto

lemma sort_key_Nil_iff [simp]: "sort_key f xs = [] \<longleftrightarrow> xs = []"
  by (metis length_0_conv length_sort)

lemma distinct_map_sort_key [simp]: "distinct (map g (sort_key f xs)) \<longleftrightarrow> distinct (map g xs)"
  by (simp add: distinct_map)

lemma sum_list_sort_key: "sum_list (map f (sort_key g xs)) = (sum_list (map f xs) :: nat)"
  by (metis mset_map mset_sort sum_mset_sum_list)

lemma length_dumps_obj:
  assumes "kvs \<noteq> []"
  shows "length (dumps (JObj kvs))
    = (\<Sum>(k, v) \<leftarrow> kvs. length (json_quote k) + 1 + length (dumps v)) + length kvs + 1"
proof -
  let ?line = "\<lambda>(k, v). (k, json_quote k @ '':'' @ dumps v)"
  let ?xs = "map snd (sort_key fst (map ?line kvs))"
  have "length ?xs = length kvs" by simp
  then have "length (join_with '','' ?xs) + 1 = sum_list (map length ?xs) + length kvs"
    using assms length_join_comma [of ?xs] by auto
  moreover have "sum_list (map length ?xs) = (\<Sum>(k, v) \<leftarrow> kvs. length (json_quote k) + 1 + length (dumps v))"
    using sum_list_sort_key [of "\<lambda>x. length (snd x)" fst "map ?line kvs"]
    by (simp add: comp_def case_prod_unfold)
  ultimately show ?thesis by simp
qed

lemma length_canonical_obj:
  assumes "kvs \<noteq> []" and "distinct (map (\<lambda>kv. nfc (fst kv)) kvs)"
  shows "length (canonical_bytes nfc (JObj kvs))
    = (\<Sum>(k, v) \<leftarrow> kvs. length (json_quote (nfc k)) + 1 + length (canonical_bytes nfc v)) + length kvs + 1"
proof -
  let ?g = "\<lambda>(k, v). (k, nfc k, normalize nfc v)"
  let ?ys = "map snd (sort_key fst (map ?g kvs))"
  have "distinct (map (\<lambda>x. fst (snd x)) (map ?g kvs))"
    using assms(2) by (simp add: comp_def case_prod_unfold)
  then have "distinct (map (\<lambda>x. fst (snd x)) (sort_key fst (map ?g kvs)))" by (simp only: distinct_map_sort_key)
  then have "distinct (map fst ?ys)" by (simp add: comp_def)
  then have norm: "normalize nfc (JObj kvs) = JObj ?ys" by (simp add: dict_of_distinct)
  have ne: "?ys \<noteq> []" using assms(1) by simp
  have "(\<Sum>(k, v) \<leftarrow> ?ys. length (json_quote k) + 1 + length (dumps v))
      = (\<Sum>(k, v) \<leftarrow> kvs. length (json_quote (nfc k)) + 1 + length (canonical_bytes nfc v))"
    using sum_list_sort_key [of "\<lambda>x. length (json_quote (fst (snd x))) + 1 + length (dumps (snd (snd x)))"
        fst "map ?g kvs"]
    by (simp add: comp_def case_prod_unfold canonical_bytes_def)
  then show ?thesis
    using length_dumps_obj [OF ne] by (simp only: canonical_bytes_def norm) simp
qed

end
