(* ===== verification/Domain_Enums.thy ===== *)
theory Domain_Enums
  imports Prelude
begin

text \<open>
  \<open>domain/enums.py\<close>: the closed vocabularies of the program, with the constructors of the source
  prefixed by the enumeration they belong to, and the \<open>StrEnum\<close> values that occur in digests.
\<close>

datatype authorization_status =
  Authorization_APPROVED | Authorization_DENIED | Authorization_REVOKED | Authorization_EXPIRED

datatype source_platform =
  Platform_REDDIT | Platform_DCINSIDE | Platform_TOSS_SECURITIES | Platform_NAVER_FINANCE
  | Platform_MANIFOLD

datatype country = Country_KR | Country_US

datatype command_kind = Kind_SCHEDULED | Kind_MANUAL | Kind_RECOVERY

datatype command_status =
  Command_QUEUED | Command_DISPATCH_RESERVED | Command_DISPATCHED | Command_RUNNING
  | Command_SUCCEEDED | Command_PARTIAL | Command_SKIPPED | Command_FAILED_RETRYABLE
  | Command_FAILED_TERMINAL | Command_STALE_ABANDONED

datatype run_status =
  Run_CREATED | Run_RUNNING | Run_SUCCEEDED | Run_FAILED_RETRYABLE | Run_FAILED_TERMINAL
  | Run_SKIPPED_POLICY | Run_SKIPPED_QUOTA | Run_STALE_ABANDONED

datatype terminal_reason =
  SOURCE_EXHAUSTED | REVIEWED_PAGE_CAP | REVIEWED_POST_CAP | REVIEWED_BYTE_CAP

datatype page_item_disposition =
  Item_ACCEPTED | Item_DUPLICATE | Item_REJECTED_OVERSIZE

datatype queue_status =
  Queue_PENDING | Queue_LEASED | Queue_SUCCEEDED | Queue_BLOCKED_CAPABILITY
  | Queue_FAILED_RETRYABLE | Queue_FAILED_TERMINAL

datatype analysis_state =
  Analysis_VALID | Analysis_PENDING | Analysis_BLOCKED_CAPABILITY | Analysis_FAILED_RETRYABLE
  | Analysis_FAILED_TERMINAL | Analysis_INVALID_OUTPUT

datatype sentiment = Sentiment_POSITIVE | Sentiment_NEUTRAL | Sentiment_NEGATIVE

datatype report_role = Role_PRIMARY | Role_COMPARISON

datatype manifest_item_kind = Manifest_RECORD | Manifest_SOURCE_COVERAGE

datatype report_status = Report_COMPLETE | Report_PARTIAL

datatype tombstone_entity_kind =
  Entity_POST_VERSION | Entity_ANALYSIS | Entity_MATCH | Entity_ENGAGEMENT | Entity_SOURCE_MANIFEST

datatype tombstone_deletion_reason = RAW_RETENTION_EXPIRED | SOURCE_CLEANUP

datatype verification_status =
  Verification_PASSED | Verification_FAILED | Verification_MISSING

datatype job_kind = Job_DAILY_REPORT | Job_RETENTION | Job_RECONCILIATION

datatype job_status =
  Job_QUEUED | Job_RUNNING | Job_SUCCEEDED | Job_FAILED_RETRYABLE | Job_FAILED_TERMINAL

datatype budget_decision_status = Budget_ALLOW | Budget_SOFT_LIMIT | Budget_HARD_STOP

fun terminal_reason_value :: "terminal_reason \<Rightarrow> string" where
  "terminal_reason_value SOURCE_EXHAUSTED = ''source_exhausted''"
| "terminal_reason_value REVIEWED_PAGE_CAP = ''reviewed_page_cap''"
| "terminal_reason_value REVIEWED_POST_CAP = ''reviewed_post_cap''"
| "terminal_reason_value REVIEWED_BYTE_CAP = ''reviewed_byte_cap''"

fun disposition_value :: "page_item_disposition \<Rightarrow> string" where
  "disposition_value Item_ACCEPTED = ''accepted''"
| "disposition_value Item_DUPLICATE = ''duplicate''"
| "disposition_value Item_REJECTED_OVERSIZE = ''rejected_oversize''"

fun command_status_value :: "command_status \<Rightarrow> string" where
  "command_status_value Command_QUEUED = ''queued''"
| "command_status_value Command_DISPATCH_RESERVED = ''dispatch_reserved''"
| "command_status_value Command_DISPATCHED = ''dispatched''"
| "command_status_value Command_RUNNING = ''running''"
| "command_status_value Command_SUCCEEDED = ''succeeded''"
| "command_status_value Command_PARTIAL = ''partial''"
| "command_status_value Command_SKIPPED = ''skipped''"
| "command_status_value Command_FAILED_RETRYABLE = ''failed_retryable''"
| "command_status_value Command_FAILED_TERMINAL = ''failed_terminal''"
| "command_status_value Command_STALE_ABANDONED = ''stale_abandoned''"

fun run_status_value :: "run_status \<Rightarrow> string" where
  "run_status_value Run_CREATED = ''created''"
| "run_status_value Run_RUNNING = ''running''"
| "run_status_value Run_SUCCEEDED = ''succeeded''"
| "run_status_value Run_FAILED_RETRYABLE = ''failed_retryable''"
| "run_status_value Run_FAILED_TERMINAL = ''failed_terminal''"
| "run_status_value Run_SKIPPED_POLICY = ''skipped_policy''"
| "run_status_value Run_SKIPPED_QUOTA = ''skipped_quota''"
| "run_status_value Run_STALE_ABANDONED = ''stale_abandoned''"

end
