(* ===== verification/Collection_Base.thy ===== *)
theory Collection_Base
  imports Canonical Domain_Enums
begin

text \<open>
  \<open>collection/base.py\<close> and \<open>collection/authorization.py\<close>: the typed collection error, the clock and
  token primitives, and the fail-closed authorization gate.

  A function that raises is a function into \<open>exc + 'a\<close>. Timestamps read from the database are aware
  (their columns are \<open>DateTime(timezone=True)\<close>) and are modelled by their instant; the clock values that
  a function passes through \<open>require_utc\<close> are full \<^typ>\<open>datetime\<close> values.
\<close>

section \<open>Errors\<close>

datatype collection_error_code =
    INVALID_CONTRACT | SOURCE_AUTHORIZATION_INACTIVE | INVALID_TRANSITION | COMMAND_NOT_AVAILABLE
  | RETRIES_EXHAUSTED | RESERVATION_ACTIVE | LEASE_OR_ATTEMPT_MISMATCH | CHECKPOINT_CONFLICT
  | ORDINAL_GAP | ORDINAL_ALREADY_COMMITTED | RUN_STREAM_SEALED | IDEMPOTENCY_KEY_REUSED
  | INVALID_TERMINAL_REASON | TERMINAL_PAGE_MISSING | COMPLETION_MISMATCH
  | COMPLETION_IDEMPOTENCY_MISMATCH | RUN_SET_MISMATCH

record collection_error =
  err_code :: collection_error_code
  err_status_code :: int
  err_current_checkpoint_revision :: "int option"
  err_current_cursor :: "string option"
  err_expected_page_ordinal :: "int option"
  err_existing_commit_id :: "uuid option"

text \<open>Besides \<open>CollectionError\<close>, malformed hexadecimal or JSON text raises
  \<open>ValueError\<close> and the comparison of a string with \<open>None\<close> raises \<open>TypeError\<close>.\<close>

datatype exc = CollectionError collection_error | ValueError | TypeError

definition collection_error_of :: "collection_error_code \<Rightarrow> int \<Rightarrow> collection_error" where
  "collection_error_of code status =
     \<lparr>err_code = code, err_status_code = status, err_current_checkpoint_revision = None,
      err_current_cursor = None, err_expected_page_ordinal = None, err_existing_commit_id = None\<rparr>"

definition raise_code :: "collection_error_code \<Rightarrow> int \<Rightarrow> exc + 'a" where
  "raise_code code status = Inl (CollectionError (collection_error_of code status))"

lemma raise_code_neq_Inr [simp]: "raise_code c s \<noteq> Inr x" "Inr x \<noteq> raise_code c s"
  by (simp_all add: raise_code_def)

lemma raise_code_inject [simp]: "(raise_code c s :: exc + 'a) = raise_code c' s' \<longleftrightarrow> c = c' \<and> s = s'"
  by (simp add: raise_code_def collection_error_of_def)

lemma raise_code_propagates [simp]: "case_sum Inl g (raise_code c s) = raise_code c s"
  by (simp add: raise_code_def)

text \<open>The code of the error that an operation raises, if it raises a \<open>CollectionError\<close>.\<close>

fun raised :: "exc + 'a \<Rightarrow> collection_error_code option" where
  "raised (Inl (CollectionError e)) = Some (err_code e)"
| "raised _ = None"

lemma raised_raise_code [simp]: "raised (raise_code c s) = Some c"
  by (simp add: raise_code_def collection_error_of_def)

definition MAX_POST_BYTES :: int where "MAX_POST_BYTES = 256 * 1024"
definition MAX_COMMAND_ATTEMPTS :: int where "MAX_COMMAND_ATTEMPTS = 3"
definition RESERVATION_STALE_SECONDS :: int where "RESERVATION_STALE_SECONDS = 3 * 60"
definition EXECUTION_STALE_SECONDS :: int where "EXECUTION_STALE_SECONDS = 6 * 60"

section \<open>Clocks\<close>

fun require_utc :: "datetime \<Rightarrow> exc + instant" where
  "require_utc (Naive t) = raise_code INVALID_CONTRACT 422"
| "require_utc (Aware t off) = Inr t"

lemma require_utc_Inr: "require_utc d = Inr t \<longleftrightarrow> (\<exists>off. d = Aware t off)"
  by (cases d) auto

lemma require_utc_instant: "require_utc d = Inr t \<Longrightarrow> instant_of d = t"
  by (cases d) auto

text \<open>\<open>strftime("%Y-%m-%dT%H:%M:%S.%fZ")\<close> of a UTC instant.\<close>

definition utc_text :: "instant \<Rightarrow> string" where
  "utc_text t =
     (case civil_from_days (t div usec_per_day) of (y, m, d) \<Rightarrow>
        pad_int 4 y @ ''-'' @ pad_int 2 m @ ''-'' @ pad_int 2 d @ ''T'' @ pad_int 2 (utc_hour t)
          @ '':'' @ pad_int 2 (utc_minute t) @ '':'' @ pad_int 2 (utc_second t) @ ''.''
          @ pad_int 6 (utc_microsecond t) @ ''Z'')"

definition format_utc :: "datetime \<Rightarrow> exc + string" where
  "format_utc d = (case require_utc d of Inl e \<Rightarrow> Inl e | Inr t \<Rightarrow> Inr (utc_text t))"

section \<open>Tokens and canonical hashes\<close>

definition hash_token :: "string \<Rightarrow> string" where
  "hash_token value = sha256 value"

definition token_matches :: "string \<Rightarrow> string option \<Rightarrow> bool" where
  "token_matches value expected_hash \<longleftrightarrow>
     (case expected_hash of None \<Rightarrow> False | Some h \<Rightarrow> hash_token value = h)"

lemma token_matches_None [simp]: "\<not> token_matches v None"
  by (simp add: token_matches_def)

lemma token_matches_Some [simp]: "token_matches v (Some h) \<longleftrightarrow> hash_token v = h"
  by (simp add: token_matches_def)

definition canonical_json_bytes :: "(string \<Rightarrow> string) \<Rightarrow> json \<Rightarrow> string" where
  "canonical_json_bytes nfc value = canonical_bytes nfc value"

definition canonical_json_hash :: "(string \<Rightarrow> string) \<Rightarrow> json \<Rightarrow> string" where
  "canonical_json_hash nfc value = sha256_hex (canonical_json_bytes nfc value)"

lemma length_canonical_json_hash [simp]: "length (canonical_json_hash nfc v) = 64"
  by (simp add: canonical_json_hash_def)

lemma fromhex_canonical_json_hash [simp]:
  "fromhex (canonical_json_hash nfc v) = Some (sha256 (canonical_json_bytes nfc v))"
  by (simp add: canonical_json_hash_def)

section \<open>Source authorization\<close>

record authorization_snapshot =
  auth_decision_id :: uuid
  auth_source_id :: uuid
  auth_scope_version :: string
  auth_enabled :: bool
  auth_status :: authorization_status
  auth_effective_at :: instant
  auth_expires_at :: "instant option"
  auth_revoked_at :: "instant option"

definition require_active_authorization ::
    "authorization_snapshot \<Rightarrow> uuid \<Rightarrow> string \<Rightarrow> datetime \<Rightarrow> exc + uuid" where
  "require_active_authorization snapshot source_id scope_version db_now =
     (case require_utc db_now of Inl e \<Rightarrow> Inl e
      | Inr now \<Rightarrow>
        (let approved = (case auth_status snapshot of
                 Authorization_APPROVED \<Rightarrow> True
               | Authorization_DENIED \<Rightarrow> False
               | Authorization_REVOKED \<Rightarrow> False
               | Authorization_EXPIRED \<Rightarrow> False);
             scope_matches = (auth_source_id snapshot = source_id
                              \<and> auth_scope_version snapshot = scope_version);
             time_valid = (auth_effective_at snapshot \<le> now
                           \<and> (case auth_expires_at snapshot of None \<Rightarrow> False | Some x \<Rightarrow> x > now)
                           \<and> auth_revoked_at snapshot = None)
         in if \<not> (auth_enabled snapshot \<and> approved \<and> scope_matches \<and> time_valid)
            then raise_code SOURCE_AUTHORIZATION_INACTIVE 403
            else Inr (auth_decision_id snapshot)))"

lemma require_active_authorization_Inr:
  "require_active_authorization snapshot source_id scope_version db_now = Inr d \<longleftrightarrow>
     (\<exists>now off x. db_now = Aware now off
        \<and> d = auth_decision_id snapshot
        \<and> auth_enabled snapshot
        \<and> auth_status snapshot = Authorization_APPROVED
        \<and> auth_source_id snapshot = source_id \<and> auth_scope_version snapshot = scope_version
        \<and> auth_effective_at snapshot \<le> now \<and> auth_expires_at snapshot = Some x \<and> now < x
        \<and> auth_revoked_at snapshot = None)"
  by (cases db_now)
     (auto simp: require_active_authorization_def Let_def
           split: authorization_status.splits option.splits if_splits)

text \<open>The lease token of the examples.\<close>

definition example_lease :: string where
  "example_lease = replicate 32 CHR ''a''"

end
