(* ===== verification/Dispatch.thy ===== *)
theory Dispatch
  imports Collection_Base
begin

text \<open>
  \<open>collection/commands.py\<close>, \<open>collection/dispatch.py\<close> and the command transition of
  \<open>collection/completion_plan_store.py\<close>: the life cycle of a collection command, from the queue through
  reservation, dispatch, claim and heartbeat to completion or stale release.

  \<open>cmd_step\<close> is the step relation of the operations; \<open>cmd_wf\<close> its invariant (lease material is present
  exactly while an attempt is in flight, one to three attempts). The interpretations \<open>cmd\<close> and
  \<open>cmd_attempts\<close> discharge the interfaces of \<open>Prelude\<close> for it.
\<close>

section \<open>State\<close>

record command_state =
  cmd_id :: uuid
  cmd_scope_version :: string
  cmd_source_ids :: "uuid list"
  cmd_kind :: command_kind
  cmd_status :: command_status
  cmd_attempt :: int
  cmd_available_at :: instant
  cmd_reservation_started_at :: "instant option"
  cmd_reservation_nonce_hash :: "string option"
  cmd_dispatched_at :: "instant option"
  cmd_claimed_at :: "instant option"
  cmd_heartbeat_at :: "instant option"
  cmd_completed_at :: "instant option"
  cmd_lease_hash :: "string option"
  cmd_github_run_id :: "string option"
  cmd_github_run_attempt :: "int option"
  cmd_outcome_code :: "string option"
  cmd_error_fingerprint :: "string option"

record dispatch_reservation =
  res_reservation_nonce :: string
  res_lease_token :: string

record dispatch_confirmation =
  conf_attempt :: int
  conf_reservation_nonce :: string
  conf_github_run_id :: string
  conf_github_run_attempt :: int

record claim_credentials =
  cred_attempt :: int
  cred_lease_token :: string
  cred_reservation_nonce :: string

record stale_check =
  chk_db_now :: datetime
  chk_completion_ready :: bool
  chk_retry_jitter_key :: string

definition collection_source_set_hash :: "(string \<Rightarrow> string) \<Rightarrow> uuid list \<Rightarrow> string" where
  "collection_source_set_hash nfc source_ids =
     canonical_json_hash nfc (JArr (map (\<lambda>s. JStr (uuid_hex s)) (sort_key uuid_hex source_ids)))"

section \<open>Completion aggregation\<close>

datatype bucket = Bucket_success | Bucket_skip | Bucket_retryable | Bucket_terminal

fun terminal_bucket :: "run_status \<Rightarrow> exc + bucket" where
  "terminal_bucket Run_SUCCEEDED = Inr Bucket_success"
| "terminal_bucket Run_SKIPPED_POLICY = Inr Bucket_skip"
| "terminal_bucket Run_SKIPPED_QUOTA = Inr Bucket_skip"
| "terminal_bucket Run_FAILED_RETRYABLE = Inr Bucket_retryable"
| "terminal_bucket Run_FAILED_TERMINAL = Inr Bucket_terminal"
| "terminal_bucket Run_CREATED = raise_code INVALID_TRANSITION 409"
| "terminal_bucket Run_RUNNING = raise_code INVALID_TRANSITION 409"
| "terminal_bucket Run_STALE_ABANDONED = raise_code INVALID_TRANSITION 409"

definition aggregate_command_status :: "run_status list \<Rightarrow> exc + command_status" where
  "aggregate_command_status statuses =
     (if statuses = [] then raise_code INVALID_CONTRACT 422
      else case seq_result terminal_bucket statuses of Inl e \<Rightarrow> Inl e
      | Inr buckets \<Rightarrow>
        (let n = int (length statuses); count = (\<lambda>b. count_where (\<lambda>x. x = b) buckets)
         in if count Bucket_success = n then Inr Command_SUCCEEDED
            else if count Bucket_success > 0 then Inr Command_PARTIAL
            else if count Bucket_skip = n then Inr Command_SKIPPED
            else if count Bucket_retryable > 0 then Inr Command_FAILED_RETRYABLE
            else Inr Command_FAILED_TERMINAL))"

section \<open>Dispatch operations\<close>

definition retry_delay_seconds :: "string \<Rightarrow> uuid \<Rightarrow> int \<Rightarrow> exc + int" where
  "retry_delay_seconds key command_id next_attempt =
     (let message = uuid_str command_id @ '':'' @ show_int next_attempt;
          value = from_bytes_big (take 8 (hmac_sha256 key message))
      in if next_attempt = 2 then Inr (30 + value mod 16)
         else if next_attempt = 3 then Inr (120 + value mod 31)
         else raise_code INVALID_CONTRACT 422)"

definition reserve_dispatch ::
    "command_state \<Rightarrow> dispatch_reservation \<Rightarrow> datetime \<Rightarrow> exc + command_state" where
  "reserve_dispatch command reservation db_now =
     (case require_utc db_now of Inl e \<Rightarrow> Inl e
      | Inr now \<Rightarrow>
        if cmd_available_at command > now then raise_code COMMAND_NOT_AVAILABLE 409
        else if cmd_reservation_nonce_hash command \<noteq> None \<or> cmd_lease_hash command \<noteq> None
        then raise_code RESERVATION_ACTIVE 409
        else if cmd_status command \<notin> {Command_QUEUED, Command_FAILED_RETRYABLE}
        then raise_code INVALID_TRANSITION 409
        else let next_attempt = cmd_attempt command
                   + (if cmd_status command = Command_FAILED_RETRYABLE then 1 else 0)
             in if next_attempt > MAX_COMMAND_ATTEMPTS then raise_code RETRIES_EXHAUSTED 409
                else Inr (command\<lparr>
                  cmd_status := Command_DISPATCH_RESERVED,
                  cmd_attempt := next_attempt,
                  cmd_reservation_started_at := Some now,
                  cmd_reservation_nonce_hash := Some (hash_token (res_reservation_nonce reservation)),
                  cmd_lease_hash := Some (hash_token (res_lease_token reservation))\<rparr>))"

definition confirm_dispatch ::
    "command_state \<Rightarrow> dispatch_confirmation \<Rightarrow> datetime \<Rightarrow> exc + command_state" where
  "confirm_dispatch command confirmation db_now =
     (if \<not> (cmd_status command = Command_DISPATCH_RESERVED
             \<and> cmd_attempt command = conf_attempt confirmation
             \<and> token_matches (conf_reservation_nonce confirmation)
                 (cmd_reservation_nonce_hash command))
      then raise_code LEASE_OR_ATTEMPT_MISMATCH 409
      else if conf_github_run_id confirmation = [] \<or> conf_github_run_attempt confirmation < 1
      then raise_code INVALID_CONTRACT 422
      else case require_utc db_now of Inl e \<Rightarrow> Inl e
      | Inr now \<Rightarrow> Inr (command\<lparr>
          cmd_status := Command_DISPATCHED,
          cmd_dispatched_at := Some now,
          cmd_github_run_id := Some (conf_github_run_id confirmation),
          cmd_github_run_attempt := Some (conf_github_run_attempt confirmation)\<rparr>))"

definition claim_command ::
    "command_state \<Rightarrow> claim_credentials \<Rightarrow> datetime \<Rightarrow> exc + command_state" where
  "claim_command command credentials db_now =
     (let proofs_match = (cmd_attempt command = cred_attempt credentials
            \<and> token_matches (cred_lease_token credentials) (cmd_lease_hash command)
            \<and> token_matches (cred_reservation_nonce credentials)
                (cmd_reservation_nonce_hash command))
      in if cmd_status command \<in> {Command_DISPATCH_RESERVED, Command_DISPATCHED}
         then if \<not> proofs_match then raise_code LEASE_OR_ATTEMPT_MISMATCH 409
              else case require_utc db_now of Inl e \<Rightarrow> Inl e
              | Inr now \<Rightarrow> Inr (command\<lparr>
                  cmd_status := Command_RUNNING,
                  cmd_claimed_at := Some now,
                  cmd_heartbeat_at := Some now\<rparr>)
         else if cmd_status command = Command_RUNNING
         then if proofs_match then Inr command else raise_code LEASE_OR_ATTEMPT_MISMATCH 409
         else raise_code INVALID_TRANSITION 409)"

definition heartbeat_command ::
    "command_state \<Rightarrow> claim_credentials \<Rightarrow> datetime \<Rightarrow> exc + command_state" where
  "heartbeat_command command credentials db_now =
     (if \<not> (cmd_status command = Command_RUNNING
             \<and> cmd_attempt command = cred_attempt credentials
             \<and> token_matches (cred_lease_token credentials) (cmd_lease_hash command))
      then raise_code LEASE_OR_ATTEMPT_MISMATCH 409
      else case require_utc db_now of Inl e \<Rightarrow> Inl e
      | Inr now \<Rightarrow> Inr (command\<lparr>cmd_heartbeat_at := Some now\<rparr>))"

text \<open>The reset shared by a stale release and a retryable completion.\<close>

definition clear_attempt :: "command_state \<Rightarrow> command_state" where
  "clear_attempt command = command\<lparr>
     cmd_reservation_started_at := None, cmd_reservation_nonce_hash := None,
     cmd_dispatched_at := None, cmd_claimed_at := None, cmd_heartbeat_at := None,
     cmd_lease_hash := None, cmd_github_run_id := None, cmd_github_run_attempt := None\<rparr>"

definition release_abandoned :: "command_state \<Rightarrow> instant \<Rightarrow> string \<Rightarrow> exc + command_state" where
  "release_abandoned command now retry_jitter_key =
     (let terminal = (cmd_attempt command \<ge> MAX_COMMAND_ATTEMPTS)
      in case (if terminal then Inr now
               else case retry_delay_seconds retry_jitter_key (cmd_id command) (cmd_attempt command + 1)
                    of Inl e \<Rightarrow> Inl e | Inr d \<Rightarrow> Inr (now + seconds d))
         of Inl e \<Rightarrow> Inl e
         | Inr available \<Rightarrow> Inr (clear_attempt (command\<lparr>
             cmd_status := (if terminal then Command_FAILED_TERMINAL else Command_FAILED_RETRYABLE),
             cmd_available_at := available\<rparr>)))"

definition reconcile_reservation :: "command_state \<Rightarrow> instant \<Rightarrow> string \<Rightarrow> exc + command_state" where
  "reconcile_reservation command now retry_jitter_key =
     (case cmd_reservation_started_at command of
        None \<Rightarrow> Inr command
      | Some anchor \<Rightarrow>
          if now - anchor \<le> seconds RESERVATION_STALE_SECONDS then Inr command
          else release_abandoned command now retry_jitter_key)"

definition mark_stale :: "command_state \<Rightarrow> stale_check \<Rightarrow> exc + command_state" where
  "mark_stale command check =
     (case require_utc (chk_db_now check) of Inl e \<Rightarrow> Inl e
      | Inr now \<Rightarrow>
        if cmd_status command = Command_DISPATCH_RESERVED
        then reconcile_reservation command now (chk_retry_jitter_key check)
        else if cmd_status command = Command_STALE_ABANDONED
        then release_abandoned command now (chk_retry_jitter_key check)
        else if cmd_status command = Command_RUNNING \<and> chk_completion_ready check
        then Inr command
        else let anchor = (if cmd_status command = Command_DISPATCHED then cmd_dispatched_at command
                           else if cmd_status command = Command_RUNNING
                           then (case cmd_heartbeat_at command of
                                   Some h \<Rightarrow> Some h | None \<Rightarrow> cmd_claimed_at command)
                           else None)
             in case anchor of
                  None \<Rightarrow> Inr command
                | Some a \<Rightarrow> if now - a \<le> seconds EXECUTION_STALE_SECONDS then Inr command
                            else Inr (command\<lparr>cmd_status := Command_STALE_ABANDONED\<rparr>))"

text \<open>\<open>completion_plan_store.py\<close>: the command part of persisting a completion plan.\<close>

definition with_retry_availability ::
    "command_state \<Rightarrow> command_status \<Rightarrow> instant \<Rightarrow> string \<Rightarrow> exc + command_state" where
  "with_retry_availability command plan_status completed_at retry_jitter_key =
     (case plan_status of
        Command_FAILED_RETRYABLE \<Rightarrow>
          (case (if cmd_attempt command < MAX_COMMAND_ATTEMPTS
                 then case retry_delay_seconds retry_jitter_key (cmd_id command) (cmd_attempt command + 1)
                      of Inl e \<Rightarrow> Inl e | Inr d \<Rightarrow> Inr (completed_at + seconds d)
                 else Inr (cmd_available_at command))
           of Inl e \<Rightarrow> Inl e
           | Inr available_at \<Rightarrow> Inr (clear_attempt (command\<lparr>cmd_available_at := available_at\<rparr>)))
      | Command_SUCCEEDED \<Rightarrow> Inr command
      | Command_PARTIAL \<Rightarrow> Inr command
      | Command_SKIPPED \<Rightarrow> Inr command
      | Command_FAILED_TERMINAL \<Rightarrow> Inr command
      | _ \<Rightarrow> raise_code INVALID_TRANSITION 409)"

definition persist_command_completion ::
    "command_state \<Rightarrow> command_status \<Rightarrow> instant \<Rightarrow> string \<Rightarrow> exc + command_state" where
  "persist_command_completion command plan_status completed_at retry_jitter_key =
     with_retry_availability
       (command\<lparr>cmd_status := plan_status, cmd_completed_at := Some completed_at,
                cmd_outcome_code := Some (command_status_value plan_status)\<rparr>)
       plan_status completed_at retry_jitter_key"

text \<open>\<open>reconciliation_store.py\<close>: the stale pass over a command without claimed runs, and the selection of
  the commands that the next workflow run will try to reserve.\<close>

definition reconcile_unclaimed :: "command_state \<Rightarrow> datetime \<Rightarrow> string \<Rightarrow> exc + command_state" where
  "reconcile_unclaimed command now retry_jitter_key =
     (let check = \<lparr>chk_db_now = now, chk_completion_ready = False, chk_retry_jitter_key = retry_jitter_key\<rparr>
      in case mark_stale command check of Inl e \<Rightarrow> Inl e
         | Inr state \<Rightarrow> if cmd_status state = Command_STALE_ABANDONED then mark_stale state check
                        else Inr state)"

definition is_due :: "string \<Rightarrow> instant \<Rightarrow> command_state \<Rightarrow> bool" where
  "is_due scope_version now command \<longleftrightarrow>
     cmd_scope_version command = scope_version
     \<and> cmd_status command \<in> {Command_QUEUED, Command_FAILED_RETRYABLE}
     \<and> cmd_available_at command \<le> now"

lemmas dispatch_defs [op_defs] =
  reserve_dispatch_def confirm_dispatch_def claim_command_def heartbeat_command_def
  mark_stale_def reconcile_reservation_def release_abandoned_def with_retry_availability_def
  persist_command_completion_def clear_attempt_def

section \<open>The step relation\<close>

inductive cmd_step :: "command_state \<Rightarrow> command_state \<Rightarrow> bool" where
  reserve: "reserve_dispatch c r now = Inr c' \<Longrightarrow> cmd_step c c'"
| confirm: "confirm_dispatch c f now = Inr c' \<Longrightarrow> cmd_step c c'"
| claim: "claim_command c k now = Inr c' \<Longrightarrow> cmd_step c c'"
| beat: "heartbeat_command c k now = Inr c' \<Longrightarrow> cmd_step c c'"
| stale: "mark_stale c s = Inr c' \<Longrightarrow> cmd_step c c'"
| finish: "cmd_status c = Command_RUNNING \<Longrightarrow> persist_command_completion c st now key = Inr c' \<Longrightarrow>
     cmd_step c c'"

definition cmd_init :: "command_state \<Rightarrow> bool" where
  "cmd_init c \<longleftrightarrow> cmd_status c = Command_QUEUED \<and> cmd_attempt c = 1
     \<and> cmd_reservation_nonce_hash c = None \<and> cmd_lease_hash c = None"

definition in_flight :: "command_status \<Rightarrow> bool" where
  "in_flight st \<longleftrightarrow> st \<in> {Command_DISPATCH_RESERVED, Command_DISPATCHED, Command_RUNNING,
                        Command_STALE_ABANDONED}"

definition cmd_wf :: "command_state \<Rightarrow> bool" where
  "cmd_wf c \<longleftrightarrow>
     1 \<le> cmd_attempt c \<and> cmd_attempt c \<le> MAX_COMMAND_ATTEMPTS
     \<and> (in_flight (cmd_status c) \<longrightarrow>
          cmd_reservation_nonce_hash c \<noteq> None \<and> cmd_lease_hash c \<noteq> None
          \<and> cmd_reservation_started_at c \<noteq> None)
     \<and> (cmd_status c \<in> {Command_QUEUED, Command_FAILED_RETRYABLE} \<longrightarrow>
          cmd_reservation_nonce_hash c = None \<and> cmd_lease_hash c = None)
     \<and> (cmd_status c = Command_DISPATCHED \<longrightarrow> cmd_dispatched_at c \<noteq> None)
     \<and> (cmd_status c = Command_RUNNING \<longrightarrow> cmd_claimed_at c \<noteq> None \<and> cmd_heartbeat_at c \<noteq> None)
     \<and> (cmd_status c = Command_QUEUED \<longrightarrow> cmd_attempt c = 1)"

lemmas cmd_wf_defs [guard_simps] = cmd_wf_def in_flight_def cmd_init_def MAX_COMMAND_ATTEMPTS_def

section \<open>Retry delays\<close>

lemma retry_delay_bounds:
  assumes "retry_delay_seconds key cid n = Inr d"
  shows "(n = 2 \<and> 30 \<le> d \<and> d \<le> 45) \<or> (n = 3 \<and> 120 \<le> d \<and> d \<le> 150)"
proof -
  define v where "v = from_bytes_big (take 8 (hmac_sha256 key (uuid_str cid @ '':'' @ show_int n)))"
  have "0 \<le> v mod 16" "v mod 16 < 16" "0 \<le> v mod 31" "v mod 31 < 31" by simp_all
  moreover have "n = 2 \<and> d = 30 + v mod 16 \<or> n = 3 \<and> d = 120 + v mod 31"
    using assms by (simp add: retry_delay_seconds_def Let_def v_def split: if_splits)
  ultimately show ?thesis by linarith
qed

lemma retry_delay_total: "n = 2 \<or> n = 3 \<Longrightarrow> \<exists>d. retry_delay_seconds key cid n = Inr d"
  by (auto simp: retry_delay_seconds_def Let_def)

section \<open>What a successful operation did\<close>

lemma reserve_dispatchD:
  assumes "reserve_dispatch c r now = Inr c'"
  obtains t a where "require_utc now = Inr t" "cmd_available_at c \<le> t"
    "cmd_reservation_nonce_hash c = None" "cmd_lease_hash c = None"
    "cmd_status c = Command_QUEUED \<and> a = cmd_attempt c
     \<or> cmd_status c = Command_FAILED_RETRYABLE \<and> a = cmd_attempt c + 1"
    "a \<le> MAX_COMMAND_ATTEMPTS"
    "c' = c\<lparr>cmd_status := Command_DISPATCH_RESERVED, cmd_attempt := a,
            cmd_reservation_started_at := Some t,
            cmd_reservation_nonce_hash := Some (hash_token (res_reservation_nonce r)),
            cmd_lease_hash := Some (hash_token (res_lease_token r))\<rparr>"
  using assms by (cases "require_utc now") (auto simp: reserve_dispatch_def Let_def split: if_splits)

lemma confirm_dispatchD:
  assumes "confirm_dispatch c f now = Inr c'"
  obtains t where "require_utc now = Inr t" "cmd_status c = Command_DISPATCH_RESERVED"
    "cmd_attempt c = conf_attempt f"
    "token_matches (conf_reservation_nonce f) (cmd_reservation_nonce_hash c)"
    "c' = c\<lparr>cmd_status := Command_DISPATCHED, cmd_dispatched_at := Some t,
            cmd_github_run_id := Some (conf_github_run_id f),
            cmd_github_run_attempt := Some (conf_github_run_attempt f)\<rparr>"
  using assms by (cases "require_utc now") (auto simp: confirm_dispatch_def split: if_splits)

lemma claim_commandD:
  assumes "claim_command c k now = Inr c'"
  obtains t where "require_utc now = Inr t" "cmd_status c \<in> {Command_DISPATCH_RESERVED, Command_DISPATCHED}"
      "c' = c\<lparr>cmd_status := Command_RUNNING, cmd_claimed_at := Some t, cmd_heartbeat_at := Some t\<rparr>"
  | "cmd_status c = Command_RUNNING" "c' = c"
  using assms by (cases "require_utc now") (auto simp: claim_command_def Let_def split: if_splits)

lemma claim_command_proofs:
  "claim_command c k now = Inr c' \<Longrightarrow>
     cmd_attempt c = cred_attempt k \<and> token_matches (cred_lease_token k) (cmd_lease_hash c)
     \<and> token_matches (cred_reservation_nonce k) (cmd_reservation_nonce_hash c)"
  by (auto simp: claim_command_def Let_def split: if_splits)

lemma heartbeat_commandD:
  assumes "heartbeat_command c k now = Inr c'"
  obtains t where "require_utc now = Inr t" "cmd_status c = Command_RUNNING"
    "cmd_attempt c = cred_attempt k" "token_matches (cred_lease_token k) (cmd_lease_hash c)"
    "c' = c\<lparr>cmd_heartbeat_at := Some t\<rparr>"
  using assms by (cases "require_utc now") (auto simp: heartbeat_command_def split: if_splits)

lemma release_abandonedD:
  assumes "release_abandoned c now key = Inr c'"
  obtains (terminal) "MAX_COMMAND_ATTEMPTS \<le> cmd_attempt c"
      "c' = clear_attempt (c\<lparr>cmd_status := Command_FAILED_TERMINAL, cmd_available_at := now\<rparr>)"
  | (retry) d where "cmd_attempt c < MAX_COMMAND_ATTEMPTS"
      "retry_delay_seconds key (cmd_id c) (cmd_attempt c + 1) = Inr d"
      "c' = clear_attempt (c\<lparr>cmd_status := Command_FAILED_RETRYABLE,
                              cmd_available_at := now + seconds d\<rparr>)"
  using assms by (auto simp: release_abandoned_def Let_def not_le split: if_splits sum.splits)

lemma mark_staleD:
  assumes "mark_stale c s = Inr c'"
  obtains (same) "c' = c"
  | (abandon) "cmd_status c \<in> {Command_DISPATCHED, Command_RUNNING}"
      "c' = c\<lparr>cmd_status := Command_STALE_ABANDONED\<rparr>"
  | (release) t where "require_utc (chk_db_now s) = Inr t"
      "cmd_status c \<in> {Command_DISPATCH_RESERVED, Command_STALE_ABANDONED}"
      "release_abandoned c t (chk_retry_jitter_key s) = Inr c'"
proof (cases "require_utc (chk_db_now s)")
  case (Inr t)
  note [simp] = mark_stale_def reconcile_reservation_def Let_def Inr
  show ?thesis
  proof (cases "cmd_status c \<in> {Command_DISPATCH_RESERVED, Command_STALE_ABANDONED}")
    case True
    then have "c' = c \<or> release_abandoned c t (chk_retry_jitter_key s) = Inr c'"
      using assms by (elim insertE) (auto split: option.splits if_splits)
    then show ?thesis using release [OF Inr True] same by blast
  next
    case False
    then have "c' = c \<or> cmd_status c \<in> {Command_DISPATCHED, Command_RUNNING}
        \<and> c' = c\<lparr>cmd_status := Command_STALE_ABANDONED\<rparr>"
      using assms by (auto split: option.splits if_splits)
    then show ?thesis using same abandon by blast
  qed
qed (use assms in \<open>simp add: mark_stale_def\<close>)

lemma persist_completionD:
  assumes "persist_command_completion c st now key = Inr c'"
  obtains (finished) "st \<in> {Command_SUCCEEDED, Command_PARTIAL, Command_SKIPPED, Command_FAILED_TERMINAL}"
      "c' = c\<lparr>cmd_status := st, cmd_completed_at := Some now,
              cmd_outcome_code := Some (command_status_value st)\<rparr>"
  | (exhausted) "st = Command_FAILED_RETRYABLE" "MAX_COMMAND_ATTEMPTS \<le> cmd_attempt c"
      "c' = clear_attempt (c\<lparr>cmd_status := st, cmd_completed_at := Some now,
              cmd_outcome_code := Some (command_status_value st)\<rparr>)"
  | (retry) d where "st = Command_FAILED_RETRYABLE" "cmd_attempt c < MAX_COMMAND_ATTEMPTS"
      "retry_delay_seconds key (cmd_id c) (cmd_attempt c + 1) = Inr d"
      "c' = clear_attempt (c\<lparr>cmd_status := st, cmd_completed_at := Some now,
              cmd_outcome_code := Some (command_status_value st),
              cmd_available_at := now + seconds d\<rparr>)"
proof (cases "st = Command_FAILED_RETRYABLE")
  case True
  then show ?thesis
    using assms exhausted retry
    by (simp add: persist_command_completion_def with_retry_availability_def not_less
             split: if_splits sum.splits)
next
  case False
  then show ?thesis
    using assms finished
    by (cases st) (simp_all add: persist_command_completion_def with_retry_availability_def)
qed

section \<open>Every operation keeps the invariant\<close>

lemma reserve_wf: "cmd_wf c \<Longrightarrow> reserve_dispatch c r now = Inr c' \<Longrightarrow> cmd_wf c'"
  by (erule reserve_dispatchD) (auto simp: cmd_wf_defs)

lemma confirm_wf: "cmd_wf c \<Longrightarrow> confirm_dispatch c f now = Inr c' \<Longrightarrow> cmd_wf c'"
  by (erule confirm_dispatchD) (simp add: cmd_wf_defs)

lemma claim_wf: "cmd_wf c \<Longrightarrow> claim_command c k now = Inr c' \<Longrightarrow> cmd_wf c'"
  by (erule claim_commandD) (auto simp: cmd_wf_defs)

lemma heartbeat_wf: "cmd_wf c \<Longrightarrow> heartbeat_command c k now = Inr c' \<Longrightarrow> cmd_wf c'"
  by (erule heartbeat_commandD) (simp add: cmd_wf_defs)

lemma release_wf: "cmd_wf c \<Longrightarrow> release_abandoned c now key = Inr c' \<Longrightarrow> cmd_wf c'"
  by (erule release_abandonedD) (simp_all add: cmd_wf_defs clear_attempt_def)

lemma mark_stale_wf: "cmd_wf c \<Longrightarrow> mark_stale c s = Inr c' \<Longrightarrow> cmd_wf c'"
proof (erule mark_staleD)
  show "cmd_wf c \<Longrightarrow> cmd_status c \<in> {Command_DISPATCHED, Command_RUNNING} \<Longrightarrow>
        c' = c\<lparr>cmd_status := Command_STALE_ABANDONED\<rparr> \<Longrightarrow> cmd_wf c'"
    by (auto simp: cmd_wf_def in_flight_def)
qed (auto intro: release_wf)

lemma persist_completion_wf:
  "cmd_wf c \<Longrightarrow> persist_command_completion c st now key = Inr c' \<Longrightarrow> cmd_wf c'"
  by (erule persist_completionD) (auto simp: cmd_wf_defs clear_attempt_def)

interpretation cmd: transition_system cmd_init cmd_step cmd_wf
proof
  show "cmd_init c \<Longrightarrow> cmd_wf c" for c
    by (simp add: cmd_wf_defs)
  show "cmd_wf c \<Longrightarrow> cmd_step c c' \<Longrightarrow> cmd_wf c'" for c c'
    by (erule cmd_step.cases)
       (auto intro: reserve_wf confirm_wf claim_wf heartbeat_wf mark_stale_wf persist_completion_wf)
qed

section \<open>Bounded attempts\<close>

definition cmd_rank :: "command_state \<Rightarrow> int" where
  "cmd_rank c = (if cmd_status c = Command_QUEUED then 0 else cmd_attempt c)"

lemma cmd_step_rank:
  assumes "cmd_wf c" and "cmd_step c c'"
  shows "cmd_rank c \<le> cmd_rank c'"
  using assms(2)
proof cases
  case (reserve r now)
  from reserve assms(1) show ?thesis
    by (elim reserve_dispatchD) (auto simp: cmd_rank_def cmd_wf_def)
next
  case (confirm f now)
  then show ?thesis by (elim confirm_dispatchD) (simp add: cmd_rank_def)
next
  case (claim k now)
  then show ?thesis by (elim claim_commandD) (auto simp: cmd_rank_def)
next
  case (beat k now)
  then show ?thesis by (elim heartbeat_commandD) (simp add: cmd_rank_def)
next
  case (stale s)
  then show ?thesis
    by (elim mark_staleD) (auto simp: cmd_rank_def clear_attempt_def elim!: release_abandonedD)
next
  case (finish st now key)
  from finish(2) finish(1) show ?thesis
    by (elim persist_completionD) (auto simp: cmd_rank_def clear_attempt_def)
qed

interpretation cmd_attempts: bounded_progress cmd_init cmd_step cmd_wf cmd_rank 3
  by unfold_locales (auto simp: cmd_step_rank, auto simp: cmd_rank_def cmd_wf_defs)

text \<open>A run of the command in which \<open>n\<close> reservations succeed.\<close>

inductive cmd_run :: "nat \<Rightarrow> command_state \<Rightarrow> command_state \<Rightarrow> bool" where
  start: "cmd_run 0 c c"
| reserved: "cmd_run n c d \<Longrightarrow> reserve_dispatch d r now = Inr e \<Longrightarrow> cmd_run (Suc n) c e"
| other: "cmd_run n c d \<Longrightarrow> cmd_step d e \<Longrightarrow> cmd_run n c e"

lemma reserve_rank_Suc:
  "cmd_wf c \<Longrightarrow> reserve_dispatch c r now = Inr c' \<Longrightarrow> cmd_rank c + 1 \<le> cmd_rank c'"
  by (elim reserve_dispatchD) (auto simp: cmd_rank_def cmd_wf_def)

lemma cmd_run_rank: "cmd_run n c d \<Longrightarrow> cmd_wf c \<Longrightarrow> cmd_wf d \<and> int n + cmd_rank c \<le> cmd_rank d"
proof (induction rule: cmd_run.induct)
  case (reserved n c d r now e)
  then show ?case using reserve_rank_Suc [of d r now e] reserve_wf [of d r now e] by simp
next
  case (other n c d e)
  then show ?case using cmd_step_rank [of d e] cmd.step_inv [of d e] by simp
qed simp

section \<open>Properties\<close>

text \<open>(C7) In every state that the operations of a command can reach from a freshly queued one, the attempt
  number is between one and three, the reservation nonce and lease digests are stored exactly while an
  attempt is in flight, a queued or retryable command holds none of them, and a running command always
  has the claim and heartbeat times that staleness is measured from.\<close>

theorem command_lifecycle_invariant:
  assumes "cmd_init c" and "cmd_step\<^sup>*\<^sup>* c c'"
  shows "1 \<le> cmd_attempt c' \<and> cmd_attempt c' \<le> 3
    \<and> (in_flight (cmd_status c') \<longrightarrow> cmd_lease_hash c' \<noteq> None \<and> cmd_reservation_nonce_hash c' \<noteq> None)
    \<and> (cmd_status c' \<in> {Command_QUEUED, Command_FAILED_RETRYABLE} \<longrightarrow>
         cmd_lease_hash c' = None \<and> cmd_reservation_nonce_hash c' = None)
    \<and> (cmd_status c' = Command_RUNNING \<longrightarrow> cmd_claimed_at c' \<noteq> None \<and> cmd_heartbeat_at c' \<noteq> None)"
  using cmd.reachable_inv [OF assms] by (simp add: cmd_wf_def MAX_COMMAND_ATTEMPTS_def)

text \<open>(C8) However the operations of a command are interleaved, at most three reservations of it ever succeed.\<close>

theorem at_most_three_reservations:
  assumes "cmd_init c" and "cmd_run n c c'"
  shows "n \<le> 3"
proof -
  have wf: "cmd_wf c" using assms(1) by (rule cmd.init_inv)
  have "cmd_rank c' \<le> 3"
    using cmd_run_rank [OF assms(2) wf] by (simp add: cmd_attempts.rank_bound)
  moreover have "0 \<le> cmd_rank c" using wf by (simp add: cmd_rank_def cmd_wf_def)
  ultimately show ?thesis using cmd_run_rank [OF assms(2) wf] by simp
qed

text \<open>The truth table of \<open>aggregate_command_status\<close>, as a specification over the set of run statuses.\<close>

definition terminal_run :: "run_status \<Rightarrow> bool" where
  "terminal_run s \<longleftrightarrow> s \<in> {Run_SUCCEEDED, Run_SKIPPED_POLICY, Run_SKIPPED_QUOTA,
                         Run_FAILED_RETRYABLE, Run_FAILED_TERMINAL}"

definition aggregate_spec :: "run_status set \<Rightarrow> command_status" where
  "aggregate_spec S =
     (if S \<subseteq> {Run_SUCCEEDED} then Command_SUCCEEDED
      else if Run_SUCCEEDED \<in> S then Command_PARTIAL
      else if S \<subseteq> {Run_SKIPPED_POLICY, Run_SKIPPED_QUOTA} then Command_SKIPPED
      else if Run_FAILED_RETRYABLE \<in> S then Command_FAILED_RETRYABLE
      else Command_FAILED_TERMINAL)"

definition bucket_of :: "run_status \<Rightarrow> bucket" where
  "bucket_of s = (case terminal_bucket s of Inr b \<Rightarrow> b | Inl _ \<Rightarrow> Bucket_terminal)"

lemma terminal_bucket_eq: "terminal_run s \<Longrightarrow> terminal_bucket s = Inr (bucket_of s)"
  by (auto simp: terminal_run_def bucket_of_def)

lemma terminal_bucket_Inr: "terminal_bucket s = Inr b \<Longrightarrow> terminal_run s"
  by (cases s) (simp_all add: terminal_run_def)

lemma bucket_of_iff:
  "terminal_run s \<Longrightarrow> bucket_of s = Bucket_success \<longleftrightarrow> s = Run_SUCCEEDED"
  "terminal_run s \<Longrightarrow> bucket_of s = Bucket_skip \<longleftrightarrow> s \<in> {Run_SKIPPED_POLICY, Run_SKIPPED_QUOTA}"
  "terminal_run s \<Longrightarrow> bucket_of s = Bucket_retryable \<longleftrightarrow> s = Run_FAILED_RETRYABLE"
  by (auto simp: terminal_run_def bucket_of_def)

lemma seq_terminal_bucket:
  "(\<forall>s \<in> set ss. terminal_run s) \<Longrightarrow> seq_result terminal_bucket ss = Inr (map bucket_of ss)"
  by (induction ss) (auto simp: terminal_bucket_eq)

lemma count_map_all: "count_where p (map f xs) = int (length xs) \<longleftrightarrow> (\<forall>x \<in> set xs. p (f x))"
  using count_where_all [of p "map f xs"] by simp

lemma count_map_pos: "0 < count_where p (map f xs) \<longleftrightarrow> (\<exists>x \<in> set xs. p (f x))"
  by (auto simp: count_where_pos)

lemma aggregate_command_status_eq:
  "aggregate_command_status ss =
     (if ss = [] then raise_code INVALID_CONTRACT 422
      else if \<exists>s \<in> set ss. \<not> terminal_run s then raise_code INVALID_TRANSITION 409
      else Inr (aggregate_spec (set ss)))"
proof (cases "\<forall>s \<in> set ss. terminal_run s")
  case True
  let ?n = "\<lambda>b. count_where (\<lambda>x. x = b) (map bucket_of ss)"
  have c: "?n Bucket_success = int (length ss) \<longleftrightarrow> set ss \<subseteq> {Run_SUCCEEDED}"
    "0 < ?n Bucket_success \<longleftrightarrow> Run_SUCCEEDED \<in> set ss"
    "?n Bucket_skip = int (length ss) \<longleftrightarrow> set ss \<subseteq> {Run_SKIPPED_POLICY, Run_SKIPPED_QUOTA}"
    "0 < ?n Bucket_retryable \<longleftrightarrow> Run_FAILED_RETRYABLE \<in> set ss"
    using True by (auto simp: count_map_all count_map_pos bucket_of_iff)
  have nt: "\<not> (\<exists>s \<in> set ss. \<not> terminal_run s)" using True by blast
  show ?thesis
    unfolding aggregate_command_status_def seq_terminal_bucket [OF True] aggregate_spec_def
    by (simp add: c nt Let_def)
next
  case False
  then have "seq_result terminal_bucket ss = raise_code INVALID_TRANSITION 409"
  proof (induction ss)
    case (Cons a ss)
    then show ?case by (cases a) (auto simp: terminal_run_def raise_code_def)
  qed simp
  then show ?thesis using False by (auto simp: aggregate_command_status_def)
qed

lemma aggregate_command_status_Inr:
  "aggregate_command_status ss = Inr st \<longleftrightarrow>
     ss \<noteq> [] \<and> (\<forall>s \<in> set ss. terminal_run s) \<and> st = aggregate_spec (set ss)"
  by (auto simp: aggregate_command_status_eq)

text \<open>(C12) Completing a command reduces its terminal run statuses exactly by the documented truth table, and
  it raises precisely when there is no run or some run is not terminal.\<close>

theorem aggregate_command_status_spec:
  "aggregate_command_status ss =
     (if ss = [] then raise_code INVALID_CONTRACT 422
      else if \<exists>s \<in> set ss. \<not> terminal_run s then raise_code INVALID_TRANSITION 409
      else Inr (aggregate_spec (set ss)))"
  by (rule aggregate_command_status_eq)

text \<open>The stale pass leaves a running command alone up to and including six minutes without heartbeat.
  One microsecond later it takes the lease away: the command becomes retryable, available again 30 to 150
  seconds after the pass, or terminal if this was the third attempt.\<close>

theorem stale_running_command_released:
  assumes "cmd_wf c" and "cmd_status c = Command_RUNNING" and "cmd_heartbeat_at c = Some h"
  shows "reconcile_unclaimed c (Aware now off) key =
      (if now - h \<le> seconds 360 then Inr c
       else if cmd_attempt c = 3
       then Inr (clear_attempt (c\<lparr>cmd_status := Command_FAILED_TERMINAL, cmd_available_at := now\<rparr>))
       else case retry_delay_seconds key (cmd_id c) (cmd_attempt c + 1) of
              Inl e \<Rightarrow> Inl e
            | Inr d \<Rightarrow> Inr (clear_attempt (c\<lparr>cmd_status := Command_FAILED_RETRYABLE,
                                              cmd_available_at := now + seconds d\<rparr>)))
    \<and> (cmd_attempt c \<noteq> 3 \<longrightarrow>
         (\<exists>d. retry_delay_seconds key (cmd_id c) (cmd_attempt c + 1) = Inr d \<and> 30 \<le> d \<and> d \<le> 150))"
proof -
  have att: "cmd_attempt c = 1 \<or> cmd_attempt c = 2 \<or> cmd_attempt c = 3"
    using assms(1) by (auto simp: cmd_wf_def MAX_COMMAND_ATTEMPTS_def)
  have delay: "\<exists>d. retry_delay_seconds key (cmd_id c) (cmd_attempt c + 1) = Inr d \<and> 30 \<le> d \<and> d \<le> 150"
    if "cmd_attempt c \<noteq> 3"
    using att that retry_delay_total [of "cmd_attempt c + 1" key "cmd_id c"]
      retry_delay_bounds [of key "cmd_id c" "cmd_attempt c + 1"] by fastforce
  show ?thesis
  proof (cases "now - h \<le> seconds 360")
    case True
    then show ?thesis using assms delay
      by (simp add: reconcile_unclaimed_def mark_stale_def EXECUTION_STALE_SECONDS_def Let_def)
  next
    case False
    then show ?thesis using assms delay att
      by (auto simp: reconcile_unclaimed_def mark_stale_def EXECUTION_STALE_SECONDS_def Let_def
               release_abandoned_def MAX_COMMAND_ATTEMPTS_def clear_attempt_def)
  qed
qed

text \<open>(C13) A third attempt that completes as retryable stays retryable. From then on every pass selects the
  command as due, no reservation of it can ever succeed, and the stale pass never changes it: each later
  workflow run that reserves the due commands in order fails on it.\<close>

theorem exhausted_command_stays_due:
  assumes "cmd_attempt c = 3" and "cmd_scope_version c = v" and "cmd_available_at c \<le> completed"
    and "persist_command_completion c Command_FAILED_RETRYABLE completed key = Inr c'"
    and "completed \<le> t"
  shows "is_due v t c'
    \<and> reserve_dispatch c' r (Aware t off) = raise_code RETRIES_EXHAUSTED 409
    \<and> reconcile_unclaimed c' (Aware t off) key' = Inr c'"
proof -
  have c': "c' = clear_attempt (c\<lparr>cmd_status := Command_FAILED_RETRYABLE, cmd_completed_at := Some completed,
      cmd_outcome_code := Some ''failed_retryable''\<rparr>)"
    using assms(4,1) by (elim persist_completionD) (simp_all add: MAX_COMMAND_ATTEMPTS_def)
  show ?thesis
    using assms(1,2,3,5)
    by (simp add: c' clear_attempt_def is_due_def reserve_dispatch_def reconcile_unclaimed_def
                  mark_stale_def Let_def MAX_COMMAND_ATTEMPTS_def)
qed

section \<open>Witnesses\<close>

definition example_command :: command_state where
  "example_command =
     \<lparr>cmd_id = 7, cmd_scope_version = ''v1'', cmd_source_ids = [1, 2], cmd_kind = Kind_SCHEDULED,
      cmd_status = Command_QUEUED, cmd_attempt = 1, cmd_available_at = 0,
      cmd_reservation_started_at = None, cmd_reservation_nonce_hash = None, cmd_dispatched_at = None,
      cmd_claimed_at = None, cmd_heartbeat_at = None, cmd_completed_at = None, cmd_lease_hash = None,
      cmd_github_run_id = None, cmd_github_run_attempt = None, cmd_outcome_code = None,
      cmd_error_fingerprint = None\<rparr>"

definition example_reservation :: dispatch_reservation where
  "example_reservation = \<lparr>res_reservation_nonce = ''nonce'', res_lease_token = example_lease\<rparr>"

definition example_reserved :: command_state where
  "example_reserved = example_command\<lparr>
     cmd_status := Command_DISPATCH_RESERVED, cmd_reservation_started_at := Some 5,
     cmd_reservation_nonce_hash := Some (hash_token ''nonce''), cmd_lease_hash := Some (hash_token example_lease)\<rparr>"

definition example_running :: command_state where
  "example_running = example_reserved\<lparr>
     cmd_status := Command_RUNNING, cmd_claimed_at := Some 9, cmd_heartbeat_at := Some 9\<rparr>"

lemmas example_command_defs =
  example_command_def example_reservation_def example_reserved_def example_running_def

lemma example_reserve: "reserve_dispatch example_command example_reservation (Aware 5 0) = Inr example_reserved"
  by (simp add: reserve_dispatch_def example_command_defs MAX_COMMAND_ATTEMPTS_def Let_def)

lemma example_claim:
  "claim_command example_reserved
     \<lparr>cred_attempt = 1, cred_lease_token = example_lease, cred_reservation_nonce = ''nonce''\<rparr> (Aware 9 0)
     = Inr example_running"
  by (simp add: claim_command_def example_command_defs Let_def)

lemma example_init: "cmd_init example_command"
  by (simp add: cmd_init_def example_command_def)

lemma example_steps: "cmd_step\<^sup>*\<^sup>* example_command example_running"
  using cmd_step.reserve [OF example_reserve] cmd_step.claim [OF example_claim]
  by (rule converse_rtranclp_into_rtranclp [OF _ r_into_rtranclp])

theorem command_lifecycle_invariant_witness:
  "cmd_lease_hash example_running \<noteq> None \<and> cmd_attempt example_running \<le> 3"
  using command_lifecycle_invariant [OF example_init example_steps]
  by (simp add: in_flight_def example_command_defs)

theorem at_most_three_reservations_witness: "(1 :: nat) \<le> 3 \<and> cmd_run 1 example_command example_running"
proof -
  have "cmd_run (Suc 0) example_command example_reserved"
    by (rule cmd_run.reserved [OF cmd_run.start example_reserve])
  then have r: "cmd_run (Suc 0) example_command example_running"
    by (rule cmd_run.other [OF _ cmd_step.claim [OF example_claim]])
  show ?thesis using at_most_three_reservations [OF example_init r] r by simp
qed

lemma example_running_wf: "cmd_wf example_running"
  by (rule cmd.reachable_inv [OF example_init example_steps])

theorem stale_running_command_released_witness:
  "reconcile_unclaimed example_running (Aware (9 + seconds 360) 0) ''key'' = Inr example_running"
  using stale_running_command_released [OF example_running_wf, of 9 "9 + seconds 360" 0 "''key''"]
  by (simp add: example_running_def)

theorem exhausted_command_stays_due_witness:
  "\<exists>c'. persist_command_completion (example_running\<lparr>cmd_attempt := 3\<rparr>) Command_FAILED_RETRYABLE 20 ''key'' = Inr c'
     \<and> is_due ''v1'' 30 c'
     \<and> reserve_dispatch c' example_reservation (Aware 30 0) = raise_code RETRIES_EXHAUSTED 409"
proof -
  let ?c = "example_running\<lparr>cmd_attempt := 3\<rparr>"
  obtain c' where c': "persist_command_completion ?c Command_FAILED_RETRYABLE 20 ''key'' = Inr c'"
    by (simp add: persist_command_completion_def with_retry_availability_def MAX_COMMAND_ATTEMPTS_def
        example_running_def)
  from exhausted_command_stays_due [OF _ _ _ c', of "''v1''" 30 example_reservation 0 "''k''"] c'
  show ?thesis by (auto simp: example_command_defs)
qed

end
