(* ===== verification/Checkpoint.thy ===== *)
theory Checkpoint
  imports Collection_Base
begin

text \<open>
  \<open>collection/checkpoint.py\<close> and \<open>collection/claim_policy.py\<close>: the locked checkpoint of a source scope,
  the state of one source run, the genesis of its page chain, and the free-tier budget decision that fixes
  its caps.
\<close>

section \<open>State\<close>

record checkpoint_state =
  cp_id :: uuid
  cp_source_id :: uuid
  cp_scope_version :: string
  cp_revision :: int
  cp_cursor :: "string option"
  cp_watermark_published_at :: "instant option"
  cp_watermark_source_post_id :: "string option"
  cp_last_completed_run_id :: "uuid option"

record run_start =
  rs_run_id :: uuid
  rs_command_id :: uuid
  rs_source_id :: uuid
  rs_scope_version :: string
  rs_attempt :: int
  rs_lease_identity_hash :: string
  rs_started_at :: datetime

record run_state =
  run_id :: uuid
  run_command_id :: uuid
  run_source_id :: uuid
  run_scope_version :: string
  run_attempt :: int
  run_status :: run_status
  run_start_checkpoint_revision :: int
  run_start_cursor :: "string option"
  run_genesis_chain_hash :: string
  run_committed_page_hash_chain :: string
  run_lease_identity_hash :: string
  run_started_at :: instant
  run_heartbeat_at :: instant
  run_authorization_decision_id :: "uuid option"
  run_authorization_snapshot :: "json option"
  run_budget_decision_id :: "uuid option"
  run_budget_decision_status :: "budget_decision_status option"
  run_reviewed_page_cap :: "int option"
  run_reviewed_post_cap :: "int option"
  run_next_page_ordinal :: int
  run_committed_page_count :: int
  run_accepted_count :: int
  run_duplicate_count :: int
  run_rejected_count :: int
  run_last_page_commit_id :: "uuid option"
  run_final_page_ordinal :: "int option"
  run_final_cursor :: "string option"
  run_terminal_page_commit_id :: "uuid option"
  run_terminal_page_ordinal :: "int option"
  run_terminal_cursor :: "string option"
  run_terminal_reason :: "terminal_reason option"
  run_terminal_chain_hash :: "string option"
  run_completion_ready_at :: "instant option"
  run_page_reservation_id :: "uuid option"
  run_skip_authorization_decision_id :: "uuid option"
  run_skip_budget_decision_id :: "uuid option"
  run_failure_class :: "string option"
  run_failure_code :: "string option"
  run_failure_fingerprint :: "string option"
  run_failure_observed_at :: "instant option"
  run_retry_after_at :: "instant option"
  run_finalized_at :: "instant option"
  run_finished_at :: "instant option"

record checkpoint_replay =
  cr_expected_checkpoint_revision :: int
  cr_expected_cursor :: "string option"
  cr_next_page_ordinal :: int
  cr_committed_page_hash_chain :: string
  cr_accepted_count :: int
  cr_last_page_commit_id :: "uuid option"

fun opt_or :: "'a option \<Rightarrow> 'a option \<Rightarrow> 'a option" where
  "opt_or (Some x) _ = Some x"
| "opt_or None y = y"

definition skip_decision_id :: "run_state \<Rightarrow> uuid option" where
  "skip_decision_id run = opt_or (run_skip_budget_decision_id run) (run_skip_authorization_decision_id run)"

definition precomputed_terminal_status :: "run_state \<Rightarrow> run_status option" where
  "precomputed_terminal_status run =
     (if run_skip_budget_decision_id run \<noteq> None then Some Run_SKIPPED_QUOTA
      else if run_skip_authorization_decision_id run \<noteq> None then Some Run_SKIPPED_POLICY
      else None)"

section \<open>Starting and resuming a run\<close>

definition genesis_identity :: "run_start \<Rightarrow> checkpoint_state \<Rightarrow> json" where
  "genesis_identity start checkpoint = JObj
     [(''attempt'', JInt (rs_attempt start)),
      (''command_id'', JStr (uuid_str (rs_command_id start))),
      (''run_id'', JStr (uuid_str (rs_run_id start))),
      (''scope_version'', JStr (rs_scope_version start)),
      (''source_id'', JStr (uuid_str (rs_source_id start))),
      (''start_checkpoint_revision'', JInt (cp_revision checkpoint)),
      (''start_cursor'', json_opt JStr (cp_cursor checkpoint))]"

definition genesis_hash :: "(string \<Rightarrow> string) \<Rightarrow> run_start \<Rightarrow> checkpoint_state \<Rightarrow> string" where
  "genesis_hash nfc start checkpoint =
     sha256_hex (''page-chain-genesis/v1'' @ [CHR 0x0A]
                 @ canonical_json_bytes nfc (genesis_identity start checkpoint))"

definition start_run :: "(string \<Rightarrow> string) \<Rightarrow> run_start \<Rightarrow> checkpoint_state \<Rightarrow> exc + run_state" where
  "start_run nfc start checkpoint =
     (if rs_source_id start \<noteq> cp_source_id checkpoint
         \<or> rs_scope_version start \<noteq> cp_scope_version checkpoint
      then raise_code INVALID_CONTRACT 422
      else case require_utc (rs_started_at start) of Inl e \<Rightarrow> Inl e
      | Inr started_at \<Rightarrow>
        let genesis = genesis_hash nfc start checkpoint in
        Inr \<lparr>run_id = rs_run_id start, run_command_id = rs_command_id start,
             run_source_id = rs_source_id start, run_scope_version = rs_scope_version start,
             run_attempt = rs_attempt start, run_status = Run_RUNNING,
             run_start_checkpoint_revision = cp_revision checkpoint,
             run_start_cursor = cp_cursor checkpoint,
             run_genesis_chain_hash = genesis, run_committed_page_hash_chain = genesis,
             run_lease_identity_hash = rs_lease_identity_hash start,
             run_started_at = started_at, run_heartbeat_at = started_at,
             run_authorization_decision_id = None, run_authorization_snapshot = None,
             run_budget_decision_id = None, run_budget_decision_status = None,
             run_reviewed_page_cap = None, run_reviewed_post_cap = None,
             run_next_page_ordinal = 0, run_committed_page_count = 0,
             run_accepted_count = 0, run_duplicate_count = 0, run_rejected_count = 0,
             run_last_page_commit_id = None, run_final_page_ordinal = None,
             run_final_cursor = cp_cursor checkpoint,
             run_terminal_page_commit_id = None, run_terminal_page_ordinal = None,
             run_terminal_cursor = None, run_terminal_reason = None, run_terminal_chain_hash = None,
             run_completion_ready_at = None, run_page_reservation_id = None,
             run_skip_authorization_decision_id = None, run_skip_budget_decision_id = None,
             run_failure_class = None, run_failure_code = None, run_failure_fingerprint = None,
             run_failure_observed_at = None, run_retry_after_at = None,
             run_finalized_at = None, run_finished_at = None\<rparr>)"

definition checkpoint_replay :: "run_state \<Rightarrow> checkpoint_state \<Rightarrow> exc + checkpoint_replay" where
  "checkpoint_replay run checkpoint =
     (if run_source_id run \<noteq> cp_source_id checkpoint
         \<or> run_scope_version run \<noteq> cp_scope_version checkpoint
         \<or> cp_revision checkpoint < run_start_checkpoint_revision run
      then raise_code CHECKPOINT_CONFLICT 409
      else Inr \<lparr>cr_expected_checkpoint_revision = cp_revision checkpoint,
                cr_expected_cursor = cp_cursor checkpoint,
                cr_next_page_ordinal = run_next_page_ordinal run,
                cr_committed_page_hash_chain = run_committed_page_hash_chain run,
                cr_accepted_count = run_accepted_count run,
                cr_last_page_commit_id = run_last_page_commit_id run\<rparr>)"

section \<open>The free-tier budget of a claim\<close>

record budget_record_facts =
  bud_observed_units :: int
  bud_soft_stop_units :: int
  bud_hard_stop_units :: int
  bud_paid_spend_enabled :: bool

record claim_budget_decision =
  cbd_status :: budget_decision_status
  cbd_reviewed_page_cap :: int
  cbd_reviewed_post_cap :: int
  cbd_skip_collection :: bool
  cbd_reason_code :: string

definition derive_claim_budget ::
    "budget_record_facts \<Rightarrow> int \<Rightarrow> int \<Rightarrow> exc + claim_budget_decision" where
  "derive_claim_budget facts reviewed_page_cap reviewed_post_cap =
     (if \<not> (bud_soft_stop_units facts = 70 \<and> bud_hard_stop_units facts = 80
             \<and> \<not> bud_paid_spend_enabled facts \<and> bud_observed_units facts \<ge> 0
             \<and> reviewed_page_cap > 0 \<and> reviewed_post_cap > 0)
      then raise_code INVALID_CONTRACT 409
      else if bud_observed_units facts \<ge> bud_hard_stop_units facts
      then Inr \<lparr>cbd_status = Budget_HARD_STOP, cbd_reviewed_page_cap = 0, cbd_reviewed_post_cap = 0,
                cbd_skip_collection = True, cbd_reason_code = ''free_tier_hard_stop''\<rparr>
      else if bud_observed_units facts \<ge> bud_soft_stop_units facts
      then Inr \<lparr>cbd_status = Budget_SOFT_LIMIT,
                cbd_reviewed_page_cap = max 1 (reviewed_page_cap div 2),
                cbd_reviewed_post_cap = max 1 (reviewed_post_cap div 2),
                cbd_skip_collection = False, cbd_reason_code = ''free_tier_soft_scope_reduction''\<rparr>
      else Inr \<lparr>cbd_status = Budget_ALLOW, cbd_reviewed_page_cap = reviewed_page_cap,
                cbd_reviewed_post_cap = reviewed_post_cap,
                cbd_skip_collection = False, cbd_reason_code = ''free_tier_allow''\<rparr>)"

text \<open>The free-tier decision never lets a claim exceed its reviewed caps: usage of 80 units or more skips
  the source with both caps zero; otherwise both caps stay between one and the reviewed value, halved
  (rounding down) from 70 units on; any other thresholds, paid spend or negative usage is refused.\<close>

theorem derive_claim_budget_bounds:
  "derive_claim_budget rec page_cap post_cap = Inr d \<longleftrightarrow>
     bud_soft_stop_units rec = 70 \<and> bud_hard_stop_units rec = 80 \<and> \<not> bud_paid_spend_enabled rec
     \<and> 0 \<le> bud_observed_units rec \<and> 0 < page_cap \<and> 0 < post_cap
     \<and> (if 80 \<le> bud_observed_units rec
        then cbd_status d = Budget_HARD_STOP \<and> cbd_skip_collection d
             \<and> cbd_reviewed_page_cap d = 0 \<and> cbd_reviewed_post_cap d = 0
             \<and> cbd_reason_code d = ''free_tier_hard_stop''
        else \<not> cbd_skip_collection d
             \<and> 1 \<le> cbd_reviewed_page_cap d \<and> cbd_reviewed_page_cap d \<le> page_cap
             \<and> 1 \<le> cbd_reviewed_post_cap d \<and> cbd_reviewed_post_cap d \<le> post_cap
             \<and> (if 70 \<le> bud_observed_units rec
                then cbd_status d = Budget_SOFT_LIMIT
                     \<and> cbd_reviewed_page_cap d = max 1 (page_cap div 2)
                     \<and> cbd_reviewed_post_cap d = max 1 (post_cap div 2)
                     \<and> cbd_reason_code d = ''free_tier_soft_scope_reduction''
                else cbd_status d = Budget_ALLOW
                     \<and> cbd_reviewed_page_cap d = page_cap \<and> cbd_reviewed_post_cap d = post_cap
                     \<and> cbd_reason_code d = ''free_tier_allow''))"
  by (cases d) (auto simp: derive_claim_budget_def)

section \<open>A started run\<close>

definition example_checkpoint :: checkpoint_state where
  "example_checkpoint = \<lparr>cp_id = 9, cp_source_id = 3, cp_scope_version = ''v1'', cp_revision = 4,
     cp_cursor = Some ''c4'', cp_watermark_published_at = None, cp_watermark_source_post_id = None,
     cp_last_completed_run_id = None\<rparr>"

definition example_start :: run_start where
  "example_start = \<lparr>rs_run_id = 1, rs_command_id = 7, rs_source_id = 3, rs_scope_version = ''v1'',
     rs_attempt = 1, rs_lease_identity_hash = hash_token example_lease, rs_started_at = Aware 10 0\<rparr>"

definition example_run :: run_state where
  "example_run = \<lparr>run_id = 1, run_command_id = 7, run_source_id = 3, run_scope_version = ''v1'',
     run_attempt = 1, run_status = Run_RUNNING, run_start_checkpoint_revision = 4,
     run_start_cursor = Some ''c4'',
     run_genesis_chain_hash = genesis_hash id example_start example_checkpoint,
     run_committed_page_hash_chain = genesis_hash id example_start example_checkpoint,
     run_lease_identity_hash = hash_token example_lease, run_started_at = 10, run_heartbeat_at = 10,
     run_authorization_decision_id = None, run_authorization_snapshot = None,
     run_budget_decision_id = None, run_budget_decision_status = None,
     run_reviewed_page_cap = None, run_reviewed_post_cap = None,
     run_next_page_ordinal = 0, run_committed_page_count = 0,
     run_accepted_count = 0, run_duplicate_count = 0, run_rejected_count = 0,
     run_last_page_commit_id = None, run_final_page_ordinal = None, run_final_cursor = Some ''c4'',
     run_terminal_page_commit_id = None, run_terminal_page_ordinal = None,
     run_terminal_cursor = None, run_terminal_reason = None, run_terminal_chain_hash = None,
     run_completion_ready_at = None, run_page_reservation_id = None,
     run_skip_authorization_decision_id = None, run_skip_budget_decision_id = None,
     run_failure_class = None, run_failure_code = None, run_failure_fingerprint = None,
     run_failure_observed_at = None, run_retry_after_at = None,
     run_finalized_at = None, run_finished_at = None\<rparr>"

lemma example_start_run: "start_run id example_start example_checkpoint = Inr example_run"
  by (simp add: start_run_def example_run_def Let_def example_start_def example_checkpoint_def)

end
