(* ===== verification/Normalizer.thy ===== *)
theory Normalizer
  imports Collection_Base
begin

text \<open>
  \<open>collection/normalizer.py\<close>: author-free page items, newline and NFC normalisation, the recomputed content
  hash, and the reduction of oversize items to their descriptor.
\<close>

record accepted_post_input =
  api_source_post_id :: string
  api_canonical_url :: string
  api_title :: string
  api_body :: string
  api_published_at :: datetime
  api_language :: string
  api_comments_count :: "int option"
  api_upvote_or_score :: "int option"
  api_content_hash :: string

record oversize_post_input =
  opi_source_post_id :: string
  opi_canonical_url :: string
  opi_content_hash :: string
  opi_body_bytes :: int

datatype page_post_input = AcceptedPostInput accepted_post_input | OversizePostInput oversize_post_input

record normalized_post =
  np_source_post_id :: string
  np_canonical_url :: string
  np_title :: string
  np_body :: string
  np_body_bytes :: int
  np_published_at :: instant
  np_language :: string
  np_comments_count :: "int option"
  np_upvote_or_score :: "int option"
  np_content_hash :: string

record oversize_rejection =
  or_source_post_id :: string
  or_canonical_url :: string
  or_content_hash :: string
  or_body_bytes :: int
  or_rejection_reason :: string

datatype normalized_page_item = NormalizedPost normalized_post | OversizeRejection oversize_rejection

fun input_source_post_id :: "page_post_input \<Rightarrow> string" where
  "input_source_post_id (AcceptedPostInput a) = api_source_post_id a"
| "input_source_post_id (OversizePostInput b) = opi_source_post_id b"

fun item_source_post_id :: "normalized_page_item \<Rightarrow> string" where
  "item_source_post_id (NormalizedPost p) = np_source_post_id p"
| "item_source_post_id (OversizeRejection r) = or_source_post_id r"

fun item_content_hash :: "normalized_page_item \<Rightarrow> string" where
  "item_content_hash (NormalizedPost p) = np_content_hash p"
| "item_content_hash (OversizeRejection r) = or_content_hash r"

text \<open>\<open>value.replace("\r\n", "\n").replace("\r", "\n")\<close>\<close>

fun replace_crlf :: "string \<Rightarrow> string" where
  "replace_crlf (c # d # cs) =
     (if c = CHR 0x0D \<and> d = CHR 0x0A then CHR 0x0A # replace_crlf cs else c # replace_crlf (d # cs))"
| "replace_crlf cs = cs"

definition replace_cr :: "string \<Rightarrow> string" where
  "replace_cr s = map (\<lambda>c. if c = CHR 0x0D then CHR 0x0A else c) s"

definition normalize_text :: "(string \<Rightarrow> string) \<Rightarrow> string \<Rightarrow> string" where
  "normalize_text nfc value = nfc (replace_cr (replace_crlf value))"

definition compute_content_hash :: "(string \<Rightarrow> string) \<Rightarrow> string \<Rightarrow> string \<Rightarrow> string" where
  "compute_content_hash nfc title body =
     sha256_hex (canonical_bytes nfc (JObj
       [(''title'', JStr (normalize_text nfc title)), (''body'', JStr (normalize_text nfc body))]))"

definition compute_body_bytes :: "(string \<Rightarrow> string) \<Rightarrow> string \<Rightarrow> int" where
  "compute_body_bytes nfc body = int (length (normalize_text nfc body))"

fun normalize_page_item ::
    "(string \<Rightarrow> string) \<Rightarrow> page_post_input \<Rightarrow> exc + normalized_page_item" where
  "normalize_page_item nfc (OversizePostInput item) =
     Inr (OversizeRejection \<lparr>or_source_post_id = opi_source_post_id item,
        or_canonical_url = opi_canonical_url item, or_content_hash = opi_content_hash item,
        or_body_bytes = opi_body_bytes item, or_rejection_reason = ''rejected_oversize''\<rparr>)"
| "normalize_page_item nfc (AcceptedPostInput item) =
     (let title = normalize_text nfc (api_title item); body = normalize_text nfc (api_body item);
          content_hash = compute_content_hash nfc title body
      in if content_hash \<noteq> api_content_hash item then raise_code INVALID_CONTRACT 422
         else let body_bytes = compute_body_bytes nfc body in
           if body_bytes > MAX_POST_BYTES
           then Inr (OversizeRejection \<lparr>or_source_post_id = api_source_post_id item,
                  or_canonical_url = api_canonical_url item, or_content_hash = content_hash,
                  or_body_bytes = body_bytes, or_rejection_reason = ''rejected_oversize''\<rparr>)
           else case require_utc (api_published_at item) of Inl e \<Rightarrow> Inl e
           | Inr published_at \<Rightarrow>
             Inr (NormalizedPost \<lparr>np_source_post_id = api_source_post_id item,
                  np_canonical_url = api_canonical_url item, np_title = title, np_body = body,
                  np_body_bytes = body_bytes, np_published_at = published_at,
                  np_language = api_language item, np_comments_count = api_comments_count item,
                  np_upvote_or_score = api_upvote_or_score item, np_content_hash = content_hash\<rparr>))"

definition normalize_page_items ::
    "(string \<Rightarrow> string) \<Rightarrow> page_post_input list \<Rightarrow> exc + normalized_page_item list" where
  "normalize_page_items nfc items =
     (if \<not> distinct (map input_source_post_id items) then raise_code INVALID_CONTRACT 422
      else seq_result (normalize_page_item nfc) items)"

section \<open>Newline normalisation\<close>

lemma replace_crlf_no_cr: "CHR 0x0D \<notin> set s \<Longrightarrow> replace_crlf s = s"
  by (induction s rule: replace_crlf.induct) auto

lemma replace_cr_no_cr: "CHR 0x0D \<notin> set s \<Longrightarrow> replace_cr s = s"
  by (induction s) (auto simp: replace_cr_def)

lemma replace_cr_free: "CHR 0x0D \<notin> set (replace_cr s)"
  by (auto simp: replace_cr_def)

text \<open>
  Normalisation is idempotent when Unicode NFC is idempotent and neither introduces nor removes carriage
  returns, as the standard guarantees.
\<close>

lemma normalize_text_idem:
  assumes "\<And>s. nfc (nfc s) = nfc s" and "\<And>s. CHR 0x0D \<in> set (nfc s) \<longleftrightarrow> CHR 0x0D \<in> set s"
  shows "normalize_text nfc (normalize_text nfc s) = normalize_text nfc s"
proof -
  have "CHR 0x0D \<notin> set (normalize_text nfc s)"
    by (simp add: normalize_text_def assms(2) replace_cr_free)
  then show ?thesis
    by (simp add: normalize_text_def [of nfc "normalize_text nfc s"] replace_crlf_no_cr replace_cr_no_cr)
       (simp add: normalize_text_def assms(1))
qed

section \<open>What a normalised page contains\<close>

lemma normalize_item_source: "normalize_page_item nfc i = Inr n \<Longrightarrow> item_source_post_id n = input_source_post_id i"
  by (cases i) (auto simp: Let_def split: if_splits sum.splits)

lemma normalize_items_source:
  "seq_result (normalize_page_item nfc) is = Inr ns \<Longrightarrow>
     map item_source_post_id ns = map input_source_post_id is"
  by (rule nth_equalityI) (auto simp: seq_result_length intro: normalize_item_source [OF seq_result_nth])

lemma normalize_page_itemsD:
  "normalize_page_items nfc is = Inr ns \<Longrightarrow>
     length ns = length is \<and> distinct (map item_source_post_id ns)
     \<and> map item_source_post_id ns = map input_source_post_id is"
  by (auto simp: normalize_page_items_def seq_result_length normalize_items_source split: if_splits)

lemma normalized_post_sound:
  assumes "normalize_page_item nfc i = Inr (NormalizedPost p)"
  shows "np_body_bytes p \<le> MAX_POST_BYTES
    \<and> np_content_hash p = compute_content_hash nfc (np_title p) (np_body p)"
  using assms by (cases i) (auto simp: Let_def split: if_splits sum.splits)

text \<open>A normalised page has one item per submitted item, in order and with pairwise distinct source post
  identities. Every full post in it carries the content hash recomputed from its own stored title and
  body, and its stored body is at most 256 KiB; everything larger is reduced to a descriptor.\<close>

theorem normalize_page_items_sound:
  assumes "normalize_page_items nfc items = Inr ns"
  shows "map item_source_post_id ns = map input_source_post_id items
    \<and> distinct (map item_source_post_id ns)
    \<and> (\<forall>p. NormalizedPost p \<in> set ns \<longrightarrow>
         np_content_hash p = compute_content_hash nfc (np_title p) (np_body p)
         \<and> np_body_bytes p = compute_body_bytes nfc (np_body p)
         \<and> np_body_bytes p \<le> 262144)"
proof -
  from assms have seq: "seq_result (normalize_page_item nfc) items = Inr ns"
    by (simp add: normalize_page_items_def split: if_splits)
  have "np_content_hash p = compute_content_hash nfc (np_title p) (np_body p)
         \<and> np_body_bytes p = compute_body_bytes nfc (np_body p) \<and> np_body_bytes p \<le> 262144"
    if "NormalizedPost p \<in> set ns" for p
  proof -
    from seq_result_Inr_ex [OF seq that] obtain i where "normalize_page_item nfc i = Inr (NormalizedPost p)"
      by blast
    then show ?thesis
      by (cases i) (auto simp: Let_def MAX_POST_BYTES_def split: if_splits sum.splits)
  qed
  with normalize_page_itemsD [OF assms] show ?thesis by blast
qed

definition example_item :: "(string \<Rightarrow> string) \<Rightarrow> accepted_post_input" where
  "example_item nfc = \<lparr>api_source_post_id = ''t3_a'', api_canonical_url = ''https://example.org/a'',
     api_title = ''t'', api_body = ''b'', api_published_at = Aware 1 0, api_language = ''en'',
     api_comments_count = None, api_upvote_or_score = Some 2,
     api_content_hash = compute_content_hash nfc (normalize_text nfc ''t'') (normalize_text nfc ''b'')\<rparr>"

definition example_normalized :: normalized_post where
  "example_normalized = \<lparr>np_source_post_id = ''t3_a'', np_canonical_url = ''https://example.org/a'',
     np_title = ''t'', np_body = ''b'', np_body_bytes = 1, np_published_at = 1, np_language = ''en'',
     np_comments_count = None, np_upvote_or_score = Some 2,
     np_content_hash = compute_content_hash id ''t'' ''b''\<rparr>"

lemma example_normalize:
  "normalize_page_items id [AcceptedPostInput (example_item id)] = Inr [NormalizedPost example_normalized]"
  by (simp add: normalize_page_items_def example_item_def example_normalized_def Let_def
      normalize_text_def replace_cr_def compute_body_bytes_def MAX_POST_BYTES_def)

theorem normalize_page_items_sound_witness:
  "np_body_bytes example_normalized \<le> 262144"
  using normalize_page_items_sound [OF example_normalize] by simp

end
