(* ===== verification/Pages.thy ===== *)
theory Pages
  imports Dispatch Checkpoint Normalizer "HOL-Library.Product_Lexorder"
begin

text \<open>
  \<open>collection/page_models.py\<close>, \<open>page_item_planning.py\<close>, \<open>page_transitions.py\<close> and \<open>page_commit.py\<close>: planning
  one page transaction. The plan validates authorization, lease, compare-and-set position and stream state,
  classifies the items against the locked current revisions, binds the result into the hash chain and
  advances the checkpoint and the run.

  \<open>page_env\<close> collects what the planner is handed from outside the repository: Unicode NFC, the source of
  fresh identifiers (\<open>env_new_id n\<close> is the \<open>n\<close>-th value returned by \<open>new_id()\<close>) and the Pydantic parser of a
  stored response.
\<close>

section \<open>Requests, records and plans\<close>

record page_commit_request =
  req_command_id :: uuid
  req_attempt :: int
  req_lease_token :: string
  req_page_idempotency_key :: uuid
  req_expected_checkpoint_revision :: int
  req_expected_cursor :: "string option"
  req_next_cursor :: "string option"
  req_page_ordinal :: int
  req_posts :: "page_post_input list"
  req_source_page_item_count :: int
  req_source_page_receipt_sha256 :: string
  req_page_fetch_started_at :: datetime
  req_page_fetch_finished_at :: datetime
  req_is_terminal_page :: bool
  req_terminal_reason :: "terminal_reason option"

text \<open>The field constraints and \<open>validate_contract\<close> of the request model.\<close>

definition base64url_char :: "char \<Rightarrow> bool" where
  "base64url_char c \<longleftrightarrow> (let n = of_char c :: nat in
     (65 \<le> n \<and> n \<le> 90) \<or> (97 \<le> n \<and> n \<le> 122) \<or> (48 \<le> n \<and> n \<le> 57) \<or> n = 95 \<or> n = 45)"

definition lease_token_ok :: "string \<Rightarrow> bool" where
  "lease_token_ok s \<longleftrightarrow> 32 \<le> length s \<and> length s \<le> 128 \<and> list_all base64url_char s"

definition sha256_hex_ok :: "string \<Rightarrow> bool" where
  "sha256_hex_ok s \<longleftrightarrow> length s = 64 \<and> list_all (\<lambda>c. c \<in> set hex_chars) s"

definition validate_contract :: "page_commit_request \<Rightarrow> bool" where
  "validate_contract r \<longleftrightarrow>
     1 \<le> req_attempt r \<and> req_attempt r \<le> 3 \<and> lease_token_ok (req_lease_token r)
     \<and> 0 \<le> req_expected_checkpoint_revision r \<and> 0 \<le> req_page_ordinal r
     \<and> length (req_posts r) \<le> 20
     \<and> 0 \<le> req_source_page_item_count r \<and> req_source_page_item_count r \<le> 20
     \<and> sha256_hex_ok (req_source_page_receipt_sha256 r)
     \<and> req_source_page_item_count r = int (length (req_posts r))
     \<and> (req_is_terminal_page r \<longleftrightarrow> req_terminal_reason r \<noteq> None)
     \<and> instant_of (req_page_fetch_started_at r) \<le> instant_of (req_page_fetch_finished_at r)"

record existing_post_version =
  ex_source_post_id :: string
  ex_post_id :: uuid
  ex_current_version_id :: uuid
  ex_current_content_hash :: string
  ex_current_revision :: int

record page_item_plan =
  pip_item_ordinal :: int
  pip_disposition :: page_item_disposition
  pip_normalized_item :: normalized_page_item
  pip_normalized_content_hash :: string
  pip_post_id :: "uuid option"
  pip_post_version_id :: "uuid option"
  pip_revision :: "int option"

record page_commit_response =
  rsp_page_commit_id :: uuid
  rsp_checkpoint_revision :: int
  rsp_next_cursor :: "string option"
  rsp_accepted_count :: int
  rsp_duplicate_count :: int
  rsp_rejected_count :: int
  rsp_page_content_hash :: string

record page_commit_record =
  pc_id :: uuid
  pc_run_id :: uuid
  pc_command_id :: uuid
  pc_attempt :: int
  pc_lease_identity_hash :: string
  pc_page_idempotency_key :: uuid
  pc_page_ordinal :: int
  pc_expected_checkpoint_revision :: int
  pc_resulting_checkpoint_revision :: int
  pc_expected_cursor :: "string option"
  pc_next_cursor :: "string option"
  pc_page_request_hash :: string
  pc_page_content_hash :: string
  pc_previous_chain_hash :: string
  pc_resulting_chain_hash :: string
  pc_source_page_receipt_sha256 :: string
  pc_source_page_item_count :: int
  pc_accepted_count :: int
  pc_duplicate_count :: int
  pc_rejected_count :: int
  pc_is_terminal_page :: bool
  pc_terminal_reason :: "terminal_reason option"
  pc_stored_response :: string

record page_commit_outcome =
  pco_status_code :: int
  pco_response :: page_commit_response
  pco_response_bytes :: string

record page_commit_context =
  ctx_db_now :: datetime
  ctx_command :: command_state
  ctx_run :: run_state
  ctx_checkpoint :: checkpoint_state
  ctx_authorization :: authorization_snapshot
  ctx_existing_posts :: "existing_post_version list"
  ctx_existing_idempotency_commit :: "page_commit_record option"
  ctx_existing_ordinal_commit :: "page_commit_record option"
  ctx_reviewed_page_cap :: int
  ctx_reviewed_post_cap :: int

record page_commit_plan =
  plan_commit :: page_commit_record
  plan_items :: "page_item_plan list"
  plan_updated_checkpoint :: checkpoint_state
  plan_updated_run :: run_state
  plan_outcome :: page_commit_outcome
  plan_should_persist :: bool

record page_env =
  env_nfc :: "string \<Rightarrow> string"
  env_new_id :: "nat \<Rightarrow> uuid"
  env_parse_response :: "string \<Rightarrow> page_commit_response option"

section \<open>Item planning and the hash chain\<close>

definition page_chain_link :: "string \<Rightarrow> string \<Rightarrow> exc + string" where
  "page_chain_link previous_hash page_content_hash =
     (case fromhex previous_hash of None \<Rightarrow> Inl ValueError
      | Some p \<Rightarrow> (case fromhex page_content_hash of None \<Rightarrow> Inl ValueError
        | Some c \<Rightarrow> Inr (sha256_hex (''page-chain-link/v1'' @ [CHR 0x0A] @ p @ c))))"

fun item_request_value :: "normalized_page_item \<Rightarrow> json" where
  "item_request_value (NormalizedPost i) = JObj
     [(''body'', JStr (np_body i)), (''canonical_url'', JStr (np_canonical_url i)),
      (''comments_count'', json_opt JInt (np_comments_count i)),
      (''content_hash'', JStr (np_content_hash i)), (''language'', JStr (np_language i)),
      (''published_at'', JStr (utc_text (np_published_at i))),
      (''source_post_id'', JStr (np_source_post_id i)), (''title'', JStr (np_title i)),
      (''upvote_or_score'', json_opt JInt (np_upvote_or_score i))]"
| "item_request_value (OversizeRejection i) = JObj
     [(''body_bytes'', JInt (or_body_bytes i)), (''canonical_url'', JStr (or_canonical_url i)),
      (''content_hash'', JStr (or_content_hash i)), (''rejection_reason'', JStr (or_rejection_reason i)),
      (''source_post_id'', JStr (or_source_post_id i))]"

definition page_request_payload ::
    "page_commit_request \<Rightarrow> string \<Rightarrow> string \<Rightarrow> normalized_page_item list \<Rightarrow> json" where
  "page_request_payload request started finished items = JObj
     [(''attempt'', JInt (req_attempt request)),
      (''command_id'', JStr (uuid_str (req_command_id request))),
      (''expected_checkpoint_revision'', JInt (req_expected_checkpoint_revision request)),
      (''expected_cursor'', json_opt JStr (req_expected_cursor request)),
      (''is_terminal_page'', JBool (req_is_terminal_page request)),
      (''next_cursor'', json_opt JStr (req_next_cursor request)),
      (''page_fetch_finished_at'', JStr finished),
      (''page_fetch_started_at'', JStr started),
      (''page_ordinal'', JInt (req_page_ordinal request)),
      (''posts'', JArr (map item_request_value items)),
      (''schema'', JStr ''page-request/v1''),
      (''source_page_item_count'', JInt (req_source_page_item_count request)),
      (''source_page_receipt_sha256'', JStr (req_source_page_receipt_sha256 request)),
      (''terminal_reason'', json_opt (\<lambda>t. JStr (terminal_reason_value t)) (req_terminal_reason request))]"

definition page_request_hash ::
    "(string \<Rightarrow> string) \<Rightarrow> page_commit_request \<Rightarrow> normalized_page_item list \<Rightarrow> exc + string" where
  "page_request_hash nfc request items =
     (case format_utc (req_page_fetch_finished_at request) of Inl e \<Rightarrow> Inl e
      | Inr finished \<Rightarrow> (case format_utc (req_page_fetch_started_at request) of Inl e \<Rightarrow> Inl e
        | Inr started \<Rightarrow> Inr (canonical_json_hash nfc (page_request_payload request started finished items))))"

text \<open>The loop of \<open>classify_page_items\<close> at item \<open>ordinal\<close> with \<open>n\<close> identifiers drawn so far; it also returns
  the number drawn at the end.\<close>

fun classify_from ::
    "(nat \<Rightarrow> uuid) \<Rightarrow> existing_post_version list \<Rightarrow> int \<Rightarrow> nat \<Rightarrow> normalized_page_item list \<Rightarrow>
       page_item_plan list \<times> nat" where
  "classify_from new_id existing ordinal n [] = ([], n)"
| "classify_from new_id existing ordinal n (OversizeRejection item # items) =
     (case classify_from new_id existing (ordinal + 1) n items of (plans, n') \<Rightarrow>
        (\<lparr>pip_item_ordinal = ordinal, pip_disposition = Item_REJECTED_OVERSIZE,
          pip_normalized_item = OversizeRejection item,
          pip_normalized_content_hash = or_content_hash item,
          pip_post_id = None, pip_post_version_id = None, pip_revision = None\<rparr> # plans, n'))"
| "classify_from new_id existing ordinal n (NormalizedPost item # items) =
     (case List.find (\<lambda>row. ex_source_post_id row = np_source_post_id item) existing of
        Some current \<Rightarrow>
          if ex_current_content_hash current = np_content_hash item
          then (case classify_from new_id existing (ordinal + 1) n items of (plans, n') \<Rightarrow>
            (\<lparr>pip_item_ordinal = ordinal, pip_disposition = Item_DUPLICATE,
              pip_normalized_item = NormalizedPost item,
              pip_normalized_content_hash = np_content_hash item,
              pip_post_id = Some (ex_post_id current),
              pip_post_version_id = Some (ex_current_version_id current),
              pip_revision = Some (ex_current_revision current)\<rparr> # plans, n'))
          else (case classify_from new_id existing (ordinal + 1) (n + 1) items of (plans, n') \<Rightarrow>
            (\<lparr>pip_item_ordinal = ordinal, pip_disposition = Item_ACCEPTED,
              pip_normalized_item = NormalizedPost item,
              pip_normalized_content_hash = np_content_hash item,
              pip_post_id = Some (ex_post_id current),
              pip_post_version_id = Some (new_id n),
              pip_revision = Some (ex_current_revision current + 1)\<rparr> # plans, n'))
      | None \<Rightarrow>
          (case classify_from new_id existing (ordinal + 1) (n + 2) items of (plans, n') \<Rightarrow>
            (\<lparr>pip_item_ordinal = ordinal, pip_disposition = Item_ACCEPTED,
              pip_normalized_item = NormalizedPost item,
              pip_normalized_content_hash = np_content_hash item,
              pip_post_id = Some (new_id n),
              pip_post_version_id = Some (new_id (n + 1)),
              pip_revision = Some 1\<rparr> # plans, n')))"

definition classify_page_items ::
    "(nat \<Rightarrow> uuid) \<Rightarrow> existing_post_version list \<Rightarrow> normalized_page_item list \<Rightarrow>
       page_item_plan list \<times> nat" where
  "classify_page_items new_id existing normalized = classify_from new_id existing 0 0 normalized"

section \<open>Validation and transitions\<close>

definition reviewed_caps :: "run_state \<Rightarrow> exc + int \<times> int" where
  "reviewed_caps run =
     (case (run_reviewed_page_cap run, run_reviewed_post_cap run) of
        (Some page_cap, Some post_cap) \<Rightarrow>
          if page_cap < 1 \<or> post_cap < 1 then raise_code INVALID_CONTRACT 409
          else Inr (page_cap, post_cap)
      | _ \<Rightarrow> raise_code INVALID_CONTRACT 409)"

definition validate_new_page_commit :: "page_commit_context \<Rightarrow> page_commit_request \<Rightarrow> exc + unit" where
  "validate_new_page_commit context request =
     (let run = ctx_run context; command = ctx_command context; checkpoint = ctx_checkpoint context in
      case require_active_authorization (ctx_authorization context) (run_source_id run)
             (run_scope_version run) (ctx_db_now context) of Inl e \<Rightarrow> Inl e
      | Inr decision_id \<Rightarrow>
        if Some decision_id \<noteq> run_authorization_decision_id run
        then raise_code SOURCE_AUTHORIZATION_INACTIVE 403
        else let valid_lease = (token_matches (req_lease_token request) (cmd_lease_hash command)
                   \<and> hash_token (req_lease_token request) = run_lease_identity_hash run) in
        if cmd_status command \<noteq> Command_RUNNING \<or> run_status run \<noteq> Run_RUNNING \<or> \<not> valid_lease
        then raise_code LEASE_OR_ATTEMPT_MISMATCH 409
        else case ctx_existing_ordinal_commit context of
          Some c \<Rightarrow> Inl (CollectionError ((collection_error_of ORDINAL_ALREADY_COMMITTED 409)
                      \<lparr>err_existing_commit_id := Some (pc_id c)\<rparr>))
        | None \<Rightarrow>
          (case run_terminal_page_commit_id run of
             Some t \<Rightarrow> Inl (CollectionError ((collection_error_of RUN_STREAM_SEALED 409)
                         \<lparr>err_existing_commit_id := Some t\<rparr>))
           | None \<Rightarrow>
             (case reviewed_caps run of Inl e \<Rightarrow> Inl e
              | Inr (page_cap, _) \<Rightarrow>
                if run_committed_page_count run \<ge> page_cap then raise_code RUN_STREAM_SEALED 409
                else if req_expected_checkpoint_revision request \<noteq> cp_revision checkpoint
                        \<or> req_expected_cursor request \<noteq> cp_cursor checkpoint
                then Inl (CollectionError ((collection_error_of CHECKPOINT_CONFLICT 409)
                       \<lparr>err_current_checkpoint_revision := Some (cp_revision checkpoint),
                        err_current_cursor := cp_cursor checkpoint\<rparr>))
                else if req_page_ordinal request \<noteq> run_next_page_ordinal run
                then Inl (CollectionError ((collection_error_of ORDINAL_GAP 409)
                       \<lparr>err_expected_page_ordinal := Some (run_next_page_ordinal run)\<rparr>))
                else Inr ())))"

definition validate_terminal_cap ::
    "page_commit_context \<Rightarrow> page_commit_request \<Rightarrow> int \<Rightarrow> exc + unit" where
  "validate_terminal_cap context request accepted =
     (case reviewed_caps (ctx_run context) of Inl e \<Rightarrow> Inl e
      | Inr (page_cap, post_cap) \<Rightarrow>
        (case req_terminal_reason request of
           Some REVIEWED_PAGE_CAP \<Rightarrow>
             if run_committed_page_count (ctx_run context) + 1 = page_cap then Inr ()
             else raise_code INVALID_TERMINAL_REASON 422
         | Some REVIEWED_POST_CAP \<Rightarrow>
             if run_accepted_count (ctx_run context) + accepted \<ge> post_cap then Inr ()
             else raise_code INVALID_TERMINAL_REASON 422
         | Some REVIEWED_BYTE_CAP \<Rightarrow> Inr ()
         | Some SOURCE_EXHAUSTED \<Rightarrow> Inr ()
         | None \<Rightarrow> Inr ()))"

definition server_terminal_request ::
    "page_commit_context \<Rightarrow> page_commit_request \<Rightarrow> exc + page_commit_request" where
  "server_terminal_request context request =
     (case reviewed_caps (ctx_run context) of Inl e \<Rightarrow> Inl e
      | Inr (page_cap, _) \<Rightarrow>
        if run_committed_page_count (ctx_run context) + 1 = page_cap \<and> req_terminal_reason request = None
        then Inr (request\<lparr>req_is_terminal_page := True, req_terminal_reason := Some REVIEWED_PAGE_CAP\<rparr>)
        else Inr request)"

fun watermark_candidate :: "normalized_page_item \<Rightarrow> (instant \<times> string) option" where
  "watermark_candidate (NormalizedPost i) = Some (np_published_at i, np_source_post_id i)"
| "watermark_candidate (OversizeRejection i) = None"

text \<open>\<open>candidate > watermark\<close> on tuples; with equal times and no stored post identity the comparison of
  \<open>str\<close> with \<open>None\<close> raises.\<close>

definition watermark_exceeds :: "instant \<times> string \<Rightarrow> instant \<Rightarrow> string option \<Rightarrow> exc + bool" where
  "watermark_exceeds candidate published post_id =
     (if fst candidate \<noteq> published then Inr (fst candidate > published)
      else case post_id of None \<Rightarrow> Inl TypeError | Some s \<Rightarrow> Inr (snd candidate > s))"

definition advance_checkpoint ::
    "checkpoint_state \<Rightarrow> page_commit_request \<Rightarrow> normalized_page_item list \<Rightarrow> exc + checkpoint_state" where
  "advance_checkpoint checkpoint request items =
     (let candidates = List.map_filter watermark_candidate items;
          advance = (\<lambda>p s. checkpoint\<lparr>cp_revision := cp_revision checkpoint + 1,
                        cp_cursor := req_next_cursor request,
                        cp_watermark_published_at := p, cp_watermark_source_post_id := s\<rparr>);
          keep = advance (cp_watermark_published_at checkpoint) (cp_watermark_source_post_id checkpoint)
      in if candidates = [] then Inr keep
         else let candidate = Max (set candidates) in
         case cp_watermark_published_at checkpoint of
           None \<Rightarrow> Inr (advance (Some (fst candidate)) (Some (snd candidate)))
         | Some published \<Rightarrow>
           (case watermark_exceeds candidate published (cp_watermark_source_post_id checkpoint) of
              Inl e \<Rightarrow> Inl e
            | Inr True \<Rightarrow> Inr (advance (Some (fst candidate)) (Some (snd candidate)))
            | Inr False \<Rightarrow> Inr keep))"

definition advance_run :: "run_state \<Rightarrow> page_commit_record \<Rightarrow> instant \<Rightarrow> run_state" where
  "advance_run run commit db_now =
     (let updated = run\<lparr>
            run_accepted_count := run_accepted_count run + pc_accepted_count commit,
            run_committed_page_count := run_committed_page_count run + 1,
            run_committed_page_hash_chain := pc_resulting_chain_hash commit,
            run_duplicate_count := run_duplicate_count run + pc_duplicate_count commit,
            run_final_cursor := pc_next_cursor commit,
            run_final_page_ordinal := Some (pc_page_ordinal commit),
            run_last_page_commit_id := Some (pc_id commit),
            run_next_page_ordinal := pc_page_ordinal commit + 1,
            run_rejected_count := run_rejected_count run + pc_rejected_count commit\<rparr>
      in if \<not> pc_is_terminal_page commit then updated
         else updated\<lparr>
            run_terminal_page_commit_id := Some (pc_id commit),
            run_terminal_page_ordinal := Some (pc_page_ordinal commit),
            run_terminal_cursor := pc_next_cursor commit,
            run_terminal_reason := pc_terminal_reason commit,
            run_terminal_chain_hash := Some (pc_resulting_chain_hash commit),
            run_completion_ready_at := Some db_now\<rparr>)"

section \<open>The page transaction plan\<close>

definition item_result_value :: "page_item_plan \<Rightarrow> json" where
  "item_result_value item = JObj
     [(''disposition'', JStr (disposition_value (pip_disposition item))),
      (''item_ordinal'', JInt (pip_item_ordinal item)),
      (''normalized_content_hash'', JStr (pip_normalized_content_hash item)),
      (''post_id'', json_opt (\<lambda>u. JStr (uuid_str u)) (pip_post_id item)),
      (''post_version_id'', json_opt (\<lambda>u. JStr (uuid_str u)) (pip_post_version_id item)),
      (''revision'', json_opt JInt (pip_revision item)),
      (''source_post_id'', JStr (item_source_post_id (pip_normalized_item item)))]"

definition page_result_value ::
    "page_commit_request \<Rightarrow> string \<Rightarrow> int \<Rightarrow> page_item_plan list \<Rightarrow> int \<Rightarrow> int \<Rightarrow> int \<Rightarrow> json" where
  "page_result_value request request_hash next_revision items accepted duplicates rejected = JObj
     [(''accepted_count'', JInt accepted),
      (''checkpoint_revision'', JInt next_revision),
      (''duplicate_count'', JInt duplicates),
      (''is_terminal_page'', JBool (req_is_terminal_page request)),
      (''items'', JArr (map item_result_value items)),
      (''next_cursor'', json_opt JStr (req_next_cursor request)),
      (''page_ordinal'', JInt (req_page_ordinal request)),
      (''page_request_hash'', JStr request_hash),
      (''rejected_count'', JInt rejected),
      (''schema'', JStr ''page-result/v1''),
      (''terminal_reason'', json_opt (\<lambda>t. JStr (terminal_reason_value t)) (req_terminal_reason request))]"

definition response_value :: "page_commit_response \<Rightarrow> json" where
  "response_value r = JObj
     [(''page_commit_id'', JStr (uuid_str (rsp_page_commit_id r))),
      (''checkpoint_revision'', JInt (rsp_checkpoint_revision r)),
      (''next_cursor'', json_opt JStr (rsp_next_cursor r)),
      (''accepted_count'', JInt (rsp_accepted_count r)),
      (''duplicate_count'', JInt (rsp_duplicate_count r)),
      (''rejected_count'', JInt (rsp_rejected_count r)),
      (''page_content_hash'', JStr (rsp_page_content_hash r))]"

definition count_disposition :: "page_item_disposition \<Rightarrow> page_item_plan list \<Rightarrow> int" where
  "count_disposition d items = count_where (\<lambda>i. pip_disposition i = d) items"

text \<open>The part of \<open>prepare_page_commit\<close> after validation, for a request whose hash is \<open>request_hash\<close>.\<close>

definition plan_new_page ::
    "page_env \<Rightarrow> page_commit_context \<Rightarrow> page_commit_request \<Rightarrow> normalized_page_item list \<Rightarrow> string \<Rightarrow>
       exc + page_commit_plan" where
  "plan_new_page env context request normalized request_hash =
     (let run = ctx_run context;
          (items, n) = classify_page_items (env_new_id env) (ctx_existing_posts context) normalized;
          accepted = count_disposition Item_ACCEPTED items;
          duplicates = count_disposition Item_DUPLICATE items;
          rejected = count_disposition Item_REJECTED_OVERSIZE items
      in case validate_terminal_cap context request accepted of Inl e \<Rightarrow> Inl e
      | Inr _ \<Rightarrow>
        let commit_id = env_new_id env n;
            next_revision = cp_revision (ctx_checkpoint context) + 1;
            content_hash = canonical_json_hash (env_nfc env)
              (page_result_value request request_hash next_revision items accepted duplicates rejected)
        in case page_chain_link (run_committed_page_hash_chain run) content_hash of Inl e \<Rightarrow> Inl e
        | Inr chain \<Rightarrow>
          let response = \<lparr>rsp_page_commit_id = commit_id, rsp_checkpoint_revision = next_revision,
                rsp_next_cursor = req_next_cursor request, rsp_accepted_count = accepted,
                rsp_duplicate_count = duplicates, rsp_rejected_count = rejected,
                rsp_page_content_hash = content_hash\<rparr>;
              response_bytes = canonical_bytes (env_nfc env) (response_value response);
              commit = \<lparr>pc_id = commit_id, pc_run_id = run_id run, pc_command_id = run_command_id run,
                pc_attempt = run_attempt run, pc_lease_identity_hash = run_lease_identity_hash run,
                pc_page_idempotency_key = req_page_idempotency_key request,
                pc_page_ordinal = req_page_ordinal request,
                pc_expected_checkpoint_revision = req_expected_checkpoint_revision request,
                pc_resulting_checkpoint_revision = next_revision,
                pc_expected_cursor = req_expected_cursor request,
                pc_next_cursor = req_next_cursor request,
                pc_page_request_hash = request_hash, pc_page_content_hash = content_hash,
                pc_previous_chain_hash = run_committed_page_hash_chain run,
                pc_resulting_chain_hash = chain,
                pc_source_page_receipt_sha256 = req_source_page_receipt_sha256 request,
                pc_source_page_item_count = req_source_page_item_count request,
                pc_accepted_count = accepted, pc_duplicate_count = duplicates,
                pc_rejected_count = rejected,
                pc_is_terminal_page = req_is_terminal_page request,
                pc_terminal_reason = req_terminal_reason request,
                pc_stored_response = response_bytes\<rparr>
          in case advance_checkpoint (ctx_checkpoint context) request normalized of Inl e \<Rightarrow> Inl e
          | Inr checkpoint \<Rightarrow>
            Inr \<lparr>plan_commit = commit, plan_items = items, plan_updated_checkpoint = checkpoint,
                 plan_updated_run = advance_run run commit (instant_of (ctx_db_now context)),
                 plan_outcome = \<lparr>pco_status_code = 201, pco_response = response,
                                 pco_response_bytes = response_bytes\<rparr>,
                 plan_should_persist = True\<rparr>)"

definition replay_page ::
    "page_env \<Rightarrow> page_commit_context \<Rightarrow> page_commit_request \<Rightarrow> page_commit_record \<Rightarrow> string \<Rightarrow>
       exc + page_commit_plan" where
  "replay_page env context request replay request_hash =
     (if pc_page_request_hash replay \<noteq> request_hash then raise_code IDEMPOTENCY_KEY_REUSED 409
      else if pc_lease_identity_hash replay \<noteq> hash_token (req_lease_token request)
      then raise_code LEASE_OR_ATTEMPT_MISMATCH 409
      else case env_parse_response env (pc_stored_response replay) of None \<Rightarrow> Inl ValueError
      | Some response \<Rightarrow>
        Inr \<lparr>plan_commit = replay, plan_items = [], plan_updated_checkpoint = ctx_checkpoint context,
             plan_updated_run = ctx_run context,
             plan_outcome = \<lparr>pco_status_code = 200, pco_response = response,
                             pco_response_bytes = pc_stored_response replay\<rparr>,
             plan_should_persist = False\<rparr>)"

definition prepare_page_commit ::
    "page_env \<Rightarrow> page_commit_context \<Rightarrow> page_commit_request \<Rightarrow> exc + page_commit_plan" where
  "prepare_page_commit env context request0 =
     (case server_terminal_request context request0 of Inl e \<Rightarrow> Inl e
      | Inr request \<Rightarrow> (case normalize_page_items (env_nfc env) (req_posts request) of Inl e \<Rightarrow> Inl e
      | Inr normalized \<Rightarrow> (case page_request_hash (env_nfc env) request normalized of Inl e \<Rightarrow> Inl e
      | Inr request_hash \<Rightarrow>
        let run = ctx_run context in
        if \<not> (req_command_id request = run_command_id run \<and> req_attempt request = run_attempt run)
        then raise_code LEASE_OR_ATTEMPT_MISMATCH 409
        else case ctx_existing_idempotency_commit context of
          Some replay \<Rightarrow> replay_page env context request replay request_hash
        | None \<Rightarrow> (case validate_new_page_commit context request of Inl e \<Rightarrow> Inl e
          | Inr _ \<Rightarrow> plan_new_page env context request normalized request_hash))))"

section \<open>What a successful plan implies\<close>

lemma reviewed_capsD:
  assumes "reviewed_caps run = Inr (page_cap, post_cap)"
  shows "run_reviewed_page_cap run = Some page_cap" and "run_reviewed_post_cap run = Some post_cap"
    and "1 \<le> page_cap" and "1 \<le> post_cap"
  using assms by (auto simp: reviewed_caps_def split: option.splits if_splits)

lemma server_terminal_requestD:
  assumes "server_terminal_request context r = Inr r'"
  obtains page_cap post_cap where
    "reviewed_caps (ctx_run context) = Inr (page_cap, post_cap)"
    "r' = (if run_committed_page_count (ctx_run context) + 1 = page_cap \<and> req_terminal_reason r = None
           then r\<lparr>req_is_terminal_page := True, req_terminal_reason := Some REVIEWED_PAGE_CAP\<rparr> else r)"
  using assms by (auto simp: server_terminal_request_def split: sum.splits if_splits)

text \<open>The server only rewrites the terminal marker of a request, and keeps it consistent.\<close>

lemma server_terminal_request_fields:
  assumes "server_terminal_request context r = Inr r'"
  shows "req_command_id r' = req_command_id r" and "req_attempt r' = req_attempt r"
    and "req_lease_token r' = req_lease_token r"
    and "req_page_idempotency_key r' = req_page_idempotency_key r"
    and "req_expected_checkpoint_revision r' = req_expected_checkpoint_revision r"
    and "req_expected_cursor r' = req_expected_cursor r" and "req_next_cursor r' = req_next_cursor r"
    and "req_page_ordinal r' = req_page_ordinal r" and "req_posts r' = req_posts r"
    and "req_source_page_item_count r' = req_source_page_item_count r"
  by (rule server_terminal_requestD [OF assms]; simp)+

lemma server_terminal_request_contract:
  assumes "server_terminal_request context r = Inr r'" and "validate_contract r"
  shows "req_is_terminal_page r' \<longleftrightarrow> req_terminal_reason r' \<noteq> None"
  by (rule server_terminal_requestD [OF assms(1)]) (use assms(2) in \<open>auto simp: validate_contract_def\<close>)

lemma server_terminal_request_at_cap:
  assumes "server_terminal_request context r = Inr r'"
    and "run_reviewed_page_cap (ctx_run context) = Some (run_committed_page_count (ctx_run context) + 1)"
  shows "req_terminal_reason r' \<noteq> None"
  by (rule server_terminal_requestD [OF assms(1)]) (use assms(2) in \<open>auto dest: reviewed_capsD(1)\<close>)

lemma validate_new_page_commitD:
  assumes "validate_new_page_commit context r = Inr ()"
  obtains page_cap where
    "cmd_status (ctx_command context) = Command_RUNNING" "run_status (ctx_run context) = Run_RUNNING"
    "token_matches (req_lease_token r) (cmd_lease_hash (ctx_command context))"
    "hash_token (req_lease_token r) = run_lease_identity_hash (ctx_run context)"
    "ctx_existing_ordinal_commit context = None"
    "run_terminal_page_commit_id (ctx_run context) = None"
    "run_reviewed_page_cap (ctx_run context) = Some page_cap"
    "run_committed_page_count (ctx_run context) < page_cap"
    "req_expected_checkpoint_revision r = cp_revision (ctx_checkpoint context)"
    "req_expected_cursor r = cp_cursor (ctx_checkpoint context)"
    "req_page_ordinal r = run_next_page_ordinal (ctx_run context)"
    "require_active_authorization (ctx_authorization context) (run_source_id (ctx_run context))
       (run_scope_version (ctx_run context)) (ctx_db_now context)
     = Inr (auth_decision_id (ctx_authorization context))"
  using assms
  by (auto simp: validate_new_page_commit_def Let_def
      split: sum.splits option.splits if_splits dest: reviewed_capsD(1))
     (auto simp: require_active_authorization_Inr dest: reviewed_capsD(1))

lemma advance_checkpoint_position:
  assumes "advance_checkpoint cp r items = Inr cp'"
  shows "cp_revision cp' = cp_revision cp + 1" and "cp_cursor cp' = req_next_cursor r"
    and "cp_id cp' = cp_id cp" and "cp_source_id cp' = cp_source_id cp"
    and "cp_scope_version cp' = cp_scope_version cp"
  using assms
  by (auto simp: advance_checkpoint_def Let_def split: if_splits option.splits sum.splits bool.splits)

text \<open>The stored watermark as an option of a pair; \<open>watermark_le\<close> orders "no watermark yet" first.\<close>

definition watermark_wf :: "checkpoint_state \<Rightarrow> bool" where
  "watermark_wf cp \<longleftrightarrow> (cp_watermark_published_at cp = None \<longleftrightarrow> cp_watermark_source_post_id cp = None)"

definition watermark :: "checkpoint_state \<Rightarrow> (instant \<times> string) option" where
  "watermark cp = (case (cp_watermark_published_at cp, cp_watermark_source_post_id cp) of
     (Some p, Some s) \<Rightarrow> Some (p, s) | _ \<Rightarrow> None)"

fun watermark_le :: "(instant \<times> string) option \<Rightarrow> (instant \<times> string) option \<Rightarrow> bool" where
  "watermark_le None _ = True"
| "watermark_le (Some a) (Some b) = (a \<le> b)"
| "watermark_le (Some a) None = False"

lemma watermark_le_trans: "watermark_le a b \<Longrightarrow> watermark_le b c \<Longrightarrow> watermark_le a c"
  by (cases a; cases b; cases c) auto

lemma watermark_le_refl [simp]: "watermark_le a a"
  by (cases a) auto

lemma watermark_exceeds_Some:
  "watermark_exceeds c p (Some s) = Inr ((p, s) < c)"
  by (cases c) (auto simp: watermark_exceeds_def less_prod_def)

lemma advance_checkpoint_watermark:
  assumes "watermark_wf cp"
  obtains cp' where "advance_checkpoint cp r items = Inr cp'" "watermark_wf cp'"
    "watermark_le (watermark cp) (watermark cp')"
    "\<forall>c \<in> set (List.map_filter watermark_candidate items). watermark_le (Some c) (watermark cp')"
proof -
  let ?cs = "List.map_filter watermark_candidate items"
  have max: "\<forall>c \<in> set ?cs. c \<le> Max (set ?cs)" by simp
  show thesis
  proof (cases "cp_watermark_published_at cp")
    case None
    with assms have "cp_watermark_source_post_id cp = None" by (simp add: watermark_wf_def)
    with None max show thesis
      by (intro that [of "the_inv Inr (advance_checkpoint cp r items)"])
         (auto simp: advance_checkpoint_def Let_def the_inv_f_f watermark_wf_def watermark_def)
  next
    case (Some p)
    with assms obtain s where s: "cp_watermark_source_post_id cp = Some s"
      by (auto simp: watermark_wf_def)
    have keep: "\<not> (p, s) < Max (set ?cs) \<Longrightarrow> \<forall>c \<in> set ?cs. c \<le> (p, s)"
      using max by (meson not_less order_trans)
    from Some s max keep show thesis
      by (intro that [of "the_inv Inr (advance_checkpoint cp r items)"])
         (auto simp: advance_checkpoint_def Let_def the_inv_f_f watermark_wf_def watermark_def
               watermark_exceeds_Some split: bool.split)
  qed
qed

section \<open>Item plans\<close>

text \<open>What each planned item looks like, relative to the revisions that were locked: a rejection carries no
  identity, a duplicate points at the unchanged current version, an accepted edit is the next revision of
  the same post and an accepted new post starts at revision one.\<close>

definition item_plan_ok :: "existing_post_version list \<Rightarrow> page_item_plan \<Rightarrow> bool" where
  "item_plan_ok existing plan \<longleftrightarrow>
     (case pip_normalized_item plan of
        OversizeRejection item \<Rightarrow>
          pip_disposition plan = Item_REJECTED_OVERSIZE \<and> pip_post_id plan = None
          \<and> pip_post_version_id plan = None \<and> pip_revision plan = None
          \<and> pip_normalized_content_hash plan = or_content_hash item
      | NormalizedPost item \<Rightarrow>
          pip_normalized_content_hash plan = np_content_hash item
          \<and> (case List.find (\<lambda>row. ex_source_post_id row = np_source_post_id item) existing of
               None \<Rightarrow> pip_disposition plan = Item_ACCEPTED \<and> pip_revision plan = Some 1
                       \<and> pip_post_id plan \<noteq> None \<and> pip_post_version_id plan \<noteq> None
             | Some current \<Rightarrow> pip_post_id plan = Some (ex_post_id current)
                 \<and> (if ex_current_content_hash current = np_content_hash item
                    then pip_disposition plan = Item_DUPLICATE
                         \<and> pip_post_version_id plan = Some (ex_current_version_id current)
                         \<and> pip_revision plan = Some (ex_current_revision current)
                    else pip_disposition plan = Item_ACCEPTED \<and> pip_post_version_id plan \<noteq> None
                         \<and> pip_revision plan = Some (ex_current_revision current + 1))))"

lemmas item_plan_ok_make = item_plan_ok_def [of existing
    "\<lparr>pip_item_ordinal = ordinal, pip_disposition = d, pip_normalized_item = item,
      pip_normalized_content_hash = h, pip_post_id = p, pip_post_version_id = v, pip_revision = rev\<rparr>"]
  for existing ordinal d item h p v rev

lemma classify_from_plans:
  "classify_from new_id existing ordinal n items = (plans, n') \<Longrightarrow>
     map pip_normalized_item plans = items \<and> list_all (item_plan_ok existing) plans"
proof (induction new_id existing ordinal n items arbitrary: plans n' rule: classify_from.induct)
  case (1 new_id existing ordinal n)
  then show ?case by simp
next
  case (2 new_id existing ordinal n item items)
  then show ?case by (auto simp: item_plan_ok_make split: prod.splits)
next
  case (3 new_id existing ordinal n item items)
  show ?case
  proof (cases "List.find (\<lambda>row. ex_source_post_id row = np_source_post_id item) existing")
    case None
    with 3 show ?thesis by (auto simp: item_plan_ok_make split: prod.splits)
  next
    case (Some current)
    with 3 show ?thesis
      by (cases "ex_current_content_hash current = np_content_hash item")
         (auto simp: item_plan_ok_make split: prod.splits)
  qed
qed

lemma classify_page_itemsD:
  assumes "classify_page_items new_id existing items = (plans, n)"
  shows "map pip_normalized_item plans = items" and "list_all (item_plan_ok existing) plans"
    and "length plans = length items"
  using classify_from_plans [OF assms [unfolded classify_page_items_def]] by auto

lemma disposition_partition:
  "count_disposition Item_ACCEPTED plans + count_disposition Item_DUPLICATE plans
     + count_disposition Item_REJECTED_OVERSIZE plans = int (length plans)"
proof (induction plans)
  case Nil
  then show ?case by (simp add: count_disposition_def)
next
  case (Cons p plans)
  then show ?case by (cases "pip_disposition p") (simp_all add: count_disposition_def)
qed

section \<open>Inversion of a planned page\<close>

lemma page_chain_link_hash:
  "fromhex h = Some p \<Longrightarrow>
     page_chain_link h (canonical_json_hash nfc v)
     = Inr (sha256_hex (''page-chain-link/v1'' @ [CHR 0x0A] @ p @ sha256 (canonical_json_bytes nfc v)))"
  by (simp add: page_chain_link_def)

lemma plan_new_pageD:
  assumes "plan_new_page env context r normalized request_hash = Inr plan"
  obtains items n chain content_hash checkpoint where
    "classify_page_items (env_new_id env) (ctx_existing_posts context) normalized = (items, n)"
    "validate_terminal_cap context r (count_disposition Item_ACCEPTED items) = Inr ()"
    "content_hash = canonical_json_hash (env_nfc env)
       (page_result_value r request_hash (cp_revision (ctx_checkpoint context) + 1) items
          (count_disposition Item_ACCEPTED items) (count_disposition Item_DUPLICATE items)
          (count_disposition Item_REJECTED_OVERSIZE items))"
    "page_chain_link (run_committed_page_hash_chain (ctx_run context)) content_hash = Inr chain"
    "advance_checkpoint (ctx_checkpoint context) r normalized = Inr checkpoint"
    "plan_items plan = items" "plan_should_persist plan" "plan_updated_checkpoint plan = checkpoint"
    "plan_updated_run plan
       = advance_run (ctx_run context) (plan_commit plan) (instant_of (ctx_db_now context))"
    "pc_id (plan_commit plan) = env_new_id env n" "pc_run_id (plan_commit plan) = run_id (ctx_run context)"
    "pc_lease_identity_hash (plan_commit plan) = run_lease_identity_hash (ctx_run context)"
    "pc_page_idempotency_key (plan_commit plan) = req_page_idempotency_key r"
    "pc_page_ordinal (plan_commit plan) = req_page_ordinal r"
    "pc_expected_checkpoint_revision (plan_commit plan) = req_expected_checkpoint_revision r"
    "pc_resulting_checkpoint_revision (plan_commit plan) = cp_revision (ctx_checkpoint context) + 1"
    "pc_next_cursor (plan_commit plan) = req_next_cursor r"
    "pc_page_request_hash (plan_commit plan) = request_hash"
    "pc_page_content_hash (plan_commit plan) = content_hash"
    "pc_previous_chain_hash (plan_commit plan) = run_committed_page_hash_chain (ctx_run context)"
    "pc_resulting_chain_hash (plan_commit plan) = chain"
    "pc_source_page_item_count (plan_commit plan) = req_source_page_item_count r"
    "pc_accepted_count (plan_commit plan) = count_disposition Item_ACCEPTED items"
    "pc_duplicate_count (plan_commit plan) = count_disposition Item_DUPLICATE items"
    "pc_rejected_count (plan_commit plan) = count_disposition Item_REJECTED_OVERSIZE items"
    "pc_is_terminal_page (plan_commit plan) = req_is_terminal_page r"
    "pc_terminal_reason (plan_commit plan) = req_terminal_reason r"
    "pc_stored_response (plan_commit plan) = pco_response_bytes (plan_outcome plan)"
    "pco_status_code (plan_outcome plan) = 201"
proof -
  obtain items n where cl: "classify_page_items (env_new_id env) (ctx_existing_posts context) normalized = (items, n)"
    by (cases "classify_page_items (env_new_id env) (ctx_existing_posts context) normalized")
  show thesis
    using assms cl by (auto simp: plan_new_page_def Let_def split: sum.splits intro: that)
qed

lemma replay_pageD:
  assumes "replay_page env context r replay request_hash = Inr plan"
  shows "\<not> plan_should_persist plan" and "pco_status_code (plan_outcome plan) = 200"
    and "pco_response_bytes (plan_outcome plan) = pc_stored_response replay"
    and "pc_page_request_hash replay = request_hash"
  using assms by (auto simp: replay_page_def split: if_splits option.splits)

text \<open>A plan that is persisted passed every guard; a plan that is not is the replay of a stored commit.\<close>

lemma prepare_page_commitD:
  assumes "prepare_page_commit env context r = Inr plan"
  obtains (new) r' normalized request_hash where
      "server_terminal_request context r = Inr r'"
      "normalize_page_items (env_nfc env) (req_posts r) = Inr normalized"
      "page_request_hash (env_nfc env) r' normalized = Inr request_hash"
      "req_command_id r = run_command_id (ctx_run context)" "req_attempt r = run_attempt (ctx_run context)"
      "ctx_existing_idempotency_commit context = None"
      "validate_new_page_commit context r' = Inr ()"
      "plan_new_page env context r' normalized request_hash = Inr plan"
  | (replay) r' normalized request_hash c where
      "server_terminal_request context r = Inr r'"
      "normalize_page_items (env_nfc env) (req_posts r) = Inr normalized"
      "page_request_hash (env_nfc env) r' normalized = Inr request_hash"
      "ctx_existing_idempotency_commit context = Some c"
      "replay_page env context r' c request_hash = Inr plan"
proof -
  obtain r' where r': "server_terminal_request context r = Inr r'"
    using assms by (auto simp: prepare_page_commit_def split: sum.splits)
  note same = server_terminal_request_fields [OF r']
  from assms r' show thesis
    by (auto simp: prepare_page_commit_def Let_def same split: sum.splits option.splits if_splits
        intro: new replay)
qed

end
