(* ===== verification/Completion.thy ===== *)
theory Completion
  imports Pages
begin

text \<open>
  \<open>collection/completion_models.py\<close>, \<open>completion_failure.py\<close>, \<open>completion.py\<close> and \<open>recovery.py\<close>: finalising all
  runs of a command from persisted facts, and the same finalisation driven by the server when the collector
  has gone away.

  The parameter \<open>dt\<close> is Pydantic's JSON text of a \<open>datetime\<close>, which only enters the request hash.
\<close>

section \<open>Models\<close>

datatype failure_class = Failure_RETRYABLE | Failure_TERMINAL

fun failure_class_value :: "failure_class \<Rightarrow> string" where
  "failure_class_value Failure_RETRYABLE = ''retryable''"
| "failure_class_value Failure_TERMINAL = ''terminal''"

record failure_detail =
  fd_class :: failure_class
  fd_code :: string
  fd_fingerprint :: string
  fd_observed_at :: datetime
  fd_retry_after_at :: "datetime option"

record completion_source_outcome =
  so_run_id :: uuid
  so_terminal_status :: run_status
  so_last_page_commit_id :: "uuid option"
  so_final_cursor :: "string option"
  so_final_page_ordinal :: "int option"
  so_committed_page_count :: int
  so_committed_page_hash_chain :: string
  so_skip_decision_id :: "uuid option"
  so_failure :: "failure_detail option"

record completion_request =
  cq_completion_idempotency_key :: uuid
  cq_attempt :: int
  cq_lease_token :: string
  cq_source_outcomes :: "completion_source_outcome list"

record observed_post_version =
  opv_id :: uuid
  opv_content_hash :: string

record skip_decision_proof =
  sdp_id :: uuid
  sdp_terminal_status :: run_status

record run_completion_facts =
  fact_run :: run_state
  fact_checkpoint :: checkpoint_state
  fact_commits :: "page_commit_record list"
  fact_observed_post_versions :: "observed_post_version list"
  fact_skip_decision :: "skip_decision_proof option"

record completion_context =
  cc_command :: command_state
  cc_runs :: "run_completion_facts list"
  cc_db_now :: datetime

record publication_draft =
  pub_run_id :: uuid
  pub_source_id :: uuid
  pub_terminal_page_commit_id :: uuid
  pub_final_chain_hash :: string
  pub_post_set_hash :: string
  pub_distinct_post_version_count :: int
  pub_zero_post :: bool

record completion_plan =
  cpl_request_hash :: string
  cpl_command_status :: command_status
  cpl_runs :: "run_state list"
  cpl_publications :: "publication_draft list"
  cpl_completed_at :: instant

definition failure_value :: "(datetime \<Rightarrow> string) \<Rightarrow> failure_detail \<Rightarrow> json" where
  "failure_value dt f = JObj
     [(''class'', JStr (failure_class_value (fd_class f))), (''code'', JStr (fd_code f)),
      (''fingerprint'', JStr (fd_fingerprint f)), (''observed_at'', JStr (dt (fd_observed_at f))),
      (''retry_after_at'', json_opt (\<lambda>d. JStr (dt d)) (fd_retry_after_at f))]"

definition outcome_value :: "(datetime \<Rightarrow> string) \<Rightarrow> completion_source_outcome \<Rightarrow> json" where
  "outcome_value dt o1 = JObj
     [(''run_id'', JStr (uuid_str (so_run_id o1))),
      (''terminal_status'', JStr (run_status_value (so_terminal_status o1))),
      (''last_page_commit_id'', json_opt (\<lambda>u. JStr (uuid_str u)) (so_last_page_commit_id o1)),
      (''final_cursor'', json_opt JStr (so_final_cursor o1)),
      (''final_page_ordinal'', json_opt JInt (so_final_page_ordinal o1)),
      (''committed_page_count'', JInt (so_committed_page_count o1)),
      (''committed_page_hash_chain'', JStr (so_committed_page_hash_chain o1)),
      (''skip_decision_id'', json_opt (\<lambda>u. JStr (uuid_str u)) (so_skip_decision_id o1)),
      (''failure'', json_opt (failure_value dt) (so_failure o1))]"

definition completion_outcomes_hash ::
    "(string \<Rightarrow> string) \<Rightarrow> (datetime \<Rightarrow> string) \<Rightarrow> int \<Rightarrow> completion_source_outcome list \<Rightarrow> string" where
  "completion_outcomes_hash nfc dt attempt source_outcomes =
     canonical_sha256 nfc (JObj
       [(''attempt'', JInt attempt),
        (''source_outcomes'',
          JArr (map (outcome_value dt) (sort_key (\<lambda>i. uuid_hex (so_run_id i)) source_outcomes)))])"

definition completion_request_hash ::
    "(string \<Rightarrow> string) \<Rightarrow> (datetime \<Rightarrow> string) \<Rightarrow> completion_request \<Rightarrow> string" where
  "completion_request_hash nfc dt request =
     completion_outcomes_hash nfc dt (cq_attempt request) (cq_source_outcomes request)"

section \<open>Failure facts\<close>

definition RETRYABLE_CODES :: "string set" where
  "RETRYABLE_CODES = {''network'', ''stale_abandoned'', ''timeout'', ''provider_temporarily_unavailable''}"

definition TERMINAL_CODES :: "string set" where
  "TERMINAL_CODES = {''normalization_invalid'', ''provider_contract_invalid'',
                     ''provider_terminal_http_error'', ''stale_abandoned''}"

definition verify_failure :: "run_completion_facts \<Rightarrow> completion_source_outcome \<Rightarrow> exc + unit" where
  "verify_failure facts outcome =
     (let check = (\<lambda>cls codes. case so_failure outcome of None \<Rightarrow> False
                     | Some f \<Rightarrow> fd_class f = cls \<and> fd_code f \<in> codes);
          finish = (\<lambda>valid. if run_terminal_page_commit_id (fact_run facts) \<noteq> None
                       \<or> so_skip_decision_id outcome \<noteq> None \<or> \<not> valid
                     then raise_code COMPLETION_MISMATCH 409 else Inr ())
      in case so_terminal_status outcome of
           Run_FAILED_RETRYABLE \<Rightarrow> finish (check Failure_RETRYABLE RETRYABLE_CODES)
         | Run_FAILED_TERMINAL \<Rightarrow> finish (check Failure_TERMINAL TERMINAL_CODES)
         | _ \<Rightarrow> raise_code INVALID_TRANSITION 409)"

section \<open>Persisted chain\<close>

text \<open>One iteration of the loop of \<open>_verify_persisted_chain\<close>; the state is the expected ordinal and the chain
  digest so far.\<close>

definition chain_check :: "uuid \<Rightarrow> int \<times> string \<Rightarrow> page_commit_record \<Rightarrow> exc + int \<times> string" where
  "chain_check rid st commit =
     (case st of (ordinal, chain) \<Rightarrow>
        (case page_chain_link chain (pc_page_content_hash commit) of Inl e \<Rightarrow> Inl e
         | Inr expected_link \<Rightarrow>
           if \<not> (pc_run_id commit = rid \<and> pc_page_ordinal commit = ordinal
                 \<and> pc_previous_chain_hash commit = chain
                 \<and> pc_resulting_chain_hash commit = expected_link)
           then raise_code COMPLETION_MISMATCH 409
           else Inr (ordinal + 1, expected_link)))"

definition last_opt :: "'a list \<Rightarrow> 'a option" where
  "last_opt xs = (if xs = [] then None else Some (last xs))"

definition verify_persisted_chain ::
    "run_completion_facts \<Rightarrow> completion_source_outcome \<Rightarrow> exc + unit" where
  "verify_persisted_chain facts outcome =
     (let run = fact_run facts; commits = sort_key pc_page_ordinal (fact_commits facts) in
      case fold_result (chain_check (run_id run)) (0, run_genesis_chain_hash run) commits of Inl e \<Rightarrow> Inl e
      | Inr (_, chain) \<Rightarrow>
        let last_commit = last_opt commits;
            n = int (length commits);
            cursor = (case last_commit of Some l \<Rightarrow> pc_next_cursor l | None \<Rightarrow> run_start_cursor run)
        in if so_committed_page_count outcome = n \<and> n = run_committed_page_count run
              \<and> so_committed_page_hash_chain outcome = chain
              \<and> chain = run_committed_page_hash_chain run
              \<and> so_last_page_commit_id outcome = map_option pc_id last_commit
              \<and> so_final_page_ordinal outcome = map_option pc_page_ordinal last_commit
              \<and> so_final_cursor outcome = cp_cursor (fact_checkpoint facts)
              \<and> cp_cursor (fact_checkpoint facts) = cursor
              \<and> run_page_reservation_id run = None
           then Inr () else raise_code COMPLETION_MISMATCH 409)"

section \<open>Planning the finalisation\<close>

definition post_set_value :: "(uuid \<times> string) list \<Rightarrow> json" where
  "post_set_value versions = JArr (map (\<lambda>(v, h). JObj
     [(''content_hash'', JStr h), (''post_version_id'', JStr (uuid_str v))]) versions)"

definition distinct_versions :: "observed_post_version list \<Rightarrow> (uuid \<times> string) list" where
  "distinct_versions vs = sort_key (\<lambda>i. uuid_str (fst i)) (remdups (map (\<lambda>i. (opv_id i, opv_content_hash i)) vs))"

definition success_publication ::
    "(string \<Rightarrow> string) \<Rightarrow> run_completion_facts \<Rightarrow> completion_source_outcome \<Rightarrow> exc + publication_draft" where
  "success_publication nfc facts outcome =
     (let run = fact_run facts in
      case run_terminal_page_commit_id run of
        None \<Rightarrow> raise_code TERMINAL_PAGE_MISSING 409
      | Some terminal_id \<Rightarrow>
        if fact_commits facts = [] then raise_code TERMINAL_PAGE_MISSING 409
        else let final_commit = last (fact_commits facts) in
        if \<not> (so_last_page_commit_id outcome = run_terminal_page_commit_id run
              \<and> so_final_page_ordinal outcome = run_terminal_page_ordinal run
              \<and> so_final_cursor outcome = run_terminal_cursor run
              \<and> Some (so_committed_page_hash_chain outcome) = run_terminal_chain_hash run
              \<and> pc_is_terminal_page final_commit
              \<and> pc_terminal_reason final_commit = run_terminal_reason run
              \<and> cp_revision (fact_checkpoint facts) = pc_resulting_checkpoint_revision final_commit
              \<and> so_skip_decision_id outcome = None \<and> so_failure outcome = None)
        then raise_code COMPLETION_MISMATCH 409
        else let versions = distinct_versions (fact_observed_post_versions facts) in
          Inr \<lparr>pub_run_id = run_id run, pub_source_id = run_source_id run,
               pub_terminal_page_commit_id = terminal_id,
               pub_final_chain_hash = (case run_terminal_chain_hash run of
                   Some h \<Rightarrow> if h \<noteq> [] then h else run_committed_page_hash_chain run
                 | None \<Rightarrow> run_committed_page_hash_chain run),
               pub_post_set_hash = canonical_json_hash nfc (post_set_value versions),
               pub_distinct_post_version_count = int (length versions),
               pub_zero_post = (versions = [])\<rparr>)"

definition verify_skip :: "run_completion_facts \<Rightarrow> completion_source_outcome \<Rightarrow> exc + unit" where
  "verify_skip facts outcome =
     (if (case fact_skip_decision facts of None \<Rightarrow> False
          | Some proof' \<Rightarrow> Some (sdp_id proof') = so_skip_decision_id outcome
              \<and> sdp_terminal_status proof' = so_terminal_status outcome)
         \<and> fact_commits facts = [] \<and> run_terminal_page_commit_id (fact_run facts) = None
         \<and> so_failure outcome = None
      then Inr () else raise_code COMPLETION_MISMATCH 409)"

definition opt_utc :: "datetime option \<Rightarrow> exc + instant option" where
  "opt_utc d = (case d of None \<Rightarrow> Inr None
     | Some x \<Rightarrow> (case require_utc x of Inl e \<Rightarrow> Inl e | Inr t \<Rightarrow> Inr (Some t)))"

definition prepare_run ::
    "(string \<Rightarrow> string) \<Rightarrow> command_state \<Rightarrow> run_completion_facts \<Rightarrow> completion_source_outcome \<Rightarrow> instant \<Rightarrow>
       exc + run_state \<times> publication_draft option" where
  "prepare_run nfc command facts outcome now =
     (let run = fact_run facts in
      if run_command_id run \<noteq> cmd_id command \<or> run_attempt run \<noteq> cmd_attempt command
         \<or> run_status run \<noteq> Run_RUNNING
      then raise_code LEASE_OR_ATTEMPT_MISMATCH 409
      else case (case so_terminal_status outcome of
            Run_SUCCEEDED \<Rightarrow>
              if run_terminal_page_commit_id run = None then raise_code TERMINAL_PAGE_MISSING 409
              else (case verify_persisted_chain facts outcome of Inl e \<Rightarrow> Inl e
                | Inr _ \<Rightarrow> (case success_publication nfc facts outcome of Inl e \<Rightarrow> Inl e
                  | Inr p \<Rightarrow> Inr (Some p)))
          | Run_SKIPPED_POLICY \<Rightarrow>
              (case verify_persisted_chain facts outcome of Inl e \<Rightarrow> Inl e
               | Inr _ \<Rightarrow> (case verify_skip facts outcome of Inl e \<Rightarrow> Inl e | Inr _ \<Rightarrow> Inr None))
          | Run_SKIPPED_QUOTA \<Rightarrow>
              (case verify_persisted_chain facts outcome of Inl e \<Rightarrow> Inl e
               | Inr _ \<Rightarrow> (case verify_skip facts outcome of Inl e \<Rightarrow> Inl e | Inr _ \<Rightarrow> Inr None))
          | Run_FAILED_RETRYABLE \<Rightarrow>
              (case verify_persisted_chain facts outcome of Inl e \<Rightarrow> Inl e
               | Inr _ \<Rightarrow> (case verify_failure facts outcome of Inl e \<Rightarrow> Inl e | Inr _ \<Rightarrow> Inr None))
          | Run_FAILED_TERMINAL \<Rightarrow>
              (case verify_persisted_chain facts outcome of Inl e \<Rightarrow> Inl e
               | Inr _ \<Rightarrow> (case verify_failure facts outcome of Inl e \<Rightarrow> Inl e | Inr _ \<Rightarrow> Inr None))
          | _ \<Rightarrow> raise_code INVALID_TRANSITION 409) of Inl e \<Rightarrow> Inl e
      | Inr publication \<Rightarrow>
        let failure = so_failure outcome in
        (case opt_utc (map_option fd_observed_at failure) of Inl e \<Rightarrow> Inl e
         | Inr observed \<Rightarrow>
           (case opt_utc (Option.bind failure fd_retry_after_at) of Inl e \<Rightarrow> Inl e
            | Inr retry_at \<Rightarrow>
              Inr (run\<lparr>run_status := so_terminal_status outcome,
                   run_failure_class := map_option (\<lambda>f. failure_class_value (fd_class f)) failure,
                   run_failure_code := map_option fd_code failure,
                   run_failure_fingerprint := map_option fd_fingerprint failure,
                   run_failure_observed_at := observed,
                   run_retry_after_at := retry_at,
                   run_finalized_at := Some now, run_finished_at := Some now\<rparr>, publication))))"

text \<open>The dictionaries of the source keep the last value of a repeated key; the length test refuses repeats
  before any lookup.\<close>

definition prepare_server_completion ::
    "(string \<Rightarrow> string) \<Rightarrow> completion_context \<Rightarrow> completion_source_outcome list \<Rightarrow> string \<Rightarrow>
       exc + completion_plan" where
  "prepare_server_completion nfc context source_outcomes request_hash =
     (case require_utc (cc_db_now context) of Inl e \<Rightarrow> Inl e
      | Inr now \<Rightarrow>
        if cmd_status (cc_command context) \<noteq> Command_RUNNING then raise_code INVALID_TRANSITION 409
        else let fact_ids = map (\<lambda>f. run_id (fact_run f)) (cc_runs context);
                 outcome_ids = map so_run_id source_outcomes in
        if \<not> distinct fact_ids \<or> \<not> distinct outcome_ids \<or> set fact_ids \<noteq> set outcome_ids
        then raise_code RUN_SET_MISMATCH 409
        else (case seq_result (\<lambda>facts.
                case map_of (map (\<lambda>o1. (so_run_id o1, o1)) source_outcomes) (run_id (fact_run facts)) of
                  None \<Rightarrow> raise_code RUN_SET_MISMATCH 409
                | Some outcome \<Rightarrow> prepare_run nfc (cc_command context) facts outcome now)
                (sort_key (\<lambda>f. uuid_hex (run_id (fact_run f))) (cc_runs context)) of Inl e \<Rightarrow> Inl e
              | Inr results \<Rightarrow>
                (case aggregate_command_status (map (\<lambda>(run, _). run_status run) results) of Inl e \<Rightarrow> Inl e
                 | Inr status \<Rightarrow>
                   Inr \<lparr>cpl_request_hash = request_hash, cpl_command_status = status,
                        cpl_runs = map fst results,
                        cpl_publications = List.map_filter snd results,
                        cpl_completed_at = now\<rparr>)))"

definition prepare_completion ::
    "(string \<Rightarrow> string) \<Rightarrow> (datetime \<Rightarrow> string) \<Rightarrow> completion_context \<Rightarrow> completion_request \<Rightarrow>
       exc + completion_plan" where
  "prepare_completion nfc dt context request =
     (if \<not> (cmd_status (cc_command context) = Command_RUNNING
             \<and> cmd_attempt (cc_command context) = cq_attempt request
             \<and> token_matches (cq_lease_token request) (cmd_lease_hash (cc_command context)))
      then raise_code LEASE_OR_ATTEMPT_MISMATCH 409
      else prepare_server_completion nfc context (cq_source_outcomes request)
             (completion_request_hash nfc dt request))"

section \<open>Recovery of abandoned commands\<close>

definition require_recoverable_status :: "command_status \<Rightarrow> exc + unit" where
  "require_recoverable_status status =
     (if status \<in> {Command_RUNNING, Command_STALE_ABANDONED} then Inr ()
      else raise_code INVALID_TRANSITION 409)"

definition release_stale :: "completion_context \<Rightarrow> string \<Rightarrow> exc + command_state option" where
  "release_stale context retry_jitter_key =
     (let check = \<lparr>chk_db_now = cc_db_now context, chk_completion_ready = False,
                   chk_retry_jitter_key = retry_jitter_key\<rparr> in
      case mark_stale (cc_command context) check of Inl e \<Rightarrow> Inl e
      | Inr released \<Rightarrow>
        (case cmd_status released of
           Command_RUNNING \<Rightarrow> Inr None
         | Command_STALE_ABANDONED \<Rightarrow>
             (case mark_stale released check of Inl e \<Rightarrow> Inl e | Inr r \<Rightarrow> Inr (Some r))
         | Command_FAILED_RETRYABLE \<Rightarrow> Inr (Some released)
         | Command_FAILED_TERMINAL \<Rightarrow> Inr (Some released)
         | _ \<Rightarrow> raise_code INVALID_TRANSITION 409))"

definition released_facts :: "command_state option \<Rightarrow> exc + command_status option \<times> instant option" where
  "released_facts released =
     (case released of None \<Rightarrow> Inr (None, None)
      | Some c \<Rightarrow>
        (case cmd_status c of
           Command_FAILED_RETRYABLE \<Rightarrow> Inr (Some (cmd_status c), Some (cmd_available_at c))
         | Command_FAILED_TERMINAL \<Rightarrow> Inr (Some (cmd_status c), None)
         | _ \<Rightarrow> raise_code INVALID_TRANSITION 409))"

definition stale_failure ::
    "run_state \<Rightarrow> failure_class \<Rightarrow> datetime \<Rightarrow> instant option \<Rightarrow> failure_detail" where
  "stale_failure run cls observed_at retry_after_at =
     \<lparr>fd_class = cls, fd_code = ''stale_abandoned'',
      fd_fingerprint = sha256_hex (uuid_str (run_command_id run) @ '':'' @ show_int (run_attempt run)
                                   @ '':stale''),
      fd_observed_at = observed_at,
      fd_retry_after_at = map_option (\<lambda>t. Aware t 0) retry_after_at\<rparr>"

definition recovery_outcome ::
    "run_completion_facts \<Rightarrow> command_status option \<Rightarrow> datetime \<Rightarrow> instant option \<Rightarrow>
       exc + completion_source_outcome" where
  "recovery_outcome facts released_status observed_at retry_after_at =
     (let run = fact_run facts;
          outcome = (\<lambda>status failure.
            \<lparr>so_run_id = run_id run, so_terminal_status = status,
             so_last_page_commit_id = run_last_page_commit_id run,
             so_final_cursor = run_final_cursor run,
             so_final_page_ordinal = run_final_page_ordinal run,
             so_committed_page_count = run_committed_page_count run,
             so_committed_page_hash_chain = run_committed_page_hash_chain run,
             so_skip_decision_id = None, so_failure = failure\<rparr>)
      in if run_completion_ready_at run \<noteq> None then Inr (outcome Run_SUCCEEDED None)
         else case released_status of
           Some Command_FAILED_RETRYABLE \<Rightarrow>
             Inr (outcome Run_FAILED_RETRYABLE
                    (Some (stale_failure run Failure_RETRYABLE observed_at retry_after_at)))
         | Some Command_FAILED_TERMINAL \<Rightarrow>
             Inr (outcome Run_FAILED_TERMINAL
                    (Some (stale_failure run Failure_TERMINAL observed_at retry_after_at)))
         | _ \<Rightarrow> raise_code INVALID_TRANSITION 409)"

definition prepare_stale_recovery ::
    "(string \<Rightarrow> string) \<Rightarrow> (datetime \<Rightarrow> string) \<Rightarrow> completion_context \<Rightarrow> string \<Rightarrow>
       exc + completion_plan option" where
  "prepare_stale_recovery nfc dt context retry_jitter_key =
     (case require_recoverable_status (cmd_status (cc_command context)) of Inl e \<Rightarrow> Inl e
      | Inr _ \<Rightarrow>
        if cc_runs context = [] then Inr None
        else let ready = map (\<lambda>f. run_completion_ready_at (fact_run f) \<noteq> None) (cc_runs context) in
        (case (if list_all id ready then Inr None else release_stale context retry_jitter_key) of
           Inl e \<Rightarrow> Inl e
         | Inr released \<Rightarrow>
           if \<not> list_all id ready \<and> released = None then Inr None
           else (case released_facts released of Inl e \<Rightarrow> Inl e
             | Inr (released_status, retry_after_at) \<Rightarrow>
               (case seq_result (\<lambda>f. recovery_outcome f released_status (cc_db_now context) retry_after_at)
                       (cc_runs context) of Inl e \<Rightarrow> Inl e
                | Inr outcomes \<Rightarrow>
                  (case prepare_server_completion nfc context outcomes
                          (completion_outcomes_hash nfc dt (cmd_attempt (cc_command context)) outcomes) of
                     Inl e \<Rightarrow> Inl e
                   | Inr plan \<Rightarrow>
                     if released_status = Some Command_FAILED_RETRYABLE \<and> list_ex id ready
                     then Inr (Some (plan\<lparr>cpl_command_status := Command_FAILED_RETRYABLE\<rparr>))
                     else Inr (Some plan))))))"

section \<open>The verified chain\<close>

lemma chain_checkD:
  assumes "chain_check rid (k, h) c = Inr st"
  obtains link where "st = (k + 1, link)" "page_chain_link h (pc_page_content_hash c) = Inr link"
    "pc_run_id c = rid" "pc_page_ordinal c = k" "pc_previous_chain_hash c = h" "pc_resulting_chain_hash c = link"
  using assms by (auto simp: chain_check_def split: sum.splits if_splits)

lemma chain_ordinals:
  "fold_result (chain_check rid) (k, h) commits = Inr (m, h') \<Longrightarrow>
     m = k + int (length commits) \<and> (\<forall>i < length commits. pc_page_ordinal (commits ! i) = k + int i)"
proof (induction commits arbitrary: k h)
  case Nil
  then show ?case by simp
next
  case (Cons c commits)
  then obtain link where c: "chain_check rid (k, h) c = Inr (k + 1, link)" "pc_page_ordinal c = k"
    by (auto split: sum.splits elim: chain_checkD)
  with Cons.prems Cons.IH [of "k + 1" link] show ?case
    by (auto simp: nth_Cons split: nat.splits)
qed

lemma chain_sorted:
  assumes "fold_result (chain_check rid) (k, h) commits = Inr st"
  shows "sort_key pc_page_ordinal commits = commits"
proof -
  obtain m h' where "st = (m, h')" by (cases st)
  with assms chain_ordinals [of rid k h commits m h'] show ?thesis
    by (intro sort_key_id_if_sorted) (auto simp: sorted_iff_nth_mono)
qed

lemma chain_digest_hex:
  "fold_result (chain_check rid) (k, h) commits = Inr (m, h') \<Longrightarrow> commits \<noteq> [] \<Longrightarrow>
     \<exists>bytes. h' = hexdigest (sha256 bytes)"
proof (induction commits arbitrary: k h)
  case (Cons c commits)
  then obtain link where c: "chain_check rid (k, h) c = Inr (k + 1, link)"
      "page_chain_link h (pc_page_content_hash c) = Inr link"
    by (auto split: sum.splits elim: chain_checkD)
  then have "\<exists>bytes. link = hexdigest (sha256 bytes)"
    by (auto simp: page_chain_link_def sha256_hex_def simp del: append.simps split: option.splits)
  with Cons c(1) show ?case by (cases "commits = []") auto
qed simp

text \<open>The bytes that a commit's chain digest is computed over.\<close>

definition link_preimage :: "page_commit_record \<Rightarrow> string" where
  "link_preimage c = ''page-chain-link/v1'' @ [CHR 0x0A]
     @ the (fromhex (pc_previous_chain_hash c)) @ the (fromhex (pc_page_content_hash c))"

lemma chain_check_preimage:
  assumes "chain_check rid (k, h) c = Inr st"
  shows "snd st = sha256_hex (link_preimage c)"
proof -
  from assms obtain link where l: "snd st = link" "page_chain_link h (pc_page_content_hash c) = Inr link"
    "pc_previous_chain_hash c = h" by (auto elim: chain_checkD)
  then obtain p q where "fromhex h = Some p" "fromhex (pc_page_content_hash c) = Some q"
    by (auto simp: page_chain_link_def split: option.splits)
  with l show ?thesis by (simp add: link_preimage_def page_chain_link_def)
qed

text \<open>Two lists of commits collide at a position when their link preimages differ but hash alike.\<close>

definition collides_at :: "page_commit_record list \<Rightarrow> page_commit_record list \<Rightarrow> nat \<Rightarrow> bool" where
  "collides_at cs ds i \<longleftrightarrow> i < length cs \<and> i < length ds
     \<and> link_preimage (cs ! i) \<noteq> link_preimage (ds ! i)
     \<and> sha256 (link_preimage (cs ! i)) = sha256 (link_preimage (ds ! i))"

lemma collides_at_append: "collides_at cs ds i \<Longrightarrow> collides_at (cs @ [a]) (ds @ [b]) i"
  by (auto simp: collides_at_def nth_append)

lemma collides_at_last:
  "length cs = length ds \<Longrightarrow> link_preimage a \<noteq> link_preimage b \<Longrightarrow>
     sha256 (link_preimage a) = sha256 (link_preimage b) \<Longrightarrow> collides_at (cs @ [a]) (ds @ [b]) (length cs)"
  by (simp add: collides_at_def nth_append)

lemma fold_chain_snocD:
  assumes "fold_result (chain_check rid) (k, g) (cs @ [c]) = Inr (m, h)"
  obtains k' h' where "fold_result (chain_check rid) (k, g) cs = Inr (k', h')"
    "chain_check rid (k', h') c = Inr (m, h)"
  using assms by (auto simp: fold_result_append split: sum.splits)

lemma equal_link_equal_prefix:
  assumes cs: "fold_result (chain_check rid) (0, g) cs = Inr (k, h)"
    and ds: "fold_result (chain_check rid) (0, g) ds = Inr (k', h')"
    and c: "chain_check rid (k, h) c = Inr (m, e)" and d: "chain_check rid (k', h') d = Inr (m', e)"
    and len: "length cs = length ds" and same: "link_preimage c = link_preimage d"
  shows "h = h' \<and> fromhex (pc_page_content_hash c) = fromhex (pc_page_content_hash d)"
proof -
  obtain p q p' q' where hex: "fromhex h = Some p" "fromhex (pc_page_content_hash c) = Some q"
    "fromhex h' = Some p'" "fromhex (pc_page_content_hash d) = Some q'"
    using c d by (auto simp: page_chain_link_def elim!: chain_checkD split: option.splits)
  have prev: "pc_previous_chain_hash c = h" "pc_previous_chain_hash d = h'"
    using c d by (auto elim: chain_checkD)
  have eq: "p @ q = p' @ q'" using same hex prev by (simp add: link_preimage_def)
  show ?thesis
  proof (cases "cs = []")
    case True
    with len cs ds have "h = h'" by simp
    with hex eq show ?thesis by simp
  next
    case False
    with len chain_digest_hex [OF cs] chain_digest_hex [OF ds] obtain x y
      where "h = hexdigest (sha256 x)" "h' = hexdigest (sha256 y)" by fastforce
    with hex have "length p = length p'" "h = hexdigest p" "h' = hexdigest p'" by auto
    with hex eq show ?thesis by (simp add: append_eq_append_conv)
  qed
qed

lemma chain_binding:
  "length cs = length ds \<Longrightarrow>
   fold_result (chain_check rid) (0, g) cs = Inr (m, h) \<Longrightarrow>
   fold_result (chain_check rid) (0, g) ds = Inr (m', h) \<Longrightarrow>
   map (\<lambda>c. fromhex (pc_page_content_hash c)) cs = map (\<lambda>c. fromhex (pc_page_content_hash c)) ds
   \<or> (\<exists>i. collides_at cs ds i)"
proof (induction cs arbitrary: ds m m' h rule: rev_induct)
  case Nil
  then show ?case by simp
next
  case (snoc c cs)
  from snoc.prems(1) obtain ds' d where ds: "ds = ds' @ [d]" and len: "length cs = length ds'"
    by (cases ds rule: rev_cases) auto
  from fold_chain_snocD [OF snoc.prems(2)] obtain k e where
    c: "fold_result (chain_check rid) (0, g) cs = Inr (k, e)" "chain_check rid (k, e) c = Inr (m, h)" .
  from fold_chain_snocD [OF snoc.prems(3) [unfolded ds]] obtain k' e' where
    d: "fold_result (chain_check rid) (0, g) ds' = Inr (k', e')" "chain_check rid (k', e') d = Inr (m', h)" .
  show ?case
  proof (cases "link_preimage c = link_preimage d")
    case True
    with equal_link_equal_prefix [OF c(1) d(1) c(2) d(2) len] have
      "e = e'" "fromhex (pc_page_content_hash c) = fromhex (pc_page_content_hash d)" by simp_all
    with snoc.IH [OF len c(1)] d(1) show ?thesis by (auto simp: ds intro: collides_at_append)
  next
    case False
    have "sha256 (link_preimage c) = sha256 (link_preimage d)"
      using chain_check_preimage [OF c(2)] chain_check_preimage [OF d(2)]
      by (simp add: sha256_hex_def hexdigest_inject)
    with False len show ?thesis by (auto simp: ds intro: collides_at_last)
  qed
qed


definition example_commit :: "uuid \<Rightarrow> page_commit_record" where
  "example_commit i = \<lparr>pc_id = i, pc_run_id = 1, pc_command_id = 2, pc_attempt = 1,
     pc_lease_identity_hash = hash_token example_lease, pc_page_idempotency_key = i, pc_page_ordinal = 0,
     pc_expected_checkpoint_revision = 4, pc_resulting_checkpoint_revision = 5,
     pc_expected_cursor = None, pc_next_cursor = None, pc_page_request_hash = sha256_hex ''request'',
     pc_page_content_hash = sha256_hex ''content'', pc_previous_chain_hash = sha256_hex ''genesis'',
     pc_resulting_chain_hash = sha256_hex (''page-chain-link/v1'' @ [CHR 0x0A]
        @ sha256 ''genesis'' @ sha256 ''content''),
     pc_source_page_receipt_sha256 = sha256_hex ''receipt'', pc_source_page_item_count = 0,
     pc_accepted_count = 0, pc_duplicate_count = 0, pc_rejected_count = 0, pc_is_terminal_page = True,
     pc_terminal_reason = Some SOURCE_EXHAUSTED, pc_stored_response = ''{}''\<rparr>"

lemma example_chain:
  "fold_result (chain_check 1) (0, sha256_hex ''genesis'') [example_commit i]
     = Inr (1, pc_resulting_chain_hash (example_commit 7))"
  by (simp add: chain_check_def page_chain_link_def example_commit_def)


section \<open>What a completion plan guarantees\<close>

lemma verify_persisted_chainD:
  assumes "verify_persisted_chain facts outcome = Inr ()"
  defines "run \<equiv> fact_run facts"
  defines "commits \<equiv> sort_key pc_page_ordinal (fact_commits facts)"
  shows "fold_result (chain_check (run_id run)) (0, run_genesis_chain_hash run) commits
           = Inr (int (length commits), run_committed_page_hash_chain run)"
    and "run_committed_page_count run = int (length (fact_commits facts))"
    and "so_committed_page_count outcome = int (length (fact_commits facts))"
    and "so_committed_page_hash_chain outcome = run_committed_page_hash_chain run"
    and "so_final_cursor outcome = cp_cursor (fact_checkpoint facts)"
  using assms(1) chain_ordinals [of "run_id run" 0 "run_genesis_chain_hash run" commits]
  by (auto simp: verify_persisted_chain_def Let_def run_def commits_def split: sum.splits if_splits)

lemma distinct_versions_Nil: "distinct_versions vs = [] \<longleftrightarrow> vs = []"
  unfolding distinct_versions_def by (subst length_0_conv [symmetric]) simp

lemma success_publicationD:
  assumes "success_publication nfc facts outcome = Inr pub"
  shows "pub_run_id pub = run_id (fact_run facts)" and "pub_source_id pub = run_source_id (fact_run facts)"
    and "run_terminal_page_commit_id (fact_run facts) = Some (pub_terminal_page_commit_id pub)"
    and "fact_commits facts \<noteq> []" and "pc_is_terminal_page (last (fact_commits facts))"
    and "Some (so_committed_page_hash_chain outcome) = run_terminal_chain_hash (fact_run facts)"
    and "cp_revision (fact_checkpoint facts) = pc_resulting_checkpoint_revision (last (fact_commits facts))"
    and "pub_zero_post pub \<longleftrightarrow> fact_observed_post_versions facts = []"
  using assms
  by (auto simp: success_publication_def Let_def distinct_versions_Nil split: option.splits if_splits)

lemma prepare_runD:
  assumes "prepare_run nfc command facts outcome now = Inr (run', pub)"
  shows "run_id run' = run_id (fact_run facts)"
    and "run_status (fact_run facts) = Run_RUNNING"
    and "run_command_id (fact_run facts) = cmd_id command"
    and "run_attempt (fact_run facts) = cmd_attempt command"
    and "run_status run' = so_terminal_status outcome" and "terminal_run (run_status run')"
    and "run_finalized_at run' = Some now" and "run_finished_at run' = Some now"
    and "verify_persisted_chain facts outcome = Inr ()"
    and "pub \<noteq> None \<longleftrightarrow> so_terminal_status outcome = Run_SUCCEEDED"
    and "\<And>p. pub = Some p \<Longrightarrow> success_publication nfc facts outcome = Inr p"
  using assms
  by (auto simp: prepare_run_def Let_def terminal_run_def split: if_splits sum.splits run_status.splits)

lemma prepare_server_completionD:
  assumes "prepare_server_completion nfc ctx outcomes h = Inr plan"
  obtains now off results where
    "cc_db_now ctx = Aware now off" "cmd_status (cc_command ctx) = Command_RUNNING"
    "distinct (map (\<lambda>f. run_id (fact_run f)) (cc_runs ctx))" "distinct (map so_run_id outcomes)"
    "set (map (\<lambda>f. run_id (fact_run f)) (cc_runs ctx)) = set (map so_run_id outcomes)"
    "list_all2 (\<lambda>facts res. \<exists>o1 \<in> set outcomes. so_run_id o1 = run_id (fact_run facts)
                  \<and> prepare_run nfc (cc_command ctx) facts o1 now = Inr res)
       (sort_key (\<lambda>f. uuid_hex (run_id (fact_run f))) (cc_runs ctx)) results"
    "aggregate_command_status (map run_status (cpl_runs plan)) = Inr (cpl_command_status plan)"
    "cpl_runs plan = map fst results" "cpl_publications plan = List.map_filter snd results"
    "cpl_completed_at plan = now" "cpl_request_hash plan = h"
proof -
  let ?step = "\<lambda>now facts. case map_of (map (\<lambda>o1. (so_run_id o1, o1)) outcomes) (run_id (fact_run facts)) of
      None \<Rightarrow> raise_code RUN_SET_MISMATCH 409
    | Some outcome \<Rightarrow> prepare_run nfc (cc_command ctx) facts outcome now"
  obtain now off results status where r: "cc_db_now ctx = Aware now off"
    "cmd_status (cc_command ctx) = Command_RUNNING"
    "distinct (map (\<lambda>f. run_id (fact_run f)) (cc_runs ctx))" "distinct (map so_run_id outcomes)"
    "set (map (\<lambda>f. run_id (fact_run f)) (cc_runs ctx)) = set (map so_run_id outcomes)"
    "seq_result (?step now) (sort_key (\<lambda>f. uuid_hex (run_id (fact_run f))) (cc_runs ctx)) = Inr results"
    "aggregate_command_status (map (\<lambda>(run, _). run_status run) results) = Inr status"
    "plan = \<lparr>cpl_request_hash = h, cpl_command_status = status, cpl_runs = map fst results,
             cpl_publications = List.map_filter snd results, cpl_completed_at = now\<rparr>"
    using assms
    by (auto simp: prepare_server_completion_def Let_def require_utc_Inr split: sum.splits if_splits)
  have one: "\<exists>o1 \<in> set outcomes. so_run_id o1 = run_id (fact_run facts)
      \<and> prepare_run nfc (cc_command ctx) facts o1 now = Inr res" if "?step now facts = Inr res" for facts res
    using that by (fastforce split: option.splits dest!: map_of_SomeD)
  from r(6) have "list_all2 (\<lambda>facts res. \<exists>o1 \<in> set outcomes. so_run_id o1 = run_id (fact_run facts)
                  \<and> prepare_run nfc (cc_command ctx) facts o1 now = Inr res)
       (sort_key (\<lambda>f. uuid_hex (run_id (fact_run f))) (cc_runs ctx)) results"
    unfolding seq_result_Inr_iff by (rule list_all2_mono) (rule one)
  moreover have "(\<lambda>(run :: run_state, pub :: publication_draft option). run_status run) = run_status \<circ> fst"
    by (simp add: fun_eq_iff)
  ultimately show thesis using r by (intro that [of now off results]) simp_all
qed

lemma completion_results:
  assumes "list_all2 (\<lambda>facts res. \<exists>o1 \<in> set outcomes. so_run_id o1 = run_id (fact_run facts)
                  \<and> prepare_run nfc command facts o1 now = Inr res) fs results"
  shows "map (\<lambda>r. run_id (fst r)) results = map (\<lambda>f. run_id (fact_run f)) fs"
    and "\<forall>(run, pub) \<in> set results. terminal_run (run_status run) \<and> run_finalized_at run = Some now
           \<and> (pub \<noteq> None \<longleftrightarrow> run_status run = Run_SUCCEEDED)"
    and "map pub_run_id (List.map_filter snd results)
         = map (\<lambda>r. run_id (fst r)) (filter (\<lambda>r. run_status (fst r) = Run_SUCCEEDED) results)"
proof -
  have one: "run_id (fst res) = run_id (fact_run facts) \<and> terminal_run (run_status (fst res))
       \<and> run_finalized_at (fst res) = Some now \<and> (snd res \<noteq> None \<longleftrightarrow> run_status (fst res) = Run_SUCCEEDED)
       \<and> (\<forall>p. snd res = Some p \<longrightarrow> pub_run_id p = run_id (fst res))"
    if "\<exists>o1 \<in> set outcomes. so_run_id o1 = run_id (fact_run facts)
          \<and> prepare_run nfc command facts o1 now = Inr res" for facts res
  proof -
    from that obtain o1 where "prepare_run nfc command facts o1 now = Inr (fst res, snd res)" by auto
    from prepare_runD [OF this] success_publicationD(1) show ?thesis by force
  qed
  from assms show "map (\<lambda>r. run_id (fst r)) results = map (\<lambda>f. run_id (fact_run f)) fs"
    by (induction rule: list_all2_induct) (auto dest!: one)
  from assms show "\<forall>(run, pub) \<in> set results. terminal_run (run_status run) \<and> run_finalized_at run = Some now
           \<and> (pub \<noteq> None \<longleftrightarrow> run_status run = Run_SUCCEEDED)"
    by (induction rule: list_all2_induct) (auto dest!: one)
  from assms show "map pub_run_id (List.map_filter snd results)
         = map (\<lambda>r. run_id (fst r)) (filter (\<lambda>r. run_status (fst r) = Run_SUCCEEDED) results)"
    by (induction rule: list_all2_induct) (auto simp: List.map_filter_simps dest!: one split: option.split)
qed

text \<open>(C5) A completion is all or nothing and publishes exactly the successes: an accepted plan finalises
  every run of the command exactly once and with a terminal status, has exactly one publication for each
  run that succeeded and none for any other, and gives the command the aggregate of the run statuses.\<close>

theorem completion_finalises_every_run:
  assumes "prepare_completion nfc dt ctx request = Inr plan"
  shows "distinct (map run_id (cpl_runs plan))
    \<and> set (map run_id (cpl_runs plan)) = set (map (\<lambda>f. run_id (fact_run f)) (cc_runs ctx))
    \<and> (\<forall>run \<in> set (cpl_runs plan). terminal_run (run_status run)
          \<and> run_finalized_at run = Some (cpl_completed_at plan))
    \<and> map pub_run_id (cpl_publications plan)
      = map run_id (filter (\<lambda>run. run_status run = Run_SUCCEEDED) (cpl_runs plan))
    \<and> cpl_command_status plan = aggregate_spec (set (map run_status (cpl_runs plan)))
    \<and> token_matches (cq_lease_token request) (cmd_lease_hash (cc_command ctx))
    \<and> cmd_attempt (cc_command ctx) = cq_attempt request"
proof -
  from assms have lease: "token_matches (cq_lease_token request) (cmd_lease_hash (cc_command ctx))"
      "cmd_attempt (cc_command ctx) = cq_attempt request"
    and server: "prepare_server_completion nfc ctx (cq_source_outcomes request) (completion_request_hash nfc dt request)
      = Inr plan"
    by (auto simp: prepare_completion_def split: if_splits)
  from server obtain now results where r:
    "distinct (map (\<lambda>f. run_id (fact_run f)) (cc_runs ctx))"
    "list_all2 (\<lambda>facts res. \<exists>o1 \<in> set (cq_source_outcomes request). so_run_id o1 = run_id (fact_run facts)
                  \<and> prepare_run nfc (cc_command ctx) facts o1 now = Inr res)
       (sort_key (\<lambda>f. uuid_hex (run_id (fact_run f))) (cc_runs ctx)) results"
    "aggregate_command_status (map run_status (cpl_runs plan)) = Inr (cpl_command_status plan)"
    "cpl_runs plan = map fst results" "cpl_publications plan = List.map_filter snd results"
    "cpl_completed_at plan = now"
    by (rule prepare_server_completionD)
  note c = completion_results [OF r(2)]
  have ids: "map run_id (cpl_runs plan)
      = map (\<lambda>f. run_id (fact_run f)) (sort_key (\<lambda>f. uuid_hex (run_id (fact_run f))) (cc_runs ctx))"
    using c(1) r(4) by (simp add: comp_def)
  have "distinct (map run_id (cpl_runs plan))"
    using r(1) unfolding ids by (metis distinct_map distinct_sort set_sort)
  moreover have "set (map run_id (cpl_runs plan)) = set (map (\<lambda>f. run_id (fact_run f)) (cc_runs ctx))"
    unfolding ids by simp
  moreover have "\<forall>run \<in> set (cpl_runs plan). terminal_run (run_status run)
          \<and> run_finalized_at run = Some (cpl_completed_at plan)"
    using c(2) r(4,6) by auto
  moreover have "map pub_run_id (cpl_publications plan)
      = map run_id (filter (\<lambda>run. run_status run = Run_SUCCEEDED) (cpl_runs plan))"
    using c(3) r(4,5) by (simp add: filter_map comp_def)
  moreover have "cpl_command_status plan = aggregate_spec (set (map run_status (cpl_runs plan)))"
    using r(3) by (simp add: aggregate_command_status_Inr)
  ultimately show ?thesis using lease by blast
qed

definition example_sealed_run :: run_state where
  "example_sealed_run = (let c = example_commit 8 in example_run\<lparr>
     run_genesis_chain_hash := sha256_hex ''genesis'',
     run_committed_page_hash_chain := pc_resulting_chain_hash c,
     run_committed_page_count := 1, run_next_page_ordinal := 1, run_last_page_commit_id := Some 8,
     run_final_page_ordinal := Some 0, run_final_cursor := None,
     run_terminal_page_commit_id := Some 8, run_terminal_page_ordinal := Some 0,
     run_terminal_cursor := None, run_terminal_reason := Some SOURCE_EXHAUSTED,
     run_terminal_chain_hash := Some (pc_resulting_chain_hash c), run_completion_ready_at := Some 20\<rparr>)"

definition example_facts :: run_completion_facts where
  "example_facts = \<lparr>fact_run = example_sealed_run,
     fact_checkpoint = example_checkpoint\<lparr>cp_revision := 5, cp_cursor := None\<rparr>,
     fact_commits = [example_commit 8], fact_observed_post_versions = [], fact_skip_decision = None\<rparr>"

definition example_outcome :: completion_source_outcome where
  "example_outcome = \<lparr>so_run_id = 1, so_terminal_status = Run_SUCCEEDED, so_last_page_commit_id = Some 8,
     so_final_cursor = None, so_final_page_ordinal = Some 0, so_committed_page_count = 1,
     so_committed_page_hash_chain = pc_resulting_chain_hash (example_commit 8),
     so_skip_decision_id = None, so_failure = None\<rparr>"

definition example_completion_context :: completion_context where
  "example_completion_context =
     \<lparr>cc_command = example_running, cc_runs = [example_facts], cc_db_now = Aware 30 0\<rparr>"

definition example_completion_request :: completion_request where
  "example_completion_request = \<lparr>cq_completion_idempotency_key = 40, cq_attempt = 1,
     cq_lease_token = example_lease, cq_source_outcomes = [example_outcome]\<rparr>"

lemma example_prepare_run:
  "\<exists>run' pub. prepare_run id example_running example_facts example_outcome 30 = Inr (run', Some pub)
     \<and> run_status run' = Run_SUCCEEDED \<and> pub_zero_post pub"
proof -
  have "chain_check 1 (0, sha256_hex ''genesis'') (example_commit 8)
      = Inr (1, pc_resulting_chain_hash (example_commit 8))"
    by (simp add: chain_check_def page_chain_link_def example_commit_def)
  then have chain: "verify_persisted_chain example_facts example_outcome = Inr ()"
    by (simp add: verify_persisted_chain_def example_facts_def example_outcome_def example_sealed_run_def
        example_run_def last_opt_def Let_def)
       (simp add: example_commit_def)
  have "\<exists>pub. success_publication id example_facts example_outcome = Inr pub \<and> pub_zero_post pub"
    by (simp add: success_publication_def example_facts_def example_outcome_def example_sealed_run_def
        distinct_versions_def Let_def example_commit_def example_checkpoint_def)
  then obtain pub where "success_publication id example_facts example_outcome = Inr pub" "pub_zero_post pub"
    by blast
  with chain have "prepare_run id example_running example_facts example_outcome 30
      = Inr (example_sealed_run\<lparr>run_status := Run_SUCCEEDED, run_finalized_at := Some 30,
                                run_finished_at := Some 30\<rparr>, Some pub)"
    by (simp add: prepare_run_def opt_utc_def Let_def example_facts_def example_outcome_def
        example_sealed_run_def example_run_def example_command_defs)
  with \<open>pub_zero_post pub\<close> show ?thesis by simp
qed

lemma example_completion:
  "\<exists>plan. prepare_completion id (\<lambda>_. []) example_completion_context example_completion_request = Inr plan"
proof -
  have r: "run_id (fact_run example_facts) = 1" "so_run_id example_outcome = 1"
    by (simp_all add: example_facts_def example_sealed_run_def example_outcome_def example_run_def Let_def)
  obtain run' pub where "prepare_run id example_running example_facts example_outcome 30 = Inr (run', Some pub)"
    "run_status run' = Run_SUCCEEDED" using example_prepare_run by blast
  with r show ?thesis
    by (simp add: prepare_completion_def prepare_server_completion_def example_completion_context_def
        example_completion_request_def Let_def aggregate_command_status_eq terminal_run_def
        example_command_defs)
qed

theorem completion_finalises_every_run_witness:
  "\<exists>plan. prepare_completion id (\<lambda>_. []) example_completion_context example_completion_request = Inr plan
     \<and> set (map run_id (cpl_runs plan)) = {1}"
proof -
  from example_completion obtain plan where
    p: "prepare_completion id (\<lambda>_. []) example_completion_context example_completion_request = Inr plan" by blast
  from completion_finalises_every_run [OF p] have "set (map run_id (cpl_runs plan)) = {1}"
    by (simp add: example_completion_context_def example_facts_def example_sealed_run_def example_run_def Let_def)
  with p show ?thesis by blast
qed

end
