(* ===== verification/Page_Store.thy ===== *)
theory Page_Store
  imports Completion
begin

text \<open>
  \<open>collection/page_context_store.py\<close>, \<open>page_store.py\<close> and the post writes of \<open>post_store.py\<close>: the transaction
  that commits one page of a run, on an explicit database state.

  \<open>page_db\<close> holds the rows one run's page transactions lock and write: its command, run and checkpoint, the
  run's page commits in insertion order, the current post revisions of its source, the authorization decision
  joined for the source, and the post versions its page items point to. Queue and engagement rows written
  alongside are not read back by any operation modelled here.

  \<open>stream_wf\<close> is the invariant of the page stream. Its central part is that the verification loop of command
  completion accepts the persisted commits and arrives at the chain digest stored in the run.
\<close>

section \<open>State and transaction\<close>

record page_db =
  db_command :: command_state
  db_run :: run_state
  db_checkpoint :: checkpoint_state
  db_commits :: "page_commit_record list"
  db_posts :: "existing_post_version list"
  db_authorization :: "authorization_snapshot option"
  db_observed :: "observed_post_version list"

record page_service_config =
  cfg_reviewed_page_cap :: int
  cfg_reviewed_post_cap :: int

definition run_with_counts :: "run_state \<Rightarrow> page_commit_record list \<Rightarrow> run_state" where
  "run_with_counts run committed_rows = run\<lparr>
     run_accepted_count := sum_list (map pc_accepted_count committed_rows),
     run_duplicate_count := sum_list (map pc_duplicate_count committed_rows),
     run_rejected_count := sum_list (map pc_rejected_count committed_rows)\<rparr>"

definition load_locked_page_context ::
    "page_service_config \<Rightarrow> page_db \<Rightarrow> page_commit_request \<Rightarrow> datetime \<Rightarrow> exc + page_commit_context" where
  "load_locked_page_context config db request db_now =
     (let committed_rows = sort_key pc_page_ordinal (db_commits db);
          existing_idempotency =
            List.find (\<lambda>row. pc_page_idempotency_key row = req_page_idempotency_key request) committed_rows;
          existing_ordinal = List.find (\<lambda>row. pc_page_ordinal row = req_page_ordinal request) committed_rows;
          run = run_with_counts (db_run db) committed_rows
      in case (run_reviewed_page_cap run, run_reviewed_post_cap run) of
           (Some page_cap, Some post_cap) \<Rightarrow>
             if \<not> (0 < page_cap \<and> page_cap \<le> cfg_reviewed_page_cap config
                   \<and> 0 < post_cap \<and> post_cap \<le> cfg_reviewed_post_cap config)
             then raise_code INVALID_CONTRACT 409
             else (case db_authorization db of
                 None \<Rightarrow> raise_code SOURCE_AUTHORIZATION_INACTIVE 403
               | Some authorization \<Rightarrow>
                 Inr \<lparr>ctx_db_now = db_now, ctx_command = db_command db, ctx_run = run,
                      ctx_checkpoint = db_checkpoint db, ctx_authorization = authorization,
                      ctx_existing_posts = filter (\<lambda>p. ex_source_post_id p
                          \<in> set (map input_source_post_id (req_posts request))) (db_posts db),
                      ctx_existing_idempotency_commit = existing_idempotency,
                      ctx_existing_ordinal_commit = existing_ordinal,
                      ctx_reviewed_page_cap = page_cap, ctx_reviewed_post_cap = post_cap\<rparr>)
         | _ \<Rightarrow> raise_code INVALID_CONTRACT 409)"

text \<open>\<open>_persist_normalized_item\<close>: an accepted item inserts the post or moves its current version.\<close>

definition upsert_post :: "existing_post_version \<Rightarrow> existing_post_version list \<Rightarrow> existing_post_version list" where
  "upsert_post v posts =
     (if (\<exists>p \<in> set posts. ex_post_id p = ex_post_id v)
      then map (\<lambda>p. if ex_post_id p = ex_post_id v then v else p) posts
      else posts @ [v])"

definition persist_page_item :: "page_db \<Rightarrow> page_item_plan \<Rightarrow> exc + page_db" where
  "persist_page_item db plan =
     (case pip_normalized_item plan of
        OversizeRejection _ \<Rightarrow> Inr db
      | NormalizedPost item \<Rightarrow>
        (case (pip_post_id plan, pip_post_version_id plan, pip_revision plan) of
           (Some post_id, Some version_id, Some revision) \<Rightarrow>
             (let observed = db_observed db @ [\<lparr>opv_id = version_id, opv_content_hash = np_content_hash item\<rparr>] in
              case pip_disposition plan of
                Item_ACCEPTED \<Rightarrow>
                  Inr (db\<lparr>db_posts := upsert_post
                         \<lparr>ex_source_post_id = np_source_post_id item, ex_post_id = post_id,
                          ex_current_version_id = version_id,
                          ex_current_content_hash = np_content_hash item,
                          ex_current_revision = revision\<rparr> (db_posts db),
                       db_observed := observed\<rparr>)
              | Item_DUPLICATE \<Rightarrow> Inr (db\<lparr>db_observed := observed\<rparr>)
              | Item_REJECTED_OVERSIZE \<Rightarrow> raise_code INVALID_CONTRACT 422)
         | _ \<Rightarrow> raise_code INVALID_CONTRACT 422))"

definition execute_page_commit ::
    "page_env \<Rightarrow> page_service_config \<Rightarrow> page_db \<Rightarrow> page_commit_request \<Rightarrow> datetime \<Rightarrow>
       exc + page_db \<times> page_commit_outcome" where
  "execute_page_commit env config db request db_now =
     (case load_locked_page_context config db request db_now of Inl e \<Rightarrow> Inl e
      | Inr context \<Rightarrow> (case prepare_page_commit env context request of Inl e \<Rightarrow> Inl e
      | Inr plan \<Rightarrow>
        if \<not> plan_should_persist plan then Inr (db, plan_outcome plan)
        else (case fold_result persist_page_item (db\<lparr>db_commits := db_commits db @ [plan_commit plan]\<rparr>)
                     (plan_items plan) of Inl e \<Rightarrow> Inl e
          | Inr db' \<Rightarrow> Inr (db'\<lparr>db_checkpoint := plan_updated_checkpoint plan,
                               db_run := plan_updated_run plan\<rparr>, plan_outcome plan))))"

section \<open>The stream invariant\<close>

text \<open>The persisted commits verify link by link and end in the digest the run stores; every page is fully
  accounted for and idempotency keys are unique.\<close>

definition chain_wf :: "page_db \<Rightarrow> bool" where
  "chain_wf db \<longleftrightarrow>
     fold_result (chain_check (run_id (db_run db))) (0, run_genesis_chain_hash (db_run db)) (db_commits db)
       = Inr (int (length (db_commits db)), run_committed_page_hash_chain (db_run db))
     \<and> fromhex (run_committed_page_hash_chain (db_run db)) \<noteq> None
     \<and> distinct (map pc_page_idempotency_key (db_commits db))
     \<and> list_all (\<lambda>c. pc_accepted_count c + pc_duplicate_count c + pc_rejected_count c
                     = pc_source_page_item_count c \<and> pc_lease_identity_hash c = run_lease_identity_hash (db_run db))
         (db_commits db)"

text \<open>The run and the checkpoint agree on where the stream stands.\<close>

definition position_wf :: "page_db \<Rightarrow> bool" where
  "position_wf db \<longleftrightarrow>
     (let run = db_run db; n = int (length (db_commits db)); l = last_opt (db_commits db) in
      run_committed_page_count run = n \<and> run_next_page_ordinal run = n
      \<and> run_last_page_commit_id run = map_option pc_id l
      \<and> run_final_page_ordinal run = map_option pc_page_ordinal l
      \<and> run_final_cursor run = (case l of Some c \<Rightarrow> pc_next_cursor c | None \<Rightarrow> run_start_cursor run)
      \<and> cp_cursor (db_checkpoint db) = run_final_cursor run
      \<and> cp_revision (db_checkpoint db) = run_start_checkpoint_revision run + n
      \<and> (case l of Some c \<Rightarrow> pc_resulting_checkpoint_revision c = cp_revision (db_checkpoint db) | None \<Rightarrow> True)
      \<and> run_accepted_count run = sum_list (map pc_accepted_count (db_commits db))
      \<and> run_duplicate_count run = sum_list (map pc_duplicate_count (db_commits db))
      \<and> run_rejected_count run = sum_list (map pc_rejected_count (db_commits db))
      \<and> run_page_reservation_id run = None
      \<and> watermark_wf (db_checkpoint db))"

text \<open>Only the last commit can be terminal, the run is sealed exactly by it, and the reviewed page cap both
  bounds the stream and seals it.\<close>

definition seal_wf :: "page_db \<Rightarrow> bool" where
  "seal_wf db \<longleftrightarrow>
     (let run = db_run db; n = int (length (db_commits db)) in
      list_all (\<lambda>c. \<not> pc_is_terminal_page c) (butlast (db_commits db))
      \<and> (case last_opt (db_commits db) of
           Some c \<Rightarrow>
             if pc_is_terminal_page c
             then run_terminal_page_commit_id run = Some (pc_id c)
                  \<and> run_terminal_page_ordinal run = Some (pc_page_ordinal c)
                  \<and> run_terminal_cursor run = pc_next_cursor c
                  \<and> run_terminal_reason run = pc_terminal_reason c \<and> pc_terminal_reason c \<noteq> None
                  \<and> run_terminal_chain_hash run = Some (run_committed_page_hash_chain run)
                  \<and> run_completion_ready_at run \<noteq> None
             else run_terminal_page_commit_id run = None \<and> run_completion_ready_at run = None
                  \<and> run_reviewed_page_cap run \<noteq> Some n
         | None \<Rightarrow> run_terminal_page_commit_id run = None \<and> run_completion_ready_at run = None)
      \<and> (n = 0 \<or> (case run_reviewed_page_cap run of Some cap \<Rightarrow> n \<le> cap | None \<Rightarrow> False)))"

definition stream_wf :: "page_db \<Rightarrow> bool" where
  "stream_wf db \<longleftrightarrow> chain_wf db \<and> position_wf db \<and> seal_wf db"

lemma last_opt_snoc [simp]: "last_opt (xs @ [x]) = Some x"
  by (simp add: last_opt_def)

lemma last_opt_Nil [simp]: "last_opt [] = None"
  by (simp add: last_opt_def)

lemma run_with_counts_id:
  "position_wf db \<Longrightarrow> run_with_counts (db_run db) (sort_key pc_page_ordinal (db_commits db)) = db_run db"
proof -
  have sum: "sum_list (map f (sort_key pc_page_ordinal (db_commits db))) = sum_list (map f (db_commits db))"
    for f :: "page_commit_record \<Rightarrow> int"
    by (metis mset_map mset_sort sum_mset_sum_list)
  assume "position_wf db"
  then show ?thesis by (simp add: run_with_counts_def position_wf_def Let_def sum)
qed

section \<open>The stream invariant is kept\<close>

lemma load_locked_page_contextD:
  assumes "load_locked_page_context config db r now = Inr context"
  shows "ctx_db_now context = now" and "ctx_command context = db_command db"
    and "ctx_run context = run_with_counts (db_run db) (sort_key pc_page_ordinal (db_commits db))"
    and "ctx_checkpoint context = db_checkpoint db"
    and "ctx_existing_idempotency_commit context
         = List.find (\<lambda>row. pc_page_idempotency_key row = req_page_idempotency_key r)
             (sort_key pc_page_ordinal (db_commits db))"
    and "ctx_existing_ordinal_commit context
         = List.find (\<lambda>row. pc_page_ordinal row = req_page_ordinal r)
             (sort_key pc_page_ordinal (db_commits db))"
    and "ctx_existing_posts context
         = filter (\<lambda>p. ex_source_post_id p \<in> set (map input_source_post_id (req_posts r))) (db_posts db)"
    and "db_authorization db = Some (ctx_authorization context)"
  using assms by (auto simp: load_locked_page_context_def Let_def split: option.splits if_splits)

lemma persist_page_item_total:
  assumes "item_plan_ok existing plan"
  shows "\<exists>db'. persist_page_item db plan = Inr db'
           \<and> db' = db\<lparr>db_posts := db_posts db', db_observed := db_observed db'\<rparr>"
  using assms
  by (cases "pip_normalized_item plan")
     (auto simp: persist_page_item_def item_plan_ok_def Let_def split: option.splits if_splits)

lemma persist_page_items_total:
  "list_all (item_plan_ok existing) plans \<Longrightarrow>
     \<exists>db'. fold_result persist_page_item db plans = Inr db'
           \<and> db' = db\<lparr>db_posts := db_posts db', db_observed := db_observed db'\<rparr>"
proof (induction plans arbitrary: db)
  case Nil
  show ?case by simp
next
  case (Cons plan plans)
  then obtain db1 where db1: "persist_page_item db plan = Inr db1"
    "db1 = db\<lparr>db_posts := db_posts db1, db_observed := db_observed db1\<rparr>"
    using persist_page_item_total by fastforce
  from Cons obtain db2 where db2: "fold_result persist_page_item db1 plans = Inr db2"
    "db2 = db1\<lparr>db_posts := db_posts db2, db_observed := db_observed db2\<rparr>"
    by fastforce
  have "db2 = db\<lparr>db_posts := db_posts db2, db_observed := db_observed db2\<rparr>"
    by (subst db2(2), subst db1(2)) simp
  with db1(1) db2(1) show ?case by simp
qed

text \<open>The guards that a page transaction passes before it writes.\<close>

definition new_page ::
    "page_env \<Rightarrow> page_service_config \<Rightarrow> page_db \<Rightarrow> page_commit_request \<Rightarrow> datetime \<Rightarrow> page_commit_context \<Rightarrow>
       page_commit_request \<Rightarrow> normalized_page_item list \<Rightarrow> string \<Rightarrow> page_commit_plan \<Rightarrow> bool" where
  "new_page env config db r now ctx r' normalized request_hash plan \<longleftrightarrow>
     load_locked_page_context config db r now = Inr ctx
     \<and> ctx_existing_idempotency_commit ctx = None
     \<and> server_terminal_request ctx r = Inr r'
     \<and> normalize_page_items (env_nfc env) (req_posts r) = Inr normalized
     \<and> page_request_hash (env_nfc env) r' normalized = Inr request_hash
     \<and> req_command_id r = run_command_id (ctx_run ctx) \<and> req_attempt r = run_attempt (ctx_run ctx)
     \<and> validate_new_page_commit ctx r' = Inr ()
     \<and> plan_new_page env ctx r' normalized request_hash = Inr plan"

text \<open>A successful page transaction either replays a stored commit without writing, or appends exactly the
  planned commit and installs the planned run and checkpoint.\<close>

lemma execute_page_commitD:
  assumes "execute_page_commit env config db r now = Inr (db', outcome)"
  obtains (replay) ctx c r' normalized where
      "load_locked_page_context config db r now = Inr ctx"
      "ctx_existing_idempotency_commit ctx = Some c"
      "server_terminal_request ctx r = Inr r'"
      "normalize_page_items (env_nfc env) (req_posts r) = Inr normalized"
      "page_request_hash (env_nfc env) r' normalized = Inr (pc_page_request_hash c)"
      "db' = db" "pco_status_code outcome = 200" "pco_response_bytes outcome = pc_stored_response c"
  | (new) ctx r' normalized request_hash plan posts observed where
      "new_page env config db r now ctx r' normalized request_hash plan"
      "outcome = plan_outcome plan"
      "db' = db\<lparr>db_commits := db_commits db @ [plan_commit plan], db_posts := posts, db_observed := observed,
               db_checkpoint := plan_updated_checkpoint plan, db_run := plan_updated_run plan\<rparr>"
      "fold_result persist_page_item (db\<lparr>db_commits := db_commits db @ [plan_commit plan]\<rparr>) (plan_items plan)
         = Inr (db\<lparr>db_commits := db_commits db @ [plan_commit plan], db_posts := posts, db_observed := observed\<rparr>)"
proof -
  obtain ctx plan where c: "load_locked_page_context config db r now = Inr ctx"
    and p: "prepare_page_commit env ctx r = Inr plan"
    using assms by (auto simp: execute_page_commit_def split: sum.splits)
  from p show thesis
  proof (cases rule: prepare_page_commitD)
    case (replay r' normalized request_hash rec)
    with replay_pageD [OF replay(5)] assms c p show thesis
      by (intro that(1) [OF c replay(4) replay(1,2)]) (simp_all add: execute_page_commit_def)
  next
    case (new r' normalized request_hash)
    from new(8) obtain items n where it: "plan_items plan = items" "plan_should_persist plan"
      "classify_page_items (env_new_id env) (ctx_existing_posts ctx) normalized = (items, n)"
      by (rule plan_new_pageD)
    from persist_page_items_total [OF classify_page_itemsD(2) [OF it(3)]] obtain db1 where
      db1: "fold_result persist_page_item (db\<lparr>db_commits := db_commits db @ [plan_commit plan]\<rparr>) items = Inr db1"
        "db1 = db\<lparr>db_commits := db_commits db @ [plan_commit plan],
                 db_posts := db_posts db1, db_observed := db_observed db1\<rparr>"
      by blast
    note f = db1(1) [THEN trans, OF arg_cong [of _ _ Inr, OF db1(2)]]
    show thesis
    proof (rule that(2) [OF _ _ _ f [folded it(1)]])
      show "new_page env config db r now ctx r' normalized request_hash plan"
        using c new by (simp add: new_page_def)
      show "outcome = plan_outcome plan" using assms c p it db1(1) by (simp add: execute_page_commit_def)
      show "db' = db\<lparr>db_commits := db_commits db @ [plan_commit plan], db_posts := db_posts db1,
          db_observed := db_observed db1, db_checkpoint := plan_updated_checkpoint plan,
          db_run := plan_updated_run plan\<rparr>"
        using assms c p it(2) f [folded it(1)] by (simp add: execute_page_commit_def)
    qed
  qed
qed

section \<open>What one new page does to the stream\<close>

lemma page_chain_link_hex: "page_chain_link a b = Inr c \<Longrightarrow> fromhex c \<noteq> None"
  by (auto simp: page_chain_link_def simp del: append.simps split: option.splits dest!: sym [of _ c])

lemma new_page_context:
  assumes "new_page env config db r now ctx r' normalized h plan" and "stream_wf db"
  shows "ctx_run ctx = db_run db" and "ctx_checkpoint ctx = db_checkpoint db" and "ctx_db_now ctx = now"
    and "run_committed_page_count (db_run db) = int (length (db_commits db))"
    and "run_next_page_ordinal (db_run db) = int (length (db_commits db))"
    and "watermark_wf (db_checkpoint db)"
    and "\<forall>c \<in> set (db_commits db). pc_page_idempotency_key c \<noteq> req_page_idempotency_key r"
proof -
  from assms have ctx: "load_locked_page_context config db r now = Inr ctx" and pos: "position_wf db"
    and key: "ctx_existing_idempotency_commit ctx = None"
    by (simp_all add: new_page_def stream_wf_def)
  note loaded = load_locked_page_contextD [OF ctx]
  show "ctx_run ctx = db_run db" using loaded(3) run_with_counts_id [OF pos] by simp
  show "ctx_checkpoint ctx = db_checkpoint db" "ctx_db_now ctx = now" using loaded by simp_all
  show "run_committed_page_count (db_run db) = int (length (db_commits db))"
    "run_next_page_ordinal (db_run db) = int (length (db_commits db))" "watermark_wf (db_checkpoint db)"
    using pos by (simp_all add: position_wf_def Let_def)
  show "\<forall>c \<in> set (db_commits db). pc_page_idempotency_key c \<noteq> req_page_idempotency_key r"
    using key loaded(5) by (simp add: find_None_iff)
qed

lemma new_page_guards:
  assumes "new_page env config db r now ctx r' normalized h plan" and "stream_wf db"
  shows "run_terminal_page_commit_id (db_run db) = None"
    and "req_expected_checkpoint_revision r = cp_revision (db_checkpoint db)"
    and "req_expected_cursor r = cp_cursor (db_checkpoint db)"
    and "req_page_ordinal r' = int (length (db_commits db))"
    and "\<exists>cap. run_reviewed_page_cap (db_run db) = Some cap \<and> int (length (db_commits db)) < cap"
    and "run_status (db_run db) = Run_RUNNING"
proof -
  from assms have st: "server_terminal_request ctx r = Inr r'"
    and val: "validate_new_page_commit ctx r' = Inr ()" by (simp_all add: new_page_def)
  note here = new_page_context [OF assms] server_terminal_request_fields [OF st]
  from val obtain page_cap where v: "run_terminal_page_commit_id (ctx_run ctx) = None"
      "run_reviewed_page_cap (ctx_run ctx) = Some page_cap"
      "run_committed_page_count (ctx_run ctx) < page_cap"
      "req_expected_checkpoint_revision r' = cp_revision (ctx_checkpoint ctx)"
      "req_expected_cursor r' = cp_cursor (ctx_checkpoint ctx)"
      "req_page_ordinal r' = run_next_page_ordinal (ctx_run ctx)" "run_status (ctx_run ctx) = Run_RUNNING"
    by (rule validate_new_page_commitD)
  from v here show "run_terminal_page_commit_id (db_run db) = None"
    "req_expected_checkpoint_revision r = cp_revision (db_checkpoint db)"
    "req_expected_cursor r = cp_cursor (db_checkpoint db)"
    "req_page_ordinal r' = int (length (db_commits db))"
    "\<exists>cap. run_reviewed_page_cap (db_run db) = Some cap \<and> int (length (db_commits db)) < cap"
    "run_status (db_run db) = Run_RUNNING"
    by simp_all
qed

lemma new_page_chain:
  assumes np: "new_page env config db r now ctx r' normalized h plan" and wf: "stream_wf db"
  shows "chain_check (run_id (db_run db))
           (int (length (db_commits db)), run_committed_page_hash_chain (db_run db)) (plan_commit plan)
         = Inr (int (length (db_commits db)) + 1, pc_resulting_chain_hash (plan_commit plan))" (is ?chain)
    and "fromhex (pc_resulting_chain_hash (plan_commit plan)) \<noteq> None" (is ?hex)
    and "pc_page_idempotency_key (plan_commit plan) = req_page_idempotency_key r" (is ?key)
    and "pc_lease_identity_hash (plan_commit plan) = run_lease_identity_hash (db_run db)" (is ?lease)
    and "pc_page_ordinal (plan_commit plan) = int (length (db_commits db))" (is ?ordinal)
proof -
  from np have st: "server_terminal_request ctx r = Inr r'"
    and plan: "plan_new_page env ctx r' normalized h = Inr plan" by (simp_all add: new_page_def)
  note here = new_page_context [OF np wf] server_terminal_request_fields [OF st]
  obtain chain content where p:
    "page_chain_link (run_committed_page_hash_chain (ctx_run ctx)) content = Inr chain"
    "pc_run_id (plan_commit plan) = run_id (ctx_run ctx)"
    "pc_lease_identity_hash (plan_commit plan) = run_lease_identity_hash (ctx_run ctx)"
    "pc_page_idempotency_key (plan_commit plan) = req_page_idempotency_key r'"
    "pc_page_ordinal (plan_commit plan) = req_page_ordinal r'"
    "pc_page_content_hash (plan_commit plan) = content"
    "pc_previous_chain_hash (plan_commit plan) = run_committed_page_hash_chain (ctx_run ctx)"
    "pc_resulting_chain_hash (plan_commit plan) = chain"
    using plan by (rule plan_new_pageD)
  with here new_page_guards(4) [OF np wf] show ?chain ?key ?lease ?ordinal
    by (simp_all add: chain_check_def)
  from p(1,8) show ?hex by (simp add: page_chain_link_hex)
qed

lemma new_page_count:
  assumes np: "new_page env config db r now ctx r' normalized h plan" and "validate_contract r"
  shows "pc_accepted_count (plan_commit plan) + pc_duplicate_count (plan_commit plan)
         + pc_rejected_count (plan_commit plan) = pc_source_page_item_count (plan_commit plan)"
proof -
  from np have st: "server_terminal_request ctx r = Inr r'"
    and norm: "normalize_page_items (env_nfc env) (req_posts r) = Inr normalized"
    and plan: "plan_new_page env ctx r' normalized h = Inr plan" by (simp_all add: new_page_def)
  obtain items k where p:
    "classify_page_items (env_new_id env) (ctx_existing_posts ctx) normalized = (items, k)"
    "pc_source_page_item_count (plan_commit plan) = req_source_page_item_count r'"
    "pc_accepted_count (plan_commit plan) = count_disposition Item_ACCEPTED items"
    "pc_duplicate_count (plan_commit plan) = count_disposition Item_DUPLICATE items"
    "pc_rejected_count (plan_commit plan) = count_disposition Item_REJECTED_OVERSIZE items"
    using plan by (rule plan_new_pageD)
  have "int (length items) = req_source_page_item_count r"
    using classify_page_itemsD(3) [OF p(1)] normalize_page_itemsD [OF norm] assms(2)
    by (simp add: validate_contract_def)
  with disposition_partition [of items] p server_terminal_request_fields [OF st] show ?thesis by simp
qed

lemma new_page_position:
  assumes np: "new_page env config db r now ctx r' normalized h plan" and wf: "stream_wf db"
  shows "plan_updated_run plan = advance_run (db_run db) (plan_commit plan) (instant_of now)"
    and "cp_revision (plan_updated_checkpoint plan) = cp_revision (db_checkpoint db) + 1"
    and "cp_cursor (plan_updated_checkpoint plan) = pc_next_cursor (plan_commit plan)"
    and "pc_resulting_checkpoint_revision (plan_commit plan) = cp_revision (db_checkpoint db) + 1"
    and "watermark_wf (plan_updated_checkpoint plan)"
    and "watermark_le (watermark (db_checkpoint db)) (watermark (plan_updated_checkpoint plan))"
    and "\<forall>c \<in> set (List.map_filter watermark_candidate normalized).
           watermark_le (Some c) (watermark (plan_updated_checkpoint plan))"
proof -
  from np have plan: "plan_new_page env ctx r' normalized h = Inr plan" by (simp add: new_page_def)
  note here = new_page_context [OF np wf]
  obtain cp where p:
    "advance_checkpoint (ctx_checkpoint ctx) r' normalized = Inr cp" "plan_updated_checkpoint plan = cp"
    "plan_updated_run plan = advance_run (ctx_run ctx) (plan_commit plan) (instant_of (ctx_db_now ctx))"
    "pc_resulting_checkpoint_revision (plan_commit plan) = cp_revision (ctx_checkpoint ctx) + 1"
    "pc_next_cursor (plan_commit plan) = req_next_cursor r'"
    using plan by (rule plan_new_pageD)
  with here advance_checkpoint_position [OF p(1)] show
    "plan_updated_run plan = advance_run (db_run db) (plan_commit plan) (instant_of now)"
    "cp_revision (plan_updated_checkpoint plan) = cp_revision (db_checkpoint db) + 1"
    "cp_cursor (plan_updated_checkpoint plan) = pc_next_cursor (plan_commit plan)"
    "pc_resulting_checkpoint_revision (plan_commit plan) = cp_revision (db_checkpoint db) + 1"
    by simp_all
  obtain cp2 where "advance_checkpoint (db_checkpoint db) r' normalized = Inr cp2" "watermark_wf cp2"
    "watermark_le (watermark (db_checkpoint db)) (watermark cp2)"
    "\<forall>c \<in> set (List.map_filter watermark_candidate normalized). watermark_le (Some c) (watermark cp2)"
    by (rule advance_checkpoint_watermark [OF here(6), of r' normalized])
  with p(1,2) here(2) show "watermark_wf (plan_updated_checkpoint plan)"
    "watermark_le (watermark (db_checkpoint db)) (watermark (plan_updated_checkpoint plan))"
    "\<forall>c \<in> set (List.map_filter watermark_candidate normalized).
           watermark_le (Some c) (watermark (plan_updated_checkpoint plan))"
    by simp_all
qed

lemma new_page_terminal:
  assumes np: "new_page env config db r now ctx r' normalized h plan" and wf: "stream_wf db"
    and contract: "validate_contract r"
  shows "pc_is_terminal_page (plan_commit plan) \<longleftrightarrow> pc_terminal_reason (plan_commit plan) \<noteq> None"
    and "run_reviewed_page_cap (db_run db) = Some (int (length (db_commits db)) + 1) \<Longrightarrow>
           pc_is_terminal_page (plan_commit plan)"
proof -
  from np have st: "server_terminal_request ctx r = Inr r'"
    and plan: "plan_new_page env ctx r' normalized h = Inr plan" by (simp_all add: new_page_def)
  obtain p: "pc_is_terminal_page (plan_commit plan) = req_is_terminal_page r'"
    "pc_terminal_reason (plan_commit plan) = req_terminal_reason r'"
    using plan by (rule plan_new_pageD)
  note marked = server_terminal_request_contract [OF st contract]
  from p marked show "pc_is_terminal_page (plan_commit plan) \<longleftrightarrow> pc_terminal_reason (plan_commit plan) \<noteq> None"
    by simp
  show "run_reviewed_page_cap (db_run db) = Some (int (length (db_commits db)) + 1) \<Longrightarrow>
      pc_is_terminal_page (plan_commit plan)"
    using server_terminal_request_at_cap [OF st] new_page_context [OF np wf] p marked by simp
qed

section \<open>Every page transaction keeps the invariant\<close>

text \<open>The state after a page, up to the post rows.\<close>

definition appended :: "page_db \<Rightarrow> page_commit_plan \<Rightarrow> page_db \<Rightarrow> bool" where
  "appended db plan db' \<longleftrightarrow> db_commits db' = db_commits db @ [plan_commit plan]
     \<and> db_checkpoint db' = plan_updated_checkpoint plan \<and> db_run db' = plan_updated_run plan"

lemma advance_run_kept [simp]:
  "run_id (advance_run run c now) = run_id run"
  "run_genesis_chain_hash (advance_run run c now) = run_genesis_chain_hash run"
  "run_lease_identity_hash (advance_run run c now) = run_lease_identity_hash run"
  "run_committed_page_hash_chain (advance_run run c now) = pc_resulting_chain_hash c"
  "run_start_cursor (advance_run run c now) = run_start_cursor run"
  "run_start_checkpoint_revision (advance_run run c now) = run_start_checkpoint_revision run"
  "run_page_reservation_id (advance_run run c now) = run_page_reservation_id run"
  "run_reviewed_page_cap (advance_run run c now) = run_reviewed_page_cap run"
  "run_status (advance_run run c now) = run_status run"
  "run_command_id (advance_run run c now) = run_command_id run"
  "run_attempt (advance_run run c now) = run_attempt run"
  "run_reviewed_post_cap (advance_run run c now) = run_reviewed_post_cap run"
  by (simp_all add: advance_run_def Let_def)

lemma chain_wf_step:
  assumes np: "new_page env config db r now ctx r' normalized h plan" and wf: "stream_wf db"
    and contract: "validate_contract r" and app: "appended db plan db'"
  shows "chain_wf db'"
proof -
  note c = new_page_chain [OF np wf] new_page_count [OF np contract] new_page_position(1) [OF np wf]
  from wf have old: "chain_wf db" by (simp add: stream_wf_def)
  then have "fold_result (chain_check (run_id (db_run db))) (0, run_genesis_chain_hash (db_run db))
      (db_commits db @ [plan_commit plan])
    = Inr (int (length (db_commits db)) + 1, pc_resulting_chain_hash (plan_commit plan))"
    by (intro fold_result_snocI [where f = "chain_check (run_id (db_run db))", OF _ c(1)])
       (simp add: chain_wf_def)
  with old c app new_page_context(7) [OF np wf] show ?thesis
    by (auto simp: chain_wf_def appended_def algebra_simps)
qed

lemma position_wf_step:
  assumes np: "new_page env config db r now ctx r' normalized h plan" and wf: "stream_wf db"
    and app: "appended db plan db'"
  shows "position_wf db'"
proof -
  from wf have "position_wf db" by (simp add: stream_wf_def)
  with app new_page_position [OF np wf] new_page_chain(5) [OF np wf] show ?thesis
    by (simp add: position_wf_def appended_def Let_def advance_run_def)
qed

lemma seal_wf_step:
  assumes np: "new_page env config db r now ctx r' normalized h plan" and wf: "stream_wf db"
    and contract: "validate_contract r" and app: "appended db plan db'"
  shows "seal_wf db'"
proof -
  from new_page_guards(5) [OF np wf] obtain cap where
    cap: "run_reviewed_page_cap (db_run db) = Some cap" "int (length (db_commits db)) < cap" by blast
  from wf have "seal_wf db" by (simp add: stream_wf_def)
  with new_page_guards(1) [OF np wf] have open_stream: "list_all (\<lambda>c. \<not> pc_is_terminal_page c) (db_commits db)"
    "run_completion_ready_at (db_run db) = None"
    by (cases "db_commits db" rule: rev_cases; auto simp: seal_wf_def Let_def split: if_splits)+
  with app cap new_page_position(1) [OF np wf] new_page_terminal [OF np wf contract]
    new_page_guards(1) [OF np wf]
  show ?thesis by (auto simp: seal_wf_def appended_def Let_def advance_run_def)
qed

lemma execute_page_commit_wf:
  assumes "execute_page_commit env config db r now = Inr (db', outcome)"
    and "validate_contract r" and "stream_wf db"
  shows "stream_wf db'"
  using assms(1)
proof (cases rule: execute_page_commitD)
  case (replay ctx c r' normalized)
  with assms(3) show ?thesis by simp
next
  case (new ctx r' normalized h plan posts observed)
  then have "appended db plan db'" by (simp add: appended_def)
  then show ?thesis
    using chain_wf_step [OF new(1) assms(3,2)] position_wf_step [OF new(1) assms(3)]
      seal_wf_step [OF new(1) assms(3,2)]
    by (simp add: stream_wf_def)
qed

section \<open>Reachable streams\<close>

text \<open>
  A stream starts at the claim: \<open>start_run\<close> fixed the genesis from the locked checkpoint and the claim added the
  authorization and budget decisions with their caps. It then advances by page transactions, interleaved
  with anything else that happens to the rows the stream does not own: command transitions, decisions,
  posts written by other runs, heartbeats and status changes of the run.
\<close>

definition stream_init :: "page_db \<Rightarrow> bool" where
  "stream_init db \<longleftrightarrow>
     (\<exists>nfc start run auth snapshot budget status page_cap post_cap.
        start_run nfc start (db_checkpoint db) = Inr run
        \<and> db_run db = run\<lparr>run_authorization_decision_id := auth, run_authorization_snapshot := snapshot,
            run_budget_decision_id := budget, run_budget_decision_status := status,
            run_reviewed_page_cap := page_cap, run_reviewed_post_cap := post_cap\<rparr>)
     \<and> db_commits db = [] \<and> watermark_wf (db_checkpoint db)"

inductive page_step :: "page_service_config \<Rightarrow> page_db \<Rightarrow> page_db \<Rightarrow> bool" for config where
  commit: "execute_page_commit env config db r now = Inr (db', outcome) \<Longrightarrow> validate_contract r \<Longrightarrow>
     page_step config db db'"
| other: "page_step config db (db\<lparr>db_command := c, db_authorization := a, db_posts := ps,
     db_run := (db_run db)\<lparr>run_status := s, run_heartbeat_at := t\<rparr>\<rparr>)"

lemma stream_init_wf: "stream_init db \<Longrightarrow> stream_wf db"
  by (auto simp: stream_init_def stream_wf_def chain_wf_def position_wf_def seal_wf_def start_run_def
      genesis_hash_def Let_def split: if_splits sum.splits)

lemma other_wf:
  "stream_wf db \<Longrightarrow> stream_wf (db\<lparr>db_command := c, db_authorization := a, db_posts := ps,
     db_run := (db_run db)\<lparr>run_status := s, run_heartbeat_at := t\<rparr>\<rparr>)"
  by (cases "last_opt (db_commits db)")
     (simp_all add: stream_wf_def chain_wf_def position_wf_def seal_wf_def Let_def)

lemma page_step_wf: "stream_wf db \<Longrightarrow> page_step config db db' \<Longrightarrow> stream_wf db'"
  by (erule page_step.cases) (auto intro: execute_page_commit_wf other_wf)

interpretation stream: transition_system stream_init "page_step config" stream_wf
  by unfold_locales (auto intro: stream_init_wf page_step_wf)

text \<open>The commits only grow, the revision counts them and the watermark only advances.\<close>

definition stream_le :: "page_db \<Rightarrow> page_db \<Rightarrow> bool" where
  "stream_le db db' \<longleftrightarrow>
     (\<exists>cs. db_commits db' = db_commits db @ cs
           \<and> cp_revision (db_checkpoint db') = cp_revision (db_checkpoint db) + int (length cs))
     \<and> watermark_le (watermark (db_checkpoint db)) (watermark (db_checkpoint db'))
     \<and> run_lease_identity_hash (db_run db') = run_lease_identity_hash (db_run db)
     \<and> run_reviewed_page_cap (db_run db') = run_reviewed_page_cap (db_run db)
     \<and> run_reviewed_post_cap (db_run db') = run_reviewed_post_cap (db_run db)
     \<and> run_command_id (db_run db') = run_command_id (db_run db) \<and> run_attempt (db_run db') = run_attempt (db_run db)"

lemma stream_le_refl: "stream_le db db"
  by (simp add: stream_le_def)

lemma stream_le_trans: "stream_le a b \<Longrightarrow> stream_le b c \<Longrightarrow> stream_le a c"
  by (auto simp: stream_le_def intro: watermark_le_trans)

lemma execute_stream_le:
  assumes "execute_page_commit env config db r now = Inr (db', outcome)" and wf: "stream_wf db"
  shows "stream_le db db'"
  using assms(1)
proof (cases rule: execute_page_commitD)
  case (replay ctx c r' normalized)
  then show ?thesis by (simp add: stream_le_refl)
next
  case (new ctx r' normalized h plan posts observed)
  with new_page_position [OF new(1) wf] show ?thesis by (simp add: stream_le_def)
qed

lemma page_step_le: "page_step config db db' \<Longrightarrow> stream_wf db \<Longrightarrow> stream_le db db'"
proof (erule page_step.cases)
  fix env db0 r now db1 outcome
  assume "db = db0" "db' = db1" "execute_page_commit env config db0 r now = Inr (db1, outcome)" "stream_wf db"
  then show ?thesis using execute_stream_le by blast
qed (simp add: stream_le_def)

lemma page_steps_le: "(page_step config)\<^sup>*\<^sup>* db db' \<Longrightarrow> stream_wf db \<Longrightarrow> stream_le db db' \<and> stream_wf db'"
proof (induction rule: rtranclp_induct)
  case base
  then show ?case by (simp add: stream_le_refl)
next
  case (step b c)
  then show ?case by (blast intro: stream_le_trans page_step_le page_step_wf)
qed

section \<open>Properties of the page stream\<close>

text \<open>(C1) Every stream that page transactions build from a fresh claim, under arbitrary interleaving with
  other writers, is one that completion will accept: the persisted commits form a verified chain from the
  genesis to the digest in the run, the run and checkpoint agree on count, ordinal, cursor and revision,
  every item is counted as accepted, duplicate or rejected, no page follows a terminal page, and the number
  of pages never exceeds the reviewed cap.\<close>

theorem page_stream_invariant:
  assumes "stream_init db" and "(page_step config)\<^sup>*\<^sup>* db db'"
  shows "fold_result (chain_check (run_id (db_run db'))) (0, run_genesis_chain_hash (db_run db')) (db_commits db')
           = Inr (run_committed_page_count (db_run db'), run_committed_page_hash_chain (db_run db'))
    \<and> run_next_page_ordinal (db_run db') = int (length (db_commits db'))
    \<and> cp_revision (db_checkpoint db') = cp_revision (db_checkpoint db) + int (length (db_commits db'))
    \<and> cp_cursor (db_checkpoint db') = run_final_cursor (db_run db')
    \<and> (\<forall>c \<in> set (db_commits db'). pc_accepted_count c + pc_duplicate_count c + pc_rejected_count c
          = pc_source_page_item_count c)
    \<and> (\<forall>c \<in> set (butlast (db_commits db')). \<not> pc_is_terminal_page c)
    \<and> (db_commits db' = [] \<or> (\<exists>cap. run_reviewed_page_cap (db_run db') = Some cap
          \<and> int (length (db_commits db')) \<le> cap))
    \<and> distinct (map pc_page_idempotency_key (db_commits db'))"
proof -
  from assms(1) have "stream_wf db" and nil: "db_commits db = []"
    by (auto simp: stream_init_wf stream_init_def)
  with assms page_steps_le have wf: "stream_wf db'" and le: "stream_le db db'" by blast+
  have "position_wf db'" "chain_wf db'" "seal_wf db'" using wf by (simp_all add: stream_wf_def)
  with le nil show ?thesis
    by (auto simp: position_wf_def chain_wf_def seal_wf_def stream_le_def Let_def list_all_iff
        split: option.splits)
qed

text \<open>(C3) The checkpoint is a compare-and-set register: once a page transaction has committed, every later one
  that commits, in any later state, names a strictly greater expected revision. Two pages planned against
  the same checkpoint revision can never both be written.\<close>

theorem checkpoint_compare_and_set:
  assumes "stream_wf db" and "validate_contract r1"
    and "execute_page_commit env config db r1 now = Inr (db1, o1)" and "pco_status_code o1 = 201"
    and "(page_step config)\<^sup>*\<^sup>* db1 db2"
    and "execute_page_commit env2 config db2 r2 now2 = Inr (db3, o2)" and "pco_status_code o2 = 201"
  shows "req_expected_checkpoint_revision r1 = cp_revision (db_checkpoint db)
    \<and> cp_revision (db_checkpoint db1) = req_expected_checkpoint_revision r1 + 1
    \<and> req_expected_checkpoint_revision r1 < req_expected_checkpoint_revision r2"
proof -
  have wf1: "stream_wf db1" using execute_page_commit_wf [OF assms(3,2,1)] .
  then have wf2: "stream_wf db2" and le: "stream_le db1 db2" using page_steps_le [OF assms(5)] by blast+
  have first: "req_expected_checkpoint_revision r1 = cp_revision (db_checkpoint db)
      \<and> cp_revision (db_checkpoint db1) = req_expected_checkpoint_revision r1 + 1"
    using assms(3)
  proof (cases rule: execute_page_commitD)
    case (new ctx r' normalized h plan posts observed)
    with new_page_guards(2) [OF new(1) assms(1)] new_page_position(2) [OF new(1) assms(1)] show ?thesis by simp
  qed (use assms(4) in simp)
  have "req_expected_checkpoint_revision r2 = cp_revision (db_checkpoint db2)"
    using assms(6)
  proof (cases rule: execute_page_commitD)
    case (new ctx r' normalized h plan posts observed)
    with new_page_guards(2) [OF new(1) wf2] show ?thesis by simp
  qed (use assms(7) in simp)
  with first le show ?thesis by (auto simp: stream_le_def)
qed

section \<open>Replays\<close>

lemma find_unique:
  assumes "x \<in> set xs" and "P x" and "\<And>y. y \<in> set xs \<Longrightarrow> P y \<Longrightarrow> y = x"
  shows "List.find P xs = Some x"
proof (cases "List.find P xs")
  case None
  with assms(1,2) show ?thesis by (auto simp: find_None_iff)
next
  case (Some y)
  with find_SomeD [OF Some] assms(3) [of y] show ?thesis by simp
qed

text \<open>What a transaction that starts in a later state of the stream loads.\<close>

lemma load_later_context:
  assumes ctx: "load_locked_page_context config db r now = Inr ctx" and wf: "stream_wf db2"
    and le: "stream_le db db2" and auth: "db_authorization db2 \<noteq> None"
    and c: "c \<in> set (db_commits db2)" "pc_page_idempotency_key c = req_page_idempotency_key r"
  obtains ctx2 where "load_locked_page_context config db2 r now2 = Inr ctx2" "ctx_run ctx2 = db_run db2"
    "ctx_existing_idempotency_commit ctx2 = Some c"
proof -
  from wf have pos: "position_wf db2" and ch: "chain_wf db2" by (simp_all add: stream_wf_def)
  have find: "List.find (\<lambda>row. pc_page_idempotency_key row = req_page_idempotency_key r)
      (sort_key pc_page_ordinal (db_commits db2)) = Some c"
  proof (rule find_unique)
    show "y = c" if "y \<in> set (sort_key pc_page_ordinal (db_commits db2))"
        and "pc_page_idempotency_key y = req_page_idempotency_key r" for y
      using ch c that by (auto simp: chain_wf_def distinct_map inj_on_def)
  qed (use c in simp_all)
  from ctx obtain page_cap post_cap where
    "run_reviewed_page_cap (db_run db) = Some page_cap" "run_reviewed_post_cap (db_run db) = Some post_cap"
    "0 < page_cap \<and> page_cap \<le> cfg_reviewed_page_cap config
       \<and> 0 < post_cap \<and> post_cap \<le> cfg_reviewed_post_cap config"
    by (auto simp: load_locked_page_context_def run_with_counts_def Let_def split: option.splits if_splits)
  moreover have "run_reviewed_page_cap (db_run db2) = run_reviewed_page_cap (db_run db)"
    "run_reviewed_post_cap (db_run db2) = run_reviewed_post_cap (db_run db)"
    using le by (simp_all add: stream_le_def)
  ultimately show thesis using auth
    by (intro that [of "projr (load_locked_page_context config db2 r now2)"])
       (auto simp: load_locked_page_context_def run_with_counts_id [OF pos] find Let_def)
qed

text \<open>The guards of a first commit, as facts about the replayed request.\<close>

lemma committed_page_facts:
  assumes np: "new_page env config db r now ctx r' normalized h plan" and wf: "stream_wf db"
  shows "pc_page_idempotency_key (plan_commit plan) = req_page_idempotency_key r"
    and "pc_page_request_hash (plan_commit plan) = h"
    and "pc_lease_identity_hash (plan_commit plan) = hash_token (req_lease_token r)"
    and "pc_stored_response (plan_commit plan) = pco_response_bytes (plan_outcome plan)"
proof -
  from np have st: "server_terminal_request ctx r = Inr r'"
    and val: "validate_new_page_commit ctx r' = Inr ()"
    and plan: "plan_new_page env ctx r' normalized h = Inr plan" by (simp_all add: new_page_def)
  note same = server_terminal_request_fields [OF st]
  show "pc_page_idempotency_key (plan_commit plan) = req_page_idempotency_key r"
    using new_page_chain(3) [OF np wf] .
  have "hash_token (req_lease_token r') = run_lease_identity_hash (ctx_run ctx)"
    using val by (rule validate_new_page_commitD)
  with same new_page_chain(4) [OF np wf] new_page_context(1) [OF np wf]
  show "pc_lease_identity_hash (plan_commit plan) = hash_token (req_lease_token r)" by simp
  show "pc_page_request_hash (plan_commit plan) = h"
    "pc_stored_response (plan_commit plan) = pco_response_bytes (plan_outcome plan)"
    using plan by (auto elim: plan_new_pageD)
qed

lemma server_marks:
  "run_reviewed_page_cap (ctx_run ctx) = Some page_cap \<Longrightarrow> run_reviewed_post_cap (ctx_run ctx) = Some post_cap \<Longrightarrow>
   0 < page_cap \<Longrightarrow> 0 < post_cap \<Longrightarrow>
   server_terminal_request ctx r
   = Inr (if run_committed_page_count (ctx_run ctx) + 1 = page_cap \<and> req_terminal_reason r = None
          then r\<lparr>req_is_terminal_page := True, req_terminal_reason := Some REVIEWED_PAGE_CAP\<rparr> else r)"
  by (simp add: server_terminal_request_def reviewed_caps_def)

text \<open>Running the same request in a later state reaches the stored commit, with the request rewritten for
  the page count of that state.\<close>

lemma replay_reaches_commit:
  assumes np: "new_page env config db r now ctx r' normalized h plan" and wf: "stream_wf db"
    and wf2: "stream_wf db2" and le: "stream_le db db2" and auth: "db_authorization db2 \<noteq> None"
    and c: "plan_commit plan \<in> set (db_commits db2)" and nfc: "env_nfc env2 = env_nfc env"
    and cap: "run_reviewed_page_cap (db_run db) = Some page_cap"
    and r2: "r2 = (if int (length (db_commits db2)) + 1 = page_cap \<and> req_terminal_reason r = None
          then r\<lparr>req_is_terminal_page := True, req_terminal_reason := Some REVIEWED_PAGE_CAP\<rparr> else r)"
    and h2: "page_request_hash (env_nfc env) r2 normalized = Inr h2"
  obtains ctx2 where
    "execute_page_commit env2 config db2 r now2
     = (case replay_page env2 ctx2 r2 (plan_commit plan) h2 of Inl e \<Rightarrow> Inl e | Inr p \<Rightarrow> Inr (db2, plan_outcome p))"
proof -
  from np have ctx: "load_locked_page_context config db r now = Inr ctx"
    and norm: "normalize_page_items (env_nfc env) (req_posts r) = Inr normalized"
    and st: "server_terminal_request ctx r = Inr r'" and val: "validate_new_page_commit ctx r' = Inr ()"
    by (simp_all add: new_page_def)
  obtain ctx2 where c2: "load_locked_page_context config db2 r now2 = Inr ctx2" "ctx_run ctx2 = db_run db2"
    "ctx_existing_idempotency_commit ctx2 = Some (plan_commit plan)"
    using load_later_context [OF ctx wf2 le auth c committed_page_facts(1) [OF np wf]] by blast
  have ids: "req_command_id r = run_command_id (db_run db2)" "req_attempt r = run_attempt (db_run db2)"
    using np le new_page_context(1) [OF np wf] by (simp_all add: new_page_def stream_le_def)
  obtain page_cap' post_cap where "reviewed_caps (db_run db) = Inr (page_cap', post_cap)"
    using st new_page_context(1) [OF np wf] by (metis server_terminal_requestD)
  from reviewed_capsD [OF this] cap le have caps: "run_reviewed_page_cap (db_run db2) = Some page_cap"
    "run_reviewed_post_cap (db_run db2) = Some post_cap" "0 < page_cap" "0 < post_cap"
    by (auto simp: stream_le_def)
  have "run_committed_page_count (db_run db2) = int (length (db_commits db2))"
    using wf2 by (simp add: stream_wf_def position_wf_def Let_def)
  then have st2: "server_terminal_request ctx2 r = Inr r2"
    using server_marks [of ctx2 page_cap post_cap r] caps c2(2) by (simp add: r2)
  have "prepare_page_commit env2 ctx2 r = replay_page env2 ctx2 r2 (plan_commit plan) h2"
    using st2 norm h2 c2 ids server_terminal_request_fields [OF st2]
    by (simp add: prepare_page_commit_def nfc)
  with c2(1) show thesis
    by (intro that [of ctx2]) (auto simp: execute_page_commit_def replay_pageD(1) split: sum.split)
qed


text \<open>The bytes a page request is hashed over.\<close>

definition request_bytes :: "(string \<Rightarrow> string) \<Rightarrow> page_commit_request \<Rightarrow> string" where
  "request_bytes nfc r =
     (case (normalize_page_items nfc (req_posts r), format_utc (req_page_fetch_started_at r),
            format_utc (req_page_fetch_finished_at r)) of
        (Inr items, Inr started, Inr finished) \<Rightarrow>
          canonical_json_bytes nfc (page_request_payload r started finished items)
      | _ \<Rightarrow> [])"

abbreviation marked_terminal :: "page_commit_request \<Rightarrow> page_commit_request" where
  "marked_terminal r \<equiv> r\<lparr>req_is_terminal_page := True, req_terminal_reason := Some REVIEWED_PAGE_CAP\<rparr>"

definition keeps_ascii :: "(string \<Rightarrow> string) \<Rightarrow> bool" where
  "keeps_ascii nfc \<longleftrightarrow> (\<forall>s. list_all (\<lambda>c. (of_char c :: nat) < 128) s \<longrightarrow> nfc s = s)"

lemma page_request_hash_bytes:
  assumes "normalize_page_items nfc (req_posts r) = Inr items"
    and "page_request_hash nfc r items = Inr h"
  shows "h = sha256_hex (request_bytes nfc r)"
    and "page_request_hash nfc (marked_terminal r) items = Inr (sha256_hex (request_bytes nfc (marked_terminal r)))"
  using assms
  by (auto simp: page_request_hash_def request_bytes_def canonical_json_hash_def split: sum.splits)

text \<open>Marking a request terminal makes its canonical bytes 14 bytes longer.\<close>

lemma marked_request_bytes:
  assumes nfc: "keeps_ascii nfc" and "normalize_page_items nfc (req_posts r) = Inr items"
    and "page_request_hash nfc r items = Inr h"
    and "\<not> req_is_terminal_page r" and "req_terminal_reason r = None"
  shows "length (request_bytes nfc (marked_terminal r)) = length (request_bytes nfc r) + 14"
proof -
  from assms obtain started finished where
    d: "format_utc (req_page_fetch_started_at r) = Inr started" "format_utc (req_page_fetch_finished_at r) = Inr finished"
    by (auto simp: page_request_hash_def split: sum.splits)
  have key: "nfc s = s" if "list_all (\<lambda>c. (of_char c :: nat) < 128) s" for s
    using nfc that by (simp add: keeps_ascii_def)
  have len: "length (canonical_bytes nfc (page_request_payload q started finished items))
      = (\<Sum>(k, v) \<leftarrow> (case page_request_payload q started finished items of JObj kvs \<Rightarrow> kvs).
           length (json_quote (nfc k)) + 1 + length (canonical_bytes nfc v)) + 15" for q
    unfolding page_request_payload_def json.case
    by (subst length_canonical_obj) (simp_all add: key)
  have bools: "length (canonical_bytes nfc (JBool True)) = 4" "length (canonical_bytes nfc (JBool False)) = 5"
    "length (canonical_bytes nfc JNull) = 4"
    by (simp_all add: canonical_bytes_def)
  have reason: "length (canonical_bytes nfc (JStr ''reviewed_page_cap'')) = 19"
    by (simp add: canonical_bytes_def key json_quote_def json_escape_char_def)
  show ?thesis
    using assms(2,4,5) d
    by (simp add: request_bytes_def canonical_json_bytes_def len)
       (simp add: page_request_payload_def bools reason)
qed

text \<open>The cap marker breaks idempotency one page below the cap: a page that committed as a non-terminal page
  can be resent when the stream has grown to one page below its cap, with nothing else changed, and is then
  refused as a reuse of its idempotency key. The server rewrites the resent request as if it were the
  capping page before it compares request hashes; only a SHA-256 collision between the request's own two
  renderings, which differ in length, would avoid the refusal.\<close>

theorem replay_below_cap_refused:
  assumes "stream_wf db" and "validate_contract r"
    and "execute_page_commit env config db r now = Inr (db1, o1)" and "pco_status_code o1 = 201"
    and "(page_step config)\<^sup>*\<^sup>* db1 db2" and "db_authorization db2 \<noteq> None"
    and "env_nfc env2 = env_nfc env" and "keeps_ascii (env_nfc env)"
    and "req_terminal_reason r = None"
    and "run_reviewed_page_cap (db_run db) = Some (int (length (db_commits db2)) + 1)"
  shows "execute_page_commit env2 config db2 r now2 = raise_code IDEMPOTENCY_KEY_REUSED 409
    \<or> (let sent = request_bytes (env_nfc env) r; resent = request_bytes (env_nfc env) (marked_terminal r)
       in length resent = length sent + 14 \<and> sha256 resent = sha256 sent)"
  using assms(3)
proof (cases rule: execute_page_commitD)
  case (replay ctx c r' normalized)
  with assms(4) show ?thesis by simp
next
  case (new ctx r' normalized h plan posts observed)
  note np = new(1) and wf = assms(1)
  have "stream_wf db1" using execute_page_commit_wf [OF assms(3,2,1)] .
  with page_steps_le [OF assms(5)] have wf2: "stream_wf db2" and le2: "stream_le db1 db2" by blast+
  have le: "stream_le db db2" using stream_le_trans [OF execute_stream_le [OF assms(3,1)] le2] .
  have c: "plan_commit plan \<in> set (db_commits db2)" and grown: "length (db_commits db) < length (db_commits db2)"
    using le2 new(3) by (auto simp: stream_le_def)
  have norm: "normalize_page_items (env_nfc env) (req_posts r) = Inr normalized"
    using np by (simp add: new_page_def)
  have h: "page_request_hash (env_nfc env) r normalized = Inr h"
    using np grown assms(10) new_page_context(1,4) [OF np wf]
    by (auto simp: new_page_def elim!: server_terminal_requestD dest: reviewed_capsD(1) split: if_splits)
  note bytes = page_request_hash_bytes [OF norm h]
  obtain ctx2 where ex: "execute_page_commit env2 config db2 r now2
     = (case replay_page env2 ctx2 (marked_terminal r) (plan_commit plan)
               (sha256_hex (request_bytes (env_nfc env) (marked_terminal r))) of
          Inl e \<Rightarrow> Inl e | Inr p \<Rightarrow> Inr (db2, plan_outcome p))"
    using replay_reaches_commit [OF np wf wf2 le assms(6) c assms(7,10) _ bytes(2)] assms(9) by auto
  have "\<not> req_is_terminal_page r" using assms(2,9) by (simp add: validate_contract_def)
  from marked_request_bytes [OF assms(8) norm h this assms(9)]
  have len: "length (request_bytes (env_nfc env) (marked_terminal r)) = length (request_bytes (env_nfc env) r) + 14" .
  have "pc_page_request_hash (plan_commit plan) = sha256_hex (request_bytes (env_nfc env) r)"
    using committed_page_facts(2) [OF np wf] bytes(1) by simp
  with ex len show ?thesis
    by (auto simp: replay_page_def sha256_hex_def hexdigest_inject Let_def)
qed

text \<open>(C10) A sealed stream stays sealed: after a terminal page no further page is ever written, whatever the
  request and the interleaving, so the terminal facts of the run are final. A page cap seals by itself: a
  stream with as many pages as its cap is sealed.\<close>

theorem sealed_stream_final:
  assumes "stream_wf db" and "run_terminal_page_commit_id (db_run db) = Some t
      \<or> db_commits db \<noteq> [] \<and> run_reviewed_page_cap (db_run db) = Some (int (length (db_commits db)))"
    and "(page_step config)\<^sup>*\<^sup>* db db'"
  shows "db_commits db' = db_commits db \<and> run_terminal_page_commit_id (db_run db') = map_option pc_id (last_opt (db_commits db))
    \<and> db_checkpoint db' = db_checkpoint db \<and> run_completion_ready_at (db_run db') \<noteq> None
    \<and> (execute_page_commit env config db' r now = Inr (db2, outcome) \<longrightarrow>
         db2 = db' \<and> pco_status_code outcome = 200)"
proof -
  let ?sealed = "\<lambda>d. stream_wf d \<and> db_commits d = db_commits db
      \<and> run_terminal_page_commit_id (db_run d) = map_option pc_id (last_opt (db_commits db))
      \<and> db_checkpoint d = db_checkpoint db \<and> run_completion_ready_at (db_run d) \<noteq> None"
  have ne: "db_commits db \<noteq> []"
    using assms(1,2) by (auto simp: stream_wf_def seal_wf_def Let_def)
  have start: "?sealed db"
    using assms(1,2) ne
    by (cases "db_commits db" rule: rev_cases) (auto simp: stream_wf_def seal_wf_def Let_def split: if_splits)
  have no_page: "\<not> new_page env config d r now ctx r' normalized h plan" if "?sealed d" for env d r now ctx r' normalized h plan
    using that ne new_page_guards(1) [of env config d r now ctx r' normalized h plan]
    by (auto simp: last_opt_def)
  have replays: "d' = d \<and> pco_status_code o1 = 200"
    if "?sealed d" "execute_page_commit env config d r now = Inr (d', o1)" for env d r now d' o1
    using that(2) by (cases rule: execute_page_commitD) (use no_page that(1) in auto)
  have "?sealed b" if "(page_step config)\<^sup>*\<^sup>* db b" for b
    using that
  proof (induction rule: rtranclp_induct)
    case base
    show ?case by (rule start)
  next
    case (step b c)
    from step.hyps(2) show ?case
    proof (cases rule: page_step.cases)
      case (commit env r now outcome)
      with replays [OF step.IH] step.IH show ?thesis by blast
    next
      case (other c a ps s t)
      with step.IH other_wf show ?thesis by simp
    qed
  qed
  from this [OF assms(3)] replays show ?thesis by blast
qed

section \<open>Two pages of one run\<close>

definition example_env :: "nat \<Rightarrow> page_env" where
  "example_env k = \<lparr>env_nfc = id, env_new_id = (\<lambda>n. of_nat (100 * (k + 1) + n)),
     env_parse_response = (\<lambda>_. Some \<lparr>rsp_page_commit_id = of_nat (100 * (k + 1)), rsp_checkpoint_revision = 5,
        rsp_next_cursor = None, rsp_accepted_count = 0, rsp_duplicate_count = 0, rsp_rejected_count = 0,
        rsp_page_content_hash = []\<rparr>)\<rparr>"

definition example_config :: page_service_config where
  "example_config = \<lparr>cfg_reviewed_page_cap = 5, cfg_reviewed_post_cap = 50\<rparr>"

definition example_authorization :: authorization_snapshot where
  "example_authorization = \<lparr>auth_decision_id = 6, auth_source_id = 3, auth_scope_version = ''v1'',
     auth_enabled = True, auth_status = Authorization_APPROVED, auth_effective_at = 0,
     auth_expires_at = Some 1000, auth_revoked_at = None\<rparr>"

definition example_db :: page_db where
  "example_db = \<lparr>db_command = example_running,
     db_run = example_run\<lparr>run_authorization_decision_id := Some 6, run_authorization_snapshot := None,
       run_budget_decision_id := None, run_budget_decision_status := None,
       run_reviewed_page_cap := Some 2, run_reviewed_post_cap := Some 50\<rparr>,
     db_checkpoint = example_checkpoint, db_commits = [], db_posts = [],
     db_authorization = Some example_authorization, db_observed = []\<rparr>"

definition example_page :: "int \<Rightarrow> string option \<Rightarrow> string option \<Rightarrow> terminal_reason option \<Rightarrow> page_commit_request" where
  "example_page k cursor cursor' reason = \<lparr>req_command_id = 7, req_attempt = 1,
     req_lease_token = example_lease, req_page_idempotency_key = of_int (50 + k),
     req_expected_checkpoint_revision = 4 + k, req_expected_cursor = cursor, req_next_cursor = cursor',
     req_page_ordinal = k, req_posts = [], req_source_page_item_count = 0,
     req_source_page_receipt_sha256 = replicate 64 CHR ''0'', req_page_fetch_started_at = Aware 11 0,
     req_page_fetch_finished_at = Aware 12 0, req_is_terminal_page = (reason \<noteq> None),
     req_terminal_reason = reason\<rparr>"

abbreviation example_page0 :: page_commit_request where
  "example_page0 \<equiv> example_page 0 (Some ''c4'') (Some ''c5'') None"

abbreviation example_page1 :: page_commit_request where
  "example_page1 \<equiv> example_page 1 (Some ''c5'') None (Some SOURCE_EXHAUSTED)"

definition example_db1 :: page_db where
  "example_db1 = fst (projr (execute_page_commit (example_env 0) example_config example_db example_page0 (Aware 20 0)))"

definition example_db2 :: page_db where
  "example_db2 = fst (projr (execute_page_commit (example_env 1) example_config example_db1 example_page1 (Aware 21 0)))"

lemma example_contract: "0 \<le> k \<Longrightarrow> validate_contract (example_page k cursor cursor' reason)"
  by (simp add: validate_contract_def example_page_def lease_token_ok_def sha256_hex_ok_def example_lease_def
      list_all_iff hex_chars_def) (simp add: base64url_char_def)

lemma example_stream_init: "stream_init example_db"
  unfolding stream_init_def
  by (intro conjI exI [of _ id] exI [of _ example_start] exI [of _ example_run] exI [of _ "Some 6"]
      exI [of _ None] exI [of _ "Some 2"] exI [of _ "Some 50"])
     (simp_all add: example_db_def example_start_run, simp add: example_checkpoint_def watermark_wf_def)

lemmas example_page_eval =
  execute_page_commit_def load_locked_page_context_def run_with_counts_def prepare_page_commit_def
  server_terminal_request_def reviewed_caps_def normalize_page_items_def page_request_hash_def format_utc_def
  validate_new_page_commit_def require_active_authorization_def plan_new_page_def classify_page_items_def
  validate_terminal_cap_def advance_checkpoint_def advance_run_def count_disposition_def Let_def
  example_env_def example_config_def example_authorization_def example_page_def
  example_command_defs map_filter_simps

lemma fromhex_genesis_hash:
  "fromhex (genesis_hash nfc start cp) = Some (sha256 (''page-chain-genesis/v1'' @ [CHR 0x0A]
         @ canonical_json_bytes nfc (genesis_identity start cp)))"
  by (simp add: genesis_hash_def)

lemma example_commit0:
  "\<exists>o1. execute_page_commit (example_env 0) example_config example_db example_page0 (Aware 20 0)
          = Inr (example_db1, o1) \<and> pco_status_code o1 = 201"
proof -
  have "\<exists>d o1. execute_page_commit (example_env 0) example_config example_db example_page0 (Aware 20 0)
          = Inr (d, o1) \<and> pco_status_code o1 = 201"
    by (simp add: example_page_eval example_db_def example_run_def example_checkpoint_def page_chain_link_def
        fromhex_genesis_hash)
  then show ?thesis unfolding example_db1_def by auto
qed

lemma example_commit1:
  "\<exists>o1. execute_page_commit (example_env 1) example_config example_db1 example_page1 (Aware 21 0)
          = Inr (example_db2, o1) \<and> pco_status_code o1 = 201"
proof -
  have "\<exists>d o1. execute_page_commit (example_env 1) example_config example_db1 example_page1 (Aware 21 0)
          = Inr (d, o1) \<and> pco_status_code o1 = 201"
    unfolding example_db1_def
    by (simp add: example_page_eval example_db_def example_run_def example_checkpoint_def page_chain_link_def
        fromhex_genesis_hash)
  then show ?thesis unfolding example_db2_def by auto
qed

lemma example_db_wf: "stream_wf example_db"
  by (rule stream_init_wf [OF example_stream_init])

lemma example_steps01: "(page_step example_config)\<^sup>*\<^sup>* example_db example_db1"
  using example_commit0 example_contract [of 0] by (blast intro: page_step.commit)

lemma example_steps12: "(page_step example_config)\<^sup>*\<^sup>* example_db1 example_db2"
  using example_commit1 example_contract [of 1] by (fastforce intro: page_step.commit)

lemma example_db1_wf: "stream_wf example_db1" and example_db2_wf: "stream_wf example_db2"
  using page_steps_le example_steps01 example_steps12 example_db_wf by blast+

text \<open>What one committed page leaves in place.\<close>

lemma committed_page_effect:
  assumes "execute_page_commit env config db r now = Inr (db', o1)" and "pco_status_code o1 = 201"
    and wf: "stream_wf db"
  shows "length (db_commits db') = length (db_commits db) + 1"
    and "db_authorization db' = db_authorization db"
    and "run_reviewed_page_cap (db_run db') = run_reviewed_page_cap (db_run db)"
    and "run_id (db_run db') = run_id (db_run db) \<and> run_status (db_run db') = run_status (db_run db)
         \<and> run_command_id (db_run db') = run_command_id (db_run db) \<and> run_attempt (db_run db') = run_attempt (db_run db)"
    and "req_is_terminal_page r \<Longrightarrow> run_terminal_page_commit_id (db_run db') \<noteq> None"
proof -
  from assms obtain ctx r' normalized h plan posts observed where
    np: "new_page env config db r now ctx r' normalized h plan"
    and db': "db' = db\<lparr>db_commits := db_commits db @ [plan_commit plan], db_posts := posts, db_observed := observed,
               db_checkpoint := plan_updated_checkpoint plan, db_run := plan_updated_run plan\<rparr>"
    by (cases rule: execute_page_commitD) auto
  note pos = new_page_position(1) [OF np wf]
  show "length (db_commits db') = length (db_commits db) + 1" "db_authorization db' = db_authorization db"
    "run_reviewed_page_cap (db_run db') = run_reviewed_page_cap (db_run db)"
    "run_id (db_run db') = run_id (db_run db) \<and> run_status (db_run db') = run_status (db_run db)
       \<and> run_command_id (db_run db') = run_command_id (db_run db) \<and> run_attempt (db_run db') = run_attempt (db_run db)"
    using db' pos by simp_all
  assume marked: "req_is_terminal_page r"
  have "req_is_terminal_page r'"
    using np marked by (auto simp: new_page_def elim!: server_terminal_requestD split: if_splits)
  moreover obtain "pc_is_terminal_page (plan_commit plan) = req_is_terminal_page r'"
    using np plan_new_pageD [of env ctx r' normalized h plan] by (auto simp: new_page_def)
  ultimately show "run_terminal_page_commit_id (db_run db') \<noteq> None"
    using db' pos by (simp add: advance_run_def Let_def)
qed

theorem page_stream_invariant_witness:
  "int (length (db_commits example_db2)) \<le> 2 \<and> cp_revision (db_checkpoint example_db2) = 4 + int (length (db_commits example_db2))
   \<and> length (db_commits example_db2) = 2"
proof -
  have steps: "(page_step example_config)\<^sup>*\<^sup>* example_db example_db2"
    using example_steps01 example_steps12 by simp
  have "length (db_commits example_db2) = 2"
    using example_commit0 example_commit1 committed_page_effect(1) example_db_wf example_db1_wf
    by (fastforce simp: example_db_def)
  with page_stream_invariant [OF example_stream_init steps] show ?thesis
    by (simp add: example_db_def example_checkpoint_def)
qed

theorem checkpoint_compare_and_set_witness:
  "req_expected_checkpoint_revision example_page0 < req_expected_checkpoint_revision example_page1"
proof -
  obtain o0 o1 where "execute_page_commit (example_env 0) example_config example_db example_page0 (Aware 20 0)
      = Inr (example_db1, o0)" "pco_status_code o0 = 201"
    "execute_page_commit (example_env 1) example_config example_db1 example_page1 (Aware 21 0)
      = Inr (example_db2, o1)" "pco_status_code o1 = 201"
    using example_commit0 example_commit1 by blast
  from checkpoint_compare_and_set [OF example_db_wf example_contract this(1,2) rtranclp.rtrancl_refl this(3,4)]
  show ?thesis by simp
qed


theorem replay_below_cap_refused_witness:
  "execute_page_commit (example_env 0) example_config example_db1 example_page0 (Aware 30 0)
     = raise_code IDEMPOTENCY_KEY_REUSED 409
   \<or> sha256 (request_bytes id (marked_terminal example_page0)) = sha256 (request_bytes id example_page0)"
proof -
  obtain o0 where o0: "execute_page_commit (example_env 0) example_config example_db example_page0 (Aware 20 0)
      = Inr (example_db1, o0)" "pco_status_code o0 = 201"
    using example_commit0 by blast
  note effect = committed_page_effect [OF o0 example_db_wf]
  have auth: "db_authorization example_db1 \<noteq> None" using effect(2) by (simp add: example_db_def)
  have c: "validate_contract example_page0" by (rule example_contract) simp
  have ascii: "keeps_ascii (env_nfc (example_env 0))" by (simp add: keeps_ascii_def example_env_def)
  have reason: "req_terminal_reason example_page0 = None" by (simp add: example_page_def)
  have cap: "run_reviewed_page_cap (db_run example_db) = Some (int (length (db_commits example_db1)) + 1)"
    using effect(1) by (simp add: example_db_def)
  have nfc: "env_nfc (example_env 0) = id" by (simp add: example_env_def)
  from replay_below_cap_refused [OF example_db_wf c o0 rtranclp.rtrancl_refl auth refl ascii reason cap]
  show ?thesis unfolding nfc Let_def by blast
qed

theorem sealed_stream_final_witness:
  "run_terminal_page_commit_id (db_run example_db2) = map_option pc_id (last_opt (db_commits example_db2))
   \<and> run_completion_ready_at (db_run example_db2) \<noteq> None"
proof -
  obtain o1 where o1: "execute_page_commit (example_env 1) example_config example_db1 example_page1 (Aware 21 0)
      = Inr (example_db2, o1)" "pco_status_code o1 = 201"
    using example_commit1 by blast
  from committed_page_effect(5) [OF this example_db1_wf] obtain t where
    t: "run_terminal_page_commit_id (db_run example_db2) = Some t" by (auto simp: example_page_def)
  from sealed_stream_final [OF example_db2_wf disjI1 [OF t] rtranclp.rtrancl_refl] show ?thesis by blast
qed

end
