(* ===== verification/Stream_Recovery.thy ===== *)
theory Stream_Recovery
  imports Page_Store
begin

text \<open>
  What page transactions leave behind is always something completion and recovery can finish: the facts loaded
  for a run whose stream is well-formed pass the verification of \<open>completion.py\<close>, so the stale pass of
  \<open>recovery.py\<close> finalises every abandoned running command.
\<close>

definition facts_of :: "page_db \<Rightarrow> run_completion_facts" where
  "facts_of db = \<lparr>fact_run = db_run db, fact_checkpoint = db_checkpoint db, fact_commits = db_commits db,
     fact_observed_post_versions = db_observed db, fact_skip_decision = None\<rparr>"

text \<open>The run-level facts a completion request repeats, for a given status and failure.\<close>

definition outcome_of :: "run_state \<Rightarrow> run_status \<Rightarrow> failure_detail option \<Rightarrow> completion_source_outcome" where
  "outcome_of run status failure = \<lparr>so_run_id = run_id run, so_terminal_status = status,
     so_last_page_commit_id = run_last_page_commit_id run, so_final_cursor = run_final_cursor run,
     so_final_page_ordinal = run_final_page_ordinal run,
     so_committed_page_count = run_committed_page_count run,
     so_committed_page_hash_chain = run_committed_page_hash_chain run,
     so_skip_decision_id = None, so_failure = failure\<rparr>"

lemma outcome_of_simps [simp]:
  "so_run_id (outcome_of run st f) = run_id run" "so_terminal_status (outcome_of run st f) = st"
  "so_failure (outcome_of run st f) = f" "so_skip_decision_id (outcome_of run st f) = None"
  by (simp_all add: outcome_of_def)

lemma facts_of_simps [simp]:
  "fact_run (facts_of db) = db_run db" "fact_commits (facts_of db) = db_commits db"
  "fact_checkpoint (facts_of db) = db_checkpoint db" "fact_observed_post_versions (facts_of db) = db_observed db"
  by (simp_all add: facts_of_def)

lemma stream_chain_verifies:
  assumes "stream_wf db"
  shows "verify_persisted_chain (facts_of db) (outcome_of (db_run db) status failure) = Inr ()"
proof -
  from assms have ch: "fold_result (chain_check (run_id (db_run db))) (0, run_genesis_chain_hash (db_run db))
      (db_commits db) = Inr (int (length (db_commits db)), run_committed_page_hash_chain (db_run db))"
    and pos: "position_wf db"
    by (simp_all add: stream_wf_def chain_wf_def)
  from pos ch chain_sorted [OF ch] show ?thesis
    by (simp add: verify_persisted_chain_def facts_of_def outcome_of_def position_wf_def Let_def)
qed

lemma stream_ready_iff:
  "stream_wf db \<Longrightarrow> run_completion_ready_at (db_run db) \<noteq> None \<longleftrightarrow> run_terminal_page_commit_id (db_run db) \<noteq> None"
  by (cases "last_opt (db_commits db)") (auto simp: stream_wf_def seal_wf_def Let_def split: if_splits)

lemma sealed_stream_publication:
  assumes wf: "stream_wf db" and sealed: "run_terminal_page_commit_id (db_run db) = Some t"
  obtains pub where "success_publication nfc (facts_of db) (outcome_of (db_run db) Run_SUCCEEDED None) = Inr pub"
    "pub_run_id pub = run_id (db_run db)" "pub_terminal_page_commit_id pub = t"
    "pub_final_chain_hash pub = run_committed_page_hash_chain (db_run db)"
    "pub_zero_post pub \<longleftrightarrow> db_observed db = []"
proof (cases "db_commits db" rule: rev_cases)
  case Nil
  with assms show thesis by (simp add: stream_wf_def seal_wf_def Let_def)
next
  case (snoc cs c)
  with assms show thesis
    by (intro that [of "projr (success_publication nfc (facts_of db) (outcome_of (db_run db) Run_SUCCEEDED None))"])
       (auto simp: stream_wf_def seal_wf_def position_wf_def success_publication_def facts_of_def outcome_of_def
         Let_def distinct_versions_Nil split: if_splits)
qed

text \<open>Finalising one run of a well-formed stream always succeeds.\<close>

lemma prepare_sealed_run:
  assumes wf: "stream_wf db" and "run_terminal_page_commit_id (db_run db) = Some t"
    and "run_command_id (db_run db) = cmd_id c" "run_attempt (db_run db) = cmd_attempt c"
      "run_status (db_run db) = Run_RUNNING"
  shows "\<exists>run' pub. prepare_run nfc c (facts_of db) (outcome_of (db_run db) Run_SUCCEEDED None) now = Inr (run', Some pub)
    \<and> run_status run' = Run_SUCCEEDED \<and> run_id run' = run_id (db_run db)
    \<and> pub_terminal_page_commit_id pub = t \<and> pub_final_chain_hash pub = run_committed_page_hash_chain (db_run db)
    \<and> (pub_zero_post pub \<longleftrightarrow> db_observed db = [])"
proof -
  obtain pub where "success_publication nfc (facts_of db) (outcome_of (db_run db) Run_SUCCEEDED None) = Inr pub"
    "pub_terminal_page_commit_id pub = t" "pub_final_chain_hash pub = run_committed_page_hash_chain (db_run db)"
    "pub_zero_post pub \<longleftrightarrow> db_observed db = []"
    using sealed_stream_publication [OF assms(1,2)] by blast
  then show ?thesis
    using assms stream_chain_verifies [OF wf, of Run_SUCCEEDED None]
    by (simp add: prepare_run_def opt_utc_def Let_def)
qed

lemma prepare_failed_run:
  assumes wf: "stream_wf db" and "run_terminal_page_commit_id (db_run db) = None"
    and "run_command_id (db_run db) = cmd_id c" "run_attempt (db_run db) = cmd_attempt c"
      "run_status (db_run db) = Run_RUNNING"
    and "status = Run_FAILED_RETRYABLE \<and> cls = Failure_RETRYABLE
         \<or> status = Run_FAILED_TERMINAL \<and> cls = Failure_TERMINAL"
  shows "\<exists>run'. prepare_run nfc c (facts_of db)
      (outcome_of (db_run db) status (Some (stale_failure (db_run db) cls (Aware t off) retry))) now = Inr (run', None)
    \<and> run_status run' = status \<and> run_id run' = run_id (db_run db)"
proof -
  let ?f = "stale_failure (db_run db) cls (Aware t off) retry"
  have "verify_failure (facts_of db) (outcome_of (db_run db) status (Some ?f)) = Inr ()"
    using assms(2,6)
    by (auto simp: verify_failure_def stale_failure_def Let_def RETRYABLE_CODES_def TERMINAL_CODES_def)
  then show ?thesis
    using assms stream_chain_verifies [OF wf, of status "Some ?f"]
    by (auto simp: prepare_run_def opt_utc_def Let_def stale_failure_def split: option.split)
qed

section \<open>Recovery finishes abandoned commands\<close>

lemma map_of_outcomes:
  assumes "distinct (map key xs)" and "x \<in> set xs" and "\<And>y. so_run_id (out y) = key y"
  shows "map_of (map (\<lambda>o1. (so_run_id o1, o1)) (map out xs)) (key x) = Some (out x)"
  using assms by (intro map_of_is_SomeI) (auto simp: comp_def image_iff)

lemma prepare_server_completion_total:
  assumes now: "cc_db_now ctx = Aware now off" and run: "cmd_status (cc_command ctx) = Command_RUNNING"
    and ne: "cc_runs ctx \<noteq> []" and dist: "distinct (map (\<lambda>f. run_id (fact_run f)) (cc_runs ctx))"
    and id: "\<And>f. so_run_id (out f) = run_id (fact_run f)"
    and ok: "\<forall>f \<in> set (cc_runs ctx). \<exists>res. prepare_run nfc (cc_command ctx) f (out f) now = Inr res"
  obtains plan where "prepare_server_completion nfc ctx (map out (cc_runs ctx)) h = Inr plan"
    "\<forall>f \<in> set (cc_runs ctx). \<exists>run \<in> set (cpl_runs plan). run_id run = run_id (fact_run f)
       \<and> run_status run = so_terminal_status (out f)"
proof -
  let ?fs = "sort_key (\<lambda>f. uuid_hex (run_id (fact_run f))) (cc_runs ctx)"
  let ?step = "\<lambda>f. case map_of (map (\<lambda>o1. (so_run_id o1, o1)) (map out (cc_runs ctx))) (run_id (fact_run f)) of
      None \<Rightarrow> raise_code RUN_SET_MISMATCH 409
    | Some o1 \<Rightarrow> prepare_run nfc (cc_command ctx) f o1 now"
  have step: "?step f = prepare_run nfc (cc_command ctx) f (out f) now" if "f \<in> set (cc_runs ctx)" for f
    using map_of_outcomes [OF dist that, of out] id by simp
  obtain results where res: "seq_result ?step ?fs = Inr results"
    using seq_result_total [of ?fs ?step] ok step by auto
  then have rel: "list_all2 (\<lambda>f r. prepare_run nfc (cc_command ctx) f (out f) now = Inr r) ?fs results"
    unfolding seq_result_Inr_iff by (rule list.rel_mono_strong) (use step in auto)
  have fin: "\<forall>r \<in> set results. terminal_run (run_status (fst r))"
    using rel prepare_runD(6) by (fastforce simp: list_all2_conv_all_nth in_set_conv_nth)
  have "results \<noteq> []" using rel ne by (auto dest: list_all2_lengthD)
  with fin have "aggregate_command_status (map (\<lambda>(run, _). run_status run) results)
      = Inr (aggregate_spec (set (map (\<lambda>(run, _). run_status run) results)))"
    by (simp only: aggregate_command_status_eq) (auto simp: case_prod_unfold)
  moreover have "\<exists>r \<in> set (map fst results). run_id r = run_id (fact_run f) \<and> run_status r = so_terminal_status (out f)"
    if "f \<in> set (cc_runs ctx)" for f
  proof -
    from that obtain i where "i < length ?fs" "?fs ! i = f" by (metis in_set_conv_nth set_sort)
    with rel have "i < length results" "prepare_run nfc (cc_command ctx) f (out f) now = Inr (results ! i)"
      by (auto simp: list_all2_conv_all_nth)
    with prepare_runD(1,5) [of nfc "cc_command ctx" f "out f" now "fst (results ! i)" "snd (results ! i)"]
    show ?thesis by (intro bexI [of _ "fst (results ! i)"]) auto
  qed
  moreover have "distinct (map so_run_id (map out (cc_runs ctx)))"
    "set (map (\<lambda>f. run_id (fact_run f)) (cc_runs ctx)) = set (map so_run_id (map out (cc_runs ctx)))"
    using dist id by (simp_all add: comp_def image_image)
  ultimately show thesis
    using now run dist res
    by (intro that [of "projr (prepare_server_completion nfc ctx (map out (cc_runs ctx)) h)"])
       (simp_all add: prepare_server_completion_def Let_def)
qed

text \<open>The outcome the stale pass derives for one run.\<close>

definition failed_status :: "command_state \<Rightarrow> run_status" where
  "failed_status c = (if cmd_attempt c = 3 then Run_FAILED_TERMINAL else Run_FAILED_RETRYABLE)"

lemma release_stale_running:
  assumes "cmd_wf c" and "cmd_status c = Command_RUNNING" and "cmd_heartbeat_at c = Some h"
    and "seconds 360 < now - h"
  obtains released retry where
    "release_stale \<lparr>cc_command = c, cc_runs = fs, cc_db_now = Aware now off\<rparr> key = Inr (Some released)"
    "released_facts (Some released) = Inr (Some (if cmd_attempt c = 3 then Command_FAILED_TERMINAL
        else Command_FAILED_RETRYABLE), retry)"
proof -
  have att: "cmd_attempt c = 1 \<or> cmd_attempt c = 2 \<or> cmd_attempt c = 3"
    using assms(1) by (auto simp: cmd_wf_def MAX_COMMAND_ATTEMPTS_def)
  have "\<exists>d. retry_delay_seconds key (cmd_id c) (cmd_attempt c + 1) = Inr d" if "cmd_attempt c \<noteq> 3"
    using att that retry_delay_total [of "cmd_attempt c + 1" key "cmd_id c"] by fastforce
  with att assms show thesis
    by (cases "cmd_attempt c = 3")
       (auto simp: release_stale_def mark_stale_def EXECUTION_STALE_SECONDS_def release_abandoned_def
         MAX_COMMAND_ATTEMPTS_def clear_attempt_def released_facts_def Let_def intro!: that)
qed

text \<open>The two shapes of a derived outcome.\<close>

definition stale_outcome :: "command_state \<Rightarrow> datetime \<Rightarrow> instant option \<Rightarrow> run_completion_facts \<Rightarrow> completion_source_outcome" where
  "stale_outcome c now retry f =
     (if run_completion_ready_at (fact_run f) \<noteq> None then outcome_of (fact_run f) Run_SUCCEEDED None
      else outcome_of (fact_run f) (failed_status c)
        (Some (stale_failure (fact_run f) (if cmd_attempt c = 3 then Failure_TERMINAL else Failure_RETRYABLE) now retry)))"

lemma stale_outcome_id [simp]: "so_run_id (stale_outcome c now retry f) = run_id (fact_run f)"
  by (simp add: stale_outcome_def)

lemma recovery_outcome_eq:
  assumes "run_completion_ready_at (fact_run f) \<noteq> None
     \<or> status = Some (if cmd_attempt c = 3 then Command_FAILED_TERMINAL else Command_FAILED_RETRYABLE)"
  shows "recovery_outcome f status now retry = Inr (stale_outcome c now retry f)"
  using assms by (auto simp: recovery_outcome_def stale_outcome_def outcome_of_def failed_status_def Let_def)

lemma stale_outcome_accepted:
  assumes wf: "stream_wf db" and "run_command_id (db_run db) = cmd_id c" "run_attempt (db_run db) = cmd_attempt c"
      "run_status (db_run db) = Run_RUNNING"
  shows "\<exists>res. prepare_run nfc c (facts_of db) (stale_outcome c (Aware t off) retry (facts_of db)) now = Inr res"
proof (cases "run_terminal_page_commit_id (db_run db)")
  case None
  then have "run_completion_ready_at (db_run db) = None" using stream_ready_iff [OF wf] by auto
  with prepare_failed_run [OF wf None assms(2,3,4), of "failed_status c"
      "if cmd_attempt c = 3 then Failure_TERMINAL else Failure_RETRYABLE" nfc t off retry now]
  show ?thesis by (auto simp: stale_outcome_def failed_status_def)
next
  case (Some p)
  then have "run_completion_ready_at (db_run db) \<noteq> None" using stream_ready_iff [OF wf] by auto
  with prepare_sealed_run [OF wf Some assms(2,3,4), of nfc now] show ?thesis
    by (auto simp: stale_outcome_def)
qed

lemma seq_result_const: "(\<And>x. x \<in> set xs \<Longrightarrow> f x = Inr (g x)) \<Longrightarrow> seq_result f xs = Inr (map g xs)"
  by (simp add: seq_result_Inr_iff list.rel_map list.rel_refl_strong)

text \<open>The plan for a list of streams; \<open>finished_as\<close> is what it says about each run.\<close>

definition finished_as :: "command_state \<Rightarrow> page_db list \<Rightarrow> completion_plan \<Rightarrow> bool" where
  "finished_as c dbs plan \<longleftrightarrow>
     (\<forall>db \<in> set dbs. \<exists>run \<in> set (cpl_runs plan). run_id run = run_id (db_run db)
         \<and> run_status run = (if run_terminal_page_commit_id (db_run db) \<noteq> None then Run_SUCCEEDED
                             else if cmd_attempt c = 3 then Run_FAILED_TERMINAL else Run_FAILED_RETRYABLE))"

definition recoverable :: "command_state \<Rightarrow> page_db list \<Rightarrow> bool" where
  "recoverable c dbs \<longleftrightarrow> dbs \<noteq> [] \<and> distinct (map (\<lambda>db. run_id (db_run db)) dbs)
     \<and> (\<forall>db \<in> set dbs. stream_wf db \<and> run_command_id (db_run db) = cmd_id c
          \<and> run_attempt (db_run db) = cmd_attempt c \<and> run_status (db_run db) = Run_RUNNING)"

lemma stale_outcomes_plan:
  assumes "cmd_status c = Command_RUNNING" and rec: "recoverable c dbs"
  obtains plan where
    "prepare_server_completion nfc \<lparr>cc_command = c, cc_runs = map facts_of dbs, cc_db_now = Aware now off\<rparr>
       (map (stale_outcome c (Aware now off) retry) (map facts_of dbs)) hash = Inr plan"
    "finished_as c dbs plan"
proof -
  let ?ctx = "\<lparr>cc_command = c, cc_runs = map facts_of dbs, cc_db_now = Aware now off\<rparr>"
  have "\<forall>f \<in> set (map facts_of dbs). \<exists>res. prepare_run nfc c f (stale_outcome c (Aware now off) retry f) now = Inr res"
    using rec stale_outcome_accepted by (auto simp: recoverable_def)
  with assms obtain plan where plan:
    "prepare_server_completion nfc ?ctx (map (stale_outcome c (Aware now off) retry) (map facts_of dbs)) hash = Inr plan"
    "\<forall>f \<in> set (map facts_of dbs). \<exists>run \<in> set (cpl_runs plan). run_id run = run_id (fact_run f)
       \<and> run_status run = so_terminal_status (stale_outcome c (Aware now off) retry f)"
    using prepare_server_completion_total [of ?ctx now off "stale_outcome c (Aware now off) retry" nfc hash]
    by (auto simp: comp_def recoverable_def)
  have "so_terminal_status (stale_outcome c (Aware now off) retry (facts_of db))
      = (if run_terminal_page_commit_id (db_run db) \<noteq> None then Run_SUCCEEDED else failed_status c)"
    if "db \<in> set dbs" for db
    using stream_ready_iff [of db] rec that by (auto simp: stale_outcome_def recoverable_def)
  with plan(2) have "finished_as c dbs plan"
    unfolding finished_as_def failed_status_def [symmetric] by auto
  with plan(1) show thesis by (rule that)
qed


lemma example_db2_run:
  "run_id (db_run example_db2) = 1" "run_status (db_run example_db2) = Run_RUNNING"
  "run_command_id (db_run example_db2) = 7" "run_attempt (db_run example_db2) = 1"
  "run_terminal_page_commit_id (db_run example_db2) \<noteq> None"
proof -
  obtain o0 o1 where "execute_page_commit (example_env 0) example_config example_db example_page0 (Aware 20 0)
      = Inr (example_db1, o0)" "pco_status_code o0 = 201"
    and o1: "execute_page_commit (example_env 1) example_config example_db1 example_page1 (Aware 21 0)
      = Inr (example_db2, o1)" "pco_status_code o1 = 201"
    using example_commit0 example_commit1 by blast
  from committed_page_effect(4) [OF this(1,2) example_db_wf] committed_page_effect(4) [OF o1 example_db1_wf]
  show "run_id (db_run example_db2) = 1" "run_status (db_run example_db2) = Run_RUNNING"
    "run_command_id (db_run example_db2) = 7" "run_attempt (db_run example_db2) = 1"
    by (simp_all add: example_db_def example_run_def)
  show "run_terminal_page_commit_id (db_run example_db2) \<noteq> None"
    using committed_page_effect(5) [OF o1 example_db1_wf] by (simp add: example_page_def)
qed


section \<open>A status recovery accepts but cannot finish\<close>

lemma mark_stale_abandoned:
  assumes "cmd_status c = Command_STALE_ABANDONED" and "mark_stale c check = Inr released"
  shows "cmd_status released \<in> {Command_FAILED_RETRYABLE, Command_FAILED_TERMINAL}"
  using assms
  by (auto simp: mark_stale_def release_abandoned_def clear_attempt_def Let_def split: sum.splits if_splits)

text \<open>Recovery admits a command in the state \<open>stale_abandoned\<close>, but it can never finish one that has runs:
  it always raises, because the finalisation it then calls requires the status \<open>running\<close>.\<close>

theorem stale_abandoned_never_recovered:
  assumes "cmd_status (cc_command ctx) = Command_STALE_ABANDONED" and "cc_runs ctx \<noteq> []"
  shows "require_recoverable_status (cmd_status (cc_command ctx)) = Inr ()
    \<and> (\<exists>e. prepare_stale_recovery nfc dt ctx key = Inl e)"
proof -
  have never: "\<exists>e. prepare_server_completion nfc ctx outcomes h = Inl e" for outcomes h
    using assms(1) by (auto simp: prepare_server_completion_def raise_code_def split: sum.split)
  have some: "released \<noteq> None" if "release_stale ctx key = Inr released" for released
    using that
    by (auto simp: release_stale_def Let_def split: sum.splits command_status.splits
        dest!: mark_stale_abandoned [OF assms(1)])
  show ?thesis
  proof (cases "prepare_stale_recovery nfc dt ctx key")
    case (Inr plan)
    with assms never some show ?thesis
      by (auto simp: prepare_stale_recovery_def require_recoverable_status_def Let_def
          split: sum.splits if_splits) (metis sum.distinct(1))+
  qed (use assms in \<open>simp add: require_recoverable_status_def\<close>)
qed

theorem stale_abandoned_never_recovered_witness:
  "\<exists>e. prepare_stale_recovery id (\<lambda>_. [])
     \<lparr>cc_command = example_running\<lparr>cmd_status := Command_STALE_ABANDONED\<rparr>, cc_runs = [example_facts],
      cc_db_now = Aware 500 0\<rparr> ''key'' = Inl e"
  using stale_abandoned_never_recovered [of "\<lparr>cc_command = example_running\<lparr>cmd_status := Command_STALE_ABANDONED\<rparr>,
      cc_runs = [example_facts], cc_db_now = Aware 500 0\<rparr>"]
  by simp

text \<open>(C6) A run is only ever reported as succeeded on the evidence of a sealed stream: completion accepts the
  status only if the persisted commits verify link by link from the genesis to the digest that sealed the
  run, the last of them is a terminal page at the checkpoint's current revision, and the published digest
  is the verified one.\<close>

theorem success_needs_sealed_stream:
  assumes "prepare_run nfc c facts outcome now = Inr (run', Some pub)"
  shows "run_status run' = Run_SUCCEEDED \<and> run_status (fact_run facts) = Run_RUNNING
    \<and> fold_result (chain_check (run_id (fact_run facts))) (0, run_genesis_chain_hash (fact_run facts))
        (sort_key pc_page_ordinal (fact_commits facts))
      = Inr (int (length (fact_commits facts)), pub_final_chain_hash pub)
    \<and> run_terminal_chain_hash (fact_run facts) = Some (pub_final_chain_hash pub)
    \<and> run_terminal_page_commit_id (fact_run facts) = Some (pub_terminal_page_commit_id pub)
    \<and> fact_commits facts \<noteq> [] \<and> pc_is_terminal_page (last (fact_commits facts))
    \<and> cp_revision (fact_checkpoint facts) = pc_resulting_checkpoint_revision (last (fact_commits facts))"
proof -
  note run = prepare_runD [OF assms]
  from run(11) have p: "success_publication nfc facts outcome = Inr pub" by simp
  note pub = success_publicationD [OF p]
  note chain = verify_persisted_chainD [OF run(9)]
  have "sort_key pc_page_ordinal (fact_commits facts) \<noteq> []" using pub(4) by simp
  from chain_digest_hex [OF chain(1) this] obtain bytes where
    hex: "run_committed_page_hash_chain (fact_run facts) = hexdigest (sha256 bytes)" by blast
  have "hexdigest (sha256 bytes) \<noteq> []"
    by (metis length_hexdigest length_sha256 list.size(3) mult_is_0 zero_neq_numeral)
  then have "pub_final_chain_hash pub = run_committed_page_hash_chain (fact_run facts)"
    using p pub(6) chain(4) hex
    by (auto simp: success_publication_def Let_def split: option.splits if_splits)
  with run pub chain show ?thesis by simp
qed

theorem success_needs_sealed_stream_witness:
  "\<exists>run' pub. prepare_run id example_running example_facts example_outcome 30 = Inr (run', Some pub)
     \<and> run_terminal_chain_hash (fact_run example_facts) = Some (pub_final_chain_hash pub)"
proof -
  obtain run' pub where r: "prepare_run id example_running example_facts example_outcome 30 = Inr (run', Some pub)"
    using example_prepare_run by blast
  from success_needs_sealed_stream [OF r] r show ?thesis by blast
qed

end
