(* ===== verification/Slots.thy ===== *)
theory Slots
  imports Collection_Base
begin

text \<open>
  \<open>collection/slots.py\<close> and \<open>collection/verification.py\<close>: the three-hour collection grid, the fifteen-minute
  verification grid and the freshness verdict of one source.

  Both loops are the \<open>slots_from\<close> of the prelude, and both interpret its \<open>slot_grid\<close> interface. The grid of
  collection is \<open>t mod 3h = 17min\<close>; the lemmas show that the calendar arithmetic of the code computes it.
\<close>

section \<open>The collection grid\<close>

definition GRID_HOURS :: int where "GRID_HOURS = 3"
definition GRID_MINUTE :: int where "GRID_MINUTE = 17"

record scheduler_cursor_state =
  sc_scope_version :: string
  sc_last_materialized_slot_utc :: "datetime option"

record collection_slot_draft =
  csd_scope_version :: string
  csd_due_slot_utc :: instant
  csd_scheduled_key :: string
  csd_materialized_at :: instant

record slot_materialization_plan =
  smp_expected_cursor :: scheduler_cursor_state
  smp_slots :: "collection_slot_draft list"
  smp_next_cursor :: scheduler_cursor_state

text \<open>\<open>value.replace(hour=h, minute=m, second=0, microsecond=0)\<close> of a UTC time.\<close>

definition replace_time :: "instant \<Rightarrow> int \<Rightarrow> int \<Rightarrow> instant" where
  "replace_time t h m = (t div usec_per_day) * usec_per_day + hours h + minutes m"

definition activation_slot :: "datetime \<Rightarrow> exc + instant" where
  "activation_slot activation_at =
     (case require_utc activation_at of Inl e \<Rightarrow> Inl e
      | Inr activation \<Rightarrow>
        let grid_hour = utc_hour activation - utc_hour activation mod GRID_HOURS;
            candidate = replace_time activation grid_hour GRID_MINUTE
        in Inr (if candidate \<le> activation then candidate + hours GRID_HOURS else candidate))"

definition slot_draft :: "scheduler_cursor_state \<Rightarrow> instant \<Rightarrow> instant \<Rightarrow> collection_slot_draft" where
  "slot_draft cursor now due = \<lparr>csd_scope_version = sc_scope_version cursor, csd_due_slot_utc = due,
     csd_scheduled_key = ''scheduled:'' @ sc_scope_version cursor @ '':'' @ utc_text due,
     csd_materialized_at = now\<rparr>"

definition plan_slot_materialization ::
    "scheduler_cursor_state \<Rightarrow> datetime \<Rightarrow> datetime \<Rightarrow> exc + slot_materialization_plan" where
  "plan_slot_materialization cursor deployment_activation_at db_now =
     (case require_utc db_now of Inl e \<Rightarrow> Inl e
      | Inr now \<Rightarrow> (case activation_slot deployment_activation_at of Inl e \<Rightarrow> Inl e
      | Inr first \<Rightarrow>
        (case (case sc_last_materialized_slot_utc cursor of
                 None \<Rightarrow> Inr first
               | Some l \<Rightarrow> (case require_utc l of Inl e \<Rightarrow> Inl e
                   | Inr last1 \<Rightarrow>
                     if utc_minute last1 \<noteq> GRID_MINUTE \<or> utc_hour last1 mod GRID_HOURS \<noteq> 0
                     then raise_code INVALID_CONTRACT 422
                     else Inr (last1 + hours GRID_HOURS))) of Inl e \<Rightarrow> Inl e
         | Inr start \<Rightarrow>
           let slots = map (slot_draft cursor now) (slots_from (hours GRID_HOURS) start now);
               next_cursor = (if slots \<noteq> []
                 then cursor\<lparr>sc_last_materialized_slot_utc := Some (Aware (csd_due_slot_utc (last slots)) 0)\<rparr>
                 else cursor)
           in Inr \<lparr>smp_expected_cursor = cursor, smp_slots = slots, smp_next_cursor = next_cursor\<rparr>)))"

section \<open>Verification slots and freshness\<close>

definition VERIFICATION_INTERVAL :: duration where "VERIFICATION_INTERVAL = minutes 15"
definition MAX_FRESHNESS_SECONDS :: int where "MAX_FRESHNESS_SECONDS = 3 * 60 * 60"

record source_verification_facts =
  svf_source_id :: uuid
  svf_enabled :: bool
  svf_snapshot_published_at :: datetime
  svf_latest_successful_run_id :: "uuid option"
  svf_latest_successful_run_finished_at :: "datetime option"
  svf_visible_publication_manifest_id :: "uuid option"
  svf_visible_publication_sequence :: "int option"
  svf_publication_first_visible_at :: "datetime option"

record verification_source_result =
  vsr_source_id :: uuid
  vsr_scheduler_latency_seconds :: int
  vsr_collection_recency_seconds :: "int option"
  vsr_publication_latency_seconds :: "int option"
  vsr_status :: verification_status
  vsr_failure_code :: "string option"

text \<open>\<open>value.utcoffset() != timedelta(0)\<close> also holds of a naive value, whose offset is \<open>None\<close>.\<close>

fun require_aware_utc :: "datetime \<Rightarrow> exc + instant" where
  "require_aware_utc (Naive t) = Inl ValueError"
| "require_aware_utc (Aware t off) = (if off \<noteq> 0 then Inl ValueError else Inr t)"

definition require_aligned_utc :: "datetime \<Rightarrow> exc + instant" where
  "require_aligned_utc value =
     (case require_aware_utc value of Inl e \<Rightarrow> Inl e
      | Inr t \<Rightarrow> if utc_minute t mod 15 \<noteq> 0 \<or> utc_second t \<noteq> 0 \<or> utc_microsecond t \<noteq> 0
                 then Inl ValueError else Inr t)"

definition verification_slots :: "datetime option \<Rightarrow> datetime \<Rightarrow> exc + instant list" where
  "verification_slots last_observed target =
     (case require_aligned_utc target of Inl e \<Rightarrow> Inl e
      | Inr goal \<Rightarrow>
        (case last_observed of
           None \<Rightarrow> Inr [goal]
         | Some l \<Rightarrow> (case require_aligned_utc l of Inl e \<Rightarrow> Inl e
             | Inr last1 \<Rightarrow>
               if last1 \<ge> goal then Inr []
               else Inr (slots_from VERIFICATION_INTERVAL (last1 + VERIFICATION_INTERVAL) goal))))"

definition failed :: "uuid \<Rightarrow> int \<Rightarrow> int option \<Rightarrow> int option \<Rightarrow> string \<Rightarrow> verification_source_result" where
  "failed source_id scheduler collection publication code =
     \<lparr>vsr_source_id = source_id, vsr_scheduler_latency_seconds = scheduler,
      vsr_collection_recency_seconds = collection, vsr_publication_latency_seconds = publication,
      vsr_status = Verification_FAILED, vsr_failure_code = Some code\<rparr>"

definition derive_source_result ::
    "source_verification_facts \<Rightarrow> datetime \<Rightarrow> datetime \<Rightarrow> exc + verification_source_result" where
  "derive_source_result facts expected_slot action_started_at =
     (case require_aware_utc expected_slot of Inl e \<Rightarrow> Inl e | Inr slot \<Rightarrow>
      (case require_aware_utc action_started_at of Inl e \<Rightarrow> Inl e | Inr started \<Rightarrow>
      (case require_aware_utc (svf_snapshot_published_at facts) of Inl e \<Rightarrow> Inl e | Inr snapshot \<Rightarrow>
      let sid = svf_source_id facts; scheduler_latency = trunc_seconds (started - slot) in
      if scheduler_latency < 0 then Inl ValueError
      else if \<not> svf_enabled facts then Inr (failed sid scheduler_latency None None ''source_disabled'')
      else case (svf_latest_successful_run_id facts, svf_latest_successful_run_finished_at facts) of
        (Some _, Some f) \<Rightarrow>
          (case require_aware_utc f of Inl e \<Rightarrow> Inl e | Inr finished_at \<Rightarrow>
           let collection = trunc_seconds (snapshot - finished_at) in
           if collection < 0 then Inr (failed sid scheduler_latency None None ''collection_clock_invalid'')
           else if collection > MAX_FRESHNESS_SECONDS
           then Inr (failed sid scheduler_latency (Some collection) None ''collection_stale'')
           else (case (svf_visible_publication_manifest_id facts, svf_visible_publication_sequence facts,
                       svf_publication_first_visible_at facts) of
             (Some _, Some _, Some v) \<Rightarrow>
               (case require_aware_utc v of Inl e \<Rightarrow> Inl e | Inr visible \<Rightarrow>
                let publication = trunc_seconds (visible - finished_at) in
                if publication < 0
                then Inr (failed sid scheduler_latency (Some collection) None ''publication_clock_invalid'')
                else if publication > MAX_FRESHNESS_SECONDS
                then Inr (failed sid scheduler_latency (Some collection) (Some publication) ''publication_stale'')
                else Inr \<lparr>vsr_source_id = sid, vsr_scheduler_latency_seconds = scheduler_latency,
                       vsr_collection_recency_seconds = Some collection,
                       vsr_publication_latency_seconds = Some publication,
                       vsr_status = Verification_PASSED, vsr_failure_code = None\<rparr>)
           | _ \<Rightarrow> Inr (failed sid scheduler_latency (Some collection) None ''publication_missing'')))
      | _ \<Rightarrow> Inr (failed sid scheduler_latency None None ''no_successful_run''))))"

section \<open>The calendar arithmetic is the grid\<close>

definition on_grid :: "instant \<Rightarrow> bool" where
  "on_grid t \<longleftrightarrow> t mod hours 3 = minutes 17"

interpretation collection_grid: slot_grid "hours GRID_HOURS"
  by unfold_locales (simp add: hours_def GRID_HOURS_def)

interpretation verification_grid: slot_grid VERIFICATION_INTERVAL
  by unfold_locales (simp add: VERIFICATION_INTERVAL_def minutes_def)

lemma hour_of_grid: "q - q mod 24 + (q mod 24 - q mod 24 mod 3) = 3 * (q div 3)" for q :: int
proof -
  have "q mod 24 mod 3 = q mod 3" by (simp add: mod_mod_cancel)
  then show ?thesis by (simp add: minus_mod_eq_mult_div [symmetric])
qed

lemma day_start: "(t div usec_per_day) * usec_per_day = (t div usec_per_hour - t div usec_per_hour mod 24) * usec_per_hour"
proof -
  have "t div usec_per_day = t div usec_per_hour div 24"
    using zdiv_zmult2_eq [of 24 t usec_per_hour] by simp
  then show ?thesis by (simp add: minus_mod_eq_mult_div)
qed

lemma grid_candidate:
  "replace_time t (utc_hour t - utc_hour t mod GRID_HOURS) GRID_MINUTE = (t div hours 3) * hours 3 + minutes 17"
proof -
  let ?q = "t div usec_per_hour"
  have "t div hours 3 = t div usec_per_hour div 3"
    using zdiv_zmult2_eq [of 3 t usec_per_hour] by (simp add: hours_def)
  then have "(t div hours 3) * hours 3 = 3 * (t div usec_per_hour div 3) * usec_per_hour"
    by (simp add: hours_def)
  moreover have "replace_time t (utc_hour t - utc_hour t mod GRID_HOURS) GRID_MINUTE
      = (?q - ?q mod 24 + (?q mod 24 - ?q mod 24 mod 3)) * usec_per_hour + minutes 17"
    by (simp only: replace_time_def day_start utc_hour_def GRID_HOURS_def GRID_MINUTE_def hours_def distrib_right)
  ultimately show ?thesis by (simp only: hour_of_grid)
qed

lemma activation_slot_grid:
  assumes "activation_slot (Aware t off) = Inr s"
  shows "on_grid s" and "t < s" and "s \<le> t + hours 3"
proof -
  let ?c = "(t div hours 3) * hours 3 + minutes 17"
  have s: "s = (if ?c \<le> t then ?c + hours 3 else ?c)"
    using assms unfolding activation_slot_def require_utc.simps sum.case Let_def grid_candidate
    unfolding GRID_HOURS_def by (simp split: if_splits)
  have "?c mod hours 3 = minutes 17" "(?c + hours 3) mod hours 3 = minutes 17"
    by (simp_all add: hours_def minutes_def)
  with s show "on_grid s" by (simp add: on_grid_def)
  have "t = (t div hours 3) * hours 3 + t mod hours 3" by simp
  moreover have "0 \<le> t mod hours 3" "t mod hours 3 < hours 3" by (simp_all add: hours_def)
  ultimately show "t < s" "s \<le> t + hours 3" using s by (auto simp: hours_def minutes_def)
qed

lemma grid_step: "on_grid s \<Longrightarrow> on_grid t \<Longrightarrow> s < t \<Longrightarrow> s + hours 3 \<le> t"
  using collection_grid.congruent_gap [of s t] by (simp add: on_grid_def GRID_HOURS_def)

lemma grid_multiple: "on_grid s \<Longrightarrow> on_grid (s + int i * hours 3)"
  by (simp add: on_grid_def hours_def minutes_def)

lemma grid_from_set:
  assumes "on_grid s"
  shows "set (slots_from (hours GRID_HOURS) s now) = {g. on_grid g \<and> s \<le> g \<and> g \<le> now}"
proof -
  have "(g - s) mod hours 3 = 0 \<longleftrightarrow> on_grid g" for g
    using assms by (metis on_grid_def dvd_eq_mod_eq_0 mod_eq_dvd_iff)
  then show ?thesis unfolding collection_grid.slots_from_congruent by (simp add: GRID_HOURS_def)
qed

text \<open>The first slot after activation is the least time strictly after it that lies on the grid, 17 minutes
  past every third hour in UTC: it is at most three hours away and no other grid time lies in between.\<close>

theorem activation_slot_least:
  "\<exists>s. activation_slot (Aware t off) = Inr s \<and> on_grid s \<and> t < s \<and> s \<le> t + hours 3
       \<and> (\<forall>g. on_grid g \<longrightarrow> t < g \<longrightarrow> s \<le> g)"
proof -
  obtain s where s: "activation_slot (Aware t off) = Inr s" by (simp add: activation_slot_def Let_def)
  note grid = activation_slot_grid [OF s]
  have "s \<le> g" if "on_grid g" "t < g" for g
    using grid_step [OF that(1) grid(1)] grid(3) that(2) by linarith
  with s grid show ?thesis by blast
qed

theorem activation_slot_least_witness:
  "activation_slot (Aware (minutes 17) 0) = Inr (hours 3 + minutes 17) \<and> on_grid (hours 3 + minutes 17)"
  using activation_slot_least [of "minutes 17" 0]
  by (auto simp: activation_slot_def replace_time_def utc_hour_def duration_defs GRID_HOURS_def GRID_MINUTE_def)

section \<open>Materialisation\<close>

text \<open>The slot the next pass starts from.\<close>

definition cursor_start :: "scheduler_cursor_state \<Rightarrow> datetime \<Rightarrow> instant \<Rightarrow> bool" where
  "cursor_start cursor activation start \<longleftrightarrow>
     (case sc_last_materialized_slot_utc cursor of
        None \<Rightarrow> activation_slot activation = Inr start
      | Some l \<Rightarrow> (\<exists>s off. activation_slot activation = Inr s \<and> l = Aware (start - hours 3) off
          \<and> utc_minute (start - hours 3) = 17 \<and> utc_hour (start - hours 3) mod 3 = 0))"

lemma plan_slots_start:
  assumes "cursor_start cursor activation start"
  shows "\<exists>plan. plan_slot_materialization cursor activation (Aware now off) = Inr plan
     \<and> map csd_due_slot_utc (smp_slots plan) = slots_from (hours GRID_HOURS) start now
     \<and> smp_next_cursor plan = (if slots_from (hours GRID_HOURS) start now = [] then cursor
       else cursor\<lparr>sc_last_materialized_slot_utc := Some (Aware (last (slots_from (hours GRID_HOURS) start now)) 0)\<rparr>)"
  using assms
  by (auto simp: plan_slot_materialization_def cursor_start_def GRID_HOURS_def GRID_MINUTE_def Let_def comp_def
      slot_draft_def last_map split: option.splits)

lemma on_grid_fields: "on_grid t \<Longrightarrow> utc_minute t = 17 \<and> utc_hour t mod 3 = 0"
proof -
  assume "on_grid t"
  then have "t = (t div hours 3) * hours 3 + minutes 17" by (metis on_grid_def div_mult_mod_eq)
  then obtain k where "t = k * hours 3 + minutes 17" by blast
  then have k: "t = k * 10800000000 + 1020000000" by (simp add: hours_def minutes_def)
  have "t div usec_per_minute = k * 180 + 17"
    by (rule int_div_pos_eq [where r = 0]) (simp_all add: k)
  moreover have "t div usec_per_hour = k * 3"
    by (rule int_div_pos_eq [where r = 1020000000]) (simp_all add: k)
  moreover have "(k * 180 + 17) mod 60 = 17" using mod_mult_self2 [of 17 60 "3 * k"] by (simp add: algebra_simps)
  moreover have "(k * 3) mod 24 mod 3 = 0" by (simp add: mod_mod_cancel)
  ultimately show ?thesis by (simp add: utc_minute_def utc_hour_def)
qed

lemma sorted_wrt_less_last_le: "sorted_wrt (<) xs \<Longrightarrow> x \<in> set xs \<Longrightarrow> (x :: int) \<le> last xs"
  by (induction xs) (force simp: less_imp_le)+

text \<open>(C9) A materialisation pass proposes exactly the missing slots: every grid time after the cursor (or after
  activation, when nothing was materialised yet) up to the database clock, each once and in order, and it
  moves the cursor to the last of them.\<close>

theorem slot_materialization_exact:
  assumes "case sc_last_materialized_slot_utc cursor of
       None \<Rightarrow> \<exists>off. activation = Aware from off
     | Some l \<Rightarrow> (\<exists>a off off'. activation = Aware a off \<and> l = Aware from off') \<and> on_grid from"
  shows "\<exists>plan. plan_slot_materialization cursor activation (Aware now off) = Inr plan
    \<and> set (map csd_due_slot_utc (smp_slots plan)) = {g. on_grid g \<and> from < g \<and> g \<le> now}
    \<and> sorted_wrt (<) (map csd_due_slot_utc (smp_slots plan))
    \<and> (smp_slots plan = [] \<longrightarrow> smp_next_cursor plan = cursor)
    \<and> (smp_slots plan \<noteq> [] \<longrightarrow> sc_last_materialized_slot_utc (smp_next_cursor plan)
         = Some (Aware (Max {g. on_grid g \<and> from < g \<and> g \<le> now}) 0))"
proof -
  obtain start where start: "cursor_start cursor activation start" and grid: "on_grid start"
    and between: "\<And>g. on_grid g \<Longrightarrow> start \<le> g \<longleftrightarrow> from < g"
  proof (cases "sc_last_materialized_slot_utc cursor")
    case None
    with assms obtain off0 where a: "activation = Aware from off0" by auto
    then obtain s where s: "activation_slot activation = Inr s" by (simp add: activation_slot_def Let_def)
    note g = activation_slot_grid [OF s [unfolded a]]
    have "s \<le> x \<longleftrightarrow> from < x" if "on_grid x" for x
      using grid_step [OF that g(1)] g(2,3) by linarith
    with None s g show thesis by (intro that [of s]) (auto simp: cursor_start_def)
  next
    case (Some l)
    with assms obtain a off0 off1 where l: "activation = Aware a off0" "l = Aware from off1" "on_grid from" by auto
    have "on_grid (from + hours 3)" using grid_multiple [OF l(3), of 1] by simp
    moreover have "from + hours 3 \<le> x \<longleftrightarrow> from < x" if "on_grid x" for x
      using grid_step [OF l(3) that] by (auto simp: hours_def)
    moreover have "\<exists>s. activation_slot (Aware a off0) = Inr s" by (simp add: activation_slot_def Let_def)
    ultimately show thesis
      using Some l on_grid_fields [OF l(3)] by (intro that [of "from + hours 3"]) (auto simp: cursor_start_def)
  qed
  from plan_slots_start [OF start, of now off] obtain plan where
    p: "plan_slot_materialization cursor activation (Aware now off) = Inr plan"
    and slots: "map csd_due_slot_utc (smp_slots plan) = slots_from (hours GRID_HOURS) start now"
    and cursor: "smp_next_cursor plan = (if slots_from (hours GRID_HOURS) start now = [] then cursor
       else cursor\<lparr>sc_last_materialized_slot_utc := Some (Aware (last (slots_from (hours GRID_HOURS) start now)) 0)\<rparr>)"
    by blast
  let ?xs = "slots_from (hours GRID_HOURS) start now"
  have set: "set ?xs = {g. on_grid g \<and> from < g \<and> g \<le> now}"
    using grid_from_set [OF grid, of now] between by auto
  have sorted: "sorted_wrt (<) ?xs" by (rule collection_grid.slots_from_sorted)
  have "last ?xs = Max (set ?xs)" if "?xs \<noteq> []"
    using sorted that by (intro Max_eqI [symmetric]) (auto simp: sorted_wrt_less_last_le)
  moreover have "smp_slots plan = [] \<longleftrightarrow> ?xs = []" using slots by (metis map_is_Nil_conv)
  ultimately show ?thesis
    by (intro exI [of _ plan]) (simp add: p slots set sorted cursor del: set_map)
qed

definition example_cursor :: "instant \<Rightarrow> scheduler_cursor_state" where
  "example_cursor t = \<lparr>sc_scope_version = ''v1'', sc_last_materialized_slot_utc = Some (Aware t 0)\<rparr>"

theorem slot_materialization_exact_witness:
  "\<exists>plan. plan_slot_materialization (example_cursor (minutes 17)) (Aware 5 0) (Aware (hours 7) 0) = Inr plan
     \<and> hours 3 + minutes 17 \<in> set (map csd_due_slot_utc (smp_slots plan))
     \<and> hours 6 + minutes 17 \<in> set (map csd_due_slot_utc (smp_slots plan))"
proof -
  have "case sc_last_materialized_slot_utc (example_cursor (minutes 17)) of
       None \<Rightarrow> \<exists>off. Aware 5 0 = Aware (minutes 17) off
     | Some l \<Rightarrow> (\<exists>a off off'. Aware 5 0 = Aware a off \<and> l = Aware (minutes 17) off') \<and> on_grid (minutes 17)"
    by (simp add: example_cursor_def on_grid_def duration_defs)
  from slot_materialization_exact [OF this, of "hours 7" 0] obtain plan where
    p: "plan_slot_materialization (example_cursor (minutes 17)) (Aware 5 0) (Aware (hours 7) 0) = Inr plan"
    and slots: "set (map csd_due_slot_utc (smp_slots plan)) = {g. on_grid g \<and> minutes 17 < g \<and> g \<le> hours 7}"
    by blast
  show ?thesis
    by (intro exI [of _ plan] conjI p; unfold slots) (simp_all add: on_grid_def duration_defs)
qed

text \<open>Materialisation can be interrupted and repeated freely: running it up to some time and then again,
  from the cursor it left, up to a later time proposes the same slots in the same order as one run up to
  the later time; in particular a second run at the same clock proposes nothing.\<close>

theorem slot_materialization_resumes:
  assumes "plan_slot_materialization cursor activation (Aware mid off) = Inr first"
    and "sc_last_materialized_slot_utc cursor = None \<or> (\<exists>l off'. sc_last_materialized_slot_utc cursor = Some (Aware l off') \<and> on_grid l)"
    and "mid \<le> now"
  shows "\<exists>second whole. plan_slot_materialization (smp_next_cursor first) activation (Aware now off) = Inr second
    \<and> plan_slot_materialization cursor activation (Aware now off) = Inr whole
    \<and> map csd_due_slot_utc (smp_slots whole)
      = map csd_due_slot_utc (smp_slots first) @ map csd_due_slot_utc (smp_slots second)
    \<and> (now = mid \<longrightarrow> smp_slots second = [])"
proof -
  let ?w = "hours GRID_HOURS"
  obtain s0 where s0: "activation_slot activation = Inr s0"
    using assms(1) by (auto simp: plan_slot_materialization_def split: sum.splits)
  then obtain t0 off0 where act: "activation = Aware t0 off0"
    by (cases activation) (auto simp: activation_slot_def)
  obtain start where start: "cursor_start cursor activation start" and grid: "on_grid start"
    using assms(2)
  proof
    assume "sc_last_materialized_slot_utc cursor = None"
    with s0 act show thesis by (intro that [of s0]) (auto simp: cursor_start_def activation_slot_grid)
  next
    assume "\<exists>l off'. sc_last_materialized_slot_utc cursor = Some (Aware l off') \<and> on_grid l"
    then obtain l off' where l: "sc_last_materialized_slot_utc cursor = Some (Aware l off')" "on_grid l" by blast
    with s0 on_grid_fields [OF l(2)] grid_multiple [OF l(2), of 1] show thesis
      by (intro that [of "l + hours 3"]) (auto simp: cursor_start_def)
  qed
  let ?xs = "slots_from ?w start mid"
  let ?resume = "start + int (length ?xs) * ?w"
  from plan_slots_start [OF start, of mid off] assms(1) have
    first: "map csd_due_slot_utc (smp_slots first) = ?xs"
    "smp_next_cursor first = (if ?xs = [] then cursor
       else cursor\<lparr>sc_last_materialized_slot_utc := Some (Aware (last ?xs) 0)\<rparr>)" by auto
  have "cursor_start (smp_next_cursor first) activation ?resume"
  proof (cases "?xs = []")
    case True
    with first(2) start show ?thesis by simp
  next
    case False
    then have "last ?xs = start + int (length ?xs - 1) * ?w"
      by (simp add: last_conv_nth collection_grid.slots_from_nth)
    with False have "?resume - hours 3 = last ?xs"
      by (simp add: GRID_HOURS_def of_nat_diff Suc_le_eq algebra_simps)
    moreover have "on_grid (last ?xs)" using False grid_from_set [OF grid, of mid] last_in_set by blast
    ultimately show ?thesis using first(2) False s0 on_grid_fields by (simp add: cursor_start_def)
  qed
  from plan_slots_start [OF this, of now off] plan_slots_start [OF start, of now off] obtain second whole where
    p: "plan_slot_materialization (smp_next_cursor first) activation (Aware now off) = Inr second"
    "map csd_due_slot_utc (smp_slots second) = slots_from ?w ?resume now"
    "plan_slot_materialization cursor activation (Aware now off) = Inr whole"
    "map csd_due_slot_utc (smp_slots whole) = slots_from ?w start now" by blast
  have whole: "slots_from ?w start now = ?xs @ slots_from ?w ?resume now"
    by (rule collection_grid.slots_from_append [OF assms(3)])
  then have "now = mid \<longrightarrow> smp_slots second = []" using p(2) by auto
  with p first(1) whole show ?thesis by auto
qed

theorem slot_materialization_resumes_witness:
  "\<exists>first second. plan_slot_materialization (example_cursor (minutes 17)) (Aware 5 0) (Aware (hours 4) 0) = Inr first
     \<and> plan_slot_materialization (smp_next_cursor first) (Aware 5 0) (Aware (hours 4) 0) = Inr second
     \<and> smp_slots second = []"
proof -
  have g: "on_grid (minutes 17)" by (simp add: on_grid_def duration_defs)
  have "cursor_start (example_cursor (minutes 17)) (Aware 5 0) (minutes 17 + hours 3)"
    using on_grid_fields [OF g]
    by (simp add: cursor_start_def example_cursor_def activation_slot_def Let_def)
  from plan_slots_start [OF this, of "hours 4" 0] obtain first where
    f: "plan_slot_materialization (example_cursor (minutes 17)) (Aware 5 0) (Aware (hours 4) 0) = Inr first" by blast
  have c: "sc_last_materialized_slot_utc (example_cursor (minutes 17)) = None
     \<or> (\<exists>l off'. sc_last_materialized_slot_utc (example_cursor (minutes 17)) = Some (Aware l off') \<and> on_grid l)"
    using g by (simp add: example_cursor_def)
  from slot_materialization_resumes [OF f c order.refl] f show ?thesis by blast
qed

section \<open>Verification\<close>

lemma require_aware_utc_Inr: "require_aware_utc d = Inr t \<longleftrightarrow> d = Aware t 0"
  by (cases d) auto

text \<open>Minute divisible by 15 and no smaller units is divisibility by the interval.\<close>

lemma mixed_radix_zero:
  "0 \<le> m \<Longrightarrow> 0 \<le> s \<Longrightarrow> 0 \<le> u \<Longrightarrow> usec_per_second * (60 * m + s) + u = 0 \<longleftrightarrow> m = 0 \<and> s = 0 \<and> u = (0 :: int)"
  by (simp add: add_nonneg_eq_0_iff)

lemma aligned_iff:
  "utc_minute t mod 15 = 0 \<and> utc_second t = 0 \<and> utc_microsecond t = 0 \<longleftrightarrow> t mod VERIFICATION_INTERVAL = 0"
proof -
  define m where "m = t div usec_per_minute mod 15"
  define s where "s = t div usec_per_second mod 60"
  define u where "u = t mod usec_per_second"
  have nonneg: "0 \<le> m" "0 \<le> s" "0 \<le> u" unfolding m_def s_def u_def by (rule pos_mod_sign, simp)+
  have "t div usec_per_minute = t div usec_per_second div 60"
    using zdiv_zmult2_eq [of 60 t usec_per_second] by simp
  then have "t div usec_per_second mod 900 = 60 * m + s"
    using zmod_zmult2_eq [of 15 "t div usec_per_second" 60] unfolding m_def s_def by simp
  then have "t mod VERIFICATION_INTERVAL = usec_per_second * (60 * m + s) + u"
    using zmod_zmult2_eq [of 900 t usec_per_second] unfolding u_def VERIFICATION_INTERVAL_def minutes_def by simp
  moreover have "utc_minute t mod 15 = m" unfolding utc_minute_def m_def by (rule mod_mod_cancel) simp
  moreover have "utc_second t = s" "utc_microsecond t = u"
    unfolding utc_second_def utc_microsecond_def s_def u_def by (rule refl)+
  ultimately show ?thesis using mixed_radix_zero [OF nonneg] by (simp only: conj_ac)
qed

lemma require_aligned_utc_Inr: "require_aligned_utc d = Inr t \<longleftrightarrow> d = Aware t 0 \<and> t mod VERIFICATION_INTERVAL = 0"
  unfolding aligned_iff [symmetric]
  by (auto simp: require_aligned_utc_def require_aware_utc_Inr split: sum.splits)

lemma verification_slots_loop:
  "verification_slots last_observed target = Inr slots \<longleftrightarrow>
     (\<exists>goal. require_aligned_utc target = Inr goal
       \<and> (case last_observed of
            None \<Rightarrow> slots = [goal]
          | Some l \<Rightarrow> \<exists>prev. require_aligned_utc l = Inr prev
              \<and> slots = slots_from VERIFICATION_INTERVAL (prev + VERIFICATION_INTERVAL) goal))"
proof -
  have empty: "goal \<le> prev \<Longrightarrow> slots_from VERIFICATION_INTERVAL (prev + VERIFICATION_INTERVAL) goal = []" for prev goal
    using verification_grid.interval_pos by (simp add: verification_grid.slots_from_Nil_iff)
  show ?thesis
    by (cases "require_aligned_utc target"; cases last_observed; cases "require_aligned_utc (the last_observed)")
       (auto simp: verification_slots_def empty)
qed

lemma verification_slots_set:
  assumes "prev mod VERIFICATION_INTERVAL = 0"
  shows "set (slots_from VERIFICATION_INTERVAL (prev + VERIFICATION_INTERVAL) goal)
      = {t. t mod VERIFICATION_INTERVAL = 0 \<and> prev < t \<and> t \<le> goal}"
proof -
  have same: "(t - (prev + VERIFICATION_INTERVAL)) mod VERIFICATION_INTERVAL = 0 \<longleftrightarrow> t mod VERIFICATION_INTERVAL = 0" for t
    using assms by (metis dvd_eq_mod_eq_0 mod_eq_dvd_iff mod_add_self2)
  have after: "t mod VERIFICATION_INTERVAL = 0 \<Longrightarrow> prev + VERIFICATION_INTERVAL \<le> t \<longleftrightarrow> prev < t" for t
    using verification_grid.congruent_gap [of prev t] assms verification_grid.interval_pos by auto
  show ?thesis unfolding verification_grid.slots_from_congruent same using after by auto
qed

lemma strict_sorted_eqI: "sorted_wrt (<) xs \<Longrightarrow> sorted_wrt (<) ys \<Longrightarrow> set xs = set ys \<Longrightarrow> xs = (ys :: int list)"
  by (rule sorted_distinct_set_unique) (simp_all add: strict_sorted_iff)

lemma verification_slots_iff:
  assumes "prev mod VERIFICATION_INTERVAL = 0"
  shows "slots = slots_from VERIFICATION_INTERVAL (prev + VERIFICATION_INTERVAL) goal
    \<longleftrightarrow> sorted_wrt (<) slots \<and> set slots = {t. t mod VERIFICATION_INTERVAL = 0 \<and> prev < t \<and> t \<le> goal}"
  using strict_sorted_eqI [OF _ verification_grid.slots_from_sorted] verification_grid.slots_from_sorted
  unfolding verification_slots_set [OF assms, symmetric] by metis

text \<open>The verifier observes every expected slot once: from the last observed slot it enumerates exactly the
  later multiples of fifteen minutes up to the target, in order; with nothing observed yet it starts at the
  target; misaligned or non-UTC clocks are refused.\<close>

theorem verification_slots_exact:
  "verification_slots last_observed target = Inr slots \<longleftrightarrow>
     (\<exists>goal. target = Aware goal 0 \<and> goal mod minutes 15 = 0
       \<and> (case last_observed of
            None \<Rightarrow> slots = [goal]
          | Some l \<Rightarrow> \<exists>prev. l = Aware prev 0 \<and> prev mod minutes 15 = 0 \<and> sorted_wrt (<) slots
              \<and> set slots = {t. t mod minutes 15 = 0 \<and> prev < t \<and> t \<le> goal}))"
  unfolding verification_slots_loop require_aligned_utc_Inr VERIFICATION_INTERVAL_def [symmetric] conj_assoc
  using verification_slots_iff by (cases last_observed) (simp_all cong: conj_cong)

text \<open>The freshness verdict is PASSED exactly when the source is enabled and has a successful run and a
  visible publication whose delays lie between zero and three hours, and the action did not start before
  its slot. Delays are truncated to whole seconds towards zero, so up to just under one second of
  negative delay, and of delay beyond three hours, still passes.\<close>

theorem derive_source_result_passed:
  "(\<exists>r. derive_source_result facts expected started = Inr r \<and> vsr_status r = Verification_PASSED) \<longleftrightarrow>
     (\<exists>slot start snapshot run finished manifest sequence visible.
        expected = Aware slot 0 \<and> started = Aware start 0 \<and> - seconds 1 < start - slot
        \<and> svf_snapshot_published_at facts = Aware snapshot 0 \<and> svf_enabled facts
        \<and> svf_latest_successful_run_id facts = Some run
        \<and> svf_latest_successful_run_finished_at facts = Some (Aware finished 0)
        \<and> svf_visible_publication_manifest_id facts = Some manifest
        \<and> svf_visible_publication_sequence facts = Some sequence
        \<and> svf_publication_first_visible_at facts = Some (Aware visible 0)
        \<and> - seconds 1 < snapshot - finished \<and> snapshot - finished < hours 3 + seconds 1
        \<and> - seconds 1 < visible - finished \<and> visible - finished < hours 3 + seconds 1)"
proof -
  have late: "MAX_FRESHNESS_SECONDS < trunc_seconds d \<longleftrightarrow> \<not> d < hours 3 + seconds 1" for d
    using trunc_seconds_le_iff [of MAX_FRESHNESS_SECONDS d]
    by (auto simp: MAX_FRESHNESS_SECONDS_def hours_def seconds_def)
  have early: "trunc_seconds d < 0 \<longleftrightarrow> \<not> - seconds 1 < d" for d
    using trunc_seconds_nonneg_iff [of d] by (auto simp: seconds_def)
  show ?thesis
    unfolding derive_source_result_def Let_def late early failed_def
    by (auto simp: require_aware_utc_Inr simp del: not_less split: sum.splits option.splits if_splits)
qed

text \<open>The direction a monitor relies on has no hypothesis; an example of a passing source.\<close>

theorem verification_slots_exact_witness:
  "verification_slots (Some (Aware 0 0)) (Aware (minutes 15) 0) = Inr [minutes 15]"
proof -
  have "set [minutes 15] = {t. t mod minutes 15 = 0 \<and> 0 < t \<and> t \<le> minutes 15}"
  proof (intro set_eqI iffI)
    fix t assume "t \<in> {t. t mod minutes 15 = 0 \<and> 0 < t \<and> t \<le> minutes 15}"
    then have "minutes 15 dvd t" "0 < t" "t \<le> minutes 15" by auto
    from zdvd_imp_le [OF this(1,2)] this(3) show "t \<in> set [minutes 15]" by simp
  qed (simp add: minutes_def)
  then show ?thesis
    by (subst verification_slots_exact) (simp add: minutes_def)
qed

end
