(* ===== verification/Capability.thy ===== *)
theory Capability
  imports Digest
begin

text \<open>
  \<open>analysis/capability.py\<close>: the fail-closed gate in front of the analysis worker. Every required capability
  needs exactly one current proof bound to the running versions; anything else yields a reason, and one
  reason blocks. Times come from the database and are instants.
\<close>

section \<open>Proofs and decisions\<close>

datatype capability_requirement =
  PRO_TIER | AUTOMATION_TERMS | ZERO_TOOLS | ZERO_NETWORK | ZERO_FILESYSTEM_READ
  | LOW_PRIVILEGE_PROCESS | HARD_RESOURCE_CAPS | HOSTILE_PROBE

definition REQUIRED_CAPABILITIES :: "capability_requirement list" where
  "REQUIRED_CAPABILITIES = [PRO_TIER, AUTOMATION_TERMS, ZERO_TOOLS, ZERO_NETWORK, ZERO_FILESYSTEM_READ,
     LOW_PRIVILEGE_PROCESS, HARD_RESOURCE_CAPS, HOSTILE_PROBE]"

fun requirement_value :: "capability_requirement \<Rightarrow> string" where
  "requirement_value PRO_TIER = ''pro_tier''"
| "requirement_value AUTOMATION_TERMS = ''automation_terms''"
| "requirement_value ZERO_TOOLS = ''zero_tools''"
| "requirement_value ZERO_NETWORK = ''zero_network''"
| "requirement_value ZERO_FILESYSTEM_READ = ''zero_filesystem_read''"
| "requirement_value LOW_PRIVILEGE_PROCESS = ''low_privilege_process''"
| "requirement_value HARD_RESOURCE_CAPS = ''hard_resource_caps''"
| "requirement_value HOSTILE_PROBE = ''hostile_probe''"

fun failure_code :: "capability_requirement \<Rightarrow> string" where
  "failure_code PRO_TIER = ''pro_tier_unverified''"
| "failure_code AUTOMATION_TERMS = ''automation_terms_unverified''"
| "failure_code ZERO_TOOLS = ''zero_tools_unproven''"
| "failure_code ZERO_NETWORK = ''zero_network_boundary_unproven''"
| "failure_code ZERO_FILESYSTEM_READ = ''zero_filesystem_read_unproven''"
| "failure_code LOW_PRIVILEGE_PROCESS = ''low_privilege_token_unproven''"
| "failure_code HARD_RESOURCE_CAPS = ''hard_resource_caps_unproven''"
| "failure_code HOSTILE_PROBE = ''hostile_probe_blocked''"

datatype capability_proof_status = Proof_APPROVED | Proof_FAILED | Proof_REVOKED | Proof_EXPIRED

record capability_proof =
  prf_requirement :: capability_requirement
  prf_status :: capability_proof_status
  prf_codex_cli_version :: string
  prf_harness_version :: string
  prf_artifact_sha256 :: string
  prf_observed_at :: instant
  prf_expires_at :: instant

record capability_policy =
  pol_codex_cli_version :: string
  pol_harness_version :: string
  pol_evaluated_at :: instant

record capability_block_reason =
  cbr_code :: string
  cbr_requirement :: "capability_requirement option"

datatype capability_decision =
    CapabilityApproved string
  | CapabilityBlocked "capability_block_reason list"

text \<open>One turn of the loop over the required capabilities: the accepted proof or the reason.\<close>

definition evaluate_requirement ::
    "capability_proof list \<Rightarrow> capability_policy \<Rightarrow> capability_requirement \<Rightarrow>
       capability_block_reason + capability_proof" where
  "evaluate_requirement proofs policy requirement =
     (let refuse = (\<lambda>code. Inl \<lparr>cbr_code = code, cbr_requirement = Some requirement\<rparr>) in
      case filter (\<lambda>p. prf_requirement p = requirement) proofs of
        [p] \<Rightarrow>
          (case prf_status p of
             Proof_APPROVED \<Rightarrow>
               if prf_codex_cli_version p \<noteq> pol_codex_cli_version policy
                  \<or> prf_harness_version p \<noteq> pol_harness_version policy
               then refuse ''version_binding_mismatch''
               else if prf_observed_at p > pol_evaluated_at policy
                  \<or> prf_expires_at p \<le> pol_evaluated_at policy
               then refuse (failure_code requirement)
               else Inr p
           | Proof_FAILED \<Rightarrow> refuse (failure_code requirement)
           | Proof_REVOKED \<Rightarrow> refuse (failure_code requirement)
           | Proof_EXPIRED \<Rightarrow> refuse (failure_code requirement))
      | _ \<Rightarrow> refuse (failure_code requirement))"

fun lefts :: "('a + 'b) list \<Rightarrow> 'a list" where
  "lefts [] = []"
| "lefts (Inl a # xs) = a # lefts xs"
| "lefts (Inr b # xs) = lefts xs"

fun rights :: "('a + 'b) list \<Rightarrow> 'b list" where
  "rights [] = []"
| "rights (Inl a # xs) = rights xs"
| "rights (Inr b # xs) = b # rights xs"

fun join_lines :: "string list \<Rightarrow> string" where
  "join_lines [] = []"
| "join_lines [x] = x"
| "join_lines (x # xs) = x @ [CHR 0x0A] @ join_lines xs"

definition evaluate_capabilities :: "capability_proof list \<Rightarrow> capability_policy \<Rightarrow> capability_decision" where
  "evaluate_capabilities proofs policy =
     (let results = map (evaluate_requirement proofs policy) REQUIRED_CAPABILITIES;
          accepted = rights results; reasons = lefts results
      in if reasons \<noteq> [] then CapabilityBlocked reasons
         else CapabilityApproved (sha256_hex (''codex-capability-set/v1'' @ [CHR 0x0A]
           @ join_lines (map (\<lambda>p. requirement_value (prf_requirement p) @ '':'' @ prf_artifact_sha256 p) accepted))))"

section \<open>The gate is a conjunction\<close>

text \<open>A proof that satisfies a requirement for a policy.\<close>

definition proves :: "capability_policy \<Rightarrow> capability_proof \<Rightarrow> bool" where
  "proves policy p \<longleftrightarrow> prf_status p = Proof_APPROVED
     \<and> prf_codex_cli_version p = pol_codex_cli_version policy
     \<and> prf_harness_version p = pol_harness_version policy
     \<and> prf_observed_at p \<le> pol_evaluated_at policy \<and> pol_evaluated_at policy < prf_expires_at p"

lemma evaluate_requirement_Inr:
  "evaluate_requirement proofs policy requirement = Inr p \<longleftrightarrow>
     filter (\<lambda>q. prf_requirement q = requirement) proofs = [p] \<and> proves policy p"
  by (auto simp: evaluate_requirement_def proves_def Let_def
      split: list.splits capability_proof_status.splits if_splits)

lemma evaluate_requirement_Inl:
  "evaluate_requirement proofs policy requirement = Inl r \<Longrightarrow> cbr_requirement r = Some requirement"
  by (auto simp: evaluate_requirement_def Let_def
      split: list.splits capability_proof_status.splits if_splits)

lemma lefts_Nil_iff: "lefts xs = [] \<longleftrightarrow> (\<forall>x \<in> set xs. \<exists>b. x = Inr b)"
  by (induction xs rule: lefts.induct) auto

lemma set_REQUIRED: "set REQUIRED_CAPABILITIES = UNIV"
proof -
  have "r \<in> set REQUIRED_CAPABILITIES" for r by (cases r) (simp_all add: REQUIRED_CAPABILITIES_def)
  then show ?thesis by blast
qed

lemma lefts_requirements:
  "(\<And>x r. x \<in> set xs \<Longrightarrow> f x = Inl r \<Longrightarrow> g r = Some x) \<Longrightarrow>
     map g (lefts (map f xs)) = map Some (filter (\<lambda>x. \<exists>r. f x = Inl r) xs)"
proof (induction xs)
  case (Cons x xs)
  then show ?case by (cases "f x") auto
qed simp

text \<open>The capability gate is a conjunction that fails closed: it approves exactly when every one of the eight
  requirements has one single proof, approved, bound to the running versions and current at evaluation
  time; otherwise it names precisely the unsatisfied requirements, in their fixed order.\<close>

theorem evaluate_capabilities_conjunction:
  "if \<forall>r. \<exists>p. filter (\<lambda>q. prf_requirement q = r) proofs = [p] \<and> proves policy p
   then \<exists>digest. evaluate_capabilities proofs policy = CapabilityApproved digest
   else \<exists>reasons. evaluate_capabilities proofs policy = CapabilityBlocked reasons \<and> reasons \<noteq> []
     \<and> map cbr_requirement reasons = map Some (filter
       (\<lambda>r. \<not> (\<exists>p. filter (\<lambda>q. prf_requirement q = r) proofs = [p] \<and> proves policy p)) REQUIRED_CAPABILITIES)"
proof -
  let ?ok = "\<lambda>r. \<exists>p. filter (\<lambda>q. prf_requirement q = r) proofs = [p] \<and> proves policy p"
  have ok: "(\<exists>b. evaluate_requirement proofs policy r = Inr b) \<longleftrightarrow> ?ok r" for r
    by (simp add: evaluate_requirement_Inr)
  let ?reasons = "lefts (map (evaluate_requirement proofs policy) REQUIRED_CAPABILITIES)"
  have "?reasons = [] \<longleftrightarrow> (\<forall>r. ?ok r)" using set_REQUIRED by (simp add: lefts_Nil_iff ok)
  moreover have "(\<exists>a. evaluate_requirement proofs policy x = Inl a) \<longleftrightarrow> \<not> ?ok x" for x
    using ok [of x] by (cases "evaluate_requirement proofs policy x") auto
  then have "map cbr_requirement ?reasons = map Some (filter (\<lambda>r. \<not> ?ok r) REQUIRED_CAPABILITIES)"
    using lefts_requirements [of REQUIRED_CAPABILITIES "evaluate_requirement proofs policy" cbr_requirement]
    by (simp add: evaluate_requirement_Inl)
  ultimately show ?thesis by (simp add: evaluate_capabilities_def Let_def)
qed

end
