(* ===== verification/Analysis_Queue.thy ===== *)
theory Analysis_Queue
  imports Capability Collection_Base
begin

text \<open>
  \<open>analysis/output.py\<close> and \<open>analysis/queue.py\<close>: the queue of model analyses. An item is bound to one post
  version and the prompt, model and schema versions; a worker holds it under a ten-minute lease proved by a
  token, and a failed or expired lease goes through the delays of 1, 5 and 30 minutes before the item fails
  for good.

  The number of attempts is non-negative (a check constraint of its column), so the delay is always read from
  the front of the list. Clock values are database times and modelled as instants. The parameter \<open>dump\<close> is Pydantic's JSON text of
  an output, which only enters its digest.
\<close>

section \<open>Output\<close>

record analysis_output =
  out_relevance :: bool
  out_sentiment :: "sentiment option"
  out_topics :: "string list"

datatype output_error =
  string_length | too_many_topics | sentiment_required | sentiment_for_irrelevant | duplicate_topic | topic_whitespace

text \<open>Strings are UTF-8 bytes: \<open>len\<close> counts the bytes that start a code point, and the whitespace that
  \<open>str.strip\<close> removes is given by its encodings.\<close>

definition code_points :: "string \<Rightarrow> int" where
  "code_points s = count_where (\<lambda>c. (of_char c :: nat) < 128 \<or> 192 \<le> (of_char c :: nat)) s"

definition utf8_bytes :: "nat list \<Rightarrow> string" where
  "utf8_bytes ns = map char_of ns"

definition whitespace :: "string list" where
  "whitespace = map utf8_bytes
     ([[9], [10], [11], [12], [13], [28], [29], [30], [31], [32], [0xC2, 0x85], [0xC2, 0xA0], [0xE1, 0x9A, 0x80]]
      @ map (\<lambda>n. [0xE2, 0x80, n]) ([0x80 ..< 0x8B] @ [0xA8, 0xA9, 0xAF])
      @ [[0xE2, 0x81, 0x9F], [0xE3, 0x80, 0x80]])"

definition edge_whitespace :: "string \<Rightarrow> bool" where
  "edge_whitespace s \<longleftrightarrow>
     list_ex (\<lambda>w. take (length w) s = w \<or> (length w \<le> length s \<and> drop (length s - length w) s = w)) whitespace"

definition validate_semantics :: "analysis_output \<Rightarrow> output_error + analysis_output" where
  "validate_semantics output =
     (if list_ex (\<lambda>t. code_points t < 1 \<or> 80 < code_points t) (out_topics output) then Inl string_length
      else if length (out_topics output) > 20 then Inl too_many_topics
      else if out_relevance output \<and> out_sentiment output = None then Inl sentiment_required
      else if \<not> out_relevance output \<and> out_sentiment output \<noteq> None then Inl sentiment_for_irrelevant
      else if \<not> distinct (out_topics output) then Inl duplicate_topic
      else if list_ex edge_whitespace (out_topics output) then Inl topic_whitespace
      else Inr output)"

section \<open>Queue items\<close>

definition LEASE_DURATION :: duration where "LEASE_DURATION = minutes 10"
definition RETRY_DELAYS :: "duration list" where "RETRY_DELAYS = [minutes 1, minutes 5, minutes 30]"
definition MINIMUM_LEASE_CREDENTIAL_LENGTH :: int where "MINIMUM_LEASE_CREDENTIAL_LENGTH = 32"

record analysis_binding =
  bind_post_version_id :: uuid
  bind_content_hash :: string
  bind_prompt_version :: string
  bind_model_version :: string
  bind_schema_version :: string

record queue_item =
  qi_id :: uuid
  qi_binding :: analysis_binding
  qi_status :: queue_status
  qi_attempts :: int
  qi_available_at :: instant
  qi_lease_token_hash :: "string option"
  qi_lease_expires_at :: "instant option"
  qi_leased_by_principal_id :: "uuid option"
  qi_last_error_code :: "string option"

record lease_command =
  lc_item_id :: uuid
  lc_binding :: analysis_binding
  lc_principal_id :: uuid
  lc_lease_token :: string
  lc_now :: instant

datatype lease_result =
    LeaseGranted queue_item string
  | LeaseDenied queue_item "string list"

record analysis_record =
  ar_binding :: analysis_binding
  ar_output :: analysis_output
  ar_output_hash :: string
  ar_analyzed_at :: instant

datatype queue_error_code =
  CAS_MISMATCH | NOT_AVAILABLE | LEASE_MISMATCH | LEASE_EXPIRED | INVALID_STATE | INVALID_LEASE_CREDENTIAL

definition require_cas :: "queue_item \<Rightarrow> lease_command \<Rightarrow> queue_error_code + unit" where
  "require_cas item command =
     (if qi_id item \<noteq> lc_item_id command \<or> qi_binding item \<noteq> lc_binding command
      then Inl CAS_MISMATCH else Inr ())"

definition require_leaseable :: "queue_status \<Rightarrow> queue_error_code + unit" where
  "require_leaseable status =
     (case status of Queue_PENDING \<Rightarrow> Inr () | Queue_FAILED_RETRYABLE \<Rightarrow> Inr ()
      | Queue_LEASED \<Rightarrow> Inl INVALID_STATE | Queue_SUCCEEDED \<Rightarrow> Inl INVALID_STATE
      | Queue_BLOCKED_CAPABILITY \<Rightarrow> Inl INVALID_STATE | Queue_FAILED_TERMINAL \<Rightarrow> Inl INVALID_STATE)"

definition grant_lease :: "queue_item \<Rightarrow> lease_command \<Rightarrow> queue_error_code + lease_result" where
  "grant_lease item command =
     (case require_cas item command of Inl e \<Rightarrow> Inl e | Inr _ \<Rightarrow>
      (case require_leaseable (qi_status item) of Inl e \<Rightarrow> Inl e | Inr _ \<Rightarrow>
       if qi_available_at item > lc_now command then Inl NOT_AVAILABLE
       else if code_points (lc_lease_token command) < MINIMUM_LEASE_CREDENTIAL_LENGTH
       then Inl INVALID_LEASE_CREDENTIAL
       else Inr (LeaseGranted (item\<lparr>
              qi_status := Queue_LEASED, qi_lease_token_hash := Some (sha256 (lc_lease_token command)),
              qi_lease_expires_at := Some (lc_now command + LEASE_DURATION),
              qi_leased_by_principal_id := Some (lc_principal_id command),
              qi_last_error_code := None\<rparr>) (lc_lease_token command))))"

definition request_lease ::
    "queue_item \<Rightarrow> lease_command \<Rightarrow> capability_decision \<Rightarrow> queue_error_code + lease_result" where
  "request_lease item command decision =
     (case decision of
        CapabilityBlocked reasons \<Rightarrow>
          Inr (LeaseDenied (item\<lparr>qi_status := Queue_BLOCKED_CAPABILITY,
                                 qi_last_error_code := Some ''blocked_capability''\<rparr>) (map cbr_code reasons))
      | CapabilityApproved _ \<Rightarrow> grant_lease item command)"

definition require_active_lease :: "queue_item \<Rightarrow> lease_command \<Rightarrow> queue_error_code + unit" where
  "require_active_lease item command =
     (case require_cas item command of Inl e \<Rightarrow> Inl e | Inr _ \<Rightarrow>
      if qi_status item \<noteq> Queue_LEASED then Inl INVALID_STATE
      else case (qi_lease_token_hash item, qi_lease_expires_at item) of
        (Some token_hash, Some expires_at) \<Rightarrow>
          if qi_leased_by_principal_id item \<noteq> Some (lc_principal_id command) then Inl LEASE_MISMATCH
          else if token_hash \<noteq> sha256 (lc_lease_token command) then Inl LEASE_MISMATCH
          else if expires_at \<le> lc_now command then Inl LEASE_EXPIRED
          else Inr ()
      | _ \<Rightarrow> Inl LEASE_MISMATCH)"

definition heartbeat :: "queue_item \<Rightarrow> lease_command \<Rightarrow> queue_error_code + queue_item" where
  "heartbeat item command =
     (case require_active_lease item command of Inl e \<Rightarrow> Inl e
      | Inr _ \<Rightarrow> Inr (item\<lparr>qi_lease_expires_at := Some (lc_now command + LEASE_DURATION)\<rparr>))"

definition clear_lease :: "queue_item \<Rightarrow> queue_status \<Rightarrow> instant \<Rightarrow> string option \<Rightarrow> queue_item" where
  "clear_lease item status available_at error_code = item\<lparr>
     qi_status := status, qi_available_at := available_at, qi_lease_token_hash := None,
     qi_lease_expires_at := None, qi_leased_by_principal_id := None, qi_last_error_code := error_code\<rparr>"

definition ack_success ::
    "(analysis_output \<Rightarrow> string) \<Rightarrow> queue_item \<Rightarrow> lease_command \<Rightarrow> analysis_output \<Rightarrow>
       queue_error_code + queue_item \<times> analysis_record" where
  "ack_success dump item command output =
     (case require_active_lease item command of Inl e \<Rightarrow> Inl e
      | Inr _ \<Rightarrow> Inr (clear_lease item Queue_SUCCEEDED (lc_now command) None,
          \<lparr>ar_binding = qi_binding item, ar_output = output, ar_output_hash = sha256_hex (dump output),
           ar_analyzed_at = lc_now command\<rparr>))"

definition schedule_retry :: "queue_item \<Rightarrow> instant \<Rightarrow> string \<Rightarrow> queue_item" where
  "schedule_retry item interrupted_at error_code =
     (if qi_attempts item \<ge> int (length RETRY_DELAYS)
      then clear_lease item Queue_FAILED_TERMINAL interrupted_at (Some error_code)
      else let attempts = qi_attempts item + 1; delay = RETRY_DELAYS ! nat (attempts - 1) in
        (clear_lease item Queue_FAILED_RETRYABLE (interrupted_at + delay) (Some error_code))
          \<lparr>qi_attempts := attempts\<rparr>)"

definition ack_retryable_failure :: "queue_item \<Rightarrow> lease_command \<Rightarrow> string \<Rightarrow> queue_error_code + queue_item" where
  "ack_retryable_failure item command error_code =
     (case require_active_lease item command of Inl e \<Rightarrow> Inl e
      | Inr _ \<Rightarrow> Inr (schedule_retry item (lc_now command) error_code))"

definition recover_expired_lease :: "queue_item \<Rightarrow> instant \<Rightarrow> queue_error_code + queue_item" where
  "recover_expired_lease item now =
     (if qi_status item \<noteq> Queue_LEASED then Inl INVALID_STATE
      else case (qi_lease_token_hash item, qi_lease_expires_at item, qi_leased_by_principal_id item) of
        (Some _, Some expires_at, Some _) \<Rightarrow>
          if expires_at > now then Inl INVALID_STATE
          else Inr (schedule_retry item expires_at ''lease_expired'')
      | _ \<Rightarrow> Inl LEASE_MISMATCH)"

section \<open>Lifecycle\<close>

inductive q_step :: "queue_item \<Rightarrow> queue_item \<Rightarrow> bool" where
  lease: "request_lease i c d = Inr (LeaseGranted i' t) \<Longrightarrow> q_step i i'"
| block: "request_lease i c d = Inr (LeaseDenied i' rs) \<Longrightarrow> q_step i i'"
| beat: "heartbeat i c = Inr i' \<Longrightarrow> q_step i i'"
| success: "ack_success dump i c out = Inr (i', r) \<Longrightarrow> q_step i i'"
| failure: "ack_retryable_failure i c e = Inr i' \<Longrightarrow> q_step i i'"
| recover: "recover_expired_lease i now = Inr i' \<Longrightarrow> q_step i i'"

definition q_init :: "queue_item \<Rightarrow> bool" where
  "q_init i \<longleftrightarrow> qi_status i = Queue_PENDING \<and> qi_attempts i = 0 \<and> qi_lease_token_hash i = None
     \<and> qi_lease_expires_at i = None \<and> qi_leased_by_principal_id i = None"

text \<open>A leased item carries its whole lease, a returned one none of it; only a blocked item may keep the lease
  it was blocked under.\<close>

definition q_wf :: "queue_item \<Rightarrow> bool" where
  "q_wf i \<longleftrightarrow> 0 \<le> qi_attempts i \<and> qi_attempts i \<le> 3
     \<and> (qi_status i = Queue_PENDING \<longrightarrow> qi_attempts i = 0)
     \<and> (qi_status i = Queue_FAILED_RETRYABLE \<longrightarrow> 1 \<le> qi_attempts i)
     \<and> (qi_status i = Queue_FAILED_TERMINAL \<longrightarrow> qi_attempts i = 3)
     \<and> (qi_status i = Queue_LEASED \<longrightarrow> qi_lease_token_hash i \<noteq> None \<and> qi_lease_expires_at i \<noteq> None
          \<and> qi_leased_by_principal_id i \<noteq> None)
     \<and> (qi_status i \<notin> {Queue_LEASED, Queue_BLOCKED_CAPABILITY} \<longrightarrow> qi_lease_token_hash i = None
          \<and> qi_lease_expires_at i = None \<and> qi_leased_by_principal_id i = None)"

lemma require_active_lease_Inr:
  "require_active_lease i c = Inr () \<longleftrightarrow>
     qi_id i = lc_item_id c \<and> qi_binding i = lc_binding c \<and> qi_status i = Queue_LEASED
     \<and> qi_lease_token_hash i = Some (sha256 (lc_lease_token c))
     \<and> qi_leased_by_principal_id i = Some (lc_principal_id c)
     \<and> (\<exists>t. qi_lease_expires_at i = Some t \<and> lc_now c < t)"
  by (auto simp: require_active_lease_def require_cas_def split: option.splits if_splits)

lemma grant_lease_Inr:
  "grant_lease i c = Inr res \<longleftrightarrow>
     qi_id i = lc_item_id c \<and> qi_binding i = lc_binding c
     \<and> qi_status i \<in> {Queue_PENDING, Queue_FAILED_RETRYABLE} \<and> qi_available_at i \<le> lc_now c
     \<and> 32 \<le> code_points (lc_lease_token c)
     \<and> res = LeaseGranted (i\<lparr>qi_status := Queue_LEASED, qi_lease_token_hash := Some (sha256 (lc_lease_token c)),
              qi_lease_expires_at := Some (lc_now c + LEASE_DURATION),
              qi_leased_by_principal_id := Some (lc_principal_id c), qi_last_error_code := None\<rparr>) (lc_lease_token c)"
  by (auto simp: grant_lease_def require_cas_def require_leaseable_def MINIMUM_LEASE_CREDENTIAL_LENGTH_def
      split: queue_status.splits if_splits)

text \<open>The delays, written out.\<close>

lemma schedule_retry_cases:
  assumes "0 \<le> qi_attempts i" and "qi_attempts i \<le> 3"
  obtains (terminal) "qi_attempts i = 3"
      "schedule_retry i t e = clear_lease i Queue_FAILED_TERMINAL t (Some e)"
    | (again) k where "qi_attempts i = k" "k \<in> {0, 1, 2}"
      "schedule_retry i t e = (clear_lease i Queue_FAILED_RETRYABLE
         (t + minutes (if k = 0 then 1 else if k = 1 then 5 else 30)) (Some e))\<lparr>qi_attempts := k + 1\<rparr>"
proof -
  consider "qi_attempts i = 0" | "qi_attempts i = 1" | "qi_attempts i = 2" | "qi_attempts i = 3"
    using assms by linarith
  then show thesis
    by cases (auto simp: schedule_retry_def RETRY_DELAYS_def Let_def intro: again terminal)
qed

lemma schedule_retry_wf:
  assumes "q_wf i"
  shows "q_wf (schedule_retry i t e)"
proof -
  have "0 \<le> qi_attempts i" "qi_attempts i \<le> 3" using assms by (simp_all add: q_wf_def)
  then show ?thesis
    by (cases rule: schedule_retry_cases [of i t e]) (auto simp: q_wf_def clear_lease_def)
qed

text \<open>Every step is one of four effects.\<close>

lemma q_step_effects:
  assumes "q_step i i'"
  obtains (lease) c t where "grant_lease i c = Inr (LeaseGranted i' t)"
  | (block) rs where "i' = i\<lparr>qi_status := Queue_BLOCKED_CAPABILITY, qi_last_error_code := Some ''blocked_capability''\<rparr>"
  | (beat) c where "require_active_lease i c = Inr ()" "i' = i\<lparr>qi_lease_expires_at := Some (lc_now c + LEASE_DURATION)\<rparr>"
  | (success) c where "require_active_lease i c = Inr ()" "i' = clear_lease i Queue_SUCCEEDED (lc_now c) None"
  | (retry) t e where "qi_status i = Queue_LEASED" "i' = schedule_retry i t e"
  using assms
proof (cases rule: q_step.cases)
  case lease
  then show thesis by (auto simp: request_lease_def grant_lease_Inr split: capability_decision.splits intro: that(1))
next
  case block
  then show thesis by (auto simp: request_lease_def grant_lease_Inr split: capability_decision.splits intro: that(2))
next
  case beat
  then show thesis by (auto simp: heartbeat_def split: sum.splits intro: that(3))
next
  case success
  then show thesis by (auto simp: ack_success_def split: sum.splits intro: that(4))
next
  case failure
  then show thesis
    by (auto simp: ack_retryable_failure_def split: sum.splits intro: that(5)
        dest: require_active_lease_Inr [THEN iffD1])
next
  case recover
  then show thesis by (auto simp: recover_expired_lease_def split: option.splits if_splits intro: that(5))
qed

lemma q_step_wf: "q_wf i \<Longrightarrow> q_step i i' \<Longrightarrow> q_wf i'"
  by (erule q_step_effects)
     (auto simp: grant_lease_Inr require_active_lease_Inr clear_lease_def schedule_retry_wf, auto simp: q_wf_def)

definition q_rank :: "queue_item \<Rightarrow> int" where
  "q_rank i = qi_attempts i + (if qi_status i \<in> {Queue_PENDING, Queue_FAILED_RETRYABLE} then 0 else 1)"

lemma q_step_rank: "q_wf i \<Longrightarrow> q_step i i' \<Longrightarrow> q_rank i \<le> q_rank i'"
proof (erule q_step_effects)
  fix t e assume wf: "q_wf i" and l: "qi_status i = Queue_LEASED" and i': "i' = schedule_retry i t e"
  have "0 \<le> qi_attempts i" "qi_attempts i \<le> 3" using wf by (simp_all add: q_wf_def)
  then show ?thesis using l unfolding i'
    by (cases rule: schedule_retry_cases [of i t e]) (auto simp: q_rank_def clear_lease_def)
qed (auto simp: grant_lease_Inr require_active_lease_Inr q_rank_def clear_lease_def)

interpretation queue: bounded_progress q_init q_step q_wf q_rank 4
proof unfold_locales
  show "q_init i \<Longrightarrow> q_wf i" for i by (auto simp: q_init_def q_wf_def)
  show "q_wf i \<Longrightarrow> q_rank i \<le> 4" for i by (auto simp: q_wf_def q_rank_def)
qed (auto intro: q_step_wf q_step_rank)

section \<open>Properties of the queue\<close>

text \<open>(C14) Every state of an analysis item that any sequence of worker and server operations can reach is
  well-formed: between zero and three attempts, a leased item with its complete lease, and no trace of a
  lease on an item that is pending, finished or waiting for a retry.\<close>

theorem analysis_queue_invariant:
  assumes "q_init i" and "q_step\<^sup>*\<^sup>* i j"
  shows "q_wf j \<and> q_rank i \<le> q_rank j \<and> q_rank j \<le> 4"
  using assms queue.reachable_inv queue.reachable_rank by blast

text \<open>Counting the leases granted along a run.\<close>

inductive q_run :: "nat \<Rightarrow> queue_item \<Rightarrow> queue_item \<Rightarrow> bool" where
  start: "q_run 0 i i"
| leased: "q_run n i j \<Longrightarrow> grant_lease j c = Inr (LeaseGranted k t) \<Longrightarrow> q_run (Suc n) i k"
| other: "q_run n i j \<Longrightarrow> q_step j k \<Longrightarrow> q_run n i k"

lemma grant_rank_Suc: "grant_lease j c = Inr (LeaseGranted k t) \<Longrightarrow> q_rank k = q_rank j + 1"
  by (auto simp: grant_lease_Inr q_rank_def)

lemma grant_step: "grant_lease j c = Inr (LeaseGranted k t) \<Longrightarrow> q_step j k"
  by (rule q_step.lease [of j c "CapabilityApproved []"]) (simp add: request_lease_def)

lemma q_run_rank: "q_run n i j \<Longrightarrow> q_wf i \<Longrightarrow> q_wf j \<and> int n + q_rank i \<le> q_rank j"
proof (induction rule: q_run.induct)
  case (start i)
  then show ?case by simp
next
  case (leased n i j c k t)
  then show ?case using grant_rank_Suc [OF leased.hyps(2)] q_step_wf [OF _ grant_step [OF leased.hyps(2)]] by simp
next
  case (other n i j k)
  then show ?case using q_step_rank [of j k] q_step_wf [of j k] by simp
qed

text \<open>An analysis item is handed to a worker at most four times: once, and once after each of the three
  delays. Crashing, slow or failing workers cannot keep it in circulation.\<close>

theorem at_most_four_leases:
  assumes "q_init i" and "q_run n i j"
  shows "n \<le> 4"
proof -
  have "q_wf i" and r: "q_rank i = 0" using assms(1) by (auto simp: q_init_def q_wf_def q_rank_def)
  with q_run_rank [OF assms(2)] have "q_wf j" "int n \<le> q_rank j" by simp_all
  with queue.rank_bound [of j] show ?thesis by simp
qed

text \<open>(C15) A lease fences out everyone but its holder: after a lease is granted, no other lease of the item is
  granted, and a heartbeat, a success or a failure is accepted only from the same principal, with a token of
  the same digest, for the same item and versions, before the ten minutes have passed.\<close>

theorem analysis_lease_fencing:
  assumes "grant_lease i c = Inr (LeaseGranted leased token)"
  shows "(\<nexists>res. grant_lease leased c' = Inr res)
    \<and> ((\<exists>k. heartbeat leased c' = Inr k) \<longleftrightarrow>
         lc_item_id c' = lc_item_id c \<and> lc_binding c' = lc_binding c \<and> lc_principal_id c' = lc_principal_id c
         \<and> sha256 (lc_lease_token c') = sha256 (lc_lease_token c) \<and> lc_now c' < lc_now c + minutes 10)
    \<and> ((\<exists>k r. ack_success dump leased c' out = Inr (k, r)) \<longleftrightarrow> (\<exists>k. heartbeat leased c' = Inr k))
    \<and> ((\<exists>k. ack_retryable_failure leased c' e = Inr k) \<longleftrightarrow> (\<exists>k. heartbeat leased c' = Inr k))"
proof -
  have beat: "(\<exists>k. heartbeat leased c' = Inr k) \<longleftrightarrow> require_active_lease leased c' = Inr ()"
    by (auto simp: heartbeat_def split: sum.split)
  moreover have "(\<exists>k r. ack_success dump leased c' out = Inr (k, r)) \<longleftrightarrow> require_active_lease leased c' = Inr ()"
    by (auto simp: ack_success_def split: sum.split)
  moreover have "(\<exists>k. ack_retryable_failure leased c' e = Inr k) \<longleftrightarrow> require_active_lease leased c' = Inr ()"
    by (auto simp: ack_retryable_failure_def split: sum.split)
  moreover have "require_active_lease leased c' = Inr () \<longleftrightarrow>
      lc_item_id c' = lc_item_id c \<and> lc_binding c' = lc_binding c \<and> lc_principal_id c' = lc_principal_id c
         \<and> sha256 (lc_lease_token c') = sha256 (lc_lease_token c) \<and> lc_now c' < lc_now c + minutes 10"
    using assms by (auto simp: grant_lease_Inr require_active_lease_Inr LEASE_DURATION_def)
  ultimately show ?thesis using assms by (auto simp: grant_lease_Inr)
qed

text \<open>The retry schedule: the failure of a worker, or the expiry of its lease, makes the item available
  again exactly 1, 5 and 30 minutes after the interruption for the first, second and third time, and final
  the fourth time; it loses the lease in every case.\<close>

theorem analysis_retry_schedule:
  assumes "q_wf i" and "ack_retryable_failure i c e = Inr j \<and> t = lc_now c
      \<or> recover_expired_lease i now = Inr j \<and> qi_lease_expires_at i = Some t"
  shows "qi_lease_token_hash j = None \<and> qi_lease_expires_at j = None \<and> qi_leased_by_principal_id j = None
    \<and> (if qi_attempts i = 3 then qi_status j = Queue_FAILED_TERMINAL \<and> qi_attempts j = 3
       else qi_status j = Queue_FAILED_RETRYABLE \<and> qi_attempts j = qi_attempts i + 1
         \<and> qi_available_at j = t + (if qi_attempts i = 0 then minutes 1
                                    else if qi_attempts i = 1 then minutes 5 else minutes 30))"
proof -
  obtain e' where j: "j = schedule_retry i t e'"
    using assms(2)
    by (auto simp: ack_retryable_failure_def recover_expired_lease_def split: sum.splits option.splits if_splits)
  have "0 \<le> qi_attempts i" "qi_attempts i \<le> 3" using assms(1) by (simp_all add: q_wf_def)
  then show ?thesis unfolding j
    by (cases rule: schedule_retry_cases [of i t e']) (auto simp: clear_lease_def)
qed

text \<open>A refused capability check is destructive: a lease request under a blocked gate moves the item to
  \<open>blocked_capability\<close> whatever its state, also one that has already succeeded or that another worker
  holds, without comparing item or versions, and no operation ever leaves that state again, even once the
  gate approves.\<close>

theorem blocked_capability_is_final:
  "\<exists>j. request_lease i c (CapabilityBlocked reasons) = Inr (LeaseDenied j (map cbr_code reasons))
     \<and> qi_status j = Queue_BLOCKED_CAPABILITY
     \<and> (\<forall>k. q_step\<^sup>*\<^sup>* j k \<longrightarrow> qi_status k = Queue_BLOCKED_CAPABILITY
          \<and> (\<forall>c'. grant_lease k c' = Inl CAS_MISMATCH \<or> grant_lease k c' = Inl INVALID_STATE))"
proof -
  let ?j = "i\<lparr>qi_status := Queue_BLOCKED_CAPABILITY, qi_last_error_code := Some ''blocked_capability''\<rparr>"
  have stays: "qi_status b = Queue_BLOCKED_CAPABILITY"
    if "q_step a b" "qi_status a = Queue_BLOCKED_CAPABILITY" for a b
    using that by (cases rule: q_step_effects) (auto simp: grant_lease_Inr require_active_lease_Inr)
  have "qi_status k = Queue_BLOCKED_CAPABILITY" if "q_step\<^sup>*\<^sup>* ?j k" for k
    using that by (induction rule: rtranclp_induct) (auto intro: stays)
  moreover have "grant_lease k c' = Inl CAS_MISMATCH \<or> grant_lease k c' = Inl INVALID_STATE"
    if "qi_status k = Queue_BLOCKED_CAPABILITY" for k c'
    using that by (auto simp: grant_lease_def require_cas_def require_leaseable_def)
  ultimately show ?thesis by (intro exI [of _ ?j]) (simp add: request_lease_def)
qed

section \<open>A worked item\<close>

definition example_binding :: analysis_binding where
  "example_binding = \<lparr>bind_post_version_id = 5, bind_content_hash = replicate 64 CHR ''0'',
     bind_prompt_version = ''p1'', bind_model_version = ''m1'', bind_schema_version = ''s1''\<rparr>"

definition example_item :: queue_item where
  "example_item = \<lparr>qi_id = 1, qi_binding = example_binding, qi_status = Queue_PENDING, qi_attempts = 0,
     qi_available_at = 0, qi_lease_token_hash = None, qi_lease_expires_at = None,
     qi_leased_by_principal_id = None, qi_last_error_code = None\<rparr>"

definition example_lease_command :: lease_command where
  "example_lease_command = \<lparr>lc_item_id = 1, lc_binding = example_binding, lc_principal_id = 9,
     lc_lease_token = example_lease, lc_now = 10\<rparr>"

definition example_leased :: queue_item where
  "example_leased = example_item\<lparr>qi_status := Queue_LEASED, qi_lease_token_hash := Some (sha256 example_lease),
     qi_lease_expires_at := Some (10 + minutes 10), qi_leased_by_principal_id := Some 9,
     qi_last_error_code := None\<rparr>"

lemmas example_queue_defs =
  example_item_def example_lease_command_def example_leased_def LEASE_DURATION_def

lemma example_grant: "grant_lease example_item example_lease_command = Inr (LeaseGranted example_leased example_lease)"
  by (simp add: grant_lease_Inr example_queue_defs) (simp add: example_lease_def code_points_def count_where_def)

lemma example_failed: "ack_retryable_failure example_leased example_lease_command ''timeout''
    = Inr (schedule_retry example_leased 10 ''timeout'')"
proof -
  have "require_active_lease example_leased example_lease_command = Inr ()"
    by (simp add: require_active_lease_Inr example_queue_defs minutes_def)
  then show ?thesis by (simp add: ack_retryable_failure_def example_lease_command_def)
qed

lemma example_q_init: "q_init example_item"
  by (simp add: q_init_def example_item_def)

theorem analysis_queue_invariant_witness:
  "q_wf (schedule_retry example_leased 10 ''timeout'') \<and> q_rank (schedule_retry example_leased 10 ''timeout'') \<le> 4"
proof -
  have "q_step\<^sup>*\<^sup>* example_item (schedule_retry example_leased 10 ''timeout'')"
    using grant_step [OF example_grant] q_step.failure [OF example_failed] by (meson converse_rtranclp_into_rtranclp rtranclp.rtrancl_refl)
  from analysis_queue_invariant [OF example_q_init this] show ?thesis by blast
qed

theorem at_most_four_leases_witness: "q_run 1 example_item example_leased \<and> (1 :: nat) \<le> 4"
proof -
  have "q_run (Suc 0) example_item example_leased" by (rule q_run.leased [OF q_run.start example_grant])
  then show ?thesis using at_most_four_leases [OF example_q_init, of 1 example_leased] by simp
qed

theorem analysis_lease_fencing_witness:
  "(\<nexists>res. grant_lease example_leased (example_lease_command\<lparr>lc_principal_id := 8\<rparr>) = Inr res)
   \<and> (\<nexists>k. heartbeat example_leased (example_lease_command\<lparr>lc_principal_id := 8\<rparr>) = Inr k)"
  using analysis_lease_fencing [OF example_grant, of "example_lease_command\<lparr>lc_principal_id := 8\<rparr>"]
  by (simp add: example_lease_command_def)

theorem analysis_retry_schedule_witness:
  "qi_available_at (schedule_retry example_leased 10 ''timeout'') = 10 + minutes 1"
proof -
  have "q_wf example_leased" by (simp add: q_wf_def example_queue_defs)
  moreover have "ack_retryable_failure example_leased example_lease_command ''timeout''
      = Inr (schedule_retry example_leased 10 ''timeout'') \<and> 10 = lc_now example_lease_command
    \<or> recover_expired_lease example_leased 0 = Inr (schedule_retry example_leased 10 ''timeout'')
      \<and> qi_lease_expires_at example_leased = Some 10"
    using example_failed by (simp add: example_lease_command_def)
  ultimately show ?thesis
    using analysis_retry_schedule [of example_leased example_lease_command "''timeout''"
        "schedule_retry example_leased 10 ''timeout''" 10 0]
    by (simp add: example_queue_defs)
qed

theorem blocked_capability_is_final_witness:
  "\<exists>j. request_lease (example_item\<lparr>qi_status := Queue_SUCCEEDED\<rparr>) example_lease_command (CapabilityBlocked [])
        = Inr (LeaseDenied j []) \<and> qi_status j = Queue_BLOCKED_CAPABILITY"
  using blocked_capability_is_final [of "example_item\<lparr>qi_status := Queue_SUCCEEDED\<rparr>" example_lease_command "[]"]
  by auto

end
