(* ===== verification/Benchmark.thy ===== *)
theory Benchmark
  imports Digest
begin

text \<open>
  \<open>analysis/benchmark.py\<close>: the admission of a held-out relevance benchmark. A data set is scored only if it has
  exactly 400 real, untouched records, balanced over countries, sources and classes, and every label was
  resolved by blind human labelers.

  Reading and parsing a file is the parameter \<open>read_file\<close> with the outcomes the code distinguishes.
\<close>

section \<open>Records\<close>

definition BENCHMARK_RECORD_COUNT :: nat where "BENCHMARK_RECORD_COUNT = 400"
definition COUNTRY_RECORD_COUNT :: nat where "COUNTRY_RECORD_COUNT = 200"
definition MINIMUM_SOURCE_RECORD_COUNT :: nat where "MINIMUM_SOURCE_RECORD_COUNT = 100"
definition MINIMUM_COUNTRY_CLASS_COUNT :: nat where "MINIMUM_COUNTRY_CLASS_COUNT = 25"

datatype benchmark_country = Benchmark_KR | Benchmark_US
datatype benchmark_origin = REAL_COLLECTED | SYNTHETIC
datatype label_method = BLIND_HUMAN | GENERATED

record human_label =
  hl_labeler_id :: string
  hl_relevance :: bool
  hl_method :: label_method
  hl_labeled_at :: datetime

record benchmark_record =
  br_record_id :: uuid
  br_post_version_id :: uuid
  br_source_id :: string
  br_country :: benchmark_country
  br_content_hash :: string
  br_collection_manifest_sha256 :: string
  br_origin :: benchmark_origin
  br_frozen_before_evaluation :: bool
  br_used_for_tuning :: bool
  br_first_label :: human_label
  br_second_label :: human_label
  br_adjudication :: "human_label option"

record validated_benchmark_dataset =
  vbd_records :: "benchmark_record list"
  vbd_resolved_labels :: "bool list"
  vbd_country_counts :: "benchmark_country \<Rightarrow> nat"
  vbd_source_counts :: "string \<Rightarrow> nat"

datatype benchmark_error_code =
  MISSING_DATA | INVALID_DATA | RECORD_COUNT | SYNTHETIC_DATA | HUMAN_LABEL_REQUIRED | HOLDOUT_CONTAMINATED
  | COUNTRY_BALANCE | SOURCE_BALANCE | CLASS_BALANCE | DUPLICATE_RECORD | SOURCE_SET_MISMATCH

datatype file_outcome = NoFile | Unreadable | Malformed | Parsed "benchmark_record list"
datatype benchmark_input = InputRecords "benchmark_record list" | InputPath string

section \<open>Validation\<close>

definition load_records ::
    "(string \<Rightarrow> file_outcome) \<Rightarrow> benchmark_input \<Rightarrow> benchmark_error_code + benchmark_record list" where
  "load_records read_file input =
     (case input of
        InputRecords records \<Rightarrow> Inr records
      | InputPath path \<Rightarrow>
          (case read_file path of NoFile \<Rightarrow> Inl MISSING_DATA | Unreadable \<Rightarrow> Inl INVALID_DATA
           | Malformed \<Rightarrow> Inl INVALID_DATA | Parsed records \<Rightarrow> Inr records))"

fun require_real_origin :: "benchmark_origin \<Rightarrow> benchmark_error_code + unit" where
  "require_real_origin REAL_COLLECTED = Inr ()"
| "require_real_origin SYNTHETIC = Inl SYNTHETIC_DATA"

fun require_human_label :: "label_method \<Rightarrow> benchmark_error_code + unit" where
  "require_human_label BLIND_HUMAN = Inr ()"
| "require_human_label GENERATED = Inl HUMAN_LABEL_REQUIRED"

definition resolved_human_label :: "benchmark_record \<Rightarrow> benchmark_error_code + bool" where
  "resolved_human_label r =
     (let first = br_first_label r; second = br_second_label r in
      if hl_labeler_id first = hl_labeler_id second then Inl HUMAN_LABEL_REQUIRED
      else case seq_result (\<lambda>l. require_human_label (hl_method l))
             ([first, second] @ (case br_adjudication r of None \<Rightarrow> [] | Some a \<Rightarrow> [a])) of Inl e \<Rightarrow> Inl e
      | Inr _ \<Rightarrow>
        if hl_relevance first = hl_relevance second
        then (if br_adjudication r \<noteq> None then Inl HUMAN_LABEL_REQUIRED else Inr (hl_relevance first))
        else (case br_adjudication r of None \<Rightarrow> Inl HUMAN_LABEL_REQUIRED
          | Some a \<Rightarrow>
            if hl_labeler_id a \<in> {hl_labeler_id first, hl_labeler_id second} then Inl HUMAN_LABEL_REQUIRED
            else Inr (hl_relevance a)))"

definition validate_record :: "benchmark_record \<Rightarrow> benchmark_error_code + bool" where
  "validate_record r =
     (case require_real_origin (br_origin r) of Inl e \<Rightarrow> Inl e | Inr _ \<Rightarrow>
      if \<not> br_frozen_before_evaluation r \<or> br_used_for_tuning r then Inl HOLDOUT_CONTAMINATED
      else resolved_human_label r)"

definition validate_record_provenance :: "benchmark_record list \<Rightarrow> benchmark_error_code + bool list" where
  "validate_record_provenance records =
     (if \<not> distinct (map br_record_id records) \<or> \<not> distinct (map br_post_version_id records)
      then Inl DUPLICATE_RECORD else seq_result validate_record records)"

definition counter :: "'a list \<Rightarrow> 'a \<Rightarrow> nat" where
  "counter xs x = length (filter (\<lambda>y. y = x) xs)"

definition country_labels :: "benchmark_country \<Rightarrow> benchmark_record list \<Rightarrow> bool list \<Rightarrow> bool list" where
  "country_labels country records labels =
     map snd (filter (\<lambda>(r, l). br_country r = country) (zip records labels))"

definition validate_balances ::
    "benchmark_record list \<Rightarrow> bool list \<Rightarrow> string list \<Rightarrow>
       benchmark_error_code + (string \<Rightarrow> nat) \<times> (benchmark_country \<Rightarrow> nat)" where
  "validate_balances records labels enabled_source_ids =
     (let source_counts = counter (map br_source_id records); country_counts = counter (map br_country records);
          countries = [Benchmark_KR, Benchmark_US] in
      if set (map br_source_id records) \<noteq> set enabled_source_ids then Inl SOURCE_SET_MISMATCH
      else if list_ex (\<lambda>s. source_counts s < MINIMUM_SOURCE_RECORD_COUNT) enabled_source_ids then Inl SOURCE_BALANCE
      else if list_ex (\<lambda>c. country_counts c \<noteq> COUNTRY_RECORD_COUNT) countries then Inl COUNTRY_BALANCE
      else if list_ex (\<lambda>c. counter (country_labels c records labels) True < MINIMUM_COUNTRY_CLASS_COUNT
                \<or> counter (country_labels c records labels) False < MINIMUM_COUNTRY_CLASS_COUNT) countries
      then Inl CLASS_BALANCE
      else Inr (source_counts, country_counts))"

definition validate_benchmark_dataset ::
    "(string \<Rightarrow> file_outcome) \<Rightarrow> benchmark_input \<Rightarrow> string list \<Rightarrow>
       benchmark_error_code + validated_benchmark_dataset" where
  "validate_benchmark_dataset read_file source enabled_source_ids =
     (case load_records read_file source of Inl e \<Rightarrow> Inl e | Inr records \<Rightarrow>
      if length records \<noteq> BENCHMARK_RECORD_COUNT then Inl RECORD_COUNT
      else if \<not> distinct enabled_source_ids then Inl SOURCE_SET_MISMATCH
      else case validate_record_provenance records of Inl e \<Rightarrow> Inl e | Inr labels \<Rightarrow>
       (case validate_balances records labels enabled_source_ids of Inl e \<Rightarrow> Inl e
        | Inr (source_counts, country_counts) \<Rightarrow>
          Inr \<lparr>vbd_records = records, vbd_resolved_labels = labels,
               vbd_country_counts = country_counts, vbd_source_counts = source_counts\<rparr>))"

section \<open>What an admitted data set guarantees\<close>

text \<open>The labels a record was given, and the agreement of two different blind human labelers.\<close>

definition human_labels :: "benchmark_record \<Rightarrow> human_label list" where
  "human_labels r = br_first_label r # br_second_label r # (case br_adjudication r of None \<Rightarrow> [] | Some a \<Rightarrow> [a])"

definition agreed :: "benchmark_record \<Rightarrow> bool \<Rightarrow> bool" where
  "agreed r v \<longleftrightarrow> (\<exists>a \<in> set (human_labels r). \<exists>b \<in> set (human_labels r).
     hl_labeler_id a \<noteq> hl_labeler_id b \<and> hl_method a = BLIND_HUMAN \<and> hl_method b = BLIND_HUMAN
     \<and> hl_relevance a = v \<and> hl_relevance b = v)"

lemma require_human_label_Inr: "require_human_label m = Inr u \<longleftrightarrow> m = BLIND_HUMAN"
  by (cases m) auto

lemma resolved_label_agreed:
  assumes "resolved_human_label r = Inr v"
  shows "agreed r v"
proof (cases "br_adjudication r")
  case None
  with assms show ?thesis
    by (auto simp: resolved_human_label_def agreed_def human_labels_def Let_def require_human_label_Inr
        split: sum.splits if_splits)
next
  case (Some a)
  with assms show ?thesis
    by (cases "hl_relevance (br_first_label r)"; cases "hl_relevance (br_second_label r)"; cases v)
       (auto simp: resolved_human_label_def agreed_def human_labels_def Let_def require_human_label_Inr
        split: sum.splits if_splits)
qed

lemma counter_sum:
  assumes "distinct ks" and "set xs \<subseteq> set ks"
  shows "(\<Sum>k \<leftarrow> ks. counter xs k) = length xs"
  using assms(2)
proof (induction xs)
  case Nil
  then show ?case by (simp add: counter_def)
next
  case (Cons x xs)
  have "(\<Sum>k \<leftarrow> ks. counter (x # xs) k) = (\<Sum>k \<leftarrow> ks. counter xs k + (if x = k then 1 else 0))"
    by (rule arg_cong [of _ _ sum_list], rule map_cong) (auto simp: counter_def)
  also have "\<dots> = (\<Sum>k \<leftarrow> ks. counter xs k) + (\<Sum>k \<leftarrow> ks. if x = k then 1 else 0)" by (rule sum_list_addf)
  also have "(\<Sum>k \<leftarrow> ks. if x = k then 1 else 0) = (1 :: nat)"
    using assms(1) Cons.prems by (simp add: sum_list_distinct_conv_sum_set)
  finally show ?case using Cons by simp
qed

lemma sum_list_ge: "(\<And>x. x \<in> set xs \<Longrightarrow> (k :: nat) \<le> f x) \<Longrightarrow> length xs * k \<le> (\<Sum>x \<leftarrow> xs. f x)"
  by (induction xs) (auto simp: add_mono)

text \<open>A benchmark is admitted only when it supports the claim made from it: exactly 400 distinct, real records
  frozen before evaluation and never used for tuning, 200 for each country with both classes at least 25
  times, exactly the enabled sources, at most four, with at least 100 records each, and every resolved label
  agreed on by two different blind human labelers.\<close>

theorem validated_benchmark_sound:
  assumes "validate_benchmark_dataset read_file source enabled = Inr d"
  shows "length (vbd_records d) = 400 \<and> distinct (map br_record_id (vbd_records d))
    \<and> distinct (map br_post_version_id (vbd_records d))
    \<and> list_all2 agreed (vbd_records d) (vbd_resolved_labels d)
    \<and> (\<forall>r \<in> set (vbd_records d). br_origin r = REAL_COLLECTED \<and> br_frozen_before_evaluation r \<and> \<not> br_used_for_tuning r)
    \<and> (\<forall>c. counter (map br_country (vbd_records d)) c = 200
          \<and> 25 \<le> counter (country_labels c (vbd_records d) (vbd_resolved_labels d)) True
          \<and> 25 \<le> counter (country_labels c (vbd_records d) (vbd_resolved_labels d)) False)
    \<and> set enabled = set (map br_source_id (vbd_records d)) \<and> length enabled \<le> 4
    \<and> (\<forall>s \<in> set enabled. 100 \<le> counter (map br_source_id (vbd_records d)) s)"
proof -
  let ?rs = "vbd_records d" and ?ls = "vbd_resolved_labels d"
  from assms have v: "length ?rs = 400" "distinct enabled" "validate_record_provenance ?rs = Inr ?ls"
      "validate_balances ?rs ?ls enabled = Inr (vbd_source_counts d, vbd_country_counts d)"
    by (auto simp: validate_benchmark_dataset_def BENCHMARK_RECORD_COUNT_def split: sum.splits if_splits)
  from v(3) have ids: "distinct (map br_record_id ?rs)" "distinct (map br_post_version_id ?rs)"
    and rel: "list_all2 (\<lambda>r l. validate_record r = Inr l) ?rs ?ls"
    by (auto simp: validate_record_provenance_def seq_result_Inr_iff split: if_splits)
  have one: "agreed r l \<and> br_origin r = REAL_COLLECTED \<and> br_frozen_before_evaluation r \<and> \<not> br_used_for_tuning r"
    if "validate_record r = Inr l" for r l
    using that resolved_label_agreed [of r l]
    by (cases "br_origin r") (auto simp: validate_record_def split: if_splits)
  have agreed: "list_all2 agreed ?rs ?ls" using rel by (rule list_all2_mono) (simp add: one)
  have real: "\<forall>r \<in> set ?rs. br_origin r = REAL_COLLECTED \<and> br_frozen_before_evaluation r \<and> \<not> br_used_for_tuning r"
    using rel one by (fastforce simp: list_all2_conv_all_nth in_set_conv_nth)
  from v(4) have bal: "set enabled = set (map br_source_id ?rs)"
      "\<forall>s \<in> set enabled. 100 \<le> counter (map br_source_id ?rs) s"
      "counter (map br_country ?rs) c = 200 \<and> 25 \<le> counter (country_labels c ?rs ?ls) True
        \<and> 25 \<le> counter (country_labels c ?rs ?ls) False" for c
    by (cases c; auto simp: validate_balances_def Let_def COUNTRY_RECORD_COUNT_def MINIMUM_SOURCE_RECORD_COUNT_def
        MINIMUM_COUNTRY_CLASS_COUNT_def list_ex_iff not_less split: if_splits)+
  have "length enabled * 100 \<le> (\<Sum>s \<leftarrow> enabled. counter (map br_source_id ?rs) s)"
    using bal(2) by (intro sum_list_ge) simp
  also have "\<dots> = 400" using counter_sum [OF v(2), of "map br_source_id ?rs"] bal(1) v(1) by simp
  finally have "length enabled \<le> 4" by simp
  with v ids agreed real bal show ?thesis by blast
qed

section \<open>An admitted data set\<close>

definition example_label :: "string \<Rightarrow> bool \<Rightarrow> human_label" where
  "example_label who v = \<lparr>hl_labeler_id = who, hl_relevance = v, hl_method = BLIND_HUMAN, hl_labeled_at = Aware 0 0\<rparr>"

definition example_record :: "nat \<Rightarrow> benchmark_record" where
  "example_record i = \<lparr>br_record_id = of_nat i, br_post_version_id = of_nat i, br_source_id = ''s'',
     br_country = (if i < 200 then Benchmark_KR else Benchmark_US),
     br_content_hash = replicate 64 CHR ''0'', br_collection_manifest_sha256 = replicate 64 CHR ''0'',
     br_origin = REAL_COLLECTED, br_frozen_before_evaluation = True, br_used_for_tuning = False,
     br_first_label = example_label ''a'' (even i), br_second_label = example_label ''b'' (even i),
     br_adjudication = None\<rparr>"

definition example_records :: "benchmark_record list" where
  "example_records = map example_record [0..<400]"

definition example_labels :: "bool list" where
  "example_labels = map even [0..<400]"

lemma example_record_label: "validate_record (example_record i) = Inr (even i)"
  by (simp add: validate_record_def resolved_human_label_def example_record_def example_label_def)

lemma small_uuid_inj: "inj_on (of_nat :: nat \<Rightarrow> uuid) {0..<400}"
  by (intro inj_onI) (simp add: word_of_nat_eq_iff take_bit_nat_eq_self)

lemma example_distinct: "distinct (map br_record_id example_records)" "distinct (map br_post_version_id example_records)"
  using small_uuid_inj by (simp_all add: example_records_def comp_def example_record_def distinct_map)

lemma example_seq: "seq_result validate_record example_records = Inr example_labels"
  by (simp add: example_labels_def seq_result_Inr_iff list_all2_map1 list_all2_map2 list_all2_same example_record_label example_records_def)

lemma filter_lt: "filter (\<lambda>i. i < 200) [0..<400] = [0..<200]" "filter (\<lambda>i. \<not> i < 200) [0..<400] = [200..<400]"
proof -
  have "[0..<400] = [0..<200] @ [200..<400]" using upt_add_eq_append [of 0 200 200] by simp
  then show "filter (\<lambda>i. i < 200) [0..<400] = [0..<200]" "filter (\<lambda>i. \<not> i < 200) [0..<400] = [200..<400]"
    by (simp_all add: filter_empty_conv filter_id_conv)
qed

lemma example_countries:
  "country_labels Benchmark_KR example_records example_labels = map even [0..<200]"
  "country_labels Benchmark_US example_records example_labels = map even [200..<400]"
proof -
  have z: "zip example_records (map even [0..<400]) = map (\<lambda>i. (example_record i, even i)) [0..<400]"
    unfolding example_records_def by (simp add: zip_map_map zip_same_conv_map)
  show "country_labels Benchmark_KR example_records example_labels = map even [0..<200]"
    "country_labels Benchmark_US example_records example_labels = map even [200..<400]"
    unfolding country_labels_def example_labels_def z
    by (simp_all add: filter_map comp_def example_record_def filter_lt [simplified] if_distrib)
qed

lemma count_even:
  "length (filter even [2 * m..<2 * m + 2 * n]) = n" "length (filter odd [2 * m..<2 * m + 2 * n]) = n"
  by (induction n) (simp_all add: upt_Suc_append)

lemma example_class_counts:
  "counter (country_labels c example_records example_labels) v = 100"
  using count_even [of 0 100] count_even [of 100 100]
  by (cases c; cases v) (simp_all only: example_countries, simp_all add: counter_def filter_map comp_def)

lemma example_balances: "\<exists>counts. validate_balances example_records example_labels [''s''] = Inr counts"
proof -
  have src: "map br_source_id example_records = map (\<lambda>i. ''s'') [0..<400]"
    by (simp add: example_records_def example_record_def comp_def)
  have "counter (map br_source_id example_records) ''s'' = 400" "set (map br_source_id example_records) = {''s''}"
    unfolding src by (simp_all add: counter_def filter_map comp_def image_constant_conv)
  moreover have "map br_country example_records = map (\<lambda>i. if i < 200 then Benchmark_KR else Benchmark_US) [0..<400]"
    by (simp add: example_records_def example_record_def comp_def)
  then have "counter (map br_country example_records) Benchmark_KR = 200"
    "counter (map br_country example_records) Benchmark_US = 200"
    using filter_lt by (simp_all add: counter_def filter_map comp_def if_distrib)
  ultimately show ?thesis
    by (simp add: validate_balances_def Let_def MINIMUM_SOURCE_RECORD_COUNT_def COUNTRY_RECORD_COUNT_def
        MINIMUM_COUNTRY_CLASS_COUNT_def example_class_counts)
qed

theorem validated_benchmark_sound_witness:
  "\<exists>d. validate_benchmark_dataset (\<lambda>_. NoFile) (InputRecords example_records) [''s''] = Inr d
     \<and> list_all2 agreed (vbd_records d) (vbd_resolved_labels d)"
proof -
  obtain a b where "validate_balances example_records example_labels [''s''] = Inr (a, b)"
    using example_balances by auto
  moreover have "length example_records = 400" by (simp add: example_records_def)
  ultimately obtain d where
    d: "validate_benchmark_dataset (\<lambda>_. NoFile) (InputRecords example_records) [''s''] = Inr d"
    using example_distinct example_seq
    by (simp add: validate_benchmark_dataset_def load_records_def BENCHMARK_RECORD_COUNT_def
        validate_record_provenance_def)
  from validated_benchmark_sound [OF d] d show ?thesis by blast
qed

end
