(* ===== verification/Report_Model.thy ===== *)
theory Report_Model
  imports Collection_Base
begin

text \<open>
  The value model of a daily report: \<open>reporting/windows.py\<close>, \<open>inputs.py\<close>, \<open>coverage.py\<close>,
  \<open>manifest_schema.py\<close> and \<open>report_schema.py\<close>. A Pydantic model is a record together with a validation
  function, applied wherever the code calls the constructor; a failed validation is an error value that
  carries the code of the \<open>PydanticCustomError\<close>, or \<open>field\<close> for a violated field constraint.

  A Seoul calendar date is the number of days since 1970-01-01. Timestamps are aware and are modelled by
  their instant. The JSON form of a model is what \<open>model_dump(mode="json", by_alias=True)\<close> returns.
\<close>

section \<open>Errors\<close>

text \<open>\<open>ReportAssemblyError\<close>, \<open>ManifestIntegrityError\<close> and \<open>ManifestCorruptError\<close> carry a reason; a lookup of a
  key that a dict does not have is a \<open>KeyError\<close>.\<close>

datatype report_error =
    Validation_Error string
  | Assembly_Error string
  | Integrity_Error string
  | Corrupt_Error string
  | Key_Error

definition require :: "bool \<Rightarrow> 'e \<Rightarrow> 'a \<Rightarrow> 'e + 'a" where
  "require condition err value = (if condition then Inr value else Inl err)"

lemma require_Inr [simp]: "require c e x = Inr y \<longleftrightarrow> c \<and> x = y"
  by (simp add: require_def)

lemma require_True [simp]: "require True e x = Inr x"
  by (simp add: require_def)

section \<open>Seoul report days\<close>

type_synonym seoul_date = int

record report_window =
  rw_role :: report_role
  rw_date_seoul :: seoul_date
  rw_start_utc :: instant
  rw_end_utc :: instant

record report_windows =
  rws_primary :: report_window
  rws_comparison :: report_window

definition SEOUL :: duration where "SEOUL = hours 9"

definition combine_midnight :: "seoul_date \<Rightarrow> instant" where
  "combine_midnight d = days d - SEOUL"

definition seoul_report_windows :: "seoul_date \<Rightarrow> report_windows" where
  "seoul_report_windows report_date =
     (let primary_start = combine_midnight report_date;
          comparison_start = primary_start - days 1
      in \<lparr>rws_primary = \<lparr>rw_role = Role_PRIMARY, rw_date_seoul = report_date,
            rw_start_utc = primary_start, rw_end_utc = primary_start + days 1\<rparr>,
          rws_comparison = \<lparr>rw_role = Role_COMPARISON, rw_date_seoul = report_date - 1,
            rw_start_utc = comparison_start, rw_end_utc = primary_start\<rparr>\<rparr>)"

definition in_window :: "report_window \<Rightarrow> instant \<Rightarrow> bool" where
  "in_window w t \<longleftrightarrow> rw_start_utc w \<le> t \<and> t < rw_end_utc w"

definition window_for :: "seoul_date \<Rightarrow> report_role \<Rightarrow> report_window" where
  "window_for d r = (case r of Role_PRIMARY \<Rightarrow> rws_primary (seoul_report_windows d)
                      | Role_COMPARISON \<Rightarrow> rws_comparison (seoul_report_windows d))"

lemma window_for_role [simp]: "rw_role (window_for d r) = r"
  by (cases r) (simp_all add: window_for_def seoul_report_windows_def Let_def)

lemma window_fields:
  "rw_start_utc (window_for d Role_PRIMARY) = days d - hours 9"
  "rw_end_utc (window_for d Role_PRIMARY) = days d - hours 9 + days 1"
  "rw_start_utc (window_for d Role_COMPARISON) = days d - hours 9 - days 1"
  "rw_end_utc (window_for d Role_COMPARISON) = days d - hours 9"
  "rw_date_seoul (window_for d Role_PRIMARY) = d"
  "rw_date_seoul (window_for d Role_COMPARISON) = d - 1"
  by (simp_all add: window_for_def seoul_report_windows_def combine_midnight_def SEOUL_def Let_def)

lemma role_in_window_unique: "in_window (window_for d r) t \<Longrightarrow> in_window (window_for d s) t \<Longrightarrow> r = s"
  by (cases r; cases s) (auto simp: in_window_def window_fields)

section \<open>Report inputs\<close>

text \<open>\<open>Field(ge=0, lt=2**53)\<close> and the pattern of a SHA-256 digest.\<close>

definition safe_count :: "int \<Rightarrow> bool" where "safe_count n \<longleftrightarrow> 0 \<le> n \<and> n < 2 ^ 53"

definition lower_hex :: "char \<Rightarrow> bool" where
  "lower_hex c \<longleftrightarrow> (let n = of_char c :: nat in 48 \<le> n \<and> n \<le> 57 \<or> 97 \<le> n \<and> n \<le> 102)"

definition sha_pattern :: "string \<Rightarrow> bool" where
  "sha_pattern s \<longleftrightarrow> length s = 64 \<and> list_all lower_hex s"

fun opt_all :: "('a \<Rightarrow> bool) \<Rightarrow> 'a option \<Rightarrow> bool" where
  "opt_all p None = True"
| "opt_all p (Some x) = p x"

datatype engagement_selection_state = Engagement_SELECTED | Engagement_UNAVAILABLE

record analysis_snapshot =
  as_state :: analysis_state
  as_analysis_id :: "uuid option"
  as_output_hash :: "string option"
  as_prompt_version :: "string option"
  as_model_version :: "string option"
  as_schema_version :: "string option"
  as_analyzed_at :: "instant option"
  as_relevance :: "bool option"
  as_sentiment :: "sentiment option"

definition validate_analysis_state :: "analysis_snapshot \<Rightarrow> report_error + analysis_snapshot" where
  "validate_analysis_state a =
     (if \<not> opt_all sha_pattern (as_output_hash a) then Inl (Validation_Error ''field'')
      else if as_state a = Analysis_VALID then
        if as_analysis_id a = None \<or> as_output_hash a = None \<or> as_prompt_version a = None
           \<or> as_model_version a = None \<or> as_schema_version a = None \<or> as_analyzed_at a = None
           \<or> as_relevance a = None
        then Inl (Validation_Error ''valid_analysis_provenance_missing'')
        else if as_relevance a = Some False \<and> as_sentiment a \<noteq> None
        then Inl (Validation_Error ''irrelevant_sentiment_present'')
        else Inr a
      else if as_analysis_id a \<noteq> None \<or> as_output_hash a \<noteq> None \<or> as_prompt_version a \<noteq> None
              \<or> as_model_version a \<noteq> None \<or> as_schema_version a \<noteq> None \<or> as_analyzed_at a \<noteq> None
              \<or> as_relevance a \<noteq> None \<or> as_sentiment a \<noteq> None
      then Inl (Validation_Error ''missing_analysis_value_present'')
      else Inr a)"

record engagement_snapshot =
  es_selection_state :: engagement_selection_state
  es_observation_id :: "uuid option"
  es_engagement_hash :: "string option"
  es_observed_at :: "instant option"
  es_comments_count :: "int option"
  es_upvote_or_score :: "int option"

definition validate_selection :: "engagement_snapshot \<Rightarrow> report_error + engagement_snapshot" where
  "validate_selection e =
     (if \<not> (opt_all sha_pattern (es_engagement_hash e) \<and> opt_all safe_count (es_comments_count e)
            \<and> opt_all (\<lambda>v. - (2 ^ 53) + 1 \<le> v \<and> v < 2 ^ 53) (es_upvote_or_score e))
      then Inl (Validation_Error ''field'')
      else (case es_selection_state e of
        Engagement_SELECTED \<Rightarrow>
          if es_observation_id e = None \<or> es_engagement_hash e = None \<or> es_observed_at e = None
          then Inl (Validation_Error ''engagement_provenance_missing'') else Inr e
      | Engagement_UNAVAILABLE \<Rightarrow>
          if es_observation_id e \<noteq> None \<or> es_engagement_hash e \<noteq> None \<or> es_observed_at e \<noteq> None
             \<or> es_comments_count e \<noteq> None \<or> es_upvote_or_score e \<noteq> None
          then Inl (Validation_Error ''unavailable_engagement_value_present'') else Inr e))"

record rule_match_snapshot =
  rm_match_id :: uuid
  rm_match_hash :: string
  rm_rule_id :: string
  rm_rule_set_id :: string
  rm_rule_set_version :: string
  rm_normalized_phrase :: string
  rm_match_present :: bool
  rm_mapped_category :: string

record topic_match_snapshot =
  tm_topic_key :: string
  tm_normalized_value :: string
  tm_analysis_schema_version :: string
  tm_mapped_category :: string

record report_record =
  rr_ordinal :: int
  rr_role :: report_role
  rr_source_id :: uuid
  rr_country :: country
  rr_platform :: source_platform
  rr_community :: string
  rr_post_version_id :: uuid
  rr_post_content_hash :: string
  rr_published_at_utc :: instant
  rr_published_date_seoul :: seoul_date
  rr_source_publication_sequence :: int
  rr_source_publication_manifest_id :: uuid
  rr_source_publication_manifest_hash :: string
  rr_analysis :: analysis_snapshot
  rr_rule_matches :: "rule_match_snapshot list"
  rr_topic_matches :: "topic_match_snapshot list"
  rr_effective_categories :: "string list"
  rr_engagement :: engagement_snapshot

definition validate_rule_match :: "rule_match_snapshot \<Rightarrow> report_error + rule_match_snapshot" where
  "validate_rule_match r = require (sha_pattern (rm_match_hash r)) (Validation_Error ''field'') r"

definition validate_report_record :: "report_record \<Rightarrow> report_error + report_record" where
  "validate_report_record r =
     require (safe_count (rr_ordinal r) \<and> sha_pattern (rr_post_content_hash r)
       \<and> 0 < rr_source_publication_sequence r \<and> rr_source_publication_sequence r < 2 ^ 53
       \<and> sha_pattern (rr_source_publication_manifest_hash r)) (Validation_Error ''field'') r"

section \<open>Governing definitions\<close>

text \<open>\<open>FormulaConstants\<close>: every field is a \<open>Literal\<close>, so the model has exactly one value; the fields that
  the formulas read are kept.\<close>

record formula_constants =
  fc_complete_coverage_numerator :: int
  fc_complete_coverage_denominator :: int
  fc_highlight_limit :: nat
  fc_rising_keyword_limit :: nat
  fc_rising_keyword_min_primary_count :: int
  fc_zero_denominator :: string
  fc_missing_analysis_semantics :: string

definition literal_constants :: formula_constants where
  "literal_constants = \<lparr>fc_complete_coverage_numerator = 85, fc_complete_coverage_denominator = 100,
     fc_highlight_limit = 5, fc_rising_keyword_limit = 10, fc_rising_keyword_min_primary_count = 3,
     fc_zero_denominator = ''null'', fc_missing_analysis_semantics = ''excluded_not_neutral''\<rparr>"

record rule_set_version =
  rsv_rule_set_id :: string
  rsv_version :: string
  rsv_rules_hash :: string

record analysis_version_tuple =
  avt_prompt_version :: string
  avt_model_version :: string
  avt_schema_version :: string

record governing_definitions =
  gd_formula_version :: string
  gd_formula_hash :: string
  gd_constants :: formula_constants
  gd_metric_version :: string
  gd_metric_hash :: string
  gd_category_version :: string
  gd_category_hash :: string
  gd_rule_sets :: "rule_set_version list"
  gd_analysis_versions :: "analysis_version_tuple list"

datatype input_kind = Input_rule | Input_topic

record category_mapping_snapshot =
  cm_input_kind :: input_kind
  cm_rule_or_topic_key :: string
  cm_version :: string
  cm_normalized_value :: string
  cm_category :: string

type_synonym mapping_key = "input_kind \<times> string \<times> string \<times> string"

definition mapping_key_of :: "category_mapping_snapshot \<Rightarrow> mapping_key" where
  "mapping_key_of m = (cm_input_kind m, cm_rule_or_topic_key m, cm_version m, cm_normalized_value m)"

text \<open>\<open>max(xs, key=key, default=None)\<close> returns the first of the maximal elements.\<close>

fun max_by :: "('a \<Rightarrow> 'k :: linorder) \<Rightarrow> 'a list \<Rightarrow> 'a option" where
  "max_by key [] = None"
| "max_by key (x # xs) = Some (foldl (\<lambda>m y. if key m < key y then y else m) x xs)"

lemma max_by_Some: "max_by key xs = Some m \<Longrightarrow> m \<in> set xs \<and> (\<forall>x \<in> set xs. key x \<le> key m)"
proof (cases xs)
  case (Cons y ys)
  have "foldl (\<lambda>m y. if key m < key y then y else m) a zs \<in> set (a # zs)
      \<and> (\<forall>x \<in> set (a # zs). key x \<le> key (foldl (\<lambda>m y. if key m < key y then y else m) a zs))" for a zs
  proof (induction zs arbitrary: a)
    case (Cons z zs)
    from Cons [of "if key a < key z then z else a"] show ?case by (auto split: if_splits)
  qed simp
  then show "max_by key xs = Some m \<Longrightarrow> ?thesis" using Cons by auto
qed simp

lemma max_by_None: "max_by key xs = None \<longleftrightarrow> xs = []"
  by (cases xs) simp_all

end
