(* ===== verification/Decimal_Ratio.thy ===== *)
theory Decimal_Ratio
  imports Complex_Main Digest
begin

text \<open>
  \<open>ratio_decimal\<close> of \<open>reporting/coverage.py\<close>: the exact decimal text of a ratio of two counts, computed with
  Python's \<open>decimal\<close> module at a precision of 28 significant digits and printed with format \<open>f\<close>.

  The part of the module that the function uses is modelled on coefficient and exponent: the division of
  two integers (quotient digits with a sticky last digit, reduction of an exact quotient towards exponent
  0), the rounding of the default context (half to even), and the format. The main result: the text
  denotes the ratio within half a unit of the 28th significant digit, and it is canonical.
\<close>

section \<open>Division\<close>

definition PRECISION :: nat where "PRECISION = 28"

definition digit_count :: "nat \<Rightarrow> nat" where "digit_count n = length (show_nat n)"

definition round_half_even :: "nat \<Rightarrow> nat \<Rightarrow> nat" where
  "round_half_even k c =
     (let q = c div 10 ^ k; r = c mod 10 ^ k
      in if 10 ^ k < 2 * r \<or> (2 * r = 10 ^ k \<and> odd q) then q + 1 else q)"

definition fix_context :: "nat \<times> int \<Rightarrow> nat \<times> int" where
  "fix_context ce =
     (case ce of (c, e) \<Rightarrow>
        if digit_count c \<le> PRECISION then (c, e)
        else let k = digit_count c - PRECISION; q = round_half_even k c
             in if q = 10 ^ PRECISION then (10 ^ (PRECISION - 1), e + int k + 1) else (q, e + int k))"

fun reduce_exponent :: "nat \<Rightarrow> nat \<Rightarrow> nat \<times> nat" where
  "reduce_exponent c 0 = (c, 0)"
| "reduce_exponent c (Suc k) = (if c mod 10 = 0 then reduce_exponent (c div 10) k else (c, Suc k))"

definition sticky :: "nat \<Rightarrow> nat" where "sticky c = (if c mod 5 = 0 then c + 1 else c)"

definition decimal_quotient :: "nat \<Rightarrow> nat \<Rightarrow> nat \<times> int" where
  "decimal_quotient n d =
     (if n = 0 then (0, 0)
      else let shift = int (digit_count d) - int (digit_count n) + int PRECISION + 1;
               num = n * 10 ^ nat shift; den = d * 10 ^ nat (- shift);
               c = num div den
           in fix_context
             (if num mod den \<noteq> 0 then (sticky c, - shift)
              else case reduce_exponent c (nat shift) of (c', k) \<Rightarrow> (c', if 0 \<le> shift then - int k else - shift)))"

section \<open>Printing\<close>

definition format_fixed :: "bool \<Rightarrow> nat \<times> int \<Rightarrow> string" where
  "format_fixed negative ce =
     (case ce of (c, e) \<Rightarrow>
        let ds = show_nat c; dot = int (length ds) + e;
            int_part = (if dot \<le> 0 then ''0'' else if int (length ds) < dot then ds @ replicate (nat e) CHR ''0''
                        else take (nat dot) ds);
            frac_part = (if dot \<le> 0 then replicate (nat (- dot)) CHR ''0'' @ ds else drop (nat dot) ds)
        in (if negative then ''-'' else '''') @ int_part @ (if frac_part = [] then [] else CHR ''.'' # frac_part))"

definition rstrip :: "char \<Rightarrow> string \<Rightarrow> string" where
  "rstrip c s = rev (dropWhile (\<lambda>x. x = c) (rev s))"

definition strip_zeros :: "string \<Rightarrow> string" where
  "strip_zeros text =
     (let text' = (if CHR ''.'' \<in> set text then rstrip (CHR ''.'') (rstrip (CHR ''0'') text) else text)
      in if text' = ''-0'' \<or> text' = [] then ''0'' else text')"

definition ratio_decimal :: "int \<Rightarrow> int \<Rightarrow> string option" where
  "ratio_decimal numerator denominator =
     (if denominator = 0 then None
      else Some (strip_zeros (format_fixed ((numerator < 0) \<noteq> (denominator < 0))
                   (decimal_quotient (nat \<bar>numerator\<bar>) (nat \<bar>denominator\<bar>)))))"

section \<open>Decimal digits\<close>

definition digits_value :: "string \<Rightarrow> nat" where
  "digits_value s = foldl (\<lambda>a c. 10 * a + (of_char c - 48)) 0 s"

definition all_digits :: "string \<Rightarrow> bool" where
  "all_digits s \<longleftrightarrow> list_all (\<lambda>c. 48 \<le> (of_char c :: nat) \<and> (of_char c :: nat) \<le> 57) s"

lemma hex_digit_decimal: "\<forall>n \<in> set [0..<10]. (of_char (hex_digit n) :: nat) = 48 + n"
  by (simp add: upt_conv_Cons hex_digit_def hex_chars_def)

lemma of_char_hex_digit: "n < 10 \<Longrightarrow> of_char (hex_digit n) = 48 + n"
  using hex_digit_decimal by simp

lemma digits_value_snoc [simp]: "digits_value (s @ [c]) = 10 * digits_value s + (of_char c - 48)"
  by (simp add: digits_value_def)

lemma digits_value_Nil [simp]: "digits_value [] = 0"
  by (simp add: digits_value_def)

lemma all_digits_simps [simp]:
  "all_digits []" "all_digits (s @ t) \<longleftrightarrow> all_digits s \<and> all_digits t"
  "all_digits (c # s) \<longleftrightarrow> 48 \<le> (of_char c :: nat) \<and> (of_char c :: nat) \<le> 57 \<and> all_digits s"
  by (simp_all add: all_digits_def)

lemma all_digits_replicate [simp]: "all_digits (replicate n CHR ''0'')"
  by (simp add: all_digits_def list_all_iff)

lemma digits_value_append: "digits_value (s @ t) = digits_value s * 10 ^ length t + digits_value t"
proof (induction t rule: rev_induct)
  case (snoc c t)
  have "digits_value (s @ t @ [c]) = digits_value ((s @ t) @ [c])" by simp
  also have "\<dots> = 10 * digits_value (s @ t) + (of_char c - 48)" by (rule digits_value_snoc)
  finally show ?case using snoc by (simp add: algebra_simps)
qed simp

lemma digits_value_zeros [simp]: "digits_value (replicate n CHR ''0'') = 0"
  by (induction n) (simp_all add: digits_value_def)

lemma show_nat_digits: "digits_value (show_nat n) = n \<and> all_digits (show_nat n) \<and> show_nat n \<noteq> []"
proof (induction n rule: show_nat.induct)
  case (1 n)
  show ?case
  proof (cases "n < 10")
    case True
    then show ?thesis using digits_value_snoc [of "[]"] by (simp add: show_nat.simps [of n] of_char_hex_digit)
  next
    case False
    with 1 show ?thesis by (simp add: show_nat.simps [of n] of_char_hex_digit)
  qed
qed

lemmas digits_value_show_nat [simp] = show_nat_digits [THEN conjunct1]
lemmas all_digits_show_nat [simp] = show_nat_digits [THEN conjunct2, THEN conjunct1]
lemmas show_nat_Nil [simp] = show_nat_digits [THEN conjunct2, THEN conjunct2]

lemma digit_count_bounds: "0 < n \<Longrightarrow> 10 ^ (digit_count n - 1) \<le> n \<and> n < 10 ^ digit_count n \<and> 1 \<le> digit_count n"
proof (induction n rule: show_nat.induct)
  case (1 n)
  show ?case
  proof (cases "n < 10")
    case True
    with 1 show ?thesis by (simp add: digit_count_def show_nat.simps [of n])
  next
    case False
    define m where "m = n div 10"
    define k where "k = digit_count m"
    have "0 < m" using False by (simp add: m_def)
    with "1.IH" [OF False] have IH: "10 ^ (k - 1) \<le> m" "m < 10 ^ k" "1 \<le> k" by (simp_all add: m_def k_def)
    have k: "digit_count n = Suc k" using False by (simp add: digit_count_def k_def m_def show_nat.simps [of n])
    from IH(3) obtain j where j: "k = Suc j" by (cases k) auto
    have n: "n = 10 * m + n mod 10" "n mod 10 < 10" by (simp_all add: m_def)
    have "10 ^ k \<le> 10 * m" using IH(1) j by simp
    moreover have "10 * m + 10 \<le> 10 ^ Suc k" using IH(2) by simp
    ultimately have "10 ^ k \<le> n" "n < 10 ^ Suc k" using n by linarith+
    then show ?thesis using k by simp
  qed
qed

lemma digit_count_gt: "10 ^ k \<le> n \<Longrightarrow> k < digit_count n"
proof (rule ccontr)
  assume a: "10 ^ k \<le> n" and b: "\<not> k < digit_count n"
  then have "0 < n" by (metis gr0I not_numeral_le_zero power_eq_0_iff le_zero_eq zero_neq_numeral)
  then have "n < 10 ^ digit_count n" by (simp add: digit_count_bounds)
  also have "\<dots> \<le> 10 ^ k" using b by (simp add: power_increasing)
  finally show False using a by simp
qed

section \<open>The rounding error\<close>

text \<open>\<open>c\<close> is a number, or its integer part with a last digit that says that something follows.\<close>

definition sticky_of :: "nat \<Rightarrow> rat \<Rightarrow> bool" where
  "sticky_of c x \<longleftrightarrow> x = of_nat c \<or> (c mod 5 \<noteq> 0 \<and> of_nat c - 1 < x \<and> x < of_nat c + 1)"

lemma round_half_even_error:
  assumes k: "1 \<le> k" and x: "sticky_of c x"
  shows "2 * \<bar>of_nat (round_half_even k c) * 10 ^ k - x\<bar> \<le> 10 ^ k \<and> of_nat (c div 10 ^ k) * 10 ^ k \<le> x"
proof -
  define q r where "q = c div 10 ^ k" and "r = c mod 10 ^ k"
  obtain j where j: "k = Suc j" using k by (cases k) auto
  define H :: nat where "H = 5 * 10 ^ j"
  have K: "(10 :: nat) ^ k = 2 * H" by (simp add: H_def j)
  have c: "c = q * (2 * H) + r" unfolding q_def r_def K [symmetric] by (rule div_mult_mod_eq [symmetric])
  have rK: "r < 2 * H" unfolding r_def K [symmetric] by simp
  have up: "round_half_even k c = (if H < r \<or> (r = H \<and> odd q) then q + 1 else q)"
    by (simp add: round_half_even_def Let_def q_def r_def K)
  have K': "(10 :: rat) ^ k = 2 * of_nat H" by (metis K of_nat_mult of_nat_numeral of_nat_power)
  have c': "(of_nat c :: rat) = of_nat q * (2 * of_nat H) + of_nat r" using c by simp
  have bounds: "0 \<le> x - of_nat q * (2 * of_nat H)
      \<and> (r \<le> H \<longrightarrow> x - of_nat q * (2 * of_nat H) \<le> of_nat H)
      \<and> (H \<le> r \<longrightarrow> of_nat H \<le> x - of_nat q * (2 * of_nat H) \<and> x - of_nat q * (2 * of_nat H) \<le> 2 * of_nat H)"
  proof (cases "x = of_nat c")
    case True
    have "(of_nat r :: rat) \<le> 2 * of_nat H" using rK by (metis less_imp_le of_nat_le_iff of_nat_mult of_nat_numeral)
    then show ?thesis using True c' by simp
  next
    case False
    with x have m: "c mod 5 \<noteq> 0" and b: "of_nat c - 1 < x" "x < of_nat c + 1" by (auto simp: sticky_of_def)
    have "5 dvd H" by (simp add: H_def)
    then have "5 dvd q * (2 * H)" by simp
    with m have "\<not> 5 dvd r" unfolding c mod_eq_0_iff_dvd by (metis dvd_add)
    with \<open>5 dvd H\<close> have nz: "r \<noteq> 0" "r \<noteq> H" using dvd_0_right [of 5] by metis+
    have "1 \<le> (of_nat r :: rat)" using nz(1) by (simp add: Suc_leI)
    moreover have "of_nat r + 1 \<le> (of_nat H :: rat)" if "r \<le> H"
      using that nz(2) by (metis le_neq_implies_less Suc_leI of_nat_Suc of_nat_le_iff add.commute)
    moreover have "of_nat H + 1 \<le> (of_nat r :: rat)" if "H \<le> r"
      using that nz(2) by (metis le_neq_implies_less Suc_leI of_nat_Suc of_nat_le_iff add.commute)
    moreover have "of_nat r + 1 \<le> (2 * of_nat H :: rat)"
      using rK by (metis Suc_leI of_nat_Suc of_nat_le_iff add.commute of_nat_mult of_nat_numeral)
    ultimately show ?thesis using b c' by auto
  qed
  have "2 * \<bar>of_nat (round_half_even k c) * (2 * of_nat H) - x\<bar> \<le> 2 * of_nat H"
  proof (cases "H < r \<or> (r = H \<and> odd q)")
    case True
    then have "H \<le> r" by auto
    have "round_half_even k c = q + 1" using True by (simp add: up)
    then show ?thesis using bounds \<open>H \<le> r\<close> by (simp add: algebra_simps)
  next
    case False
    then have "r \<le> H" by auto
    then have "round_half_even k c = q" using False by (simp add: up)
    then show ?thesis using bounds \<open>r \<le> H\<close> by (simp add: algebra_simps)
  qed
  then show ?thesis using bounds K' by (simp add: q_def)
qed

lemma sticky_of_floor:
  assumes "of_nat c < x" and "x < of_nat c + 1"
  shows "sticky_of (sticky c) x"
proof -
  have "(c + 1) mod 5 \<noteq> 0" if "c mod 5 = 0" using that by presburger
  then show ?thesis using assms by (auto simp: sticky_of_def sticky_def)
qed

definition pow10 :: "int \<Rightarrow> rat" where
  "pow10 e = (if 0 \<le> e then 10 ^ nat e else 1 / 10 ^ nat (- e))"

lemma pow10_pos [simp]: "0 < pow10 e"
  by (simp add: pow10_def)

lemma abs_pow10 [simp]: "\<bar>pow10 e\<bar> = pow10 e"
  by (simp add: less_imp_le)

lemma pow10_add_nat: "pow10 (e + int k) = pow10 e * 10 ^ k"
proof (induction k)
  case (Suc k)
  have "pow10 (i + 1) = pow10 i * 10" for i
  proof (cases "0 \<le> i")
    case True
    then show ?thesis by (simp add: pow10_def nat_add_distrib)
  next
    case False
    then have "nat (- i) = Suc (nat (- (i + 1)))" by simp
    with False show ?thesis by (auto simp: pow10_def)
  qed
  from this [of "e + int k"] Suc show ?case by (simp add: ac_simps)
qed simp

definition decimal_value :: "nat \<times> int \<Rightarrow> rat" where
  "decimal_value ce = of_nat (fst ce) * pow10 (snd ce)"

lemma fix_context_error:
  assumes "0 < c" and x: "sticky_of c x" "x = of_nat c \<or> PRECISION < digit_count c"
  shows "2 * \<bar>decimal_value (fix_context (c, e)) - x * pow10 e\<bar> * 10 ^ 27 \<le> x * pow10 e"
proof (cases "digit_count c \<le> PRECISION")
  case True
  then show ?thesis using x(2) by (simp add: fix_context_def decimal_value_def less_imp_le)
next
  case False
  define k where "k = digit_count c - PRECISION"
  define q where "q = round_half_even k c"
  have k: "1 \<le> k" "digit_count c - 1 = 27 + k" using False by (simp_all add: k_def PRECISION_def)
  have "decimal_value (fix_context (c, e)) = of_nat q * pow10 (e + int k)"
  proof (cases "q = 10 ^ PRECISION")
    case True
    then have "decimal_value (fix_context (c, e)) = 10 ^ 27 * pow10 (e + int k + int 1)"
      using False by (simp add: fix_context_def decimal_value_def Let_def flip: k_def q_def) (simp add: PRECISION_def)
    also have "\<dots> = 10 ^ 28 * pow10 (e + int k)" by (simp only: pow10_add_nat) simp
    finally show ?thesis using True by (simp add: PRECISION_def)
  next
    case neq: False
    then show ?thesis
      using False by (simp add: fix_context_def decimal_value_def Let_def flip: k_def q_def)
  qed
  then have v: "decimal_value (fix_context (c, e)) = of_nat q * 10 ^ k * pow10 e" by (simp add: pow10_add_nat)
  have err: "2 * \<bar>of_nat q * 10 ^ k - x\<bar> \<le> 10 ^ k" "of_nat (c div 10 ^ k) * 10 ^ k \<le> x"
    using round_half_even_error [OF k(1) x(1)] by (simp_all add: q_def)
  have "10 ^ (27 + k) \<le> c" using digit_count_bounds [OF \<open>0 < c\<close>] k(2) by simp
  then have "10 ^ 27 * 10 ^ k div 10 ^ k \<le> c div 10 ^ k" by (intro div_le_mono) (simp add: power_add)
  then have "10 ^ 27 \<le> c div 10 ^ k" by (simp del: power_numeral)
  then have "(10 ^ 27 :: rat) \<le> of_nat (c div 10 ^ k)" by (metis of_nat_le_iff of_nat_numeral of_nat_power)
  then have "(10 ^ 27 :: rat) * 10 ^ k \<le> of_nat (c div 10 ^ k) * 10 ^ k" by (rule mult_right_mono) simp
  with err(2) have big: "(10 ^ 27 :: rat) * 10 ^ k \<le> x" by linarith
  have "2 * \<bar>of_nat q * 10 ^ k - x\<bar> * 10 ^ 27 \<le> 10 ^ k * 10 ^ 27" by (rule mult_right_mono [OF err(1)]) simp
  then have "2 * \<bar>of_nat q * 10 ^ k - x\<bar> * 10 ^ 27 \<le> x" using big by (simp only: mult.commute [of "10 ^ 27"])
  then have "2 * \<bar>of_nat q * 10 ^ k - x\<bar> * 10 ^ 27 * pow10 e \<le> x * pow10 e"
    by (rule mult_right_mono) (simp add: less_imp_le)
  moreover have "\<bar>of_nat q * 10 ^ k * pow10 e - x * pow10 e\<bar> = \<bar>of_nat q * 10 ^ k - x\<bar> * pow10 e"
    by (simp add: abs_mult flip: left_diff_distrib)
  ultimately show ?thesis unfolding v by (simp only: ac_simps)
qed

lemma reduce_exponent_value:
  "reduce_exponent c k = (c', j) \<Longrightarrow> 0 < c \<Longrightarrow>
     0 < c' \<and> of_nat c' * pow10 (- int j) = of_nat c * pow10 (- int k)"
proof (induction c k rule: reduce_exponent.induct)
  case (2 c k)
  show ?case
  proof (cases "c mod 10 = 0")
    case True
    then have c: "c = 10 * (c div 10)" by presburger
    with 2(3) have pos: "0 < c div 10" by auto
    have "pow10 (- int k) = pow10 (- int (Suc k) + int 1)" by simp
    also have "\<dots> = pow10 (- int (Suc k)) * 10 ^ 1" by (rule pow10_add_nat)
    finally have p: "pow10 (- int k) = pow10 (- int (Suc k)) * 10" by simp
    have "of_nat c = (10 :: rat) * of_nat (c div 10)" by (subst c) simp
    with 2(1) [OF True _ pos] 2(2) True p show ?thesis by simp
  next
    case False
    then show ?thesis using 2(2,3) by auto
  qed
qed simp

lemma decimal_quotient_error:
  assumes "0 < d"
  shows "2 * \<bar>decimal_value (decimal_quotient n d) - of_nat n / of_nat d\<bar> * 10 ^ 27 \<le> of_nat n / of_nat d"
proof (cases "n = 0")
  case True
  then show ?thesis by (simp add: decimal_quotient_def decimal_value_def)
next
  case False
  define shift where "shift = int (digit_count d) - int (digit_count n) + int PRECISION + 1"
  define num den where "num = n * 10 ^ nat shift" and "den = d * 10 ^ nat (- shift)"
  define c where "c = num div den"
  define x :: rat where "x = of_nat num / of_nat den"
  have den: "0 < den" using assms by (simp add: den_def)
  have scaled: "x * pow10 (- shift) = of_nat n / of_nat d"
    by (cases "0 \<le> shift") (auto simp: x_def num_def den_def pow10_def)
  have n: "10 ^ (digit_count n - 1) \<le> n" "1 \<le> digit_count n" using digit_count_bounds [of n] False by simp_all
  have d: "d < 10 ^ digit_count d" using digit_count_bounds [OF assms] by simp
  have "nat shift + (digit_count n - 1) = digit_count d + nat (- shift) + 28"
    using n(2) by (simp add: shift_def PRECISION_def)
  then have e: "(10 :: nat) ^ nat shift * 10 ^ (digit_count n - 1) = 10 ^ digit_count d * 10 ^ nat (- shift) * 10 ^ 28"
    by (simp only: flip: power_add)
  have "10 ^ 28 * den \<le> 10 ^ 28 * (10 ^ digit_count d * 10 ^ nat (- shift))"
    unfolding den_def using d by (intro mult_le_mono) simp_all
  also have "\<dots> = 10 ^ nat shift * 10 ^ (digit_count n - 1)" using e by (simp only: ac_simps)
  also have "\<dots> \<le> num" unfolding num_def using n(1) by (simp add: mult.commute)
  finally have "10 ^ 28 \<le> c" unfolding c_def using den by (simp add: less_eq_div_iff_mult_less_eq)
  then have big: "28 < digit_count c" by (rule digit_count_gt)
  have "0 < c" using \<open>10 ^ 28 \<le> c\<close> by simp
  have num: "num = c * den + num mod den" unfolding c_def by (rule div_mult_mod_eq [symmetric])
  have x: "x = of_nat c + of_nat (num mod den) / of_nat den"
    unfolding x_def using den by (subst num) (simp add: add_divide_distrib)
  show ?thesis
  proof (cases "num mod den = 0")
    case exact: True
    obtain c' j where r: "reduce_exponent c (nat shift) = (c', j)" by fastforce
    note rv = reduce_exponent_value [OF r \<open>0 < c\<close>]
    define e where "e = (if 0 \<le> shift then - int j else - shift)"
    have q: "decimal_quotient n d = fix_context (c', e)"
      using False exact r by (simp add: decimal_quotient_def Let_def e_def flip: shift_def num_def den_def c_def)
    have "of_nat c' * pow10 e = x * pow10 (- shift)"
    proof (cases "0 \<le> shift")
      case True
      then show ?thesis using rv x exact by (simp add: e_def)
    next
      case neg: False
      then have "c' = c" using r by simp
      then show ?thesis using x exact neg by (simp add: e_def)
    qed
    moreover have "sticky_of c' (of_nat c')" by (simp add: sticky_of_def)
    ultimately show ?thesis using fix_context_error [of c' "of_nat c'" e] rv by (simp add: q scaled)
  next
    case inexact: False
    have "0 < (of_nat (num mod den) :: rat) / of_nat den" "(of_nat (num mod den) :: rat) / of_nat den < 1"
      using inexact den by simp_all
    then have st: "sticky_of (sticky c) x" using x by (intro sticky_of_floor) simp_all
    have "10 ^ 28 \<le> sticky c" using \<open>10 ^ 28 \<le> c\<close> by (simp add: sticky_def)
    then have "PRECISION < digit_count (sticky c)" using digit_count_gt [of 28] by (simp add: PRECISION_def)
    moreover have "0 < sticky c" using \<open>0 < c\<close> by (simp add: sticky_def)
    moreover have "decimal_quotient n d = fix_context (sticky c, - shift)"
      using False inexact by (simp add: decimal_quotient_def Let_def flip: shift_def num_def den_def c_def)
    ultimately show ?thesis using fix_context_error [of "sticky c" x "- shift"] st by (simp add: scaled)
  qed
qed

section \<open>The printed text\<close>

text \<open>The number that a text with an optional sign and fraction denotes.\<close>

definition unsigned_value :: "string \<Rightarrow> rat" where
  "unsigned_value s =
     (let i = takeWhile (\<lambda>c. c \<noteq> CHR ''.'') s; f = drop (length i + 1) s
      in of_nat (digits_value (i @ f)) / 10 ^ length f)"

definition text_value :: "string \<Rightarrow> rat" where
  "text_value s = (if take 1 s = ''-'' then - unsigned_value (drop 1 s) else unsigned_value s)"

definition fixed_text :: "bool \<Rightarrow> string \<Rightarrow> string \<Rightarrow> string" where
  "fixed_text negative i f = (if negative then ''-'' else []) @ i @ (if f = [] then [] else CHR ''.'' # f)"

text \<open>Digits without an exponent, at least one before the point, and no trailing zero after it.\<close>

definition plain_decimal :: "string \<Rightarrow> bool" where
  "plain_decimal t \<longleftrightarrow> (\<exists>negative i f. t = fixed_text negative i f \<and> all_digits i \<and> i \<noteq> [] \<and> all_digits f
     \<and> (f \<noteq> [] \<longrightarrow> last f \<noteq> CHR ''0'') \<and> t \<noteq> ''-0'')"

lemma all_digits_no_dot: "all_digits s \<Longrightarrow> c \<in> set s \<Longrightarrow> c \<noteq> CHR ''.'' \<and> c \<noteq> CHR ''-''"
  by (auto simp: all_digits_def list_all_iff)

lemma takeWhile_digits: "all_digits i \<Longrightarrow> takeWhile (\<lambda>c. c \<noteq> CHR ''.'') (i @ CHR ''.'' # f) = i"
  "all_digits i \<Longrightarrow> takeWhile (\<lambda>c. c \<noteq> CHR ''.'') i = i"
  using all_digits_no_dot by (auto simp: takeWhile_eq_all_conv takeWhile_append2)

lemma unsigned_value_parts:
  "all_digits i \<Longrightarrow> unsigned_value (i @ (if f = [] then [] else CHR ''.'' # f))
     = of_nat (digits_value (i @ f)) / 10 ^ length f"
  by (auto simp: unsigned_value_def Let_def takeWhile_digits)

lemma text_value_fixed:
  assumes "all_digits i" and "i \<noteq> []"
  shows "text_value (fixed_text negative i f)
    = (if negative then -1 else 1) * (of_nat (digits_value (i @ f)) / 10 ^ length f)"
proof -
  obtain c cs where i: "i = c # cs" using assms(2) by (cases i) auto
  then have "c \<noteq> CHR ''-''" using all_digits_no_dot [OF assms(1)] by auto
  then show ?thesis
    using unsigned_value_parts [OF assms(1), of f] by (simp add: text_value_def fixed_text_def i)
qed

lemma rstrip_append: "c \<noteq> x \<Longrightarrow> rstrip c (s @ x # t) = s @ x # rstrip c t"
  by (simp add: rstrip_def dropWhile_append3)

lemma rstrip_last: "s \<noteq> [] \<Longrightarrow> last s \<noteq> c \<Longrightarrow> rstrip c s = s"
  by (cases s rule: rev_cases) (simp_all add: rstrip_def)

lemma rstrip_zeros: "\<exists>k. s = rstrip c s @ replicate k c"
proof (induction s rule: rev_induct)
  case (snoc x s)
  then obtain k where k: "s = rstrip c s @ replicate k c" by auto
  show ?case
  proof (cases "x = c")
    case True
    then have "rstrip c (s @ [x]) = rstrip c s" by (simp add: rstrip_def)
    moreover have "s @ [x] = rstrip c s @ replicate (Suc k) c"
      by (subst k) (simp add: True replicate_append_same)
    ultimately show ?thesis by metis
  next
    case False
    then have "s @ [x] = rstrip c (s @ [x]) @ replicate 0 c" by (simp add: rstrip_def)
    then show ?thesis by blast
  qed
qed (simp add: rstrip_def)

lemma rstrip_not_last: "rstrip c s \<noteq> [] \<Longrightarrow> last (rstrip c s) \<noteq> c"
  using hd_dropWhile [of "\<lambda>x. x = c" "rev s"] by (simp add: rstrip_def last_rev)

lemma strip_fixed_text:
  assumes "all_digits i" and "i \<noteq> []" and "all_digits f" and "f \<noteq> []"
  shows "rstrip (CHR ''.'') (rstrip (CHR ''0'') (fixed_text negative i f))
    = fixed_text negative i (rstrip (CHR ''0'') f)"
proof -
  let ?sign = "if negative then ''-'' else []"
  let ?f = "rstrip (CHR ''0'') f"
  have "rstrip (CHR ''0'') (fixed_text negative i f) = (?sign @ i) @ CHR ''.'' # ?f"
    using rstrip_append [of "CHR ''0''" "CHR ''.''" "?sign @ i" f] assms(4) by (simp add: fixed_text_def)
  moreover have "rstrip (CHR ''.'') ((?sign @ i) @ CHR ''.'' # ?f) = fixed_text negative i ?f"
  proof (cases "?f = []")
    case True
    have "rstrip (CHR ''.'') ((?sign @ i) @ [CHR ''.'']) = rstrip (CHR ''.'') (?sign @ i)" by (simp add: rstrip_def)
    also have "\<dots> = ?sign @ i"
      using all_digits_no_dot [OF assms(1), of "last i"] assms(2) by (intro rstrip_last) auto
    finally show ?thesis by (simp only: True fixed_text_def) simp
  next
    case False
    obtain k where "f = ?f @ replicate k (CHR ''0'')" using rstrip_zeros by blast
    then have "all_digits ?f" using assms(3) by (metis all_digits_simps(2))
    then have "last ?f \<noteq> CHR ''.''" using all_digits_no_dot False last_in_set by blast
    then have "rstrip (CHR ''.'') ((?sign @ i) @ CHR ''.'' # ?f) = (?sign @ i) @ CHR ''.'' # ?f"
      using False by (intro rstrip_last) simp_all
    then show ?thesis using False by (simp add: fixed_text_def)
  qed
  ultimately show ?thesis by simp
qed

lemma format_fixed_parts:
  obtains i f where "format_fixed negative (c, e) = fixed_text negative i f" "all_digits i" "i \<noteq> []" "all_digits f"
    "of_nat (digits_value (i @ f)) / 10 ^ length f = decimal_value (c, e)"
proof -
  define ds dot where "ds = show_nat c" and "dot = int (length ds) + e"
  have all: "all_digits (take n ds)" "all_digits (drop n ds)" "all_digits ds" "ds \<noteq> []" for n
    by (simp_all add: ds_def flip: all_digits_simps(2))
       (metis all_digits_show_nat all_digits_simps(2) append_take_drop_id)+
  consider (small) "dot \<le> 0" | (large) "int (length ds) < dot" | (mid) "0 < dot" "dot \<le> int (length ds)" by linarith
  then show ?thesis
  proof cases
    case small
    let ?f = "replicate (nat (- dot)) CHR ''0'' @ ds"
    have "format_fixed negative (c, e) = fixed_text negative ''0'' ?f"
      using small by (simp add: format_fixed_def fixed_text_def Let_def flip: ds_def dot_def)
    moreover have "digits_value (''0'' @ ?f) = c" using all(4)
      using digits_value_snoc [of "[]" "CHR ''0''"] by (simp only: digits_value_append) (simp add: ds_def)
    moreover have "length ?f = nat (- e)" "e \<le> 0" using small all(4) by (auto simp: dot_def)
    ultimately show ?thesis using all that [of "''0''" ?f] by (simp add: decimal_value_def pow10_def)
  next
    case large
    let ?i = "ds @ replicate (nat e) CHR ''0''"
    have "0 < dot" "nat dot \<ge> length ds" "0 < e" using large by (simp_all add: dot_def)
    then have "format_fixed negative (c, e) = fixed_text negative ?i []"
      using large by (simp add: format_fixed_def fixed_text_def Let_def flip: ds_def dot_def)
    then show ?thesis using all that [of ?i "[]"] \<open>0 < e\<close>
      by (simp add: decimal_value_def pow10_def digits_value_append) (simp add: ds_def)
  next
    case mid
    let ?i = "take (nat dot) ds" and ?f = "drop (nat dot) ds"
    have "format_fixed negative (c, e) = fixed_text negative ?i ?f"
      using mid by (simp add: format_fixed_def fixed_text_def Let_def flip: ds_def dot_def)
    moreover have "?i @ ?f = ds" by simp
    moreover have "length ?f = nat (- e)" "e \<le> 0" using mid by (auto simp: dot_def)
    moreover have "?i \<noteq> []" using mid all(4) by simp
    ultimately show ?thesis using all that [of ?i ?f] by (simp add: decimal_value_def pow10_def) (simp add: ds_def)
  qed
qed

lemma rstrip_value:
  "of_nat (digits_value (i @ rstrip CHR ''0'' f)) / 10 ^ length (rstrip CHR ''0'' f)
     = (of_nat (digits_value (i @ f)) / 10 ^ length f :: rat)"
proof -
  obtain k where k: "f = rstrip CHR ''0'' f @ replicate k CHR ''0''" using rstrip_zeros by blast
  have "digits_value (i @ f) = digits_value ((i @ rstrip CHR ''0'' f) @ replicate k CHR ''0'')"
    by (subst k) simp
  also have "\<dots> = digits_value (i @ rstrip CHR ''0'' f) * 10 ^ k" by (simp only: digits_value_append [of "i @ _"]) simp
  finally have v: "digits_value (i @ f) = digits_value (i @ rstrip CHR ''0'' f) * 10 ^ k" .
  have "length f = length (rstrip CHR ''0'' f) + k" by (subst k) simp
  then show ?thesis unfolding v by (simp add: power_add)
qed

lemma rstrip_digits: "all_digits f \<Longrightarrow> all_digits (rstrip c f)"
  using rstrip_zeros [of f c] by (metis all_digits_simps(2))

text \<open>The canonical text of a formatted number and its value.\<close>

lemma strip_zeros_format:
  "plain_decimal (strip_zeros (format_fixed negative ce))
    \<and> text_value (strip_zeros (format_fixed negative ce)) = (if negative then -1 else 1) * decimal_value ce"
proof -
  define printed where "printed = format_fixed negative ce"
  define stripped where "stripped =
    (if CHR ''.'' \<in> set printed then rstrip (CHR ''.'') (rstrip (CHR ''0'') printed) else printed)"
  define result where "result = (if stripped = ''-0'' \<or> stripped = [] then ''0'' else stripped)"
  have res: "strip_zeros (format_fixed negative ce) = result"
    by (simp only: strip_zeros_def Let_def printed_def stripped_def result_def)
  obtain c e where ce: "ce = (c, e)" by fastforce
  obtain i f where p: "printed = fixed_text negative i f" "all_digits i" "i \<noteq> []" "all_digits f"
    and v: "of_nat (digits_value (i @ f)) / 10 ^ length f = decimal_value ce"
    using format_fixed_parts [of negative c e] printed_def ce by metis
  define g where "g = rstrip CHR ''0'' f"
  have "CHR ''.'' \<in> set printed \<longleftrightarrow> f \<noteq> []"
    using all_digits_no_dot [OF p(2)] by (auto simp: p(1) fixed_text_def)
  moreover have "f = [] \<Longrightarrow> g = []" by (simp add: g_def rstrip_def)
  ultimately have t: "stripped = fixed_text negative i g"
    using strip_fixed_text [OF p(2,3,4)] p(1) by (auto simp: g_def stripped_def)
  have g: "all_digits g" "g \<noteq> [] \<longrightarrow> last g \<noteq> CHR ''0''"
    using rstrip_digits [OF p(4)] rstrip_not_last by (auto simp: g_def)
  have val: "text_value stripped = (if negative then -1 else 1) * decimal_value ce"
    unfolding t text_value_fixed [OF p(2,3)] g_def rstrip_value v ..
  have "plain_decimal result \<and> text_value result = (if negative then -1 else 1) * decimal_value ce"
  proof (cases "stripped = ''-0''")
    case True
    have "text_value (fixed_text b ''0'' []) = 0" for b
      using digits_value_snoc [of "[]" "CHR ''0''"] by (simp add: text_value_fixed)
    from this [of True] this [of False] have "text_value ''-0'' = 0" "text_value ''0'' = 0"
      by (simp_all add: fixed_text_def)
    moreover have "plain_decimal ''0''" unfolding plain_decimal_def
      by (rule exI [of _ False], rule exI [of _ "''0''"], rule exI [of _ "[]"]) (simp add: fixed_text_def)
    ultimately show ?thesis using True val by (simp add: result_def)
  next
    case False
    have "stripped \<noteq> []" using p(3) by (simp add: t fixed_text_def)
    then have "result = stripped" using False result_def by simp
    moreover have "plain_decimal stripped" unfolding plain_decimal_def using False p(2,3) g t by blast
    ultimately show ?thesis using val by simp
  qed
  then show ?thesis by (simp only: res)
qed

text \<open>The decimal text of a ratio is absent exactly for a zero denominator. Otherwise it denotes the ratio
  up to half a unit of its 28th significant digit, for all integers, and it is in canonical form: plain
  digits without an exponent, no trailing zero after the point, and never a negative zero.\<close>

theorem ratio_decimal_accuracy:
  "case ratio_decimal n d of
     None \<Rightarrow> d = 0
   | Some t \<Rightarrow> d \<noteq> 0 \<and> plain_decimal t
       \<and> 2 * \<bar>text_value t - of_int n / of_int d\<bar> * 10 ^ 27 \<le> \<bar>of_int n / of_int d\<bar>"
proof (cases "d = 0")
  case False
  let ?negative = "(n < 0) \<noteq> (d < 0)" and ?q = "decimal_quotient (nat \<bar>n\<bar>) (nat \<bar>d\<bar>)"
  define t where "t = strip_zeros (format_fixed ?negative ?q)"
  have t: "ratio_decimal n d = Some t" using False by (simp add: ratio_decimal_def t_def)
  have canonical: "plain_decimal t" "text_value t = (if ?negative then -1 else 1) * decimal_value ?q"
    unfolding t_def by (rule strip_zeros_format [THEN conjunct1], rule strip_zeros_format [THEN conjunct2])
  have q: "(of_nat (nat \<bar>n\<bar>) / of_nat (nat \<bar>d\<bar>) :: rat) = \<bar>of_int n / of_int d\<bar>" by simp
  have sign: "(of_int n / of_int d :: rat) = (if ?negative then -1 else 1) * \<bar>of_int n / of_int d\<bar>"
    using False by (auto simp: abs_if divide_neg_neg divide_pos_neg divide_neg_pos field_simps)
  have "2 * \<bar>decimal_value ?q - \<bar>of_int n / of_int d\<bar>\<bar> * 10 ^ 27 \<le> \<bar>of_int n / of_int d :: rat\<bar>"
    using decimal_quotient_error [of "nat \<bar>d\<bar>" "nat \<bar>n\<bar>"] False unfolding q by simp
  moreover have "\<bar>text_value t - of_int n / of_int d\<bar> = \<bar>decimal_value ?q - \<bar>of_int n / of_int d\<bar>\<bar>"
    unfolding canonical(2) by (subst sign) auto
  ultimately show ?thesis using t canonical(1) False by simp
qed (simp add: ratio_decimal_def)

end
