(* ===== verification/Report_Coverage.thy ===== *)
theory Report_Coverage
  imports Report_Model Decimal_Ratio "HOL-Library.Product_Lexorder"
begin

text \<open>
  \<open>reporting/coverage.py\<close> and \<open>input_coverage.py\<close>, with the rows of \<open>sql_input_rows.py\<close> that they read:
  the collection status of a source on a report day, the retained coverage record with its validation,
  and its projection from durable run facts.

  The status is computed twice in the program: once from run facts when a manifest is assembled
  (\<open>derive_collection_status\<close>) and once from the retained counts whenever a coverage record is constructed or
  parsed (\<open>_allowed_statuses\<close>). The lemmas show that the two agree.
\<close>

section \<open>Coverage records\<close>

datatype collection_status =
    Coverage_COMPLETE | Coverage_PARTIAL | Coverage_MISSING | Coverage_SKIPPED_POLICY
  | Coverage_SKIPPED_QUOTA | Coverage_FAILED_RETRYABLE | Coverage_FAILED_TERMINAL | Coverage_UNAUTHORIZED

fun collection_status_value :: "collection_status \<Rightarrow> string" where
  "collection_status_value Coverage_COMPLETE = ''complete''"
| "collection_status_value Coverage_PARTIAL = ''partial''"
| "collection_status_value Coverage_MISSING = ''missing''"
| "collection_status_value Coverage_SKIPPED_POLICY = ''skipped_policy''"
| "collection_status_value Coverage_SKIPPED_QUOTA = ''skipped_quota''"
| "collection_status_value Coverage_FAILED_RETRYABLE = ''failed_retryable''"
| "collection_status_value Coverage_FAILED_TERMINAL = ''failed_terminal''"
| "collection_status_value Coverage_UNAUTHORIZED = ''unauthorized''"

record source_coverage_item =
  sco_role :: report_role
  sco_source_id :: uuid
  sco_country :: country
  sco_platform :: source_platform
  sco_community :: string
  sco_expected :: bool
  sco_enabled :: bool
  sco_collection_status :: collection_status
  sco_expected_run_count :: int
  sco_successful_run_count :: int
  sco_failed_run_count :: int
  sco_skipped_run_count :: int
  sco_candidate_count :: int
  sco_valid_analysis_count :: int
  sco_pending_count :: int
  sco_relevant_count :: int
  sco_cutoff_publication_sequence :: "int option"
  sco_cutoff_publication_manifest_id :: "uuid option"
  sco_cutoff_publication_manifest_hash :: "string option"
  sco_latest_successful_run_started_at :: "instant option"
  sco_latest_successful_run_finished_at :: "instant option"
  sco_latest_publication_committed_at :: "instant option"
  sco_latest_attempt_finished_at :: "instant option"
  sco_status_observed_at :: "instant option"
  sco_coverage_numerator :: int
  sco_coverage_denominator :: int
  sco_coverage_decimal :: "string option"

definition terminal_runs :: "source_coverage_item \<Rightarrow> int" where
  "terminal_runs c = sco_successful_run_count c + sco_failed_run_count c + sco_skipped_run_count c"

definition allowed_statuses :: "source_coverage_item \<Rightarrow> collection_status set" where
  "allowed_statuses c =
     (if sco_expected c \<and> \<not> sco_enabled c then {Coverage_UNAUTHORIZED}
      else if 0 < sco_expected_run_count c \<and> sco_successful_run_count c = sco_expected_run_count c
      then {Coverage_COMPLETE}
      else if terminal_runs c = 0 then {Coverage_MISSING}
      else if 0 < sco_successful_run_count c then {Coverage_PARTIAL}
      else if 0 < sco_failed_run_count c then {Coverage_FAILED_TERMINAL, Coverage_FAILED_RETRYABLE}
      else {Coverage_SKIPPED_POLICY, Coverage_SKIPPED_QUOTA, Coverage_PARTIAL})"

definition coverage_fields_ok :: "source_coverage_item \<Rightarrow> bool" where
  "coverage_fields_ok c \<longleftrightarrow>
     list_all safe_count [sco_expected_run_count c, sco_successful_run_count c, sco_failed_run_count c,
       sco_skipped_run_count c, sco_candidate_count c, sco_valid_analysis_count c, sco_pending_count c,
       sco_relevant_count c, sco_coverage_numerator c, sco_coverage_denominator c]
     \<and> opt_all safe_count (sco_cutoff_publication_sequence c)
     \<and> opt_all sha_pattern (sco_cutoff_publication_manifest_hash c)"

definition validate_counts :: "source_coverage_item \<Rightarrow> report_error + source_coverage_item" where
  "validate_counts c =
     (let counts_valid = (sco_valid_analysis_count c \<le> sco_candidate_count c
            \<and> sco_relevant_count c \<le> sco_valid_analysis_count c
            \<and> sco_pending_count c = sco_candidate_count c - sco_valid_analysis_count c
            \<and> sco_coverage_numerator c = sco_valid_analysis_count c
            \<and> sco_coverage_denominator c = sco_candidate_count c);
          expected_decimal = ratio_decimal (sco_coverage_numerator c) (sco_coverage_denominator c);
          cutoff_present = [sco_cutoff_publication_sequence c \<noteq> None,
            sco_cutoff_publication_manifest_id c \<noteq> None, sco_cutoff_publication_manifest_hash c \<noteq> None]
      in if \<not> coverage_fields_ok c then Inl (Validation_Error ''field'')
      else if \<not> counts_valid \<or> sco_coverage_decimal c \<noteq> expected_decimal
      then Inl (Validation_Error ''coverage_counts_mismatch'')
      else if list_ex id cutoff_present \<and> \<not> list_all id cutoff_present
      then Inl (Validation_Error ''coverage_cutoff_incomplete'')
      else if sco_expected_run_count c < terminal_runs c
      then Inl (Validation_Error ''coverage_run_count_exceeded'')
      else if sco_collection_status c \<notin> allowed_statuses c
      then Inl (Validation_Error ''coverage_run_status_mismatch'')
      else Inr c)"

section \<open>The status of a report day\<close>

record coverage_run_facts =
  crf_expected :: bool
  crf_authorization_required :: bool
  crf_authorization_active :: bool
  crf_expected_runs :: int
  crf_successful_runs :: int
  crf_skipped_policy_runs :: int
  crf_skipped_quota_runs :: int
  crf_failed_terminal_runs :: int
  crf_failed_retryable_or_abandoned_runs :: int

definition derive_collection_status :: "coverage_run_facts \<Rightarrow> collection_status" where
  "derive_collection_status f =
     (let terminal_count = crf_successful_runs f + crf_skipped_policy_runs f + crf_skipped_quota_runs f
            + crf_failed_terminal_runs f + crf_failed_retryable_or_abandoned_runs f;
          unauthorized = (crf_expected f \<and> crf_authorization_required f \<and> \<not> crf_authorization_active f);
          precedence =
            [(unauthorized, Coverage_UNAUTHORIZED),
             (0 < crf_expected_runs f \<and> crf_successful_runs f = crf_expected_runs f, Coverage_COMPLETE),
             (terminal_count = 0, Coverage_MISSING),
             (0 < crf_successful_runs f, Coverage_PARTIAL),
             (crf_skipped_policy_runs f = terminal_count, Coverage_SKIPPED_POLICY),
             (crf_skipped_quota_runs f = terminal_count, Coverage_SKIPPED_QUOTA),
             (0 < crf_failed_terminal_runs f, Coverage_FAILED_TERMINAL),
             (0 < crf_failed_retryable_or_abandoned_runs f, Coverage_FAILED_RETRYABLE)]
      in case List.find fst precedence of Some (_, status) \<Rightarrow> status | None \<Rightarrow> Coverage_PARTIAL)"

section \<open>Rows\<close>

record publication_fingerprint =
  pf_id :: uuid
  pf_run_id :: uuid
  pf_source_id :: uuid
  pf_terminal_page_commit_id :: uuid
  pf_sequence :: int
  pf_final_chain_hash :: string
  pf_post_set_hash :: string
  pf_distinct_post_version_count :: int
  pf_zero_post :: bool
  pf_committed_at :: instant

record publication_sql_row = publication_fingerprint +
  pub_due_slot_utc :: instant

definition fingerprint :: "publication_sql_row \<Rightarrow> publication_fingerprint" where
  "fingerprint p = publication_fingerprint.truncate p"

text \<open>The two library functions that a digest depends on: Unicode NFC and Pydantic's text of a timestamp.\<close>

record text_codec =
  tc_nfc :: "string \<Rightarrow> string"
  tc_iso :: "instant \<Rightarrow> string"

definition fingerprint_value :: "text_codec \<Rightarrow> publication_fingerprint \<Rightarrow> json" where
  "fingerprint_value codec f = JObj
     [(''id'', JStr (uuid_str (pf_id f))), (''run_id'', JStr (uuid_str (pf_run_id f))),
      (''source_id'', JStr (uuid_str (pf_source_id f))),
      (''terminal_page_commit_id'', JStr (uuid_str (pf_terminal_page_commit_id f))),
      (''sequence'', JInt (pf_sequence f)), (''final_chain_hash'', JStr (pf_final_chain_hash f)),
      (''post_set_hash'', JStr (pf_post_set_hash f)),
      (''distinct_post_version_count'', JInt (pf_distinct_post_version_count f)),
      (''zero_post'', JBool (pf_zero_post f)), (''committed_at'', JStr (tc_iso codec (pf_committed_at f)))]"

definition publication_hash :: "text_codec \<Rightarrow> publication_fingerprint \<Rightarrow> string" where
  "publication_hash codec f = canonical_sha256 (tc_nfc codec) (fingerprint_value codec f)"

record source_sql_row =
  ssr_source_id :: uuid
  ssr_country :: country
  ssr_platform :: source_platform
  ssr_community :: string
  ssr_external_key :: string
  ssr_source_enabled :: bool
  ssr_authorization_status :: "authorization_status option"
  ssr_authorization_effective_at :: "instant option"
  ssr_authorization_expires_at :: "instant option"
  ssr_authorization_revoked_at :: "instant option"

record run_sql_row =
  rsr_source_id :: uuid
  rsr_due_slot_utc :: instant
  rsr_status :: run_status
  rsr_attempt :: int
  rsr_started_at :: "instant option"
  rsr_finished_at :: "instant option"

record record_sql_row =
  rec_source_id :: uuid
  rec_country :: country
  rec_platform :: source_platform
  rec_community :: string
  rec_post_version_id :: uuid
  rec_post_content_hash :: string
  rec_published_at_utc :: instant
  rec_analysis_id :: "uuid option"
  rec_analysis_state :: "analysis_state option"
  rec_output_hash :: "string option"
  rec_prompt_version :: "string option"
  rec_model_version :: "string option"
  rec_schema_version :: "string option"
  rec_analyzed_at :: "instant option"
  rec_relevance :: "bool option"
  rec_sentiment :: "sentiment option"
  rec_topics :: "string list option"
  rec_queue_status :: "queue_status option"
  rec_engagement_observation_id :: "uuid option"
  rec_engagement_hash :: "string option"
  rec_engagement_observed_at :: "instant option"
  rec_comments_count :: "int option"
  rec_upvote_or_score :: "int option"
  rec_publication_id :: uuid
  rec_publication_run_id :: uuid
  rec_publication_terminal_page_commit_id :: uuid
  rec_publication_sequence :: int
  rec_publication_final_chain_hash :: string
  rec_publication_post_set_hash :: string
  rec_publication_distinct_post_version_count :: int
  rec_publication_zero_post :: bool
  rec_publication_committed_at :: instant

definition row_publication :: "record_sql_row \<Rightarrow> publication_fingerprint" where
  "row_publication r = \<lparr>pf_id = rec_publication_id r, pf_run_id = rec_publication_run_id r,
     pf_source_id = rec_source_id r, pf_terminal_page_commit_id = rec_publication_terminal_page_commit_id r,
     pf_sequence = rec_publication_sequence r, pf_final_chain_hash = rec_publication_final_chain_hash r,
     pf_post_set_hash = rec_publication_post_set_hash r,
     pf_distinct_post_version_count = rec_publication_distinct_post_version_count r,
     pf_zero_post = rec_publication_zero_post r, pf_committed_at = rec_publication_committed_at r\<rparr>"

record match_sql_row =
  mat_post_version_id :: uuid
  mat_match_id :: uuid
  mat_match_hash :: string
  mat_rule_set_version :: string
  mat_rule_set_hash :: string
  mat_normalized_phrase :: string
  mat_match_present :: bool
  mat_stored_category :: string
  mat_rule_category :: string

text \<open>A slot row carries only its due time.\<close>

record report_input_query_rows =
  riq_report_date_seoul :: seoul_date
  riq_observed_at :: instant
  riq_records :: "record_sql_row list"
  riq_matches :: "match_sql_row list"
  riq_sources :: "source_sql_row list"
  riq_slots :: "instant list"
  riq_runs :: "run_sql_row list"
  riq_publications :: "publication_sql_row list"

section \<open>Projection of run facts\<close>

record coverage_facts =
  cvf_window :: report_window
  cvf_source :: source_sql_row
  cvf_expected_runs :: int
  cvf_runs :: "run_sql_row list"
  cvf_records :: "report_record list"
  cvf_publications :: "publication_sql_row list"

definition authorization_active :: "source_sql_row \<Rightarrow> instant \<Rightarrow> bool" where
  "authorization_active s observed_at \<longleftrightarrow>
     ssr_source_enabled s \<and> ssr_authorization_status s = Some Authorization_APPROVED
     \<and> (case ssr_authorization_effective_at s of None \<Rightarrow> False | Some t \<Rightarrow> t \<le> observed_at)
     \<and> (case ssr_authorization_expires_at s of None \<Rightarrow> False | Some t \<Rightarrow> observed_at < t)
     \<and> ssr_authorization_revoked_at s = None"

definition run_facts :: "bool \<Rightarrow> bool \<Rightarrow> coverage_facts \<Rightarrow> coverage_run_facts" where
  "run_facts expected enabled facts =
     (let counts = (\<lambda>status. count_where (\<lambda>run. rsr_status run = status) (cvf_runs facts))
      in \<lparr>crf_expected = expected, crf_authorization_required = True, crf_authorization_active = enabled,
          crf_expected_runs = cvf_expected_runs facts, crf_successful_runs = counts Run_SUCCEEDED,
          crf_skipped_policy_runs = counts Run_SKIPPED_POLICY, crf_skipped_quota_runs = counts Run_SKIPPED_QUOTA,
          crf_failed_terminal_runs = counts Run_FAILED_TERMINAL,
          crf_failed_retryable_or_abandoned_runs = counts Run_FAILED_RETRYABLE + counts Run_STALE_ABANDONED\<rparr>)"

definition latest_run :: "run_sql_row list \<Rightarrow> run_sql_row option" where
  "latest_run runs = max_by (\<lambda>r. (rsr_finished_at r \<noteq> None,
     case rsr_finished_at r of None \<Rightarrow> 0 | Some t \<Rightarrow> t, rsr_attempt r)) runs"

definition status_observed_at ::
    "source_sql_row \<Rightarrow> run_sql_row option \<Rightarrow> publication_sql_row option \<Rightarrow> instant option" where
  "status_observed_at source run publication =
     (let expiration = (if ssr_authorization_status source = Some Authorization_EXPIRED
                        then ssr_authorization_expires_at source else None);
          candidates = List.map_filter id
            [Option.bind run rsr_finished_at, map_option pf_committed_at publication,
             ssr_authorization_revoked_at source, expiration, ssr_authorization_effective_at source]
      in max_by id candidates)"

definition is_valid_record :: "report_record \<Rightarrow> bool" where
  "is_valid_record r \<longleftrightarrow> as_state (rr_analysis r) = Analysis_VALID"

definition is_relevant_record :: "report_record \<Rightarrow> bool" where
  "is_relevant_record r \<longleftrightarrow> is_valid_record r \<and> as_relevance (rr_analysis r) = Some True"

definition failed_run :: "run_sql_row \<Rightarrow> bool" where
  "failed_run r \<longleftrightarrow> rsr_status r = Run_FAILED_RETRYABLE \<or> rsr_status r = Run_FAILED_TERMINAL
     \<or> rsr_status r = Run_STALE_ABANDONED"

definition skipped_run :: "run_sql_row \<Rightarrow> bool" where
  "skipped_run r \<longleftrightarrow> rsr_status r = Run_SKIPPED_POLICY \<or> rsr_status r = Run_SKIPPED_QUOTA"

definition coverage_values ::
    "text_codec \<Rightarrow> (source_platform \<times> string) set \<Rightarrow> coverage_facts \<Rightarrow> source_coverage_item" where
  "coverage_values codec expected_sources facts =
     (let source = cvf_source facts;
          expected = ((ssr_platform source, ssr_external_key source) \<in> expected_sources);
          enabled = authorization_active source (rw_end_utc (cvf_window facts));
          status = derive_collection_status (run_facts expected enabled facts);
          successful = filter (\<lambda>r. rsr_status r = Run_SUCCEEDED) (cvf_runs facts);
          failed = filter failed_run (cvf_runs facts);
          skipped = filter skipped_run (cvf_runs facts);
          latest_success = latest_run successful;
          latest_attempt = latest_run (cvf_runs facts);
          cutoff = max_by (\<lambda>p. (pf_sequence p, uuid_str (pf_id p))) (cvf_publications facts);
          valid = count_where is_valid_record (cvf_records facts);
          relevant = count_where is_relevant_record (cvf_records facts);
          candidate = int (length (cvf_records facts))
      in \<lparr>sco_role = rw_role (cvf_window facts), sco_source_id = ssr_source_id source,
         sco_country = ssr_country source, sco_platform = ssr_platform source,
         sco_community = ssr_community source, sco_expected = expected, sco_enabled = enabled,
         sco_collection_status = status, sco_expected_run_count = cvf_expected_runs facts,
         sco_successful_run_count = int (length successful), sco_failed_run_count = int (length failed),
         sco_skipped_run_count = int (length skipped), sco_candidate_count = candidate,
         sco_valid_analysis_count = valid, sco_pending_count = candidate - valid, sco_relevant_count = relevant,
         sco_cutoff_publication_sequence = map_option pf_sequence cutoff,
         sco_cutoff_publication_manifest_id = map_option pf_id cutoff,
         sco_cutoff_publication_manifest_hash = map_option (\<lambda>p. publication_hash codec (fingerprint p)) cutoff,
         sco_latest_successful_run_started_at = Option.bind latest_success rsr_started_at,
         sco_latest_successful_run_finished_at = Option.bind latest_success rsr_finished_at,
         sco_latest_publication_committed_at = map_option pf_committed_at cutoff,
         sco_latest_attempt_finished_at = Option.bind latest_attempt rsr_finished_at,
         sco_status_observed_at = status_observed_at source latest_attempt cutoff,
         sco_coverage_numerator = valid, sco_coverage_denominator = candidate,
         sco_coverage_decimal = ratio_decimal valid candidate\<rparr>)"

definition coverage_item ::
    "text_codec \<Rightarrow> (source_platform \<times> string) set \<Rightarrow> coverage_facts \<Rightarrow> report_error + source_coverage_item" where
  "coverage_item codec expected_sources facts = validate_counts (coverage_values codec expected_sources facts)"

definition source_coverage ::
    "text_codec \<Rightarrow> (source_platform \<times> string) set \<Rightarrow> report_input_query_rows \<Rightarrow> report_record list
      \<Rightarrow> report_error + source_coverage_item list" where
  "source_coverage codec expected_sources rows records =
     (let windows = seoul_report_windows (riq_report_date_seoul rows)
      in seq_result (\<lambda>(window, source). coverage_item codec expected_sources
           \<lparr>cvf_window = window, cvf_source = source,
            cvf_expected_runs = int (length (filter (in_window window) (riq_slots rows))),
            cvf_runs = filter (\<lambda>r. rsr_source_id r = ssr_source_id source \<and> in_window window (rsr_due_slot_utc r))
              (riq_runs rows),
            cvf_records = filter (\<lambda>r. rr_source_id r = ssr_source_id source \<and> rr_role r = rw_role window) records,
            cvf_publications = filter (\<lambda>p. pf_source_id p = ssr_source_id source
              \<and> in_window window (pub_due_slot_utc p)) (riq_publications rows)\<rparr>)
         (List.product [rws_primary windows, rws_comparison windows] (riq_sources rows)))"

section \<open>The two computations of the status agree\<close>

lemma lower_hex_digit: "\<forall>n \<in> set [0..<16]. lower_hex (hex_digit n)"
  by (simp add: upt_conv_Cons hex_digit_def hex_chars_def lower_hex_def)

lemma lower_hex_hexdigest: "list_all lower_hex (hexdigest bs)"
proof -
  have "lower_hex (hex_digit n)" for n
    using lower_hex_digit [THEN bspec, of "n mod 16"] by (simp add: hex_digit_def)
  then show ?thesis by (induction bs) (simp_all add: hexdigest_def)
qed

lemma sha_pattern_digest [simp]: "sha_pattern (sha256_hex bs)" "sha_pattern (canonical_sha256 nfc v)"
  by (simp_all add: sha_pattern_def sha256_hex_def canonical_sha256_def lower_hex_hexdigest)

lemma count_where_disj:
  "(\<And>x. \<not> (p x \<and> q x)) \<Longrightarrow> count_where (\<lambda>x. p x \<or> q x) xs = count_where p xs + count_where q xs"
  by (induction xs) auto

lemma count_where_mono: "(\<And>x. p x \<Longrightarrow> q x) \<Longrightarrow> count_where p xs \<le> count_where q xs"
  by (induction xs) auto

lemma count_where_le_length: "count_where p xs \<le> int (length xs)"
  by (simp add: count_where_def)

text \<open>What the retained counts say about the run facts.\<close>

definition retained_facts :: "coverage_run_facts \<Rightarrow> source_coverage_item \<Rightarrow> bool" where
  "retained_facts f c \<longleftrightarrow>
     sco_expected c = crf_expected f \<and> crf_authorization_required f \<and> sco_enabled c = crf_authorization_active f
     \<and> sco_expected_run_count c = crf_expected_runs f \<and> sco_successful_run_count c = crf_successful_runs f
     \<and> sco_failed_run_count c = crf_failed_terminal_runs f + crf_failed_retryable_or_abandoned_runs f
     \<and> sco_skipped_run_count c = crf_skipped_policy_runs f + crf_skipped_quota_runs f
     \<and> 0 \<le> crf_successful_runs f \<and> 0 \<le> crf_skipped_policy_runs f \<and> 0 \<le> crf_skipped_quota_runs f
     \<and> 0 \<le> crf_failed_terminal_runs f \<and> 0 \<le> crf_failed_retryable_or_abandoned_runs f"

lemma derived_status_allowed:
  assumes "retained_facts f c"
  shows "derive_collection_status f \<in> allowed_statuses c"
  using assms by (auto simp: retained_facts_def derive_collection_status_def allowed_statuses_def
      terminal_runs_def Let_def)

lemma coverage_values_facts:
  "retained_facts
     (run_facts (sco_expected c) (sco_enabled c) facts) c"
  if "c = coverage_values codec expected_sources facts"
proof -
  have "count_where failed_run runs = count_where (\<lambda>r. rsr_status r = Run_FAILED_TERMINAL) runs
      + (count_where (\<lambda>r. rsr_status r = Run_FAILED_RETRYABLE) runs
         + count_where (\<lambda>r. rsr_status r = Run_STALE_ABANDONED) runs)"
    "count_where skipped_run runs = count_where (\<lambda>r. rsr_status r = Run_SKIPPED_POLICY) runs
      + count_where (\<lambda>r. rsr_status r = Run_SKIPPED_QUOTA) runs" for runs
    by (induction runs) (auto simp: failed_run_def skipped_run_def)
  then show ?thesis
    unfolding that by (simp add: retained_facts_def coverage_values_def run_facts_def Let_def flip: count_where_def)
qed

lemma coverage_values_status:
  assumes "c = coverage_values codec expected_sources facts"
  shows "sco_collection_status c \<in> allowed_statuses c"
proof -
  have "sco_collection_status c = derive_collection_status (run_facts (sco_expected c) (sco_enabled c) facts)"
    unfolding assms by (simp add: coverage_values_def Let_def)
  then show ?thesis using derived_status_allowed [OF coverage_values_facts [OF assms]] by simp
qed

definition finished_run :: "run_sql_row \<Rightarrow> bool" where
  "finished_run r \<longleftrightarrow> rsr_status r \<noteq> Run_CREATED \<and> rsr_status r \<noteq> Run_RUNNING"

lemma finished_run_split:
  "count_where finished_run runs = count_where (\<lambda>r. rsr_status r = Run_SUCCEEDED) runs
     + count_where failed_run runs + count_where skipped_run runs"
proof (induction runs)
  case (Cons r runs)
  then show ?case by (cases "rsr_status r") (simp_all add: finished_run_def failed_run_def skipped_run_def)
qed simp

lemma coverage_values_counts:
  assumes "c = coverage_values codec expected_sources facts"
  shows "terminal_runs c = count_where finished_run (cvf_runs facts)"
    and "sco_valid_analysis_count c \<le> sco_candidate_count c"
    and "sco_relevant_count c \<le> sco_valid_analysis_count c"
proof -
  have "count_where is_relevant_record xs \<le> count_where is_valid_record xs" for xs
    by (rule count_where_mono) (simp add: is_relevant_record_def)
  then show "terminal_runs c = count_where finished_run (cvf_runs facts)"
    "sco_valid_analysis_count c \<le> sco_candidate_count c" "sco_relevant_count c \<le> sco_valid_analysis_count c"
    unfolding assms by (simp_all add: terminal_runs_def finished_run_split coverage_values_def Let_def
        count_where_le_length flip: count_where_def)
qed

text \<open>The projection of run facts never contradicts the validation of the record it constructs: apart from
  a count or sequence of 2^53 and more, the only refusal is a source with more finished runs than due slots.
  In particular the status, the decimal and the all-or-nothing cutoff are always accepted.\<close>

theorem coverage_item_exact:
  "coverage_item codec expected_sources facts =
     (if \<not> coverage_fields_ok (coverage_values codec expected_sources facts)
      then Inl (Validation_Error ''field'')
      else if cvf_expected_runs facts < count_where finished_run (cvf_runs facts)
      then Inl (Validation_Error ''coverage_run_count_exceeded'')
      else Inr (coverage_values codec expected_sources facts))"
proof -
  define c where "c = coverage_values codec expected_sources facts"
  note facts = coverage_values_counts [OF c_def] coverage_values_status [OF c_def]
  have cutoff: "sco_cutoff_publication_sequence c = None \<longleftrightarrow> sco_cutoff_publication_manifest_id c = None"
    "sco_cutoff_publication_manifest_hash c = None \<longleftrightarrow> sco_cutoff_publication_manifest_id c = None"
    and derived: "sco_pending_count c = sco_candidate_count c - sco_valid_analysis_count c"
    "sco_coverage_numerator c = sco_valid_analysis_count c" "sco_coverage_denominator c = sco_candidate_count c"
    "sco_coverage_decimal c = ratio_decimal (sco_valid_analysis_count c) (sco_candidate_count c)"
    "sco_expected_run_count c = cvf_expected_runs facts"
    by (simp_all add: c_def coverage_values_def Let_def)
  show ?thesis
    unfolding coverage_item_def c_def [symmetric] validate_counts_def Let_def
    using facts by (cases "sco_cutoff_publication_manifest_id c") (simp_all add: cutoff derived)
qed

text \<open>The statuses that a coverage record may carry are exactly those that some run facts with its counts
  derive, so a status cannot be improved after the fact. One exception: for a single skipped run the
  validation also admits \<open>partial\<close>, which no run facts give.\<close>

theorem allowed_statuses_exact:
  assumes "0 \<le> sco_successful_run_count c" and "0 \<le> sco_failed_run_count c" and "0 \<le> sco_skipped_run_count c"
  shows "allowed_statuses c = {derive_collection_status f | f. retained_facts f c}
    \<union> (if sco_successful_run_count c = 0 \<and> sco_failed_run_count c = 0 \<and> sco_skipped_run_count c = 1
        \<and> \<not> (sco_expected c \<and> \<not> sco_enabled c) then {Coverage_PARTIAL} else {})"
    (is "_ = ?derived \<union> ?extra")
proof
  define facts where "facts sp sq ft fr = \<lparr>crf_expected = sco_expected c, crf_authorization_required = True,
    crf_authorization_active = sco_enabled c, crf_expected_runs = sco_expected_run_count c,
    crf_successful_runs = sco_successful_run_count c, crf_skipped_policy_runs = sp, crf_skipped_quota_runs = sq,
    crf_failed_terminal_runs = ft, crf_failed_retryable_or_abandoned_runs = fr\<rparr>" for sp sq ft fr
  let ?s = "sco_skipped_run_count c" and ?f = "sco_failed_run_count c"
  have retained: "retained_facts (facts sp sq ft fr) c"
    if "sp + sq = ?s" "ft + fr = ?f" "0 \<le> sp" "0 \<le> sq" "0 \<le> ft" "0 \<le> fr" for sp sq ft fr
    using that assms by (simp add: retained_facts_def facts_def)
  have member: "derive_collection_status (facts sp sq ft fr) \<in> ?derived"
    if "sp + sq = ?s" "ft + fr = ?f" "0 \<le> sp" "0 \<le> sq" "0 \<le> ft" "0 \<le> fr" for sp sq ft fr
    using retained [OF that] by blast
  have plain: "derive_collection_status (facts ?s 0 ?f 0) \<in> ?derived"
    and quota: "derive_collection_status (facts 0 ?s ?f 0) \<in> ?derived"
    and retry: "derive_collection_status (facts ?s 0 0 ?f) \<in> ?derived"
    using assms by (intro member; simp)+
  have mixed: "derive_collection_status (facts 1 (?s - 1) ?f 0) \<in> ?derived" if "1 \<le> ?s"
    using assms that by (intro member) simp_all
  have status: "derive_collection_status (facts sp sq ft fr) =
      (if sco_expected c \<and> \<not> sco_enabled c then Coverage_UNAUTHORIZED
       else if 0 < sco_expected_run_count c \<and> sco_successful_run_count c = sco_expected_run_count c
       then Coverage_COMPLETE
       else if sco_successful_run_count c + sp + sq + ft + fr = 0 then Coverage_MISSING
       else if 0 < sco_successful_run_count c then Coverage_PARTIAL
       else if sp = sco_successful_run_count c + sp + sq + ft + fr then Coverage_SKIPPED_POLICY
       else if sq = sco_successful_run_count c + sp + sq + ft + fr then Coverage_SKIPPED_QUOTA
       else if 0 < ft then Coverage_FAILED_TERMINAL
       else if 0 < fr then Coverage_FAILED_RETRYABLE else Coverage_PARTIAL)" for sp sq ft fr
    by (simp add: derive_collection_status_def facts_def Let_def)
  show "allowed_statuses c \<subseteq> ?derived \<union> ?extra"
  proof (cases "sco_expected c \<and> \<not> sco_enabled c
      \<or> 0 < sco_expected_run_count c \<and> sco_successful_run_count c = sco_expected_run_count c
      \<or> terminal_runs c = 0 \<or> 0 < sco_successful_run_count c")
    case True
    then have "allowed_statuses c = {derive_collection_status (facts ?s 0 ?f 0)}"
      unfolding status allowed_statuses_def terminal_runs_def by (auto simp: ac_simps)
    then show ?thesis using plain by simp
  next
    case False
    then have zero: "sco_successful_run_count c = 0" and t: "?f + ?s \<noteq> 0" using assms(1) by (auto simp: terminal_runs_def)
    have guards: "\<not> (sco_expected c \<and> \<not> sco_enabled c)"
      "\<not> (0 < sco_expected_run_count c \<and> 0 = sco_expected_run_count c)" using False zero by auto
    show ?thesis
    proof (cases "0 < ?f")
      case True
      then have "allowed_statuses c =
          {derive_collection_status (facts ?s 0 ?f 0), derive_collection_status (facts ?s 0 0 ?f)}"
        unfolding status allowed_statuses_def terminal_runs_def zero using guards assms by auto
      then show ?thesis using plain retry by simp
    next
      case f: False
      then have "?f = 0" using assms(2) by simp
      then have s: "1 \<le> ?s" using t assms(3) by simp
      have "allowed_statuses c = {derive_collection_status (facts ?s 0 ?f 0),
          derive_collection_status (facts 0 ?s ?f 0), Coverage_PARTIAL}"
        unfolding status allowed_statuses_def terminal_runs_def zero using guards s \<open>?f = 0\<close> by auto
      moreover have "Coverage_PARTIAL \<in> ?derived \<union> ?extra"
      proof (cases "?s = 1")
        case True
        then show ?thesis using zero \<open>?f = 0\<close> guards(1) by simp
      next
        case False
        then have "derive_collection_status (facts 1 (?s - 1) ?f 0) = Coverage_PARTIAL"
          unfolding status zero using guards s \<open>?f = 0\<close> by auto
        then show ?thesis using mixed [OF s] by simp
      qed
      ultimately show ?thesis using plain quota by simp
    qed
  qed
  show "?derived \<union> ?extra \<subseteq> allowed_statuses c"
  proof (rule Un_least)
    show "?derived \<subseteq> allowed_statuses c" using derived_status_allowed by blast
    show "?extra \<subseteq> allowed_statuses c" by (simp add: allowed_statuses_def terminal_runs_def)
  qed
qed

definition example_coverage :: source_coverage_item where
  "example_coverage = coverage_values \<lparr>tc_nfc = id, tc_iso = utc_text\<rparr> {(Platform_REDDIT, ''stocks'')}
     \<lparr>cvf_window = window_for 0 Role_PRIMARY,
      cvf_source = \<lparr>ssr_source_id = 7, ssr_country = Country_US, ssr_platform = Platform_REDDIT,
        ssr_community = ''stocks'', ssr_external_key = ''stocks'', ssr_source_enabled = True,
        ssr_authorization_status = Some Authorization_APPROVED, ssr_authorization_effective_at = Some (- days 1),
        ssr_authorization_expires_at = Some (days 9), ssr_authorization_revoked_at = None\<rparr>,
      cvf_expected_runs = 8,
      cvf_runs = [\<lparr>rsr_source_id = 7, rsr_due_slot_utc = 0, rsr_status = Run_SKIPPED_QUOTA, rsr_attempt = 1,
        rsr_started_at = None, rsr_finished_at = Some 5\<rparr>],
      cvf_records = [], cvf_publications = []\<rparr>"

theorem allowed_statuses_exact_witness:
  "Coverage_PARTIAL \<in> allowed_statuses example_coverage"
proof -
  have c: "sco_successful_run_count example_coverage = 0" "sco_failed_run_count example_coverage = 0"
    "sco_skipped_run_count example_coverage = 1" "sco_expected example_coverage" "sco_enabled example_coverage"
    by (simp_all add: example_coverage_def coverage_values_def failed_run_def skipped_run_def
        authorization_active_def window_fields duration_defs Let_def)
  then have "allowed_statuses example_coverage =
      {derive_collection_status f | f. retained_facts f example_coverage} \<union> {Coverage_PARTIAL}"
    using allowed_statuses_exact [of example_coverage] by simp
  then show ?thesis by simp
qed

end
