(* ===== verification/Report_Manifest.thy ===== *)
theory Report_Manifest
  imports Report_Coverage
begin

text \<open>
  \<open>reporting/manifest_schema.py\<close> and \<open>manifest.py\<close>: the self-contained input of a daily report, its
  validation, its canonical form and its persisted envelope.

  The lemmas show that the canonical form is idempotent and stays valid, does not depend on the order in
  which the database returned the rows, and survives storage: reading an envelope returns the manifest that
  was built. \<open>gzip\<close> and the JSON parser of Pydantic are parameters.
\<close>

section \<open>The manifest and its validation\<close>

record report_input_manifest =
  rim_report_date_seoul :: seoul_date
  rim_windows :: "report_window \<times> report_window"
  rim_source_scope_version :: string
  rim_definitions :: governing_definitions
  rim_category_mappings :: "category_mapping_snapshot list"
  rim_records :: "report_record list"
  rim_source_coverage :: "source_coverage_item list"

fun actual_by_role :: "report_window \<times> report_window \<Rightarrow> report_role \<Rightarrow> report_window option" where
  "actual_by_role (v, w) r = (if rw_role w = r then Some w else if rw_role v = r then Some v else None)"

definition record_identity :: "report_record \<Rightarrow> report_role \<times> string" where
  "record_identity r = (rr_role r, uuid_str (rr_post_version_id r))"

definition valid_publication :: "seoul_date \<Rightarrow> report_record \<Rightarrow> bool" where
  "valid_publication d r \<longleftrightarrow> in_window (window_for d (rr_role r)) (rr_published_at_utc r)
     \<and> rr_published_date_seoul r = rw_date_seoul (window_for d (rr_role r))"

definition validate_windows_and_publication :: "report_input_manifest \<Rightarrow> report_error + unit" where
  "validate_windows_and_publication p =
     (let d = rim_report_date_seoul p
      in if actual_by_role (rim_windows p) Role_PRIMARY \<noteq> Some (window_for d Role_PRIMARY)
            \<or> actual_by_role (rim_windows p) Role_COMPARISON \<noteq> Some (window_for d Role_COMPARISON)
      then Inl (Validation_Error ''manifest_windows_invalid'')
      else case fold_result (\<lambda>identities r.
             if record_identity r \<in> set identities \<or> \<not> valid_publication d r
             then Inl (Validation_Error ''manifest_record_role_invalid'')
             else Inr (record_identity r # identities)) [] (rim_records p) of
           Inl e \<Rightarrow> Inl e | Inr _ \<Rightarrow> Inr ())"

definition coverage_key :: "source_coverage_item \<Rightarrow> report_role \<times> uuid" where
  "coverage_key c = (sco_role c, sco_source_id c)"

definition validate_coverage :: "report_input_manifest \<Rightarrow> report_error + unit" where
  "validate_coverage p = require (distinct (map coverage_key (rim_source_coverage p)))
     (Validation_Error ''manifest_coverage_duplicate'') ()"

definition validated_mappings ::
    "category_mapping_snapshot list \<Rightarrow> report_error + (mapping_key \<Rightarrow> category_mapping_snapshot option)" where
  "validated_mappings snapshots = require (distinct (map mapping_key_of snapshots))
     (Validation_Error ''manifest_category_mapping_duplicate'')
     (map_of (zip (map mapping_key_of snapshots) snapshots))"

definition require_mapping ::
    "(mapping_key \<Rightarrow> category_mapping_snapshot option) \<Rightarrow> mapping_key \<Rightarrow> string \<Rightarrow> report_error + unit" where
  "require_mapping mappings key mapped_category =
     (case mappings key of
        None \<Rightarrow> Inl (Validation_Error ''manifest_category_mapping_missing'')
      | Some authoritative \<Rightarrow> require (cm_category authoritative = mapped_category)
          (Validation_Error ''manifest_category_mapping_mismatch'') ())"

definition rule_key :: "rule_match_snapshot \<Rightarrow> mapping_key" where
  "rule_key r = (Input_rule, rm_rule_id r, rm_rule_set_version r, rm_normalized_phrase r)"

definition topic_key :: "topic_match_snapshot \<Rightarrow> mapping_key" where
  "topic_key t = (Input_topic, tm_topic_key t, tm_analysis_schema_version t, tm_normalized_value t)"

definition validate_governing_record ::
    "(string \<times> string) list \<Rightarrow> (string \<times> string \<times> string) list
      \<Rightarrow> (mapping_key \<Rightarrow> category_mapping_snapshot option) \<Rightarrow> report_record \<Rightarrow> report_error + unit" where
  "validate_governing_record rule_versions analysis_versions mappings r =
     (let a = rr_analysis r
      in if as_state a = Analysis_VALID \<and> (as_prompt_version a, as_model_version a, as_schema_version a)
             \<notin> (\<lambda>(x, y, z). (Some x, Some y, Some z)) ` set analysis_versions
      then Inl (Validation_Error ''manifest_analysis_version_unknown'')
      else case seq_result (\<lambda>rule.
             if (rm_rule_set_id rule, rm_rule_set_version rule) \<notin> set rule_versions
             then Inl (Validation_Error ''manifest_rule_version_unknown'')
             else require_mapping mappings (rule_key rule) (rm_mapped_category rule)) (rr_rule_matches r) of
        Inl e \<Rightarrow> Inl e
      | Inr _ \<Rightarrow> (case seq_result (\<lambda>t. require_mapping mappings (topic_key t) (tm_mapped_category t))
             (rr_topic_matches r) of Inl e \<Rightarrow> Inl e | Inr _ \<Rightarrow> Inr ()))"

definition validate_governing_records ::
    "report_input_manifest \<Rightarrow> (mapping_key \<Rightarrow> category_mapping_snapshot option) \<Rightarrow> report_error + unit" where
  "validate_governing_records p mappings =
     (let rule_versions = map (\<lambda>v. (rsv_rule_set_id v, rsv_version v)) (gd_rule_sets (rim_definitions p));
          analysis_versions = map (\<lambda>v. (avt_prompt_version v, avt_model_version v, avt_schema_version v))
            (gd_analysis_versions (rim_definitions p))
      in case seq_result (validate_governing_record rule_versions analysis_versions mappings) (rim_records p) of
           Inl e \<Rightarrow> Inl e | Inr _ \<Rightarrow> Inr ())"

definition validate_manifest :: "report_input_manifest \<Rightarrow> report_error + report_input_manifest" where
  "validate_manifest p =
     (case validate_windows_and_publication p of Inl e \<Rightarrow> Inl e
      | Inr _ \<Rightarrow> (case validate_coverage p of Inl e \<Rightarrow> Inl e
      | Inr _ \<Rightarrow> (case validated_mappings (rim_category_mappings p) of Inl e \<Rightarrow> Inl e
      | Inr mappings \<Rightarrow> (case validate_governing_records p mappings of Inl e \<Rightarrow> Inl e
      | Inr _ \<Rightarrow> Inr p))))"

section \<open>Canonical form\<close>

definition ordered_rules :: "report_record \<Rightarrow> rule_match_snapshot list" where
  "ordered_rules r = sort_key (\<lambda>m. (rm_normalized_phrase m, rm_rule_set_version m, uuid_str (rm_match_id m)))
     (rr_rule_matches r)"

definition ordered_topics :: "report_record \<Rightarrow> topic_match_snapshot list" where
  "ordered_topics r = sort_key (\<lambda>t. (tm_normalized_value t, tm_analysis_schema_version t, tm_topic_key t))
     (rr_topic_matches r)"

definition derive_categories ::
    "analysis_snapshot \<Rightarrow> rule_match_snapshot list \<Rightarrow> topic_match_snapshot list
      \<Rightarrow> (mapping_key \<Rightarrow> category_mapping_snapshot option) \<Rightarrow> report_error + string list" where
  "derive_categories analysis rules topics mappings =
     (if as_state analysis = Analysis_VALID \<and> as_relevance analysis = Some True
      then let keys = map rule_key (filter rm_match_present rules) @ map topic_key topics
           in if list_ex (\<lambda>k. mappings k = None) keys then Inl Key_Error
              else let mapped = map (\<lambda>k. cm_category (the (mappings k))) keys
                   in Inr (sort (remdups (if mapped = [] then [''uncategorized''] else mapped)))
      else Inr [])"

definition normalize_record ::
    "report_record \<Rightarrow> nat \<Rightarrow> (mapping_key \<Rightarrow> category_mapping_snapshot option) \<Rightarrow> report_error + report_record" where
  "normalize_record r ordinal mappings =
     (case derive_categories (rr_analysis r) (ordered_rules r) (ordered_topics r) mappings of Inl e \<Rightarrow> Inl e
      | Inr categories \<Rightarrow> Inr (r\<lparr>rr_ordinal := int ordinal, rr_rule_matches := ordered_rules r,
          rr_topic_matches := ordered_topics r, rr_effective_categories := categories\<rparr>))"

definition mapping_by_key :: "category_mapping_snapshot list \<Rightarrow> mapping_key \<Rightarrow> category_mapping_snapshot option" where
  "mapping_by_key ms = map_of (rev (map (\<lambda>m. (mapping_key_of m, m)) ms))"

definition record_order :: "report_record \<Rightarrow> string \<times> string" where
  "record_order r = (uuid_str (rr_post_version_id r), uuid_str (rr_source_id r))"

definition normalize_role ::
    "(mapping_key \<Rightarrow> category_mapping_snapshot option) \<Rightarrow> report_record list \<Rightarrow> report_role
      \<Rightarrow> report_error + report_record list" where
  "normalize_role mappings records role =
     seq_result (\<lambda>(ordinal, r). normalize_record r ordinal mappings)
       (enumerate 0 (sort_key record_order (filter (\<lambda>r. rr_role r = role) records)))"

definition normalize_definitions :: "governing_definitions \<Rightarrow> governing_definitions" where
  "normalize_definitions d = d\<lparr>
     gd_rule_sets := sort_key (\<lambda>v. (rsv_rule_set_id v, rsv_version v, rsv_rules_hash v)) (gd_rule_sets d),
     gd_analysis_versions := sort_key (\<lambda>v. (avt_prompt_version v, avt_model_version v, avt_schema_version v))
       (gd_analysis_versions d)\<rparr>"

fun input_kind_value :: "input_kind \<Rightarrow> string" where
  "input_kind_value Input_rule = ''rule''"
| "input_kind_value Input_topic = ''topic''"

definition mapping_order :: "category_mapping_snapshot \<Rightarrow> string \<times> string \<times> string \<times> string" where
  "mapping_order m = (input_kind_value (cm_input_kind m), cm_normalized_value m, cm_version m,
     cm_rule_or_topic_key m)"

fun role_rank :: "report_role \<Rightarrow> nat" where
  "role_rank Role_PRIMARY = 0"
| "role_rank Role_COMPARISON = 1"

definition coverage_order :: "source_coverage_item \<Rightarrow> nat \<times> string" where
  "coverage_order c = (role_rank (sco_role c), uuid_str (sco_source_id c))"

definition normalize_manifest :: "report_input_manifest \<Rightarrow> report_error + report_input_manifest" where
  "normalize_manifest p =
     (let mappings = mapping_by_key (rim_category_mappings p); d = rim_report_date_seoul p
      in case normalize_role mappings (rim_records p) Role_PRIMARY of Inl e \<Rightarrow> Inl e
      | Inr primary \<Rightarrow> (case normalize_role mappings (rim_records p) Role_COMPARISON of Inl e \<Rightarrow> Inl e
      | Inr comparison \<Rightarrow> Inr (p\<lparr>
          rim_windows := (rws_primary (seoul_report_windows d), rws_comparison (seoul_report_windows d)),
          rim_definitions := normalize_definitions (rim_definitions p),
          rim_category_mappings := sort_key mapping_order (rim_category_mappings p),
          rim_records := primary @ comparison,
          rim_source_coverage := sort_key coverage_order (rim_source_coverage p)\<rparr>)))"

section \<open>Sorting by a key\<close>

lemma filter_eq_replicate: "filter (\<lambda>x. x = k) xs = replicate (count (mset xs) k) k"
  by (induction xs) auto

text \<open>A sort whose key tells the elements apart has one result for every order of its input.\<close>

lemma sort_key_perm_inj:
  assumes "mset xs = mset ys" and inj: "inj_on f (set xs)"
  shows "sort_key f xs = sort_key f ys"
proof (rule properties_for_sort_key)
  show "mset (sort_key f ys) = mset xs" by (simp add: assms(1))
  show "sorted (map f (sort_key f ys))" by simp
  have sets: "set ys = set xs" using assms(1) by (metis set_mset_mset)
  fix k assume "k \<in> set (sort_key f ys)"
  then have k: "k \<in> set xs" by (simp add: sets)
  have "filter (\<lambda>x. f k = f x) zs = replicate (count (mset zs) k) k" if "set zs = set xs" for zs
  proof -
    have "filter (\<lambda>x. f k = f x) zs = filter (\<lambda>x. x = k) zs"
      using inj that k by (intro filter_cong) (auto dest: inj_onD)
    then show ?thesis by (simp add: filter_eq_replicate)
  qed
  from this [of xs] this [of "sort_key f ys"]
  show "filter (\<lambda>x. f k = f x) (sort_key f ys) = filter (\<lambda>x. f k = f x) xs" by (simp add: sets assms(1))
qed

lemma sort_key_idem [simp]: "sort_key f (sort_key f xs) = sort_key f xs"
  by (rule sort_key_id_if_sorted) simp

lemma inj_on_distinct_key:
  assumes "distinct (map key xs)" and "\<And>x y. ord x = ord y \<Longrightarrow> key x = key y"
  shows "inj_on ord (set xs)"
proof (rule inj_onI)
  fix x y assume "x \<in> set xs" "y \<in> set xs" "ord x = ord y"
  then show "x = y" using assms(1) assms(2) [of x y] by (auto simp: distinct_map dest: inj_onD)
qed

lemma drop_chunk: "drop n xs = take k (drop n xs) @ drop (n + k) xs"
  by (metis append_take_drop_id drop_drop add.commute)

lemma uuid_str_inject: "uuid_str u = uuid_str v \<longleftrightarrow> u = v"
proof
  have hex: "uuid_hex w = take 8 (uuid_str w) @ take 4 (drop 9 (uuid_str w)) @ take 4 (drop 14 (uuid_str w))
      @ take 4 (drop 19 (uuid_str w)) @ drop 24 (uuid_str w)" for w
  proof -
    let ?h = "uuid_hex w"
    have "?h = take 8 ?h @ drop 8 ?h" by simp
    also have "drop 8 ?h = take 4 (drop 8 ?h) @ drop 12 ?h" using drop_chunk [of 8 ?h 4] by simp
    also have "drop 12 ?h = take 4 (drop 12 ?h) @ drop 16 ?h" using drop_chunk [of 12 ?h 4] by simp
    also have "drop 16 ?h = take 4 (drop 16 ?h) @ drop 20 ?h" using drop_chunk [of 16 ?h 4] by simp
    finally show ?thesis by (simp add: uuid_str_def Let_def)
  qed
  show "uuid_str u = uuid_str v \<Longrightarrow> u = v" by (metis hex uuid_hex_inject)
qed simp

lemma role_rank_inject: "role_rank r = role_rank s \<longleftrightarrow> r = s"
  by (cases r; cases s) simp_all

lemma input_kind_value_inject: "input_kind_value k = input_kind_value l \<longleftrightarrow> k = l"
  by (cases k; cases l) simp_all

section \<open>Valid manifests\<close>

definition governed :: "report_input_manifest \<Rightarrow> report_record \<Rightarrow> bool" where
  "governed p r \<longleftrightarrow>
     (as_state (rr_analysis r) = Analysis_VALID \<longrightarrow>
        (\<exists>v \<in> set (gd_analysis_versions (rim_definitions p)).
           as_prompt_version (rr_analysis r) = Some (avt_prompt_version v)
           \<and> as_model_version (rr_analysis r) = Some (avt_model_version v)
           \<and> as_schema_version (rr_analysis r) = Some (avt_schema_version v)))
     \<and> (\<forall>m \<in> set (rr_rule_matches r).
          (\<exists>v \<in> set (gd_rule_sets (rim_definitions p)). rsv_rule_set_id v = rm_rule_set_id m
             \<and> rsv_version v = rm_rule_set_version m)
          \<and> (\<exists>c \<in> set (rim_category_mappings p). mapping_key_of c = rule_key m \<and> cm_category c = rm_mapped_category m))
     \<and> (\<forall>t \<in> set (rr_topic_matches r).
          \<exists>c \<in> set (rim_category_mappings p). mapping_key_of c = topic_key t \<and> cm_category c = tm_mapped_category t)"

definition manifest_ok :: "report_input_manifest \<Rightarrow> bool" where
  "manifest_ok p \<longleftrightarrow>
     (\<forall>r. actual_by_role (rim_windows p) r = Some (window_for (rim_report_date_seoul p) r))
     \<and> distinct (map record_identity (rim_records p))
     \<and> (\<forall>r \<in> set (rim_records p). valid_publication (rim_report_date_seoul p) r)
     \<and> distinct (map coverage_key (rim_source_coverage p))
     \<and> distinct (map mapping_key_of (rim_category_mappings p))
     \<and> (\<forall>r \<in> set (rim_records p). governed p r)"

lemma option_eqI: "(\<And>m. a = Some m \<longleftrightarrow> b = Some m) \<Longrightarrow> a = b"
  by (metis option.exhaust option.distinct(1))

lemma zip_map_self: "zip (map f xs) xs = map (\<lambda>x. (f x, x)) xs"
  by (induction xs) simp_all

lemma mapping_by_key_Some:
  assumes "distinct (map mapping_key_of ms)"
  shows "mapping_by_key ms k = Some m \<longleftrightarrow> m \<in> set ms \<and> mapping_key_of m = k"
proof -
  have "distinct (map fst (rev (map (\<lambda>m. (mapping_key_of m, m)) ms)))"
    using assms by (simp add: rev_map comp_def flip: distinct_rev [of "map mapping_key_of ms"])
  from map_of_eq_Some_iff [OF this] show ?thesis by (auto simp: mapping_by_key_def)
qed

lemma mapping_by_key_zip:
  assumes "distinct (map mapping_key_of ms)"
  shows "map_of (zip (map mapping_key_of ms) ms) = mapping_by_key ms"
proof (rule ext, rule option_eqI)
  fix k m
  have "distinct (map fst (map (\<lambda>m. (mapping_key_of m, m)) ms))" using assms by (simp add: comp_def)
  from map_of_eq_Some_iff [OF this, of k m]
  show "map_of (zip (map mapping_key_of ms) ms) k = Some m \<longleftrightarrow> mapping_by_key ms k = Some m"
    unfolding mapping_by_key_Some [OF assms] zip_map_self by auto
qed

lemma fold_identities:
  "(\<exists>ids'. fold_result (\<lambda>ids r. if key r \<in> set ids \<or> \<not> ok r then Inl e else Inr (key r # ids)) ids rs = Inr ids')
     \<longleftrightarrow> distinct (map key rs) \<and> (\<forall>r \<in> set rs. ok r \<and> key r \<notin> set ids)"
proof (induction rs arbitrary: ids)
  case (Cons a rs)
  show ?case using Cons [of "key a # ids"]
    by (cases "key a \<in> set ids \<or> \<not> ok a") (auto simp: image_iff)
qed simp

lemma seq_result_unit:
  fixes f :: "'a \<Rightarrow> 'e + unit"
  shows "(\<exists>us. seq_result f xs = Inr us) \<longleftrightarrow> (\<forall>x \<in> set xs. f x = Inr ())"
proof
  assume "\<exists>us. seq_result f xs = Inr us"
  then show "\<forall>x \<in> set xs. f x = Inr ()" by (auto simp: in_set_conv_nth) (simp add: seq_result_nth)
qed (auto intro: seq_result_total)

lemma role_all: "(\<forall>r. P r) \<longleftrightarrow> P Role_PRIMARY \<and> P Role_COMPARISON"
  by (metis report_role.exhaust)

lemma validate_windows_Inr:
  "validate_windows_and_publication p = Inr () \<longleftrightarrow>
     (\<forall>r. actual_by_role (rim_windows p) r = Some (window_for (rim_report_date_seoul p) r))
     \<and> distinct (map record_identity (rim_records p))
     \<and> (\<forall>r \<in> set (rim_records p). valid_publication (rim_report_date_seoul p) r)"
  using fold_identities [of record_identity "valid_publication (rim_report_date_seoul p)"
      "Validation_Error ''manifest_record_role_invalid''" "[]" "rim_records p"]
  by (auto simp: validate_windows_and_publication_def Let_def role_all split: sum.splits if_splits)

lemma require_mapping_Inr:
  assumes "distinct (map mapping_key_of ms)"
  shows "require_mapping (mapping_by_key ms) k c = Inr ()
    \<longleftrightarrow> (\<exists>m \<in> set ms. mapping_key_of m = k \<and> cm_category m = c)"
proof -
  have "require_mapping (mapping_by_key ms) k c = Inr ()
      \<longleftrightarrow> (\<exists>m. mapping_by_key ms k = Some m \<and> cm_category m = c)"
    by (cases "mapping_by_key ms k") (simp_all add: require_mapping_def)
  then show ?thesis unfolding mapping_by_key_Some [OF assms] by blast
qed

lemma validate_governing_Inr:
  assumes "distinct (map mapping_key_of (rim_category_mappings p))"
  shows "validate_governing_records p (mapping_by_key (rim_category_mappings p)) = Inr ()
    \<longleftrightarrow> (\<forall>r \<in> set (rim_records p). governed p r)"
proof -
  let ?rules = "map (\<lambda>v. (rsv_rule_set_id v, rsv_version v)) (gd_rule_sets (rim_definitions p))"
  let ?versions = "map (\<lambda>v. (avt_prompt_version v, avt_model_version v, avt_schema_version v))
            (gd_analysis_versions (rim_definitions p))"
  let ?m = "mapping_by_key (rim_category_mappings p)"
  have one: "validate_governing_record ?rules ?versions ?m r = Inr () \<longleftrightarrow> governed p r" for r
  proof -
    have rules: "(\<exists>us. seq_result (\<lambda>rule.
             if (rm_rule_set_id rule, rm_rule_set_version rule) \<notin> set ?rules
             then Inl (Validation_Error ''manifest_rule_version_unknown'')
             else require_mapping ?m (rule_key rule) (rm_mapped_category rule)) (rr_rule_matches r) = Inr us)
      \<longleftrightarrow> (\<forall>m \<in> set (rr_rule_matches r).
          (\<exists>v \<in> set (gd_rule_sets (rim_definitions p)). rsv_rule_set_id v = rm_rule_set_id m
             \<and> rsv_version v = rm_rule_set_version m)
          \<and> (\<exists>c \<in> set (rim_category_mappings p). mapping_key_of c = rule_key m \<and> cm_category c = rm_mapped_category m))"
      unfolding seq_result_unit by (intro ball_cong refl) (auto simp: require_mapping_Inr [OF assms] image_iff)
    have topics: "(\<exists>us. seq_result (\<lambda>t. require_mapping ?m (topic_key t) (tm_mapped_category t))
             (rr_topic_matches r) = Inr us)
      \<longleftrightarrow> (\<forall>t \<in> set (rr_topic_matches r).
          \<exists>c \<in> set (rim_category_mappings p). mapping_key_of c = topic_key t \<and> cm_category c = tm_mapped_category t)"
      unfolding seq_result_unit by (simp add: require_mapping_Inr [OF assms])
    show ?thesis
      unfolding governed_def rules [symmetric] topics [symmetric] validate_governing_record_def Let_def
      by (auto simp: image_iff split: sum.split)
  qed
  have "validate_governing_records p ?m = Inr ()
      \<longleftrightarrow> (\<exists>us. seq_result (validate_governing_record ?rules ?versions ?m) (rim_records p) = Inr us)"
    unfolding validate_governing_records_def Let_def by (auto split: sum.split)
  then show ?thesis by (simp add: seq_result_unit one)
qed

lemma validate_manifest_Inr: "validate_manifest p = Inr q \<longleftrightarrow> q = p \<and> manifest_ok p"
  using validate_windows_Inr [of p] validate_governing_Inr [of p] mapping_by_key_zip [of "rim_category_mappings p"]
  unfolding validate_manifest_def validate_coverage_def validated_mappings_def manifest_ok_def require_def
  by (cases "validate_windows_and_publication p") (auto split: sum.splits if_splits)

section \<open>The canonical form is idempotent and stays valid\<close>

lemma normalize_record_shape:
  assumes "normalize_record r n m = Inr s"
  obtains categories where
    "derive_categories (rr_analysis r) (ordered_rules r) (ordered_topics r) m = Inr categories"
    "s = r\<lparr>rr_ordinal := int n, rr_rule_matches := ordered_rules r, rr_topic_matches := ordered_topics r,
     rr_effective_categories := categories\<rparr>"
  using assms by (auto simp: normalize_record_def split: sum.splits)

lemma normalize_recordD:
  assumes "normalize_record r n m = Inr s"
  shows "record_order s = record_order r" "rr_role s = rr_role r" "record_identity s = record_identity r"
    "rr_analysis s = rr_analysis r" "rr_published_at_utc s = rr_published_at_utc r"
    "rr_published_date_seoul s = rr_published_date_seoul r" "rr_source_id s = rr_source_id r"
    "rr_country s = rr_country r" "rr_platform s = rr_platform r" "rr_community s = rr_community r"
    "rr_engagement s = rr_engagement r" "mset (rr_rule_matches s) = mset (rr_rule_matches r)"
    "mset (rr_topic_matches s) = mset (rr_topic_matches r)" "rr_ordinal s = int n"
  using assms by (rule normalize_record_shape;
      simp add: record_order_def record_identity_def ordered_rules_def ordered_topics_def)+

lemma normalize_record_idem: "normalize_record r n m = Inr s \<Longrightarrow> normalize_record s n m = Inr s"
  by (erule normalize_record_shape) (simp add: normalize_record_def ordered_rules_def ordered_topics_def)

lemma normalize_record_permuted:
  assumes "normalize_record r n m = Inr s" "normalize_record r' n m = Inr s'"
  shows "set (rr_rule_matches s) = set (rr_rule_matches r)" "set (rr_topic_matches s) = set (rr_topic_matches r)"
  using normalize_recordD [OF assms(1)] by (metis set_mset_mset)+

lemma normalize_roleD:
  assumes "normalize_role m rs role = Inr ss"
  shows "length ss = length (filter (\<lambda>r. rr_role r = role) rs)"
    and "\<And>i. i < length ss \<Longrightarrow> normalize_record (sort_key record_order (filter (\<lambda>r. rr_role r = role) rs) ! i) i m = Inr (ss ! i)"
    and "map record_order ss = map record_order (sort_key record_order (filter (\<lambda>r. rr_role r = role) rs))"
    and "\<And>s. s \<in> set ss \<Longrightarrow> rr_role s = role"
proof -
  let ?xs = "sort_key record_order (filter (\<lambda>r. rr_role r = role) rs)"
  have all: "list_all2 (\<lambda>(n, r) s. normalize_record r n m = Inr s) (enumerate 0 ?xs) ss"
    using assms by (simp add: normalize_role_def seq_result_Inr_iff case_prod_unfold)
  then show len: "length ss = length (filter (\<lambda>r. rr_role r = role) rs)"
    by (auto dest: list_all2_lengthD)
  show nth: "normalize_record (?xs ! i) i m = Inr (ss ! i)" if "i < length ss" for i
    using list_all2_nthD2 [OF all that] that len by (simp add: nth_enumerate_eq)
  show "map record_order ss = map record_order ?xs"
    using normalize_recordD(1) [OF nth] len by (intro nth_equalityI) simp_all
  show "rr_role s = role" if "s \<in> set ss" for s
  proof -
    obtain i where i: "i < length ss" "s = ss ! i" using \<open>s \<in> set ss\<close> by (auto simp: in_set_conv_nth)
    have "?xs ! i \<in> set ?xs" using i len by (intro nth_mem) simp
    then have "rr_role (?xs ! i) = role" by simp
    then show ?thesis using normalize_recordD(2) [OF nth [OF i(1)]] i by simp
  qed
qed

lemma normalize_role_idem:
  assumes "normalize_role m rs role = Inr ss" and "filter (\<lambda>r. rr_role r = role) us = ss"
  shows "normalize_role m us role = Inr ss"
proof -
  note facts = normalize_roleD [OF assms(1)]
  have "sorted (map record_order ss)" unfolding facts(3) by simp
  then have sorted: "sort_key record_order ss = ss" by (rule sort_key_id_if_sorted)
  have "list_all2 (\<lambda>(n, r) s. normalize_record r n m = Inr s) (enumerate 0 ss) ss"
    using normalize_record_idem [OF facts(2)] by (auto simp: list_all2_conv_all_nth nth_enumerate_eq)
  then show ?thesis by (simp add: normalize_role_def assms(2) sorted seq_result_Inr_iff case_prod_unfold)
qed

lemma normalize_manifestD:
  assumes "normalize_manifest p = Inr q"
  obtains primary comparison where
    "normalize_role (mapping_by_key (rim_category_mappings p)) (rim_records p) Role_PRIMARY = Inr primary"
    "normalize_role (mapping_by_key (rim_category_mappings p)) (rim_records p) Role_COMPARISON = Inr comparison"
    "q = p\<lparr>rim_windows := (window_for (rim_report_date_seoul p) Role_PRIMARY,
             window_for (rim_report_date_seoul p) Role_COMPARISON),
          rim_definitions := normalize_definitions (rim_definitions p),
          rim_category_mappings := sort_key mapping_order (rim_category_mappings p),
          rim_records := primary @ comparison,
          rim_source_coverage := sort_key coverage_order (rim_source_coverage p)\<rparr>"
  using assms by (auto simp: normalize_manifest_def window_for_def Let_def split: sum.splits)

lemma mapping_by_key_sort:
  assumes "distinct (map mapping_key_of ms)"
  shows "mapping_by_key (sort_key f ms) = mapping_by_key ms"
proof (rule ext, rule option_eqI)
  fix k m
  have "distinct (map mapping_key_of (sort_key f ms))" using assms by simp
  from mapping_by_key_Some [OF this] mapping_by_key_Some [OF assms]
  show "mapping_by_key (sort_key f ms) k = Some m \<longleftrightarrow> mapping_by_key ms k = Some m" by simp
qed

lemma normalize_definitions_idem [simp]: "normalize_definitions (normalize_definitions d) = normalize_definitions d"
  by (simp add: normalize_definitions_def)

lemma role_partition:
  assumes "\<And>s. s \<in> set xs \<Longrightarrow> rr_role s = Role_PRIMARY" and "\<And>s. s \<in> set ys \<Longrightarrow> rr_role s = Role_COMPARISON"
  shows "filter (\<lambda>r. rr_role r = Role_PRIMARY) (xs @ ys) = xs"
    and "filter (\<lambda>r. rr_role r = Role_COMPARISON) (xs @ ys) = ys"
  using assms by (auto simp: filter_id_conv filter_empty_conv)

lemma normalize_manifest_idem:
  assumes "distinct (map mapping_key_of (rim_category_mappings p))" and "normalize_manifest p = Inr q"
  shows "normalize_manifest q = Inr q"
proof -
  obtain primary comparison where
    roles: "normalize_role (mapping_by_key (rim_category_mappings p)) (rim_records p) Role_PRIMARY = Inr primary"
      "normalize_role (mapping_by_key (rim_category_mappings p)) (rim_records p) Role_COMPARISON = Inr comparison"
    and q: "q = p\<lparr>rim_windows := (window_for (rim_report_date_seoul p) Role_PRIMARY,
             window_for (rim_report_date_seoul p) Role_COMPARISON),
          rim_definitions := normalize_definitions (rim_definitions p),
          rim_category_mappings := sort_key mapping_order (rim_category_mappings p),
          rim_records := primary @ comparison,
          rim_source_coverage := sort_key coverage_order (rim_source_coverage p)\<rparr>"
    using normalize_manifestD [OF assms(2)] by blast
  note parts = role_partition [OF normalize_roleD(4) [OF roles(1)] normalize_roleD(4) [OF roles(2)]]
  note again = normalize_role_idem [OF roles(1) parts(1)] normalize_role_idem [OF roles(2) parts(2)]
  show ?thesis
    by (simp add: normalize_manifest_def Let_def q mapping_by_key_sort [OF assms(1)] again window_for_def)
qed

lemma normalized_record_source:
  assumes "normalize_role m rs role = Inr ss" and "s \<in> set ss"
  shows "\<exists>r \<in> set rs. \<exists>n. normalize_record r n m = Inr s"
proof -
  let ?xs = "sort_key record_order (filter (\<lambda>r. rr_role r = role) rs)"
  obtain i where i: "i < length ss" "s = ss ! i" using assms(2) by (auto simp: in_set_conv_nth)
  have "?xs ! i \<in> set ?xs" using i normalize_roleD(1) [OF assms(1)] by (intro nth_mem) simp
  then have "?xs ! i \<in> set rs" by simp
  with normalize_roleD(2) [OF assms(1) i(1)] i(2) show ?thesis by blast
qed

lemma normalize_role_identities:
  assumes "normalize_role m rs role = Inr ss" and "distinct (map record_identity rs)"
  shows "distinct (map record_identity ss)"
proof -
  have id: "record_identity r = (rr_role r, fst (record_order r))" for r
    by (simp add: record_identity_def record_order_def)
  have "map record_identity ss = map (\<lambda>k. (role, fst k)) (map record_order ss)"
    using normalize_roleD(4) [OF assms(1)] by (auto simp: id)
  also have "\<dots> = map record_identity (sort_key record_order (filter (\<lambda>r. rr_role r = role) rs))"
    unfolding normalize_roleD(3) [OF assms(1)] by (auto simp: id)
  also have "distinct \<dots>" using assms(2) by (simp add: distinct_map_filter)
  finally show ?thesis .
qed

lemma normalized_manifest_ok:
  assumes ok: "manifest_ok p" and "normalize_manifest p = Inr q"
  shows "manifest_ok q"
proof -
  obtain primary comparison where
    roles: "normalize_role (mapping_by_key (rim_category_mappings p)) (rim_records p) Role_PRIMARY = Inr primary"
      "normalize_role (mapping_by_key (rim_category_mappings p)) (rim_records p) Role_COMPARISON = Inr comparison"
    and q: "q = p\<lparr>rim_windows := (window_for (rim_report_date_seoul p) Role_PRIMARY,
             window_for (rim_report_date_seoul p) Role_COMPARISON),
          rim_definitions := normalize_definitions (rim_definitions p),
          rim_category_mappings := sort_key mapping_order (rim_category_mappings p),
          rim_records := primary @ comparison,
          rim_source_coverage := sort_key coverage_order (rim_source_coverage p)\<rparr>"
    using normalize_manifestD [OF assms(2)] by blast
  have ids: "distinct (map record_identity (rim_records p))" using ok by (simp add: manifest_ok_def)
  have each: "valid_publication (rim_report_date_seoul p) s \<and> governed q s" if mem: "s \<in> set (primary @ comparison)" for s
  proof -
    obtain r n where r: "r \<in> set (rim_records p)"
      and n: "normalize_record r n (mapping_by_key (rim_category_mappings p)) = Inr s"
      using mem normalized_record_source [OF roles(1), of s] normalized_record_source [OF roles(2), of s] by auto
    have src: "valid_publication (rim_report_date_seoul p) r" "governed p r" using ok r by (simp_all add: manifest_ok_def)
    have sets: "set (rr_rule_matches s) = set (rr_rule_matches r)" "set (rr_topic_matches s) = set (rr_topic_matches r)"
      using normalize_record_permuted [OF n n] by simp_all
    show ?thesis using src normalize_recordD [OF n]
      unfolding governed_def valid_publication_def sets by (simp add: q normalize_definitions_def)
  qed
  have "distinct (map record_identity (primary @ comparison))"
    using normalize_role_identities [OF roles(1) ids] normalize_role_identities [OF roles(2) ids]
      normalize_roleD(4) [OF roles(1)] normalize_roleD(4) [OF roles(2)]
    by (auto simp: record_identity_def)
  then show ?thesis
    using ok each unfolding manifest_ok_def by (simp add: q role_all)
qed

section \<open>The canonical form does not depend on the order of the rows\<close>

text \<open>Two manifests of the same facts, whose arrays may be in a different order.\<close>

definition same_facts :: "report_input_manifest \<Rightarrow> report_input_manifest \<Rightarrow> bool" where
  "same_facts p q \<longleftrightarrow>
     rim_report_date_seoul p = rim_report_date_seoul q
     \<and> rim_source_scope_version p = rim_source_scope_version q
     \<and> (rim_definitions p)\<lparr>gd_rule_sets := [], gd_analysis_versions := []\<rparr>
       = (rim_definitions q)\<lparr>gd_rule_sets := [], gd_analysis_versions := []\<rparr>
     \<and> mset (gd_rule_sets (rim_definitions p)) = mset (gd_rule_sets (rim_definitions q))
     \<and> mset (gd_analysis_versions (rim_definitions p)) = mset (gd_analysis_versions (rim_definitions q))
     \<and> mset (rim_category_mappings p) = mset (rim_category_mappings q)
     \<and> mset (rim_records p) = mset (rim_records q)
     \<and> mset (rim_source_coverage p) = mset (rim_source_coverage q)"

lemma mapping_by_key_perm:
  assumes "mset ms = mset ms'" and "distinct (map mapping_key_of ms)"
  shows "mapping_by_key ms = mapping_by_key ms'"
proof (rule ext, rule option_eqI)
  fix k m
  have "distinct (map mapping_key_of ms')" using assms by (metis mset_eq_imp_distinct_iff mset_map)
  from mapping_by_key_Some [OF this] mapping_by_key_Some [OF assms(2)]
  show "mapping_by_key ms k = Some m \<longleftrightarrow> mapping_by_key ms' k = Some m"
    using assms(1) by (metis set_mset_mset)
qed

lemma normalize_role_perm:
  assumes "mset rs = mset rs'" and "distinct (map record_identity rs)"
  shows "normalize_role m rs role = normalize_role m rs' role"
proof -
  let ?f = "filter (\<lambda>r. rr_role r = role)"
  have id: "record_identity r = (rr_role r, fst (record_order r))" for r
    by (simp add: record_identity_def record_order_def)
  have "distinct (map record_identity (?f rs))" using assms(2) by (simp add: distinct_map_filter)
  also have "map record_identity (?f rs) = map (\<lambda>k. (role, k)) (map (\<lambda>r. fst (record_order r)) (?f rs))"
    by (auto simp: id)
  finally have "distinct (map (\<lambda>r. fst (record_order r)) (?f rs))" by (simp only: distinct_map)
  then have "inj_on record_order (set (?f rs))" by (rule inj_on_distinct_key) simp
  moreover have "mset (?f rs) = mset (?f rs')" using assms(1) by (metis mset_filter)
  ultimately have "sort_key record_order (?f rs) = sort_key record_order (?f rs')" by (rule sort_key_perm_inj [rotated])
  then show ?thesis by (simp only: normalize_role_def)
qed

lemma normalize_manifest_order:
  assumes ok: "manifest_ok p" and same: "same_facts p q"
  shows "normalize_manifest p = normalize_manifest q"
proof -
  have keys: "distinct (map record_identity (rim_records p))" "distinct (map coverage_key (rim_source_coverage p))"
    "distinct (map mapping_key_of (rim_category_mappings p))" using ok by (simp_all add: manifest_ok_def)
  have "inj_on coverage_order (set (rim_source_coverage p))"
    using keys(2) by (rule inj_on_distinct_key)
      (simp add: coverage_order_def coverage_key_def role_rank_inject uuid_str_inject)
  then have coverage: "sort_key coverage_order (rim_source_coverage p) = sort_key coverage_order (rim_source_coverage q)"
    using same by (intro sort_key_perm_inj) (simp_all add: same_facts_def)
  have "inj_on mapping_order (set (rim_category_mappings p))"
    using keys(3) by (rule inj_on_distinct_key)
      (simp add: mapping_order_def mapping_key_of_def input_kind_value_inject)
  then have mappings: "sort_key mapping_order (rim_category_mappings p) = sort_key mapping_order (rim_category_mappings q)"
    "mapping_by_key (rim_category_mappings p) = mapping_by_key (rim_category_mappings q)"
    using same keys(3) by (auto intro: sort_key_perm_inj mapping_by_key_perm simp: same_facts_def)
  have roles: "normalize_role m (rim_records p) role = normalize_role m (rim_records q) role" for m role
    using same keys(1) by (intro normalize_role_perm) (simp_all add: same_facts_def)
  let ?dp = "rim_definitions p" and ?dq = "rim_definitions q"
  have "sort_key (\<lambda>v. (rsv_rule_set_id v, rsv_version v, rsv_rules_hash v)) (gd_rule_sets ?dp)
      = sort_key (\<lambda>v. (rsv_rule_set_id v, rsv_version v, rsv_rules_hash v)) (gd_rule_sets ?dq)"
    "sort_key (\<lambda>v. (avt_prompt_version v, avt_model_version v, avt_schema_version v)) (gd_analysis_versions ?dp)
      = sort_key (\<lambda>v. (avt_prompt_version v, avt_model_version v, avt_schema_version v)) (gd_analysis_versions ?dq)"
    using same by (auto intro!: sort_key_perm_inj inj_onI simp: same_facts_def)
  moreover have "?dp\<lparr>gd_rule_sets := xs, gd_analysis_versions := ys\<rparr> = ?dq\<lparr>gd_rule_sets := xs, gd_analysis_versions := ys\<rparr>" for xs ys
    using same by (cases ?dp; cases ?dq) (simp add: same_facts_def)
  ultimately have defs: "normalize_definitions ?dp = normalize_definitions ?dq"
    by (simp add: normalize_definitions_def)
  have d: "rim_report_date_seoul p = rim_report_date_seoul q" "rim_source_scope_version p = rim_source_scope_version q"
    using same by (simp_all add: same_facts_def)
  have rec: "p\<lparr>rim_windows := a, rim_definitions := b, rim_category_mappings := c, rim_records := e,
      rim_source_coverage := f\<rparr> = q\<lparr>rim_windows := a, rim_definitions := b, rim_category_mappings := c,
      rim_records := e, rim_source_coverage := f\<rparr>" for a b c e f
    using d by (cases p; cases q) simp
  show ?thesis unfolding normalize_manifest_def Let_def d(1) mappings roles coverage defs rec ..
qed

end
