(* ===== verification/Report_Envelope.thy ===== *)
theory Report_Envelope
  imports Report_Manifest
begin

text \<open>
  \<open>build_manifest\<close> and \<open>read_manifest\<close> of \<open>reporting/manifest.py\<close>: the canonical JSON of a manifest, its two
  digests and its compressed envelope.

  \<open>gzip.compress\<close>, \<open>gzip.decompress\<close> and \<open>model_validate_json\<close> are parameters; a decompression or a parse that
  raises is \<open>None\<close>.
\<close>

section \<open>JSON\<close>

fun role_value :: "report_role \<Rightarrow> string" where
  "role_value Role_PRIMARY = ''primary''"
| "role_value Role_COMPARISON = ''comparison''"

fun country_value :: "country \<Rightarrow> string" where
  "country_value Country_KR = ''kr''"
| "country_value Country_US = ''us''"

fun platform_value :: "source_platform \<Rightarrow> string" where
  "platform_value Platform_REDDIT = ''reddit''"
| "platform_value Platform_DCINSIDE = ''dcinside''"
| "platform_value Platform_TOSS_SECURITIES = ''toss_securities''"
| "platform_value Platform_NAVER_FINANCE = ''naver_finance''"
| "platform_value Platform_MANIFOLD = ''manifold''"

fun analysis_state_value :: "analysis_state \<Rightarrow> string" where
  "analysis_state_value Analysis_VALID = ''valid''"
| "analysis_state_value Analysis_PENDING = ''pending''"
| "analysis_state_value Analysis_BLOCKED_CAPABILITY = ''blocked_capability''"
| "analysis_state_value Analysis_FAILED_RETRYABLE = ''failed_retryable''"
| "analysis_state_value Analysis_FAILED_TERMINAL = ''failed_terminal''"
| "analysis_state_value Analysis_INVALID_OUTPUT = ''invalid_output''"

fun sentiment_value :: "sentiment \<Rightarrow> string" where
  "sentiment_value Sentiment_POSITIVE = ''positive''"
| "sentiment_value Sentiment_NEUTRAL = ''neutral''"
| "sentiment_value Sentiment_NEGATIVE = ''negative''"

fun selection_state_value :: "engagement_selection_state \<Rightarrow> string" where
  "selection_state_value Engagement_SELECTED = ''selected''"
| "selection_state_value Engagement_UNAVAILABLE = ''unavailable''"

definition date_text :: "seoul_date \<Rightarrow> string" where
  "date_text d = (case civil_from_days d of (y, m, n) \<Rightarrow> pad_int 4 y @ ''-'' @ pad_int 2 m @ ''-'' @ pad_int 2 n)"

definition JUuid :: "uuid \<Rightarrow> json" where "JUuid u = JStr (uuid_str u)"
definition JUtc :: "instant \<Rightarrow> json" where "JUtc t = JStr (utc_text t)"

definition window_value :: "report_window \<Rightarrow> json" where
  "window_value w = JObj [(''role'', JStr (role_value (rw_role w))), (''date_seoul'', JStr (date_text (rw_date_seoul w))),
     (''start_utc'', JUtc (rw_start_utc w)), (''end_utc'', JUtc (rw_end_utc w))]"

definition analysis_value :: "analysis_snapshot \<Rightarrow> json" where
  "analysis_value a = JObj
     [(''state'', JStr (analysis_state_value (as_state a))), (''analysis_id'', json_opt JUuid (as_analysis_id a)),
      (''output_hash'', json_opt JStr (as_output_hash a)), (''prompt_version'', json_opt JStr (as_prompt_version a)),
      (''model_version'', json_opt JStr (as_model_version a)), (''schema_version'', json_opt JStr (as_schema_version a)),
      (''analyzed_at'', json_opt JUtc (as_analyzed_at a)), (''relevance'', json_opt JBool (as_relevance a)),
      (''sentiment'', json_opt (\<lambda>s. JStr (sentiment_value s)) (as_sentiment a))]"

definition engagement_value :: "engagement_snapshot \<Rightarrow> json" where
  "engagement_value e = JObj
     [(''selection_state'', JStr (selection_state_value (es_selection_state e))),
      (''observation_id'', json_opt JUuid (es_observation_id e)),
      (''engagement_hash'', json_opt JStr (es_engagement_hash e)), (''observed_at'', json_opt JUtc (es_observed_at e)),
      (''comments_count'', json_opt JInt (es_comments_count e)),
      (''upvote_or_score'', json_opt JInt (es_upvote_or_score e))]"

definition rule_match_value :: "rule_match_snapshot \<Rightarrow> json" where
  "rule_match_value m = JObj
     [(''match_id'', JUuid (rm_match_id m)), (''match_hash'', JStr (rm_match_hash m)),
      (''rule_id'', JStr (rm_rule_id m)), (''rule_set_id'', JStr (rm_rule_set_id m)),
      (''rule_set_version'', JStr (rm_rule_set_version m)), (''normalized_phrase'', JStr (rm_normalized_phrase m)),
      (''match_present'', JBool (rm_match_present m)), (''mapped_category'', JStr (rm_mapped_category m))]"

definition topic_match_value :: "topic_match_snapshot \<Rightarrow> json" where
  "topic_match_value t = JObj
     [(''topic_key'', JStr (tm_topic_key t)), (''normalized_value'', JStr (tm_normalized_value t)),
      (''analysis_schema_version'', JStr (tm_analysis_schema_version t)),
      (''mapped_category'', JStr (tm_mapped_category t))]"

definition record_value :: "report_record \<Rightarrow> json" where
  "record_value r = JObj
     [(''ordinal'', JInt (rr_ordinal r)), (''role'', JStr (role_value (rr_role r))),
      (''source_id'', JUuid (rr_source_id r)), (''country'', JStr (country_value (rr_country r))),
      (''platform'', JStr (platform_value (rr_platform r))), (''community'', JStr (rr_community r)),
      (''post_version_id'', JUuid (rr_post_version_id r)), (''post_content_hash'', JStr (rr_post_content_hash r)),
      (''published_at_utc'', JUtc (rr_published_at_utc r)),
      (''published_date_seoul'', JStr (date_text (rr_published_date_seoul r))),
      (''source_publication_sequence'', JInt (rr_source_publication_sequence r)),
      (''source_publication_manifest_id'', JUuid (rr_source_publication_manifest_id r)),
      (''source_publication_manifest_hash'', JStr (rr_source_publication_manifest_hash r)),
      (''analysis'', analysis_value (rr_analysis r)),
      (''rule_matches'', JArr (map rule_match_value (rr_rule_matches r))),
      (''topic_matches'', JArr (map topic_match_value (rr_topic_matches r))),
      (''effective_categories'', JArr (map JStr (rr_effective_categories r))),
      (''engagement'', engagement_value (rr_engagement r))]"

definition coverage_value :: "source_coverage_item \<Rightarrow> json" where
  "coverage_value c = JObj
     [(''role'', JStr (role_value (sco_role c))), (''source_id'', JUuid (sco_source_id c)),
      (''country'', JStr (country_value (sco_country c))), (''platform'', JStr (platform_value (sco_platform c))),
      (''community'', JStr (sco_community c)), (''expected'', JBool (sco_expected c)),
      (''enabled'', JBool (sco_enabled c)),
      (''collection_status'', JStr (collection_status_value (sco_collection_status c))),
      (''expected_run_count'', JInt (sco_expected_run_count c)),
      (''successful_run_count'', JInt (sco_successful_run_count c)),
      (''failed_run_count'', JInt (sco_failed_run_count c)), (''skipped_run_count'', JInt (sco_skipped_run_count c)),
      (''candidate_count'', JInt (sco_candidate_count c)),
      (''valid_analysis_count'', JInt (sco_valid_analysis_count c)), (''pending_count'', JInt (sco_pending_count c)),
      (''relevant_count'', JInt (sco_relevant_count c)),
      (''cutoff_publication_sequence'', json_opt JInt (sco_cutoff_publication_sequence c)),
      (''cutoff_publication_manifest_id'', json_opt JUuid (sco_cutoff_publication_manifest_id c)),
      (''cutoff_publication_manifest_hash'', json_opt JStr (sco_cutoff_publication_manifest_hash c)),
      (''latest_successful_run_started_at'', json_opt JUtc (sco_latest_successful_run_started_at c)),
      (''latest_successful_run_finished_at'', json_opt JUtc (sco_latest_successful_run_finished_at c)),
      (''latest_publication_committed_at'', json_opt JUtc (sco_latest_publication_committed_at c)),
      (''latest_attempt_finished_at'', json_opt JUtc (sco_latest_attempt_finished_at c)),
      (''status_observed_at'', json_opt JUtc (sco_status_observed_at c)),
      (''coverage_numerator'', JInt (sco_coverage_numerator c)),
      (''coverage_denominator'', JInt (sco_coverage_denominator c)),
      (''coverage_decimal'', json_opt JStr (sco_coverage_decimal c))]"

definition constants_value :: "formula_constants \<Rightarrow> json" where
  "constants_value c = JObj
     [(''complete_coverage_numerator'', JInt (fc_complete_coverage_numerator c)),
      (''complete_coverage_denominator'', JInt (fc_complete_coverage_denominator c)),
      (''highlight_limit'', JInt (int (fc_highlight_limit c))),
      (''rising_keyword_limit'', JInt (int (fc_rising_keyword_limit c))),
      (''rising_keyword_min_primary_count'', JInt (fc_rising_keyword_min_primary_count c)),
      (''zero_denominator'', JStr (fc_zero_denominator c)),
      (''missing_analysis_semantics'', JStr (fc_missing_analysis_semantics c))]"

definition definitions_value :: "governing_definitions \<Rightarrow> json" where
  "definitions_value d = JObj
     [(''formula_version'', JStr (gd_formula_version d)), (''formula_hash'', JStr (gd_formula_hash d)),
      (''constants'', constants_value (gd_constants d)), (''metric_version'', JStr (gd_metric_version d)),
      (''metric_hash'', JStr (gd_metric_hash d)), (''category_version'', JStr (gd_category_version d)),
      (''category_hash'', JStr (gd_category_hash d)),
      (''rule_sets'', JArr (map (\<lambda>v. JObj [(''rule_set_id'', JStr (rsv_rule_set_id v)),
         (''version'', JStr (rsv_version v)), (''rules_hash'', JStr (rsv_rules_hash v))]) (gd_rule_sets d))),
      (''analysis_versions'', JArr (map (\<lambda>v. JObj [(''prompt_version'', JStr (avt_prompt_version v)),
         (''model_version'', JStr (avt_model_version v)), (''schema_version'', JStr (avt_schema_version v))])
         (gd_analysis_versions d)))]"

definition mapping_value :: "category_mapping_snapshot \<Rightarrow> json" where
  "mapping_value m = JObj
     [(''input_kind'', JStr (input_kind_value (cm_input_kind m))),
      (''rule_or_topic_key'', JStr (cm_rule_or_topic_key m)), (''version'', JStr (cm_version m)),
      (''normalized_value'', JStr (cm_normalized_value m)), (''category'', JStr (cm_category m))]"

definition manifest_value :: "report_input_manifest \<Rightarrow> json" where
  "manifest_value p = JObj
     [(''schema'', JStr ''report-input-manifest/v1''),
      (''report_date_seoul'', JStr (date_text (rim_report_date_seoul p))),
      (''windows'', JArr [window_value (fst (rim_windows p)), window_value (snd (rim_windows p))]),
      (''source_scope_version'', JStr (rim_source_scope_version p)),
      (''definitions'', definitions_value (rim_definitions p)),
      (''category_mappings'', JArr (map mapping_value (rim_category_mappings p))),
      (''records'', JArr (map record_value (rim_records p))),
      (''source_coverage'', JArr (map coverage_value (rim_source_coverage p)))]"

definition manifest_bytes :: "(string \<Rightarrow> string) \<Rightarrow> report_input_manifest \<Rightarrow> string" where
  "manifest_bytes nfc p = canonical_bytes nfc (manifest_value p)"

section \<open>The envelope\<close>

text \<open>\<open>ManifestCodec\<close> has the single member \<open>GZIP\<close>, so the codec field carries no information.\<close>

record manifest_envelope =
  me_compressed_payload :: string
  me_uncompressed_byte_length :: int
  me_manifest_payload_sha256 :: string
  me_input_set_hash :: string

record manifest_build =
  mb_payload :: report_input_manifest
  mb_envelope :: manifest_envelope
  mb_canonical_bytes :: string

definition input_set_hash :: "string \<Rightarrow> string" where
  "input_set_hash serialized = sha256_hex (''report-input-manifest/v1'' @ [char_of (10 :: nat)] @ serialized)"

definition build_manifest ::
    "(string \<Rightarrow> string) \<Rightarrow> (string \<Rightarrow> string) \<Rightarrow> report_input_manifest \<Rightarrow> report_error + manifest_build" where
  "build_manifest nfc gzip payload =
     (case normalize_manifest payload of Inl e \<Rightarrow> Inl e
      | Inr normalized \<Rightarrow>
        (let serialized = manifest_bytes nfc normalized
         in Inr \<lparr>mb_payload = normalized,
              mb_envelope = \<lparr>me_compressed_payload = gzip serialized,
                me_uncompressed_byte_length = int (length serialized),
                me_manifest_payload_sha256 = sha256_hex serialized,
                me_input_set_hash = input_set_hash serialized\<rparr>,
              mb_canonical_bytes = serialized\<rparr>))"

definition read_manifest ::
    "(string \<Rightarrow> string) \<Rightarrow> (string \<Rightarrow> string option) \<Rightarrow> (string \<Rightarrow> report_input_manifest option)
      \<Rightarrow> manifest_envelope \<Rightarrow> report_error + report_input_manifest" where
  "read_manifest nfc gunzip parse envelope =
     (case gunzip (me_compressed_payload envelope) of
        None \<Rightarrow> Inl (Integrity_Error ''manifest_decompression_failed'')
      | Some serialized \<Rightarrow>
        if int (length serialized) \<noteq> me_uncompressed_byte_length envelope
           \<or> sha256_hex serialized \<noteq> me_manifest_payload_sha256 envelope
           \<or> input_set_hash serialized \<noteq> me_input_set_hash envelope
        then Inl (Integrity_Error ''manifest_identity_mismatch'')
        else (case parse serialized of
          None \<Rightarrow> Inl (Integrity_Error ''manifest_schema_invalid'')
        | Some payload \<Rightarrow>
          (case normalize_manifest payload of Inl e \<Rightarrow> Inl e
           | Inr normalized \<Rightarrow> if manifest_bytes nfc normalized \<noteq> serialized
               then Inl (Integrity_Error ''manifest_not_canonical'') else Inr payload)))"

lemma build_manifestD:
  assumes "build_manifest nfc gzip p = Inr b"
  shows "normalize_manifest p = Inr (mb_payload b)" "mb_canonical_bytes b = manifest_bytes nfc (mb_payload b)"
    "me_input_set_hash (mb_envelope b) = input_set_hash (mb_canonical_bytes b)"
  using assms by (auto simp: build_manifest_def Let_def split: sum.splits)

section \<open>Building is total on valid manifests\<close>

lemma derive_categories_total:
  assumes "\<forall>m \<in> set rules. mappings (rule_key m) \<noteq> None" and "\<forall>t \<in> set topics. mappings (topic_key t) \<noteq> None"
  shows "\<exists>cs. derive_categories a rules topics mappings = Inr cs"
proof -
  have "\<not> list_ex (\<lambda>k. mappings k = None) (map rule_key (filter rm_match_present rules) @ map topic_key topics)"
    using assms by (auto simp: list_ex_iff)
  then show ?thesis by (simp add: derive_categories_def Let_def)
qed

lemma normalize_manifest_total:
  assumes ok: "manifest_ok p"
  shows "\<exists>q. normalize_manifest p = Inr q"
proof -
  let ?m = "mapping_by_key (rim_category_mappings p)"
  have keys: "distinct (map mapping_key_of (rim_category_mappings p))" using ok by (simp add: manifest_ok_def)
  have known: "?m k \<noteq> None" if "\<exists>c \<in> set (rim_category_mappings p). mapping_key_of c = k \<and> cm_category c = x" for k x
    using that mapping_by_key_Some [OF keys, of k] by auto
  have one: "\<exists>s. normalize_record r n ?m = Inr s" if "r \<in> set (rim_records p)" for r n
  proof -
    have "governed p r" using that ok by (simp add: manifest_ok_def)
    then have "\<forall>m \<in> set (ordered_rules r). ?m (rule_key m) \<noteq> None"
      "\<forall>t \<in> set (ordered_topics r). ?m (topic_key t) \<noteq> None"
      unfolding governed_def ordered_rules_def ordered_topics_def set_sort using known by blast+
    from derive_categories_total [OF this, of "rr_analysis r"] obtain cs
      where "derive_categories (rr_analysis r) (ordered_rules r) (ordered_topics r) ?m = Inr cs" by blast
    then show ?thesis by (simp add: normalize_record_def)
  qed
  have "\<exists>ss. normalize_role ?m (rim_records p) role = Inr ss" for role
  proof -
    have "snd x \<in> set (rim_records p)" if "x \<in> set (enumerate 0 (sort_key record_order
        (filter (\<lambda>r. rr_role r = role) (rim_records p))))" for x
    proof -
      have "snd x \<in> set (map snd (enumerate 0 (sort_key record_order
        (filter (\<lambda>r. rr_role r = role) (rim_records p)))))" using that unfolding set_map by (rule imageI)
      then show ?thesis unfolding map_snd_enumerate by simp
    qed
    then show ?thesis unfolding normalize_role_def by (intro seq_result_total) (auto simp: one case_prod_unfold)
  qed
  then show ?thesis unfolding normalize_manifest_def Let_def by (metis sum.case(2))
qed

section \<open>Properties of the retained manifest\<close>

text \<open>The input of a report is a function of the facts, not of the order in which the database returned them:
  for a valid manifest, permuting the records, the mappings, the coverage and the versions changes neither
  the canonical payload nor the stored bytes nor any of the two digests. The build itself cannot fail.\<close>

theorem manifest_order_independent:
  assumes "validate_manifest p = Inr p" and "same_facts p q"
  shows "\<exists>b. build_manifest nfc gzip p = Inr b \<and> build_manifest nfc gzip q = Inr b"
proof -
  have ok: "manifest_ok p" using assms(1) by (simp add: validate_manifest_Inr)
  then obtain n where "normalize_manifest p = Inr n" using normalize_manifest_total by blast
  moreover from this normalize_manifest_order [OF ok assms(2)] have "normalize_manifest q = Inr n" by simp
  ultimately show ?thesis by (simp add: build_manifest_def Let_def)
qed

text \<open>Storing and reading back, shared by the properties of manifests and reports.\<close>

lemma manifest_roundtrip_lemma:
  assumes valid: "validate_manifest p = Inr p"
    and build: "build_manifest nfc gzip p = Inr b"
    and unzip: "gunzip (gzip (mb_canonical_bytes b)) = Some (mb_canonical_bytes b)"
    and parse: "validate_manifest (mb_payload b) = Inr (mb_payload b) \<Longrightarrow>
      parse (mb_canonical_bytes b) = Some (mb_payload b)"
  shows "read_manifest nfc gunzip parse (mb_envelope b) = Inr (mb_payload b)
    \<and> build_manifest nfc gzip (mb_payload b) = Inr b"
proof -
  have ok: "manifest_ok p" using valid by (simp add: validate_manifest_Inr)
  obtain n where n: "normalize_manifest p = Inr n" and b: "mb_payload b = n" "mb_canonical_bytes b = manifest_bytes nfc n"
    "mb_envelope b = \<lparr>me_compressed_payload = gzip (manifest_bytes nfc n),
       me_uncompressed_byte_length = int (length (manifest_bytes nfc n)),
       me_manifest_payload_sha256 = sha256_hex (manifest_bytes nfc n),
       me_input_set_hash = input_set_hash (manifest_bytes nfc n)\<rparr>"
    using build by (auto simp: build_manifest_def Let_def split: sum.splits)
  have "validate_manifest n = Inr n" using normalized_manifest_ok [OF ok n] by (simp add: validate_manifest_Inr)
  moreover have "normalize_manifest n = Inr n"
    using normalize_manifest_idem [OF _ n] ok by (simp add: manifest_ok_def)
  ultimately show ?thesis
    using unzip parse build n by (simp add: read_manifest_def build_manifest_def Let_def b)
qed

text \<open>(C29) A stored manifest can be read back: the envelope of a valid manifest passes every integrity check and
  yields the canonical payload it was built from, and that payload is a fixed point, building it again gives
  the same envelope. The hypotheses are the round trips of \<open>gzip\<close> and of the JSON parser on a valid
  manifest; the property shows that the canonical manifest is one.\<close>

theorem manifest_roundtrip:
  assumes "validate_manifest p = Inr p"
    and "build_manifest nfc gzip p = Inr b"
    and "gunzip (gzip (mb_canonical_bytes b)) = Some (mb_canonical_bytes b)"
    and "validate_manifest (mb_payload b) = Inr (mb_payload b) \<Longrightarrow>
      parse (mb_canonical_bytes b) = Some (mb_payload b)"
  shows "read_manifest nfc gunzip parse (mb_envelope b) = Inr (mb_payload b)
    \<and> build_manifest nfc gzip (mb_payload b) = Inr b"
  using assms by (rule manifest_roundtrip_lemma)

lemma read_manifestD:
  assumes "read_manifest nfc gunzip parse e = Inr p"
  obtains serialized n where "gunzip (me_compressed_payload e) = Some serialized"
    "me_uncompressed_byte_length e = int (length serialized)" "me_input_set_hash e = input_set_hash serialized"
    "me_manifest_payload_sha256 e = sha256_hex serialized" "parse serialized = Some p"
    "normalize_manifest p = Inr n" "manifest_bytes nfc n = serialized"
  using assms by (auto simp: read_manifest_def split: option.splits if_splits sum.splits)

text \<open>The input digest identifies the input: two envelopes that are accepted under the same digest hold the
  same manifest, unless their contents are a concrete collision of SHA-256.\<close>

theorem input_set_hash_binds:
  assumes "read_manifest nfc gunzip parse e = Inr p" and "read_manifest nfc gunzip parse f = Inr q"
    and "me_input_set_hash e = me_input_set_hash f"
  shows "p = q \<or> (\<exists>s t. gunzip (me_compressed_payload e) = Some s \<and> gunzip (me_compressed_payload f) = Some t
    \<and> s \<noteq> t \<and> input_set_hash s = input_set_hash t)"
proof -
  obtain s where s: "gunzip (me_compressed_payload e) = Some s" "me_input_set_hash e = input_set_hash s" "parse s = Some p"
    using assms(1) by (rule read_manifestD)
  obtain t where t: "gunzip (me_compressed_payload f) = Some t" "me_input_set_hash f = input_set_hash t" "parse t = Some q"
    using assms(2) by (rule read_manifestD)
  show ?thesis
  proof (cases "s = t")
    case True
    then show ?thesis using s(3) t(3) by simp
  next
    case False
    then show ?thesis using s t assms(3) by auto
  qed
qed

section \<open>An example\<close>

definition example_analysis :: "analysis_snapshot" where
  "example_analysis = \<lparr>as_state = Analysis_VALID, as_analysis_id = Some 9, as_output_hash = Some (sha256_hex ''o''),
     as_prompt_version = Some ''p1'', as_model_version = Some ''m1'', as_schema_version = Some ''s1'',
     as_analyzed_at = Some 0, as_relevance = Some True, as_sentiment = Some Sentiment_POSITIVE\<rparr>"

definition example_record :: "uuid \<Rightarrow> report_record" where
  "example_record u = \<lparr>rr_ordinal = 0, rr_role = Role_PRIMARY, rr_source_id = 7, rr_country = Country_US,
     rr_platform = Platform_REDDIT, rr_community = ''stocks'', rr_post_version_id = u,
     rr_post_content_hash = sha256_hex ''c'', rr_published_at_utc = 0, rr_published_date_seoul = 0,
     rr_source_publication_sequence = 1, rr_source_publication_manifest_id = 8,
     rr_source_publication_manifest_hash = sha256_hex ''m'', rr_analysis = example_analysis,
     rr_rule_matches = [\<lparr>rm_match_id = u, rm_match_hash = sha256_hex ''h'', rm_rule_id = ''r1'', rm_rule_set_id = ''rs'',
       rm_rule_set_version = ''v1'', rm_normalized_phrase = ''moon'', rm_match_present = True,
       rm_mapped_category = ''hype''\<rparr>],
     rr_topic_matches = [], rr_effective_categories = [],
     rr_engagement = \<lparr>es_selection_state = Engagement_UNAVAILABLE, es_observation_id = None, es_engagement_hash = None,
       es_observed_at = None, es_comments_count = None, es_upvote_or_score = None\<rparr>\<rparr>"

definition example_manifest :: "uuid list \<Rightarrow> report_input_manifest" where
  "example_manifest us = \<lparr>rim_report_date_seoul = 0,
     rim_windows = (window_for 0 Role_PRIMARY, window_for 0 Role_COMPARISON), rim_source_scope_version = ''scope'',
     rim_definitions = \<lparr>gd_formula_version = ''daily-report-formula-v1'', gd_formula_hash = sha256_hex ''f'',
       gd_constants = literal_constants, gd_metric_version = ''1'', gd_metric_hash = sha256_hex ''m'',
       gd_category_version = ''1'', gd_category_hash = sha256_hex ''c'',
       gd_rule_sets = [\<lparr>rsv_rule_set_id = ''rs'', rsv_version = ''v1'', rsv_rules_hash = sha256_hex ''r''\<rparr>],
       gd_analysis_versions = [\<lparr>avt_prompt_version = ''p1'', avt_model_version = ''m1'', avt_schema_version = ''s1''\<rparr>]\<rparr>,
     rim_category_mappings = [\<lparr>cm_input_kind = Input_rule, cm_rule_or_topic_key = ''r1'', cm_version = ''v1'',
       cm_normalized_value = ''moon'', cm_category = ''hype''\<rparr>],
     rim_records = map example_record us, rim_source_coverage = []\<rparr>"

lemma example_record_ok:
  "valid_publication 0 (example_record u)" "governed (example_manifest us) (example_record u)"
  "record_identity (example_record u) = (Role_PRIMARY, uuid_str u)"
  by (simp_all add: valid_publication_def governed_def example_record_def example_manifest_def example_analysis_def
      record_identity_def in_window_def window_fields duration_defs mapping_key_of_def rule_key_def)

lemma example_manifest_valid:
  assumes "distinct us"
  shows "validate_manifest (example_manifest us) = Inr (example_manifest us)"
proof -
  have "distinct (map record_identity (map example_record us))"
    using assms by (simp add: example_record_ok comp_def distinct_map inj_on_def uuid_str_inject)
  moreover have "rim_report_date_seoul (example_manifest us) = 0"
    "rim_windows (example_manifest us) = (window_for 0 Role_PRIMARY, window_for 0 Role_COMPARISON)"
    "rim_records (example_manifest us) = map example_record us" "rim_source_coverage (example_manifest us) = []"
    "distinct (map mapping_key_of (rim_category_mappings (example_manifest us)))"
    by (simp_all add: example_manifest_def)
  ultimately show ?thesis
    unfolding validate_manifest_Inr manifest_ok_def by (auto simp: role_all example_record_ok)
qed

theorem manifest_order_independent_witness:
  "\<exists>b. build_manifest id id (example_manifest [1, 2]) = Inr b \<and> build_manifest id id (example_manifest [2, 1]) = Inr b"
  by (rule manifest_order_independent [OF example_manifest_valid])
     (simp_all add: same_facts_def example_manifest_def)

theorem manifest_roundtrip_witness:
  "\<exists>b. build_manifest id id (example_manifest [1, 2]) = Inr b
     \<and> read_manifest id Some (\<lambda>s. if s = mb_canonical_bytes b then Some (mb_payload b) else None) (mb_envelope b)
         = Inr (mb_payload b)"
proof -
  have valid: "validate_manifest (example_manifest [1, 2]) = Inr (example_manifest [1, 2])"
    by (rule example_manifest_valid) simp
  then obtain n where "normalize_manifest (example_manifest [1, 2]) = Inr n"
    using normalize_manifest_total by (auto simp: validate_manifest_Inr)
  then obtain b where b: "build_manifest id id (example_manifest [1, 2]) = Inr b"
    by (auto simp: build_manifest_def Let_def)
  then have "read_manifest id Some (\<lambda>s. if s = mb_canonical_bytes b then Some (mb_payload b) else None) (mb_envelope b)
         = Inr (mb_payload b)"
    using manifest_roundtrip [OF valid b, of Some "\<lambda>s. if s = mb_canonical_bytes b then Some (mb_payload b) else None"]
    by simp
  with b show ?thesis by blast
qed

theorem input_set_hash_binds_witness:
  "\<exists>b. build_manifest id id (example_manifest [1]) = Inr b
     \<and> (mb_payload b = mb_payload b \<or> (\<exists>s t. Some (me_compressed_payload (mb_envelope b)) = Some s
          \<and> Some (me_compressed_payload (mb_envelope b)) = Some t \<and> s \<noteq> t \<and> input_set_hash s = input_set_hash t))"
proof -
  have valid: "validate_manifest (example_manifest [1]) = Inr (example_manifest [1])"
    by (rule example_manifest_valid) simp
  then obtain n where "normalize_manifest (example_manifest [1]) = Inr n"
    using normalize_manifest_total by (auto simp: validate_manifest_Inr)
  then obtain b where b: "build_manifest id id (example_manifest [1]) = Inr b"
    by (auto simp: build_manifest_def Let_def)
  define parse where "parse s = (if s = mb_canonical_bytes b then Some (mb_payload b) else None)" for s
  have "read_manifest id Some parse (mb_envelope b) = Inr (mb_payload b)"
    using manifest_roundtrip_lemma [OF valid b, of Some parse] by (simp add: parse_def)
  from input_set_hash_binds [OF this this refl] b show ?thesis by blast
qed

end
