(* ===== verification/Report_Formula.thy ===== *)
theory Report_Formula
  imports Report_Envelope
begin

text \<open>
  \<open>reporting/rankings.py\<close>, \<open>report_schema.py\<close> and \<open>formula.py\<close>: the daily report computed from a retained
  manifest.

  A \<open>Counter\<close> is the function that counts; the order in which a \<open>set\<close> or a \<open>Counter\<close> is iterated is not
  observable, because every list made from one is sorted by a key that tells its elements apart. A
  \<open>Fraction\<close> is a rational number.
\<close>

section \<open>Rankings\<close>

fun sentiment_weight :: "sentiment option \<Rightarrow> int" where
  "sentiment_weight (Some Sentiment_POSITIVE) = 1"
| "sentiment_weight (Some Sentiment_NEUTRAL) = 0"
| "sentiment_weight None = 0"
| "sentiment_weight (Some Sentiment_NEGATIVE) = -1"

definition category_counts :: "report_record list \<Rightarrow> string \<Rightarrow> int" where
  "category_counts records category = int (count_list (concat (map rr_effective_categories records)) category)"

definition net_sentiment :: "report_record list \<Rightarrow> string \<Rightarrow> int" where
  "net_sentiment records category =
     (\<Sum>r \<leftarrow> records. sentiment_weight (as_sentiment (rr_analysis r))
        * int (count_list (rr_effective_categories r) category))"

record highlight =
  hl_category :: string
  hl_primary_count :: int
  hl_comparison_count :: int
  hl_delta :: int
  hl_delta_rate_numerator :: int
  hl_delta_rate_denominator :: int
  hl_delta_rate_decimal :: "string option"
  hl_net_sentiment :: int

definition highlight_order :: "report_record list \<Rightarrow> string \<Rightarrow> int \<times> int \<times> string" where
  "highlight_order primary category =
     (- category_counts primary category, - net_sentiment primary category, category)"

definition highlight_of :: "report_record list \<Rightarrow> report_record list \<Rightarrow> string \<Rightarrow> highlight" where
  "highlight_of primary comparison category =
     (let p = category_counts primary category; c = category_counts comparison category
      in \<lparr>hl_category = category, hl_primary_count = p, hl_comparison_count = c, hl_delta = p - c,
          hl_delta_rate_numerator = p - c, hl_delta_rate_denominator = c,
          hl_delta_rate_decimal = ratio_decimal (p - c) c, hl_net_sentiment = net_sentiment primary category\<rparr>)"

definition rank_highlights ::
    "report_record list \<Rightarrow> report_record list \<Rightarrow> formula_constants \<Rightarrow> highlight list" where
  "rank_highlights primary comparison constants =
     map (highlight_of primary comparison)
       (take (fc_highlight_limit constants)
         (sort_key (highlight_order primary) (remdups (concat (map rr_effective_categories primary)))))"

definition record_phrases :: "report_record \<Rightarrow> string list" where
  "record_phrases r = remdups (map rm_normalized_phrase (filter rm_match_present (rr_rule_matches r)))"

definition phrase_counts :: "report_record list \<Rightarrow> string \<Rightarrow> int" where
  "phrase_counts records phrase = count_where (\<lambda>r. phrase \<in> set (record_phrases r)) records"

record rising_keyword =
  rk_phrase :: string
  rk_primary_count :: int
  rk_comparison_count :: int
  rk_delta :: int
  rk_delta_rate_numerator :: int
  rk_delta_rate_denominator :: int
  rk_delta_rate_decimal :: "string option"

definition rising_rate :: "report_record list \<Rightarrow> report_record list \<Rightarrow> string \<Rightarrow> rat" where
  "rising_rate primary comparison phrase =
     of_int (phrase_counts primary phrase - phrase_counts comparison phrase)
       / of_int (phrase_counts comparison phrase)"

definition rated_order :: "report_record list \<Rightarrow> report_record list \<Rightarrow> string \<Rightarrow> rat \<times> int \<times> string" where
  "rated_order primary comparison phrase =
     (- rising_rate primary comparison phrase, - phrase_counts primary phrase, phrase)"

definition unrated_order :: "report_record list \<Rightarrow> string \<Rightarrow> int \<times> string" where
  "unrated_order primary phrase = (- phrase_counts primary phrase, phrase)"

definition rising_of :: "report_record list \<Rightarrow> report_record list \<Rightarrow> string \<Rightarrow> rising_keyword" where
  "rising_of primary comparison phrase =
     (let p = phrase_counts primary phrase; c = phrase_counts comparison phrase
      in \<lparr>rk_phrase = phrase, rk_primary_count = p, rk_comparison_count = c, rk_delta = p - c,
          rk_delta_rate_numerator = p - c, rk_delta_rate_denominator = c,
          rk_delta_rate_decimal = ratio_decimal (p - c) c\<rparr>)"

definition rank_rising_keywords ::
    "report_record list \<Rightarrow> report_record list \<Rightarrow> formula_constants \<Rightarrow> rising_keyword list" where
  "rank_rising_keywords primary comparison constants =
     (let eligible = filter (\<lambda>phrase. fc_rising_keyword_min_primary_count constants \<le> phrase_counts primary phrase)
            (remdups (concat (map record_phrases primary)));
          rated = sort_key (rated_order primary comparison)
            (filter (\<lambda>phrase. 0 < phrase_counts comparison phrase) eligible);
          unrated = sort_key (unrated_order primary)
            (filter (\<lambda>phrase. phrase_counts comparison phrase = 0) eligible)
      in map (rising_of primary comparison) (take (fc_rising_keyword_limit constants) (rated @ unrated)))"

section \<open>The report\<close>

record daily_report_payload =
  drp_report_date_seoul :: seoul_date
  drp_windows :: "report_window \<times> report_window"
  drp_source_scope_version :: string
  drp_input_set_hash :: string
  drp_manifest_payload_sha256 :: string
  drp_formula_version :: string
  drp_formula_hash :: string
  drp_metric_version :: string
  drp_metric_hash :: string
  drp_category_version :: string
  drp_category_hash :: string
  drp_candidate_count :: int
  drp_valid_analysis_count :: int
  drp_pending_count :: int
  drp_relevant_count :: int
  drp_positive_count :: int
  drp_neutral_count :: int
  drp_negative_count :: int
  drp_unknown_sentiment_count :: int
  drp_analysis_coverage_numerator :: int
  drp_analysis_coverage_denominator :: int
  drp_analysis_coverage_decimal :: "string option"
  drp_comments_sum :: "int option"
  drp_comments_known_count :: int
  drp_comments_unknown_count :: int
  drp_score_sum :: "int option"
  drp_score_known_count :: int
  drp_score_unknown_count :: int
  drp_highlights :: "highlight list"
  drp_rising_keywords :: "rising_keyword list"
  drp_source_coverage :: "source_coverage_item list"
  drp_status :: report_status

fun report_status_value :: "report_status \<Rightarrow> string" where
  "report_status_value Report_COMPLETE = ''complete''"
| "report_status_value Report_PARTIAL = ''partial''"

definition highlight_value :: "highlight \<Rightarrow> json" where
  "highlight_value h = JObj
     [(''category'', JStr (hl_category h)), (''primary_count'', JInt (hl_primary_count h)),
      (''comparison_count'', JInt (hl_comparison_count h)), (''delta'', JInt (hl_delta h)),
      (''delta_rate_numerator'', JInt (hl_delta_rate_numerator h)),
      (''delta_rate_denominator'', JInt (hl_delta_rate_denominator h)),
      (''delta_rate_decimal'', json_opt JStr (hl_delta_rate_decimal h)),
      (''net_sentiment'', JInt (hl_net_sentiment h))]"

definition rising_value :: "rising_keyword \<Rightarrow> json" where
  "rising_value k = JObj
     [(''phrase'', JStr (rk_phrase k)), (''primary_count'', JInt (rk_primary_count k)),
      (''comparison_count'', JInt (rk_comparison_count k)), (''delta'', JInt (rk_delta k)),
      (''delta_rate_numerator'', JInt (rk_delta_rate_numerator k)),
      (''delta_rate_denominator'', JInt (rk_delta_rate_denominator k)),
      (''delta_rate_decimal'', json_opt JStr (rk_delta_rate_decimal k))]"

definition report_value :: "daily_report_payload \<Rightarrow> json" where
  "report_value r = JObj
     [(''schema'', JStr ''daily-report-payload/v1''),
      (''report_date_seoul'', JStr (date_text (drp_report_date_seoul r))),
      (''windows'', JArr [window_value (fst (drp_windows r)), window_value (snd (drp_windows r))]),
      (''source_scope_version'', JStr (drp_source_scope_version r)),
      (''input_set_hash'', JStr (drp_input_set_hash r)),
      (''manifest_payload_sha256'', JStr (drp_manifest_payload_sha256 r)),
      (''formula_version'', JStr (drp_formula_version r)), (''formula_hash'', JStr (drp_formula_hash r)),
      (''metric_version'', JStr (drp_metric_version r)), (''metric_hash'', JStr (drp_metric_hash r)),
      (''category_version'', JStr (drp_category_version r)), (''category_hash'', JStr (drp_category_hash r)),
      (''candidate_count'', JInt (drp_candidate_count r)),
      (''valid_analysis_count'', JInt (drp_valid_analysis_count r)),
      (''pending_count'', JInt (drp_pending_count r)), (''relevant_count'', JInt (drp_relevant_count r)),
      (''positive_count'', JInt (drp_positive_count r)), (''neutral_count'', JInt (drp_neutral_count r)),
      (''negative_count'', JInt (drp_negative_count r)),
      (''unknown_sentiment_count'', JInt (drp_unknown_sentiment_count r)),
      (''analysis_coverage_numerator'', JInt (drp_analysis_coverage_numerator r)),
      (''analysis_coverage_denominator'', JInt (drp_analysis_coverage_denominator r)),
      (''analysis_coverage_decimal'', json_opt JStr (drp_analysis_coverage_decimal r)),
      (''comments_sum'', json_opt JInt (drp_comments_sum r)),
      (''comments_known_count'', JInt (drp_comments_known_count r)),
      (''comments_unknown_count'', JInt (drp_comments_unknown_count r)),
      (''score_sum'', json_opt JInt (drp_score_sum r)), (''score_known_count'', JInt (drp_score_known_count r)),
      (''score_unknown_count'', JInt (drp_score_unknown_count r)),
      (''highlights'', JArr (map highlight_value (drp_highlights r))),
      (''rising_keywords'', JArr (map rising_value (drp_rising_keywords r))),
      (''source_coverage'', JArr (map coverage_value (drp_source_coverage r))),
      (''status'', JStr (report_status_value (drp_status r)))]"

record report_build =
  rb_manifest :: manifest_build
  rb_payload :: daily_report_payload
  rb_canonical_bytes :: string
  rb_payload_sha256 :: string

definition verify_coverage :: "report_input_manifest \<Rightarrow> report_error + unit" where
  "verify_coverage p =
     (if \<not> (\<lambda>r. (rr_role r, rr_source_id r)) ` set (rim_records p) \<subseteq> coverage_key ` set (rim_source_coverage p)
      then Inl (Corrupt_Error ''source_coverage_missing'')
      else case seq_result (\<lambda>c.
          let records = filter (\<lambda>r. rr_role r = sco_role c \<and> rr_source_id r = sco_source_id c) (rim_records p);
              valid = count_where is_valid_record records;
              relevant = count_where (\<lambda>r. as_relevance (rr_analysis r) = Some True) records;
              n = int (length records)
          in if (n, valid, n - valid, relevant)
                \<noteq> (sco_candidate_count c, sco_valid_analysis_count c, sco_pending_count c, sco_relevant_count c)
             then Inl (Corrupt_Error ''source_coverage_count_mismatch'')
             else require (list_all (\<lambda>r. (rr_country r, rr_platform r, rr_community r)
                  = (sco_country c, sco_platform c, sco_community c)) records)
               (Corrupt_Error ''source_coverage_dimension_mismatch'') ()) (rim_source_coverage p) of
        Inl e \<Rightarrow> Inl e | Inr _ \<Rightarrow> Inr ())"

record engagement_totals =
  et_comments_sum :: "int option"
  et_comments_known :: int
  et_comments_unknown :: int
  et_score_sum :: "int option"
  et_score_known :: int
  et_score_unknown :: int

definition engagement :: "report_record list \<Rightarrow> engagement_totals" where
  "engagement records =
     (let comments = map (\<lambda>r. es_comments_count (rr_engagement r)) records;
          scores = map (\<lambda>r. es_upvote_or_score (rr_engagement r)) records;
          known_comments = List.map_filter id comments;
          known_scores = List.map_filter id scores
      in \<lparr>et_comments_sum = (if known_comments \<noteq> [] then Some (sum_list known_comments) else None),
          et_comments_known = int (length known_comments),
          et_comments_unknown = int (length comments) - int (length known_comments),
          et_score_sum = (if known_scores \<noteq> [] then Some (sum_list known_scores) else None),
          et_score_known = int (length known_scores),
          et_score_unknown = int (length scores) - int (length known_scores)\<rparr>)"

definition project_values :: "manifest_build \<Rightarrow> daily_report_payload" where
  "project_values manifest =
     (let n = mb_payload manifest;
          primary_records = filter (\<lambda>r. rr_role r = Role_PRIMARY) (rim_records n);
          comparison_records = filter (\<lambda>r. rr_role r = Role_COMPARISON) (rim_records n);
          primary = filter is_relevant_record primary_records;
          comparison = filter is_relevant_record comparison_records;
          candidate = int (length primary_records);
          valid = count_where is_valid_record primary_records;
          sentiments = (\<lambda>s. count_where (\<lambda>r. as_sentiment (rr_analysis r) = s) primary);
          totals = engagement primary;
          constants = gd_constants (rim_definitions n);
          primary_sources_complete = list_all (\<lambda>c. sco_collection_status c = Coverage_COMPLETE)
            (filter (\<lambda>c. sco_role c = Role_PRIMARY \<and> sco_expected c) (rim_source_coverage n));
          analysis_complete = (candidate = 0
            \<or> candidate * fc_complete_coverage_numerator constants \<le> valid * fc_complete_coverage_denominator constants);
          definitions = rim_definitions n
      in \<lparr>drp_report_date_seoul = rim_report_date_seoul n, drp_windows = rim_windows n,
          drp_source_scope_version = rim_source_scope_version n,
          drp_input_set_hash = me_input_set_hash (mb_envelope manifest),
          drp_manifest_payload_sha256 = me_manifest_payload_sha256 (mb_envelope manifest),
          drp_formula_version = gd_formula_version definitions, drp_formula_hash = gd_formula_hash definitions,
          drp_metric_version = gd_metric_version definitions, drp_metric_hash = gd_metric_hash definitions,
          drp_category_version = gd_category_version definitions, drp_category_hash = gd_category_hash definitions,
          drp_candidate_count = candidate, drp_valid_analysis_count = valid, drp_pending_count = candidate - valid,
          drp_relevant_count = int (length primary),
          drp_positive_count = sentiments (Some Sentiment_POSITIVE),
          drp_neutral_count = sentiments (Some Sentiment_NEUTRAL),
          drp_negative_count = sentiments (Some Sentiment_NEGATIVE),
          drp_unknown_sentiment_count = sentiments None,
          drp_analysis_coverage_numerator = valid, drp_analysis_coverage_denominator = candidate,
          drp_analysis_coverage_decimal = ratio_decimal valid candidate,
          drp_comments_sum = et_comments_sum totals, drp_comments_known_count = et_comments_known totals,
          drp_comments_unknown_count = et_comments_unknown totals, drp_score_sum = et_score_sum totals,
          drp_score_known_count = et_score_known totals, drp_score_unknown_count = et_score_unknown totals,
          drp_highlights = rank_highlights primary comparison constants,
          drp_rising_keywords = rank_rising_keywords primary comparison constants,
          drp_source_coverage = rim_source_coverage n,
          drp_status = (if primary_sources_complete \<and> analysis_complete then Report_COMPLETE else Report_PARTIAL)\<rparr>)"

definition project_report ::
    "(string \<Rightarrow> string) \<Rightarrow> (string \<Rightarrow> string) \<Rightarrow> report_input_manifest \<Rightarrow> report_error + report_build" where
  "project_report nfc gzip payload =
     (case build_manifest nfc gzip payload of Inl e \<Rightarrow> Inl e
      | Inr manifest \<Rightarrow> (case verify_coverage (mb_payload manifest) of Inl e \<Rightarrow> Inl e
      | Inr _ \<Rightarrow>
        (let report = project_values manifest; serialized = canonical_bytes nfc (report_value report)
         in Inr \<lparr>rb_manifest = manifest, rb_payload = report, rb_canonical_bytes = serialized,
              rb_payload_sha256 = sha256_hex serialized\<rparr>)))"

section \<open>Rankings are the head of a total order\<close>

lemma sorted_key_strict:
  assumes "distinct xs" and "inj_on f (set xs)"
  shows "sorted_wrt (\<lambda>x y. f x < f y) (sort_key f xs)"
proof -
  have "distinct (map f (sort_key f xs))" using assms by (simp add: distinct_map)
  then have "sorted_wrt (<) (map f (sort_key f xs))" by (simp add: strict_sorted_iff)
  then show ?thesis by (simp add: sorted_wrt_map)
qed

text \<open>The first \<open>n\<close> elements in the order of an injective key: strictly ordered, and every element left out
  comes after every element taken.\<close>

lemma take_sort_key_top:
  assumes "distinct xs" and "inj_on f (set xs)"
  shows "length (take n (sort_key f xs)) \<le> n" "sorted_wrt (\<lambda>x y. f x < f y) (take n (sort_key f xs))"
    "set (take n (sort_key f xs)) \<subseteq> set xs"
    "\<And>x y. x \<in> set xs \<Longrightarrow> x \<notin> set (take n (sort_key f xs)) \<Longrightarrow> y \<in> set (take n (sort_key f xs)) \<Longrightarrow> f y < f x"
    "\<And>x. x \<in> set xs \<Longrightarrow> x \<notin> set (take n (sort_key f xs)) \<Longrightarrow> length (take n (sort_key f xs)) = n"
proof -
  note sorted = sorted_key_strict [OF assms]
  have split: "sorted_wrt (\<lambda>x y. f x < f y) (take n (sort_key f xs) @ drop n (sort_key f xs))" using sorted by simp
  show "length (take n (sort_key f xs)) \<le> n" by simp
  show "sorted_wrt (\<lambda>x y. f x < f y) (take n (sort_key f xs))" using split by (simp only: sorted_wrt_append)
  show "set (take n (sort_key f xs)) \<subseteq> set xs" using set_take_subset [of n "sort_key f xs"] by simp
  have rest: "x \<in> set (drop n (sort_key f xs))" if "x \<in> set xs" "x \<notin> set (take n (sort_key f xs))" for x
  proof -
    have "x \<in> set (take n (sort_key f xs) @ drop n (sort_key f xs))" using that(1) by simp
    then show ?thesis using that(2) by (simp only: set_append Un_iff) blast
  qed
  show "f y < f x" if "x \<in> set xs" "x \<notin> set (take n (sort_key f xs))" "y \<in> set (take n (sort_key f xs))" for x y
    using split rest [OF that(1,2)] that(3) by (auto simp only: sorted_wrt_append)
  show "length (take n (sort_key f xs)) = n" if "x \<in> set xs" "x \<notin> set (take n (sort_key f xs))" for x
    using rest [OF that] by (cases "n < length (sort_key f xs)") auto
qed

lemma highlight_order_inj: "inj_on (highlight_order primary) A"
  by (rule inj_onI) (simp add: highlight_order_def)

lemma category_counts_pos: "0 < category_counts records c \<longleftrightarrow> c \<in> set (concat (map rr_effective_categories records))"
  unfolding category_counts_def by (metis count_list_0_iff gr0I of_nat_0_less_iff less_irrefl)

text \<open>The highlights are the best categories of the primary day: at most the limit, in strict order of primary
  count, net sentiment and name, each with its true counts; and a category that is left out although it
  occurs comes after all of them, with the limit reached.\<close>

theorem rank_highlights_top:
  "length (rank_highlights primary comparison constants) \<le> fc_highlight_limit constants
   \<and> sorted_wrt (\<lambda>h k. highlight_order primary (hl_category h) < highlight_order primary (hl_category k))
       (rank_highlights primary comparison constants)
   \<and> (\<forall>h \<in> set (rank_highlights primary comparison constants).
        h = highlight_of primary comparison (hl_category h) \<and> 0 < hl_primary_count h)
   \<and> (\<forall>c. 0 < category_counts primary c \<longrightarrow>
        c \<in> hl_category ` set (rank_highlights primary comparison constants)
        \<or> length (rank_highlights primary comparison constants) = fc_highlight_limit constants
          \<and> (\<forall>h \<in> set (rank_highlights primary comparison constants).
               highlight_order primary (hl_category h) < highlight_order primary c))"
proof -
  let ?keys = "remdups (concat (map rr_effective_categories primary))"
  let ?top = "take (fc_highlight_limit constants) (sort_key (highlight_order primary) ?keys)"
  have hs: "rank_highlights primary comparison constants = map (highlight_of primary comparison) ?top"
    by (simp add: rank_highlights_def)
  have category [simp]: "hl_category (highlight_of primary comparison c) = c"
    "hl_primary_count (highlight_of primary comparison c) = category_counts primary c" for c
    by (simp_all add: highlight_of_def Let_def)
  note top = take_sort_key_top [where xs = ?keys and f = "highlight_order primary" and n = "fc_highlight_limit constants",
      OF distinct_remdups highlight_order_inj]
  have images: "hl_category ` set (map (highlight_of primary comparison) ?top) = set ?top"
    by (simp add: image_image del: set_take_subset)
  have pos: "0 < category_counts primary c" if "c \<in> set ?top" for c
    using subsetD [OF top(3) that] by (simp only: category_counts_pos set_remdups)
  have "length (map (highlight_of primary comparison) ?top) \<le> fc_highlight_limit constants" using top(1) by simp
  moreover have "sorted_wrt (\<lambda>h k. highlight_order primary (hl_category h) < highlight_order primary (hl_category k))
      (map (highlight_of primary comparison) ?top)" using top(2) by (simp only: sorted_wrt_map category)
  moreover have "\<forall>h \<in> set (map (highlight_of primary comparison) ?top).
      h = highlight_of primary comparison (hl_category h) \<and> 0 < hl_primary_count h"
    using pos by (simp only: set_map ball_simps category) simp
  moreover have "c \<in> set ?top \<or> length (map (highlight_of primary comparison) ?top) = fc_highlight_limit constants
        \<and> (\<forall>h \<in> set (map (highlight_of primary comparison) ?top).
               highlight_order primary (hl_category h) < highlight_order primary c)" if "0 < category_counts primary c" for c
  proof (cases "c \<in> set ?top")
    case False
    have c: "c \<in> set ?keys" using that by (simp only: category_counts_pos set_remdups)
    show ?thesis using top(4) [OF c False] top(5) [OF c False]
      by (simp only: set_map ball_simps category length_map) simp
  qed simp
  ultimately show ?thesis unfolding hs images by blast
qed

text \<open>The rising keywords in one order: rated phrases before phrases without a comparison, the rated ones by
  falling rate, then by falling count, then by name.\<close>

definition rising_order :: "report_record list \<Rightarrow> report_record list \<Rightarrow> string \<Rightarrow> bool \<times> rat \<times> int \<times> string" where
  "rising_order primary comparison phrase =
     (phrase_counts comparison phrase = 0,
      (if phrase_counts comparison phrase = 0 then 0 else - rising_rate primary comparison phrase),
      - phrase_counts primary phrase, phrase)"

lemma mset_filter_split: "mset xs = mset (filter p xs) + mset (filter (\<lambda>x. \<not> p x) xs)"
  by (induction xs) auto

lemma phrase_counts_nonneg: "0 \<le> phrase_counts records phrase"
  by (simp add: phrase_counts_def)

lemma rising_order_rated: "phrase_counts comparison x \<noteq> 0 \<Longrightarrow>
    rising_order primary comparison x = (False, rated_order primary comparison x)"
  and rising_order_unrated: "phrase_counts comparison x = 0 \<Longrightarrow>
    rising_order primary comparison x = (True, 0, unrated_order primary x)"
  by (simp_all add: rising_order_def rated_order_def unrated_order_def)

text \<open>The two sorts of the rising keywords are one sort: the result is the head of the eligible phrases in the
  order above. Eligible is a phrase that at least the minimum number of primary records contain.\<close>

theorem rank_rising_keywords_spec:
  "rank_rising_keywords primary comparison constants =
     map (rising_of primary comparison)
       (take (fc_rising_keyword_limit constants)
         (sort_key (rising_order primary comparison)
           (filter (\<lambda>x. fc_rising_keyword_min_primary_count constants \<le> phrase_counts primary x)
             (remdups (concat (map record_phrases primary))))))"
proof -
  define eligible where "eligible = filter (\<lambda>x. fc_rising_keyword_min_primary_count constants \<le> phrase_counts primary x)
             (remdups (concat (map record_phrases primary)))"
  let ?pos = "\<lambda>x. 0 < phrase_counts comparison x"
  define rated where "rated = sort_key (rated_order primary comparison) (filter ?pos eligible)"
  define unrated where "unrated = sort_key (unrated_order primary) (filter (\<lambda>x. phrase_counts comparison x = 0) eligible)"
  have zero: "phrase_counts comparison x = 0 \<longleftrightarrow> \<not> ?pos x" for x
    using phrase_counts_nonneg [of comparison x] by auto
  have ord: "map (rising_order primary comparison) rated = map (Pair False) (map (rated_order primary comparison) rated)"
    "map (rising_order primary comparison) unrated = map (\<lambda>x. (True, 0, x)) (map (unrated_order primary) unrated)"
    by (auto simp: rated_def unrated_def rising_order_rated rising_order_unrated)
  have "sorted (map (rising_order primary comparison) (rated @ unrated))"
  proof -
    have "sorted (map (rated_order primary comparison) rated)" "sorted (map (unrated_order primary) unrated)"
      by (simp_all add: rated_def unrated_def)
    then have "sorted (map (Pair False) (map (rated_order primary comparison) rated))"
      "sorted (map (\<lambda>x. (True, 0 :: rat, x)) (map (unrated_order primary) unrated))"
      by (simp_all only: sorted_map, simp_all add: sorted_wrt_map)
    then show ?thesis unfolding map_append ord by (auto simp: sorted_append)
  qed
  then have "sort_key (rising_order primary comparison) (rated @ unrated) = rated @ unrated"
    by (rule sort_key_id_if_sorted)
  moreover have "mset eligible = mset (rated @ unrated)"
    using mset_filter_split [of eligible ?pos] by (simp add: rated_def unrated_def zero)
  moreover have "inj_on (rising_order primary comparison) (set eligible)"
    by (rule inj_onI) (simp add: rising_order_def)
  ultimately have "sort_key (rising_order primary comparison) eligible = rated @ unrated"
    using sort_key_perm_inj by metis
  then show ?thesis unfolding rank_rising_keywords_def Let_def
    by (simp only: eligible_def [symmetric] rated_def [symmetric] unrated_def [symmetric])
qed

section \<open>The totals of a report\<close>

lemma count_where_const: "(\<And>x. x \<in> set xs \<Longrightarrow> q x = p x) \<Longrightarrow> count_where p xs = count_where q xs"
  by (induction xs) auto

text \<open>Elements counted by the classes of a key: each element has its class among the given keys, once.\<close>

lemma sum_list_cong': "(\<And>x. x \<in> set xs \<Longrightarrow> f x = g x) \<Longrightarrow> (\<Sum>x \<leftarrow> xs. f x) = (\<Sum>x \<leftarrow> xs. g x)"
  by (simp cong: map_cong)

lemma count_by_key:
  assumes "distinct keys" and "\<forall>x \<in> set xs. key x \<in> set keys"
  shows "count_where p xs = (\<Sum>k \<leftarrow> keys. count_where p (filter (\<lambda>x. key x = k) xs))"
  using assms(2)
proof (induction xs)
  case (Cons x xs)
  have "(\<Sum>k \<leftarrow> keys. count_where p (filter (\<lambda>y. key y = k) (x # xs)))
      = (\<Sum>k \<leftarrow> keys. (if k = key x then (if p x then 1 else 0) else 0) + count_where p (filter (\<lambda>y. key y = k) xs))"
    by (rule sum_list_cong') auto
  also have "\<dots> = (\<Sum>k \<leftarrow> keys. if k = key x then (if p x then 1 else 0) else 0)
      + (\<Sum>k \<leftarrow> keys. count_where p (filter (\<lambda>y. key y = k) xs))" by (rule sum_list_addf)
  also have "(\<Sum>k \<leftarrow> keys. if k = key x then (if p x then 1 else 0) else (0 :: int)) = (if p x then 1 else 0)"
    using assms(1) Cons.prems by (simp add: sum_list_distinct_conv_sum_set)
  finally show ?case using Cons by simp
qed simp

lemma verify_coverageD:
  assumes "verify_coverage p = Inr ()" and "c \<in> set (rim_source_coverage p)"
  shows "sco_candidate_count c = int (length (filter (\<lambda>r. (rr_role r, rr_source_id r) = coverage_key c) (rim_records p)))"
    and "sco_valid_analysis_count c
      = count_where is_valid_record (filter (\<lambda>r. (rr_role r, rr_source_id r) = coverage_key c) (rim_records p))"
proof -
  let ?body = "\<lambda>c. let records = filter (\<lambda>r. rr_role r = sco_role c \<and> rr_source_id r = sco_source_id c) (rim_records p);
              valid = count_where is_valid_record records;
              relevant = count_where (\<lambda>r. as_relevance (rr_analysis r) = Some True) records;
              n = int (length records)
          in if (n, valid, n - valid, relevant)
                \<noteq> (sco_candidate_count c, sco_valid_analysis_count c, sco_pending_count c, sco_relevant_count c)
             then Inl (Corrupt_Error ''source_coverage_count_mismatch'')
             else require (list_all (\<lambda>r. (rr_country r, rr_platform r, rr_community r)
                  = (sco_country c, sco_platform c, sco_community c)) records)
               (Corrupt_Error ''source_coverage_dimension_mismatch'') ()"
  have "\<exists>us. seq_result ?body (rim_source_coverage p) = Inr us"
    using assms(1) by (auto simp: verify_coverage_def split: if_splits sum.splits)
  then have "?body c = Inr ()" using assms(2) by (simp only: seq_result_unit)
  then show "sco_candidate_count c = int (length (filter (\<lambda>r. (rr_role r, rr_source_id r) = coverage_key c) (rim_records p)))"
    "sco_valid_analysis_count c
      = count_where is_valid_record (filter (\<lambda>r. (rr_role r, rr_source_id r) = coverage_key c) (rim_records p))"
    by (auto simp: Let_def coverage_key_def split: if_splits)
qed

lemma project_reportD:
  assumes "project_report nfc gzip p = Inr b"
  shows "build_manifest nfc gzip p = Inr (rb_manifest b)" "verify_coverage (mb_payload (rb_manifest b)) = Inr ()"
    "rb_payload b = project_values (rb_manifest b)"
    "rb_canonical_bytes b = canonical_bytes nfc (report_value (rb_payload b))"
    "rb_payload_sha256 b = sha256_hex (rb_canonical_bytes b)"
  using assms by (auto simp: project_report_def Let_def split: sum.splits)

lemma known_plus_unknown: "length (List.map_filter id xs) \<le> length xs"
  by (induction xs) (simp_all add: map_filter_simps split: option.split)

lemma sentiments_sum:
  "count_where (\<lambda>r. f r = Some Sentiment_POSITIVE) rs + count_where (\<lambda>r. f r = Some Sentiment_NEUTRAL) rs
     + count_where (\<lambda>r. f r = Some Sentiment_NEGATIVE) rs + count_where (\<lambda>r. f r = None) rs = int (length rs)"
proof (induction rs)
  case (Cons r rs)
  have "f r = None \<or> f r = Some Sentiment_POSITIVE \<or> f r = Some Sentiment_NEUTRAL \<or> f r = Some Sentiment_NEGATIVE"
    by (cases "f r") (auto intro: sentiment.exhaust)
  then show ?case using Cons by auto
qed simp

text \<open>(C32) The totals of a report are consistent. Candidates are the records of the day, and the sum of the retained
  candidate counts of its sources; likewise for valid analyses; positive, neutral, negative and unknown
  sentiments partition the relevant records; known and unknown engagement values too; and the status is
  complete exactly if every expected source was completely collected and at least the required share of
  the candidates is analysed.\<close>

theorem project_report_totals:
  assumes "validate_manifest p = Inr p" and "project_report nfc gzip p = Inr b"
  shows "let r = rb_payload b; n = mb_payload (rb_manifest b);
             sources = filter (\<lambda>c. sco_role c = Role_PRIMARY) (rim_source_coverage n)
         in drp_candidate_count r = (\<Sum>c \<leftarrow> sources. sco_candidate_count c)
          \<and> drp_valid_analysis_count r = (\<Sum>c \<leftarrow> sources. sco_valid_analysis_count c)
          \<and> drp_candidate_count r = drp_valid_analysis_count r + drp_pending_count r \<and> 0 \<le> drp_pending_count r
          \<and> drp_positive_count r + drp_neutral_count r + drp_negative_count r + drp_unknown_sentiment_count r
            = drp_relevant_count r
          \<and> drp_relevant_count r \<le> drp_valid_analysis_count r
          \<and> drp_comments_known_count r + drp_comments_unknown_count r = drp_relevant_count r
          \<and> drp_score_known_count r + drp_score_unknown_count r = drp_relevant_count r
          \<and> (drp_status r = Report_COMPLETE) =
              ((\<forall>c \<in> set sources. sco_expected c \<longrightarrow> sco_collection_status c = Coverage_COMPLETE)
               \<and> (drp_candidate_count r = 0
                  \<or> drp_candidate_count r * fc_complete_coverage_numerator (gd_constants (rim_definitions n))
                    \<le> drp_valid_analysis_count r * fc_complete_coverage_denominator (gd_constants (rim_definitions n))))"
proof -
  note d = project_reportD [OF assms(2)]
  define n where "n = mb_payload (rb_manifest b)"
  define sources where "sources = filter (\<lambda>c. sco_role c = Role_PRIMARY) (rim_source_coverage n)"
  define primary where "primary = filter (\<lambda>r. rr_role r = Role_PRIMARY) (rim_records n)"
  have "normalize_manifest p = Inr n" using build_manifestD(1) [OF d(1)] by (simp add: n_def)
  then have ok: "manifest_ok n" using assms(1) normalized_manifest_ok by (simp add: validate_manifest_Inr)
  have keys: "distinct (map coverage_key sources)"
    using ok by (auto simp: manifest_ok_def sources_def intro: distinct_map_filter)
  have covered: "(rr_role r, rr_source_id r) \<in> coverage_key ` set (rim_source_coverage n)" if "r \<in> set (rim_records n)" for r
    using d(2) that by (auto simp: verify_coverage_def n_def split: if_splits)
  have key: "(rr_role r, rr_source_id r) \<in> set (map coverage_key sources)" if "r \<in> set primary" for r
    using covered [of r] that by (auto simp: primary_def sources_def coverage_key_def)
  have class1: "filter (\<lambda>r. (rr_role r, rr_source_id r) = coverage_key c) primary
      = filter (\<lambda>r. (rr_role r, rr_source_id r) = coverage_key c) (rim_records n)" if "c \<in> set sources" for c
    using that by (auto simp: primary_def sources_def coverage_key_def intro!: filter_cong)
  have count: "count_where q primary = (\<Sum>c \<leftarrow> sources. count_where q
      (filter (\<lambda>r. (rr_role r, rr_source_id r) = coverage_key c) (rim_records n)))" for q
    using count_by_key [OF keys, of primary "\<lambda>r. (rr_role r, rr_source_id r)" q] key class1
    by (simp add: comp_def cong: map_cong)
  have "(\<Sum>c \<leftarrow> sources. sco_candidate_count c)
      = (\<Sum>c \<leftarrow> sources. int (length (filter (\<lambda>r. (rr_role r, rr_source_id r) = coverage_key c) (rim_records n))))"
    using verify_coverageD(1) [OF d(2)] by (intro sum_list_cong') (simp add: n_def sources_def)
  then have cand: "int (length primary) = (\<Sum>c \<leftarrow> sources. sco_candidate_count c)"
    using count [of "\<lambda>_. True"] by (simp add: count_where_def)
  have "(\<Sum>c \<leftarrow> sources. sco_valid_analysis_count c) = (\<Sum>c \<leftarrow> sources. count_where is_valid_record
      (filter (\<lambda>r. (rr_role r, rr_source_id r) = coverage_key c) (rim_records n)))"
    using verify_coverageD(2) [OF d(2)] by (intro sum_list_cong') (simp add: n_def sources_def)
  then have valid: "count_where is_valid_record primary = (\<Sum>c \<leftarrow> sources. sco_valid_analysis_count c)"
    using count [of is_valid_record] by simp
  have relevant: "int (length (filter is_relevant_record primary)) \<le> count_where is_valid_record primary"
    unfolding count_where_def [symmetric] by (rule count_where_mono) (simp add: is_relevant_record_def)
  have r: "drp_candidate_count (rb_payload b) = int (length primary)"
    "drp_valid_analysis_count (rb_payload b) = count_where is_valid_record primary"
    "drp_pending_count (rb_payload b) = int (length primary) - count_where is_valid_record primary"
    "drp_relevant_count (rb_payload b) = int (length (filter is_relevant_record primary))"
    by (simp_all add: d(3) project_values_def Let_def primary_def n_def)
  have totals: "drp_comments_known_count (rb_payload b) + drp_comments_unknown_count (rb_payload b)
      = drp_relevant_count (rb_payload b)" "drp_score_known_count (rb_payload b) + drp_score_unknown_count (rb_payload b)
      = drp_relevant_count (rb_payload b)"
    by (simp_all add: d(3) project_values_def engagement_def Let_def)
  have sentiments: "drp_positive_count (rb_payload b) + drp_neutral_count (rb_payload b)
      + drp_negative_count (rb_payload b) + drp_unknown_sentiment_count (rb_payload b) = drp_relevant_count (rb_payload b)"
    using sentiments_sum [of "\<lambda>r. as_sentiment (rr_analysis r)"] by (simp add: d(3) project_values_def Let_def)
  have status: "drp_status (rb_payload b) = Report_COMPLETE \<longleftrightarrow>
      ((\<forall>c \<in> set sources. sco_expected c \<longrightarrow> sco_collection_status c = Coverage_COMPLETE)
               \<and> (int (length primary) = 0
                  \<or> int (length primary) * fc_complete_coverage_numerator (gd_constants (rim_definitions n))
                    \<le> count_where is_valid_record primary * fc_complete_coverage_denominator (gd_constants (rim_definitions n))))"
    by (auto simp: d(3) project_values_def Let_def primary_def n_def sources_def list_all_iff)
  show ?thesis
    unfolding Let_def n_def [symmetric] sources_def [symmetric]
    using cand valid relevant totals sentiments status count_where_le_length [of is_valid_record primary]
    by (simp add: r)
qed

text \<open>Storing a report input and recomputing the report from it gives the report again.\<close>

lemma project_report_fixpoint:
  assumes "validate_manifest p = Inr p" and "project_report nfc gzip p = Inr b"
  shows "project_report nfc gzip (mb_payload (rb_manifest b)) = Inr b"
proof -
  note d = project_reportD [OF assms(2)]
  have ok: "manifest_ok p" using assms(1) by (simp add: validate_manifest_Inr)
  have "normalize_manifest (mb_payload (rb_manifest b)) = Inr (mb_payload (rb_manifest b))"
    using normalize_manifest_idem [OF _ build_manifestD(1) [OF d(1)]] ok by (simp add: manifest_ok_def)
  then have "build_manifest nfc gzip (mb_payload (rb_manifest b)) = build_manifest nfc gzip p"
    using build_manifestD(1) [OF d(1)] by (simp add: build_manifest_def)
  then show ?thesis using assms(2) by (simp add: project_report_def)
qed

text \<open>(C31) The report is a function of the facts: permuting the records, mappings, coverage or versions of a valid
  input gives the same report, with the same bytes and digest, or the same refusal.\<close>

theorem project_report_order_independent:
  assumes "validate_manifest p = Inr p" and "same_facts p q"
  shows "project_report nfc gzip p = project_report nfc gzip q"
proof -
  have "normalize_manifest p = normalize_manifest q"
    using assms normalize_manifest_order by (simp add: validate_manifest_Inr)
  then show ?thesis by (simp add: project_report_def build_manifest_def)
qed

section \<open>An example\<close>

definition example_coverage_item :: source_coverage_item where
  "example_coverage_item = example_coverage\<lparr>sco_collection_status := Coverage_COMPLETE, sco_expected_run_count := 1,
     sco_successful_run_count := 1, sco_failed_run_count := 0, sco_skipped_run_count := 0,
     sco_candidate_count := 2, sco_valid_analysis_count := 2,
     sco_pending_count := 0, sco_relevant_count := 2, sco_coverage_numerator := 2, sco_coverage_denominator := 2,
     sco_coverage_decimal := Some ''1''\<rparr>"

definition example_input :: "uuid list \<Rightarrow> report_input_manifest" where
  "example_input us = (example_manifest us)\<lparr>rim_source_coverage := [example_coverage_item]\<rparr>"

lemma example_coverage_fields:
  "sco_role example_coverage_item = Role_PRIMARY" "sco_source_id example_coverage_item = 7"
  "sco_country example_coverage_item = Country_US" "sco_platform example_coverage_item = Platform_REDDIT"
  "sco_community example_coverage_item = ''stocks''" "sco_candidate_count example_coverage_item = 2"
  "sco_valid_analysis_count example_coverage_item = 2" "sco_pending_count example_coverage_item = 0"
  "sco_relevant_count example_coverage_item = 2"
  by (simp_all add: example_coverage_item_def example_coverage_def coverage_values_def Let_def)

lemma example_input_valid:
  assumes "distinct us"
  shows "validate_manifest (example_input us) = Inr (example_input us)"
proof -
  have "manifest_ok (example_manifest us)" using example_manifest_valid [OF assms] by (simp add: validate_manifest_Inr)
  then have "manifest_ok (example_input us)"
    by (simp add: manifest_ok_def governed_def example_input_def)
  then show ?thesis by (simp add: validate_manifest_Inr)
qed

lemma example_project:
  "\<exists>b. project_report id id (example_input [1, 2]) = Inr b"
proof -
  have "manifest_ok (example_input [1, 2])"
    using example_input_valid [of "[1, 2]"] by (simp add: validate_manifest_Inr)
  then obtain n where n: "normalize_manifest (example_input [1, 2]) = Inr n" using normalize_manifest_total by blast
  then obtain m where m: "build_manifest id id (example_input [1, 2]) = Inr m"
    by (auto simp: build_manifest_def Let_def)
  have "normalize_manifest (example_input [1, 2]) = Inr (mb_payload m)" by (rule build_manifestD(1) [OF m])
  then obtain primary comparison where
    roles: "normalize_role (mapping_by_key (rim_category_mappings (example_input [1, 2]))) (rim_records (example_input [1, 2]))
        Role_PRIMARY = Inr primary"
      "normalize_role (mapping_by_key (rim_category_mappings (example_input [1, 2]))) (rim_records (example_input [1, 2]))
        Role_COMPARISON = Inr comparison"
    and recs: "rim_records (mb_payload m) = primary @ comparison"
      "rim_source_coverage (mb_payload m) = sort_key coverage_order (rim_source_coverage (example_input [1, 2]))"
    by (rule normalize_manifestD) simp
  have "length comparison = 0" "length primary = 2" using normalize_roleD(1) [OF roles(1)] normalize_roleD(1) [OF roles(2)]
    by (simp_all add: example_input_def example_manifest_def example_record_def)
  then have sizes: "comparison = []" "length primary = 2" by simp_all
  have each: "rr_role s = Role_PRIMARY \<and> rr_source_id s = 7 \<and> rr_country s = Country_US \<and> rr_platform s = Platform_REDDIT
      \<and> rr_community s = ''stocks'' \<and> rr_analysis s = example_analysis" if mem: "s \<in> set primary" for s
  proof -
    obtain r k where "r \<in> set (rim_records (example_input [1, 2]))"
      "normalize_record r k (mapping_by_key (rim_category_mappings (example_input [1, 2]))) = Inr s"
      using normalized_record_source [OF roles(1) mem] by blast
    from this(1) normalize_recordD [OF this(2)] show ?thesis
      by (auto simp: example_input_def example_manifest_def example_record_def)
  qed
  have all: "filter (\<lambda>r. rr_role r = Role_PRIMARY \<and> rr_source_id r = 7) primary = primary"
    using each by (simp add: filter_id_conv)
  have counts: "count_where is_valid_record primary = 2"
    "count_where (\<lambda>r. as_relevance (rr_analysis r) = Some True) primary = 2"
  proof -
    have "count_where is_valid_record primary = int (length primary)"
      "count_where (\<lambda>r. as_relevance (rr_analysis r) = Some True) primary = int (length primary)"
      unfolding count_where_all using each by (auto simp: is_valid_record_def example_analysis_def)
    then show "count_where is_valid_record primary = 2"
      "count_where (\<lambda>r. as_relevance (rr_analysis r) = Some True) primary = 2" by (simp_all add: sizes)
  qed
  have "verify_coverage (mb_payload m) = Inr ()"
    using each by (auto simp: verify_coverage_def recs sizes example_input_def example_coverage_fields coverage_key_def
        all counts list_all_iff Let_def)
  with m show ?thesis by (simp add: project_report_def Let_def)
qed

theorem project_report_totals_witness:
  "\<exists>b. project_report id id (example_input [1, 2]) = Inr b
     \<and> drp_positive_count (rb_payload b) + drp_neutral_count (rb_payload b) + drp_negative_count (rb_payload b)
         + drp_unknown_sentiment_count (rb_payload b) = drp_relevant_count (rb_payload b)"
proof -
  obtain b where b: "project_report id id (example_input [1, 2]) = Inr b" using example_project by blast
  have "distinct [1, 2 :: uuid]" by simp
  from project_report_totals [OF example_input_valid [OF this] b] b show ?thesis by (auto simp: Let_def)
qed

theorem project_report_order_independent_witness:
  "project_report id id (example_input [1, 2]) = project_report id id (example_input [2, 1])"
  by (rule project_report_order_independent [OF example_input_valid])
     (simp_all add: same_facts_def example_input_def example_manifest_def)

theorem rank_highlights_top_witness:
  "length (rank_highlights [(example_record 1)\<lparr>rr_effective_categories := [''hype'']\<rparr>] [] literal_constants) \<le> 5"
  using rank_highlights_top [of "[(example_record 1)\<lparr>rr_effective_categories := [''hype'']\<rparr>]" "[]" literal_constants]
  by (simp add: literal_constants_def)

end
