(* ===== verification/Report_Assembly.thy ===== *)
theory Report_Assembly
  imports Report_Formula
begin

text \<open>
  \<open>reporting/input_policy.py\<close>, \<open>input_records.py\<close> and \<open>input_assembler.py\<close>: the assembly of a report input
  from the rows of one database snapshot. The rows are inputs of the model; the SQL statements that select
  them are not under it. \<open>str.strip\<close> followed by \<open>str.casefold\<close> is a parameter, like Unicode NFC.

  The main result: an assembled input is always accepted by the report formula. The coverage that the
  assembler derives from run facts agrees with the records it retained, so \<open>ManifestCorruptError\<close> is
  impossible on a fresh input.
\<close>

section \<open>Policy\<close>

record report_assembly_policy =
  rap_source_scope_version :: string
  rap_definitions :: governing_definitions
  rap_mappings :: "category_mapping_snapshot list"
  rap_default_category :: string
  rap_expected_sources :: "(source_platform \<times> string) set"

definition rule_mapping :: "report_assembly_policy \<Rightarrow> string \<Rightarrow> string \<Rightarrow> report_error + category_mapping_snapshot" where
  "rule_mapping policy normalized_phrase rule_set_version =
     (case filter (\<lambda>m. cm_input_kind m = Input_rule \<and> cm_normalized_value m = normalized_phrase
                 \<and> cm_version m = rule_set_version) (rap_mappings policy) of
        [m] \<Rightarrow> Inr m
      | _ \<Rightarrow> Inl (Assembly_Error ''report_rule_mapping_missing''))"

definition topic_mapping :: "report_assembly_policy \<Rightarrow> string \<Rightarrow> string \<Rightarrow> category_mapping_snapshot" where
  "topic_mapping policy normalized_topic schema_version =
     (case List.find (\<lambda>m. cm_input_kind m = Input_topic \<and> cm_normalized_value m = normalized_topic
                 \<and> cm_version m = schema_version) (rap_mappings policy) of
        Some m \<Rightarrow> m
      | None \<Rightarrow> \<lparr>cm_input_kind = Input_topic, cm_rule_or_topic_key = normalized_topic, cm_version = schema_version,
          cm_normalized_value = normalized_topic, cm_category = rap_default_category policy\<rparr>)"

section \<open>Records\<close>

record topic_codec = text_codec +
  tc_fold :: "string \<Rightarrow> string" \<comment> \<open>\<open>value.strip().casefold()\<close>\<close>

definition row_window :: "record_sql_row \<Rightarrow> report_windows \<Rightarrow> report_error + report_window" where
  "row_window row windows =
     (if in_window (rws_primary windows) (rec_published_at_utc row) then Inr (rws_primary windows)
      else if in_window (rws_comparison windows) (rec_published_at_utc row) then Inr (rws_comparison windows)
      else Inl (Assembly_Error ''report_record_outside_windows''))"

definition empty_analysis :: "analysis_state \<Rightarrow> report_error + analysis_snapshot" where
  "empty_analysis state = validate_analysis_state
     \<lparr>as_state = state, as_analysis_id = None, as_output_hash = None, as_prompt_version = None,
      as_model_version = None, as_schema_version = None, as_analyzed_at = None, as_relevance = None,
      as_sentiment = None\<rparr>"

fun queue_analysis_state :: "queue_status option \<Rightarrow> analysis_state" where
  "queue_analysis_state None = Analysis_PENDING"
| "queue_analysis_state (Some Queue_PENDING) = Analysis_PENDING"
| "queue_analysis_state (Some Queue_LEASED) = Analysis_PENDING"
| "queue_analysis_state (Some Queue_SUCCEEDED) = Analysis_INVALID_OUTPUT"
| "queue_analysis_state (Some Queue_BLOCKED_CAPABILITY) = Analysis_BLOCKED_CAPABILITY"
| "queue_analysis_state (Some Queue_FAILED_RETRYABLE) = Analysis_FAILED_RETRYABLE"
| "queue_analysis_state (Some Queue_FAILED_TERMINAL) = Analysis_FAILED_TERMINAL"

definition row_analysis :: "record_sql_row \<Rightarrow> report_error + analysis_snapshot" where
  "row_analysis row =
     (case rec_analysis_id row of
        Some analysis_id \<Rightarrow>
          (case rec_analysis_state row of
             None \<Rightarrow> Inl (Assembly_Error ''report_analysis_state_missing'')
           | Some state \<Rightarrow>
               if state = Analysis_VALID then validate_analysis_state
                 \<lparr>as_state = state, as_analysis_id = rec_analysis_id row, as_output_hash = rec_output_hash row,
                  as_prompt_version = rec_prompt_version row, as_model_version = rec_model_version row,
                  as_schema_version = rec_schema_version row, as_analyzed_at = rec_analyzed_at row,
                  as_relevance = rec_relevance row, as_sentiment = rec_sentiment row\<rparr>
               else empty_analysis state)
      | None \<Rightarrow>
          if rec_analysis_state row \<noteq> None then Inl (Assembly_Error ''report_analysis_identity_missing'')
          else empty_analysis (queue_analysis_state (rec_queue_status row)))"

definition row_rule_match :: "report_assembly_policy \<Rightarrow> match_sql_row \<Rightarrow> report_error + rule_match_snapshot" where
  "row_rule_match policy row =
     (case rule_mapping policy (mat_normalized_phrase row) (mat_rule_set_version row) of Inl e \<Rightarrow> Inl e
      | Inr mapping \<Rightarrow>
        (case filter (\<lambda>v. rsv_version v = mat_rule_set_version row \<and> rsv_rules_hash v = mat_rule_set_hash row)
               (gd_rule_sets (rap_definitions policy)) of
           [v] \<Rightarrow> if mat_stored_category row = cm_category mapping \<and> mat_rule_category row = cm_category mapping
             then validate_rule_match
               \<lparr>rm_match_id = mat_match_id row, rm_match_hash = mat_match_hash row,
                rm_rule_id = cm_rule_or_topic_key mapping, rm_rule_set_id = rsv_rule_set_id v,
                rm_rule_set_version = mat_rule_set_version row, rm_normalized_phrase = mat_normalized_phrase row,
                rm_match_present = mat_match_present row, rm_mapped_category = cm_category mapping\<rparr>
             else Inl (Assembly_Error ''report_rule_provenance_mismatch'')
         | _ \<Rightarrow> Inl (Assembly_Error ''report_rule_provenance_mismatch'')))"

definition row_topic_matches ::
    "topic_codec \<Rightarrow> report_assembly_policy \<Rightarrow> record_sql_row \<Rightarrow> analysis_snapshot
      \<Rightarrow> report_error + topic_match_snapshot list" where
  "row_topic_matches codec policy row analysis =
     (if as_state analysis \<noteq> Analysis_VALID then Inr []
      else case (as_schema_version analysis, rec_topics row) of
        (Some schema_version, Some topics) \<Rightarrow>
          (let normalized = sort (remdups (map (\<lambda>v. tc_nfc codec (tc_fold codec v)) topics))
           in if [] \<in> set normalized then Inl (Assembly_Error ''report_analysis_topic_empty'')
              else Inr (map (\<lambda>v. let mapping = topic_mapping policy v schema_version
                in \<lparr>tm_topic_key = cm_rule_or_topic_key mapping, tm_normalized_value = v,
                    tm_analysis_schema_version = schema_version, tm_mapped_category = cm_category mapping\<rparr>) normalized))
      | _ \<Rightarrow> Inl (Assembly_Error ''report_analysis_topics_missing''))"

definition row_engagement :: "record_sql_row \<Rightarrow> report_error + engagement_snapshot" where
  "row_engagement row =
     (if rec_engagement_observation_id row = None
      then if rec_engagement_hash row \<noteq> None \<or> rec_engagement_observed_at row \<noteq> None
              \<or> rec_comments_count row \<noteq> None \<or> rec_upvote_or_score row \<noteq> None
        then Inl (Assembly_Error ''report_engagement_identity_missing'')
        else validate_selection \<lparr>es_selection_state = Engagement_UNAVAILABLE, es_observation_id = None,
          es_engagement_hash = None, es_observed_at = None, es_comments_count = None, es_upvote_or_score = None\<rparr>
      else validate_selection \<lparr>es_selection_state = Engagement_SELECTED,
        es_observation_id = rec_engagement_observation_id row, es_engagement_hash = rec_engagement_hash row,
        es_observed_at = rec_engagement_observed_at row, es_comments_count = rec_comments_count row,
        es_upvote_or_score = rec_upvote_or_score row\<rparr>)"

definition report_record_of ::
    "topic_codec \<Rightarrow> report_assembly_policy \<Rightarrow> report_input_query_rows \<Rightarrow> record_sql_row \<Rightarrow> report_error + report_record" where
  "report_record_of codec policy rows row =
     (case row_window row (seoul_report_windows (riq_report_date_seoul rows)) of Inl e \<Rightarrow> Inl e | Inr window \<Rightarrow>
     (case row_analysis row of Inl e \<Rightarrow> Inl e | Inr analysis \<Rightarrow>
     (case seq_result (row_rule_match policy)
         (filter (\<lambda>m. mat_post_version_id m = rec_post_version_id row) (riq_matches rows)) of Inl e \<Rightarrow> Inl e | Inr rules \<Rightarrow>
     (case row_topic_matches codec policy row analysis of Inl e \<Rightarrow> Inl e | Inr topics \<Rightarrow>
     (case row_engagement row of Inl e \<Rightarrow> Inl e | Inr engaged \<Rightarrow>
        let publication = row_publication row
        in validate_report_record
          \<lparr>rr_ordinal = 0, rr_role = rw_role window, rr_source_id = rec_source_id row,
           rr_country = rec_country row, rr_platform = rec_platform row, rr_community = rec_community row,
           rr_post_version_id = rec_post_version_id row, rr_post_content_hash = rec_post_content_hash row,
           rr_published_at_utc = rec_published_at_utc row, rr_published_date_seoul = rw_date_seoul window,
           rr_source_publication_sequence = pf_sequence publication,
           rr_source_publication_manifest_id = pf_id publication,
           rr_source_publication_manifest_hash = publication_hash (text_codec.truncate codec) publication,
           rr_analysis = analysis, rr_rule_matches = rules, rr_topic_matches = topics,
           rr_effective_categories = [], rr_engagement = engaged\<rparr>)))))"

definition report_records ::
    "topic_codec \<Rightarrow> report_assembly_policy \<Rightarrow> report_input_query_rows \<Rightarrow> report_error + report_record list" where
  "report_records codec policy rows = seq_result (report_record_of codec policy rows) (riq_records rows)"

section \<open>Assembly\<close>

text \<open>A dict comprehension over the policy's mappings, extended by the mapping of every retained topic; the
  values of a dict come in the order in which its keys were first inserted.\<close>

definition effective_mappings ::
    "report_assembly_policy \<Rightarrow> report_record list \<Rightarrow> category_mapping_snapshot list" where
  "effective_mappings policy records =
     map snd (foldl (\<lambda>selected m. AList.update (mapping_key_of m) m selected) []
       (rap_mappings policy
        @ concat (map (\<lambda>r. map (\<lambda>t. topic_mapping policy (tm_normalized_value t) (tm_analysis_schema_version t))
            (rr_topic_matches r)) records)))"

definition project_report_input ::
    "topic_codec \<Rightarrow> report_assembly_policy \<Rightarrow> report_input_query_rows \<Rightarrow> report_error + report_input_manifest" where
  "project_report_input codec policy rows =
     (case report_records codec policy rows of Inl e \<Rightarrow> Inl e
      | Inr records \<Rightarrow>
        (case source_coverage (text_codec.truncate codec) (rap_expected_sources policy) rows records of Inl e \<Rightarrow> Inl e
         | Inr coverage \<Rightarrow> validate_manifest
            \<lparr>rim_report_date_seoul = riq_report_date_seoul rows,
             rim_windows = (rws_primary (seoul_report_windows (riq_report_date_seoul rows)),
               rws_comparison (seoul_report_windows (riq_report_date_seoul rows))),
             rim_source_scope_version = rap_source_scope_version policy, rim_definitions = rap_definitions policy,
             rim_category_mappings = effective_mappings policy records, rim_records = records,
             rim_source_coverage = coverage\<rparr>))"

text \<open>\<open>assemble_in_session\<close>, with the rows that the snapshot returns.\<close>

definition assemble ::
    "topic_codec \<Rightarrow> report_assembly_policy \<Rightarrow> (seoul_date \<Rightarrow> report_input_query_rows) \<Rightarrow> seoul_date
      \<Rightarrow> report_error + report_input_manifest" where
  "assemble codec policy load_rows report_date =
     (if length (gd_analysis_versions (rap_definitions policy)) \<noteq> 1
      then Inl (Assembly_Error ''report_analysis_version_count_invalid'')
      else project_report_input codec policy (load_rows report_date))"

section \<open>A fresh input is accepted by the formula\<close>

text \<open>The part of a record that the coverage check reads; the canonical form keeps it.\<close>

definition record_facts where
  "record_facts r = ((rr_role r, rr_source_id r), (rr_country r, rr_platform r, rr_community r), rr_analysis r)"

lemma normalize_role_facts:
  assumes "normalize_role m rs role = Inr ss"
  shows "mset (map record_facts ss) = mset (map record_facts (filter (\<lambda>r. rr_role r = role) rs))"
proof -
  let ?xs = "sort_key record_order (filter (\<lambda>r. rr_role r = role) rs)"
  note d = normalize_roleD [OF assms]
  have "map record_facts ss = map record_facts ?xs"
  proof (rule nth_equalityI)
    fix i assume "i < length (map record_facts ss)"
    then have "i < length ss" by simp
    from normalize_recordD [OF d(2) [OF this]] this d(1)
    show "map record_facts ss ! i = map record_facts ?xs ! i" by (simp add: record_facts_def)
  qed (simp add: d(1))
  then show ?thesis by (metis mset_map mset_sort)
qed

lemma normalized_facts:
  assumes "normalize_manifest p = Inr n"
  shows "mset (map record_facts (rim_records n)) = mset (map record_facts (rim_records p))"
    and "set (rim_source_coverage n) = set (rim_source_coverage p)"
proof -
  obtain primary comparison where
    roles: "normalize_role (mapping_by_key (rim_category_mappings p)) (rim_records p) Role_PRIMARY = Inr primary"
      "normalize_role (mapping_by_key (rim_category_mappings p)) (rim_records p) Role_COMPARISON = Inr comparison"
    and n: "rim_records n = primary @ comparison" "rim_source_coverage n = sort_key coverage_order (rim_source_coverage p)"
    using assms by (rule normalize_manifestD) simp
  have "(rr_role r = Role_COMPARISON) = (rr_role r \<noteq> Role_PRIMARY)" for r :: report_record by (cases "rr_role r") simp_all
  then have "mset (rim_records p) = mset (filter (\<lambda>r. rr_role r = Role_PRIMARY) (rim_records p))
      + mset (filter (\<lambda>r. rr_role r = Role_COMPARISON) (rim_records p))"
    using mset_filter_split [of "rim_records p" "\<lambda>r. rr_role r = Role_PRIMARY"] by simp
  then have "image_mset record_facts (mset (rim_records p))
      = image_mset record_facts (mset (filter (\<lambda>r. rr_role r = Role_PRIMARY) (rim_records p)))
      + image_mset record_facts (mset (filter (\<lambda>r. rr_role r = Role_COMPARISON) (rim_records p)))"
    by (metis image_mset_union)
  then show "mset (map record_facts (rim_records n)) = mset (map record_facts (rim_records p))"
    using normalize_role_facts [OF roles(1)] normalize_role_facts [OF roles(2)] by (simp add: n)
  show "set (rim_source_coverage n) = set (rim_source_coverage p)" by (simp add: n)
qed

lemma count_where_facts:
  assumes "mset (map f xs) = mset (map f ys)"
  shows "count_where (\<lambda>x. q (f x)) xs = count_where (\<lambda>x. q (f x)) ys"
proof -
  have "count_where (\<lambda>x. q (f x)) zs = int (size (filter_mset q (mset (map f zs))))" for zs
    by (induction zs) simp_all
  then show ?thesis by (simp only: assms)
qed

lemma ball_facts:
  assumes "mset (map f xs) = mset (map f ys)"
  shows "(\<forall>x \<in> set xs. q (f x)) \<longleftrightarrow> (\<forall>x \<in> set ys. q (f x))"
proof -
  have "f ` set xs = f ` set ys" using assms by (metis set_map set_mset_mset)
  then show ?thesis by (metis ball_imageD imageI image_iff)
qed

lemma count_where_filter: "count_where p (filter q xs) = count_where (\<lambda>x. q x \<and> p x) xs"
  by (induction xs) auto

text \<open>The coverage check as conditions on the facts.\<close>

definition coverage_agrees where
  "coverage_agrees p c \<longleftrightarrow>
     count_where (\<lambda>r. fst (record_facts r) = coverage_key c) (rim_records p) = sco_candidate_count c
     \<and> count_where (\<lambda>r. fst (record_facts r) = coverage_key c
          \<and> as_state (snd (snd (record_facts r))) = Analysis_VALID) (rim_records p) = sco_valid_analysis_count c
     \<and> sco_pending_count c = sco_candidate_count c - sco_valid_analysis_count c
     \<and> count_where (\<lambda>r. fst (record_facts r) = coverage_key c
          \<and> as_relevance (snd (snd (record_facts r))) = Some True) (rim_records p) = sco_relevant_count c
     \<and> (\<forall>r \<in> set (rim_records p). fst (record_facts r) = coverage_key c \<longrightarrow>
          fst (snd (record_facts r)) = (sco_country c, sco_platform c, sco_community c))"

lemma verify_coverage_iff:
  "verify_coverage p = Inr () \<longleftrightarrow>
     (\<forall>r \<in> set (rim_records p). fst (record_facts r) \<in> coverage_key ` set (rim_source_coverage p))
     \<and> (\<forall>c \<in> set (rim_source_coverage p). coverage_agrees p c)"
proof -
  let ?body = "\<lambda>c. let records = filter (\<lambda>r. rr_role r = sco_role c \<and> rr_source_id r = sco_source_id c) (rim_records p);
              valid = count_where is_valid_record records;
              relevant = count_where (\<lambda>r. as_relevance (rr_analysis r) = Some True) records;
              n = int (length records)
          in if (n, valid, n - valid, relevant)
                \<noteq> (sco_candidate_count c, sco_valid_analysis_count c, sco_pending_count c, sco_relevant_count c)
             then Inl (Corrupt_Error ''source_coverage_count_mismatch'')
             else require (list_all (\<lambda>r. (rr_country r, rr_platform r, rr_community r)
                  = (sco_country c, sco_platform c, sco_community c)) records)
               (Corrupt_Error ''source_coverage_dimension_mismatch'') ()"
  have "?body c = Inr () \<longleftrightarrow> coverage_agrees p c" for c
    unfolding Let_def coverage_agrees_def count_where_filter count_where_def [of _ "rim_records p", symmetric]
    by (auto simp: record_facts_def coverage_key_def is_valid_record_def list_all_iff
        simp flip: count_where_def)
  moreover have "verify_coverage p = Inr () \<longleftrightarrow>
      (\<lambda>r. (rr_role r, rr_source_id r)) ` set (rim_records p) \<subseteq> coverage_key ` set (rim_source_coverage p)
      \<and> (\<exists>us. seq_result ?body (rim_source_coverage p) = Inr us)"
    unfolding verify_coverage_def by (auto split: sum.split)
  ultimately show ?thesis by (auto simp: seq_result_unit record_facts_def)
qed

lemma verify_coverage_normalized:
  assumes "normalize_manifest p = Inr n"
  shows "verify_coverage n = Inr () \<longleftrightarrow> verify_coverage p = Inr ()"
proof -
  note facts = normalized_facts [OF assms]
  have "coverage_agrees n c \<longleftrightarrow> coverage_agrees p c" for c
    unfolding coverage_agrees_def
      count_where_facts [OF facts(1), of "\<lambda>f. fst f = coverage_key c"]
      count_where_facts [OF facts(1), of "\<lambda>f. fst f = coverage_key c \<and> as_state (snd (snd f)) = Analysis_VALID"]
      count_where_facts [OF facts(1), of "\<lambda>f. fst f = coverage_key c \<and> as_relevance (snd (snd f)) = Some True"]
      ball_facts [OF facts(1), of "\<lambda>f. fst f = coverage_key c \<longrightarrow> fst (snd f) = (sco_country c, sco_platform c, sco_community c)"] ..
  then show ?thesis unfolding verify_coverage_iff facts(2)
      ball_facts [OF facts(1), of "\<lambda>f. fst f \<in> coverage_key ` set (rim_source_coverage p)"] by simp
qed

lemma validate_counts_Inr: "validate_counts c = Inr d \<Longrightarrow> d = c"
  by (auto simp: validate_counts_def Let_def split: if_splits)

lemma validate_analysis_Inr:
  "validate_analysis_state a = Inr b \<Longrightarrow> b = a \<and> (as_relevance a \<noteq> None \<longrightarrow> as_state a = Analysis_VALID)"
  by (auto simp: validate_analysis_state_def split: if_splits)

lemma row_analysis_relevance: "row_analysis row = Inr a \<Longrightarrow> as_relevance a \<noteq> None \<Longrightarrow> as_state a = Analysis_VALID"
  by (auto simp: row_analysis_def empty_analysis_def dest!: validate_analysis_Inr split: option.splits if_splits)

lemma report_record_ofD:
  assumes "report_record_of codec policy rows row = Inr r"
  shows "as_relevance (rr_analysis r) \<noteq> None \<Longrightarrow> as_state (rr_analysis r) = Analysis_VALID"
    and "rr_source_id r = rec_source_id row" "rr_country r = rec_country row" "rr_platform r = rec_platform row"
    and "rr_community r = rec_community row"
  using assms by (auto simp: report_record_of_def Let_def validate_report_record_def
      dest: row_analysis_relevance split: sum.splits)

text \<open>The rows of the records and the rows of the sources come from the same source table and scope.\<close>

definition source_of_record :: "record_sql_row \<Rightarrow> source_sql_row \<Rightarrow> bool" where
  "source_of_record row s \<longleftrightarrow> ssr_source_id s = rec_source_id row \<and> ssr_country s = rec_country row
     \<and> ssr_platform s = rec_platform row \<and> ssr_community s = rec_community row"

lemma source_coverageD:
  assumes "source_coverage codec expected rows records = Inr coverage"
  defines "item w s \<equiv> coverage_values codec expected
           \<lparr>cvf_window = w, cvf_source = s,
            cvf_expected_runs = int (length (filter (in_window w) (riq_slots rows))),
            cvf_runs = filter (\<lambda>r. rsr_source_id r = ssr_source_id s \<and> in_window w (rsr_due_slot_utc r))
              (riq_runs rows),
            cvf_records = filter (\<lambda>r. rr_source_id r = ssr_source_id s \<and> rr_role r = rw_role w) records,
            cvf_publications = filter (\<lambda>p. pf_source_id p = ssr_source_id s
              \<and> in_window w (pub_due_slot_utc p)) (riq_publications rows)\<rparr>"
  shows "c \<in> set coverage \<Longrightarrow> \<exists>role. \<exists>s \<in> set (riq_sources rows). c = item (window_for (riq_report_date_seoul rows) role) s"
    and "s \<in> set (riq_sources rows) \<Longrightarrow> item (window_for (riq_report_date_seoul rows) role) s \<in> set coverage"
proof -
  let ?w = "window_for (riq_report_date_seoul rows)"
  let ?keys = "List.product [?w Role_PRIMARY, ?w Role_COMPARISON] (riq_sources rows)"
  have all: "list_all2 (\<lambda>(w, s) c. validate_counts (item w s) = Inr c) ?keys coverage"
    using assms(1) by (simp add: source_coverage_def Let_def seq_result_Inr_iff coverage_item_def item_def
        window_for_def case_prod_unfold)
  show "\<exists>role. \<exists>s \<in> set (riq_sources rows). c = item (?w role) s" if mem: "c \<in> set coverage"
  proof -
    obtain i where i: "i < length coverage" "c = coverage ! i" using mem by (auto simp: in_set_conv_nth)
    have "?keys ! i \<in> set ?keys" using i list_all2_lengthD [OF all] by (intro nth_mem) simp
    then obtain role s where "?keys ! i = (?w role, s)" "s \<in> set (riq_sources rows)" by auto
    moreover have "(\<lambda>(w, s). validate_counts (item w s)) (?keys ! i) = Inr c"
      using list_all2_nthD2 [OF all i(1)] i(2) by (simp add: case_prod_unfold)
    ultimately show ?thesis by (auto dest!: validate_counts_Inr)
  qed
  show "item (?w role) s \<in> set coverage" if mem: "s \<in> set (riq_sources rows)"
  proof -
    have "(?w role, s) \<in> set ?keys" using mem by (cases role) simp_all
    then obtain i where i: "i < length ?keys" "?keys ! i = (?w role, s)" by (auto simp only: in_set_conv_nth)
    from list_all2_nthD [OF all i(1)] i(2) have "coverage ! i = item (?w role) s"
      by (auto dest!: validate_counts_Inr)
    then show ?thesis using i(1) list_all2_lengthD [OF all] by (metis nth_mem)
  qed
qed

lemma coverage_values_fields:
  "coverage_key (coverage_values codec expected f) = (rw_role (cvf_window f), ssr_source_id (cvf_source f))"
  "sco_country (coverage_values codec expected f) = ssr_country (cvf_source f)"
  "sco_platform (coverage_values codec expected f) = ssr_platform (cvf_source f)"
  "sco_community (coverage_values codec expected f) = ssr_community (cvf_source f)"
  "sco_candidate_count (coverage_values codec expected f) = int (length (cvf_records f))"
  "sco_valid_analysis_count (coverage_values codec expected f) = count_where is_valid_record (cvf_records f)"
  "sco_pending_count (coverage_values codec expected f)
     = int (length (cvf_records f)) - count_where is_valid_record (cvf_records f)"
  "sco_relevant_count (coverage_values codec expected f) = count_where is_relevant_record (cvf_records f)"
  by (simp_all add: coverage_values_def coverage_key_def Let_def)

lemma project_report_inputD:
  assumes "project_report_input codec policy rows = Inr p"
  shows "report_records codec policy rows = Inr (rim_records p)"
    "source_coverage (text_codec.truncate codec) (rap_expected_sources policy) rows (rim_records p)
       = Inr (rim_source_coverage p)"
    "validate_manifest p = Inr p"
  using assms by (auto simp: project_report_input_def validate_manifest_Inr split: sum.splits)

lemma assembled_coverage_agrees:
  assumes input: "project_report_input codec policy rows = Inr p"
    and sources: "\<forall>row \<in> set (riq_records rows). \<exists>s \<in> set (riq_sources rows). source_of_record row s"
  shows "verify_coverage p = Inr ()"
  unfolding verify_coverage_iff
proof (intro conjI ballI)
  note d = project_report_inputD [OF input]
  note cov = source_coverageD [OF d(2)]
  have keys: "distinct (map coverage_key (rim_source_coverage p))"
    using d(3) by (simp add: validate_manifest_Inr manifest_ok_def)
  have origin: "\<exists>row \<in> set (riq_records rows). report_record_of codec policy rows row = Inr r"
    if "r \<in> set (rim_records p)" for r
    using seq_result_Inr_ex [OF d(1) [unfolded report_records_def] that] .
  have covered: "\<exists>c \<in> set (rim_source_coverage p). coverage_key c = (rr_role r, rr_source_id r)
      \<and> (sco_country c, sco_platform c, sco_community c) = (rr_country r, rr_platform r, rr_community r)"
    if mem: "r \<in> set (rim_records p)" for r
  proof -
    obtain row where row: "row \<in> set (riq_records rows)" "report_record_of codec policy rows row = Inr r"
      using origin [OF mem] by blast
    obtain s where s: "s \<in> set (riq_sources rows)" "source_of_record row s" using sources row(1) by blast
    show ?thesis using cov(2) [OF s(1), of "rr_role r"] s(2) report_record_ofD(2-5) [OF row(2)]
      by (intro bexI [OF _ cov(2) [OF s(1), of "rr_role r"]]) (simp add: coverage_values_fields source_of_record_def)
  qed
  show "fst (record_facts r) \<in> coverage_key ` set (rim_source_coverage p)" if "r \<in> set (rim_records p)" for r
    using covered [OF that] by (auto simp: record_facts_def intro: rev_image_eqI)
  fix c assume c: "c \<in> set (rim_source_coverage p)"
  obtain role s where "s \<in> set (riq_sources rows)" and item: "\<exists>f. c = coverage_values (text_codec.truncate codec)
      (rap_expected_sources policy) f \<and> cvf_records f
        = filter (\<lambda>r. rr_source_id r = ssr_source_id s \<and> rr_role r = rw_role (cvf_window f)) (rim_records p)
      \<and> cvf_source f = s" using cov(1) [OF c] by fastforce
  then obtain f where f: "c = coverage_values (text_codec.truncate codec) (rap_expected_sources policy) f"
    "cvf_records f = filter (\<lambda>r. (rr_role r, rr_source_id r) = coverage_key c) (rim_records p)"
    by (auto simp: coverage_values_fields conj_commute)
  have relevant: "as_relevance (rr_analysis r) = Some True \<Longrightarrow> is_valid_record r" if "r \<in> set (rim_records p)" for r
    using origin [OF that] by (auto simp: is_valid_record_def dest: report_record_ofD(1))
  have counts: "sco_candidate_count c = count_where (\<lambda>r. (rr_role r, rr_source_id r) = coverage_key c) (rim_records p)"
    "sco_valid_analysis_count c = count_where is_valid_record (cvf_records f)"
    "sco_pending_count c = sco_candidate_count c - sco_valid_analysis_count c"
    "sco_relevant_count c = count_where is_relevant_record (cvf_records f)"
    using f by (simp_all add: coverage_values_fields count_where_def)
  have rel: "count_where is_relevant_record (cvf_records f)
      = count_where (\<lambda>r. as_relevance (rr_analysis r) = Some True) (cvf_records f)"
    by (rule count_where_const) (auto simp: f(2) is_relevant_record_def intro: relevant)
  have dims: "(rr_country r, rr_platform r, rr_community r) = (sco_country c, sco_platform c, sco_community c)"
    if r: "r \<in> set (rim_records p)" "(rr_role r, rr_source_id r) = coverage_key c" for r
  proof -
    obtain c' where c': "c' \<in> set (rim_source_coverage p)" "coverage_key c' = coverage_key c"
      "(sco_country c', sco_platform c', sco_community c') = (rr_country r, rr_platform r, rr_community r)"
      using covered [OF r(1)] r(2) by auto
    then have "c' = c" using keys c inj_onD [of coverage_key "set (rim_source_coverage p)" c' c] by (simp add: distinct_map)
    then show ?thesis using c'(3) by simp
  qed
  show "coverage_agrees p c"
    using counts(1,2,3,4) dims unfolding coverage_agrees_def rel
    by (simp add: f(2) count_where_filter record_facts_def is_valid_record_def)
qed

lemma assembled_projects:
  assumes "project_report_input codec policy rows = Inr p"
    and "\<forall>row \<in> set (riq_records rows). \<exists>s \<in> set (riq_sources rows). source_of_record row s"
  shows "\<exists>b. project_report nfc gzip p = Inr b"
proof -
  have "manifest_ok p" using project_report_inputD(3) [OF assms(1)] by (simp add: validate_manifest_Inr)
  then obtain n where n: "normalize_manifest p = Inr n" using normalize_manifest_total by blast
  then obtain m where m: "build_manifest nfc gzip p = Inr m" by (auto simp: build_manifest_def Let_def)
  have "verify_coverage (mb_payload m) = Inr ()"
    using verify_coverage_normalized [OF build_manifestD(1) [OF m]] assembled_coverage_agrees [OF assms] by simp
  with m show ?thesis by (simp add: project_report_def Let_def)
qed

text \<open>(C30) An input that was assembled from the database is always accepted by the report formula: the coverage
  derived from run facts accounts for exactly the retained records, with their dimensions, so the check
  that guards against corrupt inputs can fail only for a stored input that was altered.\<close>

theorem assembled_input_projects:
  assumes "project_report_input codec policy rows = Inr p"
    and "\<forall>row \<in> set (riq_records rows). \<exists>s \<in> set (riq_sources rows). source_of_record row s"
  shows "\<exists>b. project_report nfc gzip p = Inr b"
  using assms by (rule assembled_projects)

section \<open>An example\<close>

definition example_rows :: report_input_query_rows where
  "example_rows = \<lparr>riq_report_date_seoul = 0, riq_observed_at = days 1, riq_records =
     [\<lparr>rec_source_id = 7, rec_country = Country_US, rec_platform = Platform_REDDIT, rec_community = ''stocks'',
       rec_post_version_id = 1, rec_post_content_hash = sha256_hex ''c'', rec_published_at_utc = 0,
       rec_analysis_id = None, rec_analysis_state = None, rec_output_hash = None, rec_prompt_version = None,
       rec_model_version = None, rec_schema_version = None, rec_analyzed_at = None, rec_relevance = None,
       rec_sentiment = None, rec_topics = None, rec_queue_status = Some Queue_PENDING,
       rec_engagement_observation_id = None, rec_engagement_hash = None, rec_engagement_observed_at = None,
       rec_comments_count = None, rec_upvote_or_score = None, rec_publication_id = 3, rec_publication_run_id = 4,
       rec_publication_terminal_page_commit_id = 5, rec_publication_sequence = 1,
       rec_publication_final_chain_hash = ''f'', rec_publication_post_set_hash = ''p'',
       rec_publication_distinct_post_version_count = 1, rec_publication_zero_post = False,
       rec_publication_committed_at = 0\<rparr>],
     riq_matches = [], riq_sources =
     [\<lparr>ssr_source_id = 7, ssr_country = Country_US, ssr_platform = Platform_REDDIT, ssr_community = ''stocks'',
       ssr_external_key = ''stocks'', ssr_source_enabled = True, ssr_authorization_status = None,
       ssr_authorization_effective_at = None, ssr_authorization_expires_at = None,
       ssr_authorization_revoked_at = None\<rparr>],
     riq_slots = [], riq_runs = [], riq_publications = []\<rparr>"

definition example_policy :: report_assembly_policy where
  "example_policy = \<lparr>rap_source_scope_version = ''scope'', rap_definitions = rim_definitions (example_manifest []),
     rap_mappings = [], rap_default_category = ''general'', rap_expected_sources = {}\<rparr>"

definition example_codec :: topic_codec where
  "example_codec = \<lparr>tc_nfc = id, tc_iso = utc_text, tc_fold = id\<rparr>"

lemma example_record_row:
  "\<exists>r. report_records example_codec example_policy example_rows = Inr [r] \<and> rr_source_id r = 7 \<and> rr_role r = Role_PRIMARY
    \<and> as_state (rr_analysis r) = Analysis_PENDING \<and> as_relevance (rr_analysis r) = None \<and> rr_topic_matches r = []
    \<and> rr_rule_matches r = [] \<and> valid_publication 0 r"
  by (simp add: report_records_def report_record_of_def example_rows_def row_window_def in_window_def
      seoul_report_windows_def combine_midnight_def SEOUL_def duration_defs row_analysis_def empty_analysis_def
      validate_analysis_state_def row_topic_matches_def row_engagement_def validate_selection_def
      validate_report_record_def row_publication_def publication_hash_def safe_count_def
      valid_publication_def window_for_def Let_def)

lemma example_coverage_row:
  assumes "rr_source_id r = 7" "rr_role r = Role_PRIMARY" "as_state (rr_analysis r) = Analysis_PENDING"
  shows "\<exists>cs. source_coverage (text_codec.truncate example_codec) {} example_rows [r] = Inr cs
    \<and> distinct (map coverage_key cs)"
proof -
  have "\<not> is_valid_record r" "\<not> is_relevant_record r" using assms(3) by (simp_all add: is_valid_record_def is_relevant_record_def)
  then show ?thesis using assms
    by (simp add: source_coverage_def example_rows_def coverage_item_def coverage_values_def validate_counts_def
        coverage_fields_ok_def safe_count_def terminal_runs_def allowed_statuses_def derive_collection_status_def
        run_facts_def latest_run_def status_observed_at_def map_filter_simps seoul_report_windows_def coverage_key_def
        Let_def)
qed

lemma example_assembled: "\<exists>p. project_report_input example_codec example_policy example_rows = Inr p"
proof -
  obtain r where r: "report_records example_codec example_policy example_rows = Inr [r]" "rr_source_id r = 7"
    "rr_role r = Role_PRIMARY" "as_state (rr_analysis r) = Analysis_PENDING" "as_relevance (rr_analysis r) = None"
    "rr_topic_matches r = []" "rr_rule_matches r = []" "valid_publication 0 r" using example_record_row by blast
  obtain cs where cs: "source_coverage (text_codec.truncate example_codec) {} example_rows [r] = Inr cs"
    "distinct (map coverage_key cs)" using example_coverage_row [OF r(2,3,4)] by blast
  have none: "effective_mappings example_policy [r] = []" by (simp add: effective_mappings_def example_policy_def r)
  let ?p = "\<lparr>rim_report_date_seoul = 0, rim_windows = (window_for 0 Role_PRIMARY, window_for 0 Role_COMPARISON),
     rim_source_scope_version = ''scope'', rim_definitions = rim_definitions (example_manifest []),
     rim_category_mappings = [], rim_records = [r], rim_source_coverage = cs\<rparr>"
  have "manifest_ok ?p" using r cs(2) by (simp add: manifest_ok_def role_all governed_def)
  moreover have "rap_expected_sources example_policy = {}" by (simp add: example_policy_def)
  ultimately have p: "project_report_input example_codec example_policy example_rows = Inr ?p"
    using cs(1) by (simp add: project_report_input_def r(1) none validate_manifest_Inr)
      (simp add: example_policy_def example_rows_def window_for_def validate_manifest_Inr)
  then show ?thesis by blast
qed

lemma example_rows_sourced:
  "\<forall>row \<in> set (riq_records example_rows). \<exists>s \<in> set (riq_sources example_rows). source_of_record row s"
  by (simp add: example_rows_def source_of_record_def)

theorem assembled_input_projects_witness:
  "\<exists>p b. project_report_input example_codec example_policy example_rows = Inr p \<and> project_report id id p = Inr b"
  using example_assembled assembled_input_projects [OF _ example_rows_sourced] by blast

end
