(* ===== verification/Report_Repository.thy ===== *)
theory Report_Repository
  imports Report_Assembly
begin

text \<open>
  \<open>reporting/reproduction.py\<close>, \<open>reconciliation.py\<close>, \<open>repository_types.py\<close>, \<open>repository.py\<close>,
  \<open>_report_rows.py\<close> and \<open>coordinator.py\<close>: the append-only history of report versions.

  The repository has two adapters, the in-memory reference and PostgreSQL. Their common contract is the
  locale \<open>report_history\<close>; the SQL adapter is shown to refine the reference, and both interpret it. An
  operation that raises leaves the tables as they were: the code runs it in one transaction.
\<close>

section \<open>Reproduction from retained bytes\<close>

text \<open>The library functions of the reproduction path. \<open>lib_parse_report\<close> is \<open>model_validate_json\<close> of the
  report payload, with the text of its \<open>ValidationError\<close>.\<close>

record report_library =
  lib_nfc :: "string \<Rightarrow> string"
  lib_gzip :: "string \<Rightarrow> string"
  lib_gunzip :: "string \<Rightarrow> string option"
  lib_parse_manifest :: "string \<Rightarrow> report_input_manifest option"
  lib_parse_report :: "string \<Rightarrow> string + daily_report_payload"

record retained_report =
  rt_manifest :: manifest_envelope
  rt_report_payload :: string
  rt_report_payload_sha256 :: string

datatype reproduction_result =
    Reproduced_Report daily_report_payload string string
  | Manifest_Corrupt string

definition reproduce_report :: "report_library \<Rightarrow> retained_report \<Rightarrow> report_error + reproduction_result" where
  "reproduce_report lib kept =
     (case (case read_manifest (lib_nfc lib) (lib_gunzip lib) (lib_parse_manifest lib) (rt_manifest kept) of
              Inl e \<Rightarrow> Inl e | Inr payload \<Rightarrow> project_report (lib_nfc lib) (lib_gzip lib) payload) of
        Inl (Integrity_Error reason) \<Rightarrow> Inr (Manifest_Corrupt reason)
      | Inl (Corrupt_Error reason) \<Rightarrow> Inr (Manifest_Corrupt reason)
      | Inl (Validation_Error reason) \<Rightarrow> Inr (Manifest_Corrupt reason)
      | Inl e \<Rightarrow> Inl e
      | Inr recomputed \<Rightarrow>
        (case lib_parse_report lib (rt_report_payload kept) of
           Inl reason \<Rightarrow> Inr (Manifest_Corrupt reason)
         | Inr stored_payload \<Rightarrow>
             if rt_report_payload kept = rb_canonical_bytes recomputed
                \<and> rt_report_payload_sha256 kept = rb_payload_sha256 recomputed
                \<and> sha256_hex (rt_report_payload kept) = rt_report_payload_sha256 kept
                \<and> stored_payload = rb_payload recomputed
             then Inr (Reproduced_Report (rb_payload recomputed) (rb_canonical_bytes recomputed)
                    (rb_payload_sha256 recomputed))
             else Inr (Manifest_Corrupt ''report_projection_mismatch'')))"

section \<open>Requests\<close>

definition REPORT_RETENTION_DAYS :: int where "REPORT_RETENTION_DAYS = 180"
definition TRAILING_CORRECTION_DAYS :: int where "TRAILING_CORRECTION_DAYS = 7"

record append_report_request =
  ar_report_id :: uuid
  ar_version_id :: uuid
  ar_manifest_id :: uuid
  ar_report_date_seoul :: seoul_date
  ar_report_schema_version :: string
  ar_input_set_hash :: string
  ar_created_at :: instant
  ar_retain_until :: instant
  ar_retained :: retained_report

record reconcile_request =
  rq_payload :: report_input_manifest
  rq_created_at :: instant
  rq_report_id :: uuid
  rq_version_id :: uuid
  rq_manifest_id :: uuid

definition retained_of :: "report_build \<Rightarrow> retained_report" where
  "retained_of build = \<lparr>rt_manifest = mb_envelope (rb_manifest build),
     rt_report_payload = rb_canonical_bytes build, rt_report_payload_sha256 = rb_payload_sha256 build\<rparr>"

definition append_report_request_of :: "report_library \<Rightarrow> reconcile_request \<Rightarrow> report_error + append_report_request" where
  "append_report_request_of lib request =
     (case project_report (lib_nfc lib) (lib_gzip lib) (rq_payload request) of Inl e \<Rightarrow> Inl e
      | Inr build \<Rightarrow> Inr
        \<lparr>ar_report_id = rq_report_id request, ar_version_id = rq_version_id request,
         ar_manifest_id = rq_manifest_id request,
         ar_report_date_seoul = drp_report_date_seoul (rb_payload build),
         ar_report_schema_version = ''daily-report-payload/v1'',
         ar_input_set_hash = drp_input_set_hash (rb_payload build), ar_created_at = rq_created_at request,
         ar_retain_until = rq_created_at request + days REPORT_RETENTION_DAYS,
         ar_retained = retained_of build\<rparr>)"

record correction_targets =
  ct_report_dates :: "seoul_date list"
  ct_outside_window :: bool

definition correction_targets_of :: "seoul_date \<Rightarrow> seoul_date \<Rightarrow> correction_targets" where
  "correction_targets_of changed_date latest_report_date =
     (let first_retained = latest_report_date - (TRAILING_CORRECTION_DAYS - 1);
          selected = filter (\<lambda>d. first_retained \<le> d \<and> d \<le> latest_report_date) [changed_date, changed_date + 1]
      in \<lparr>ct_report_dates = selected, ct_outside_window = (selected = [])\<rparr>)"

section \<open>The in-memory repository\<close>

record stored_report_version =
  sv_report_id :: uuid
  sv_version_id :: uuid
  sv_manifest_id :: uuid
  sv_report_date_seoul :: seoul_date
  sv_revision :: int
  sv_supersedes_version_id :: "uuid option"
  sv_report_schema_version :: string
  sv_input_set_hash :: string
  sv_created_at :: instant
  sv_retain_until :: instant
  sv_retained :: retained_report

fun last_of :: "'a list \<Rightarrow> 'a option" where
  "last_of [] = None"
| "last_of (x # xs) = Some (last (x # xs))"

definition same_identity :: "stored_report_version \<Rightarrow> append_report_request \<Rightarrow> bool" where
  "same_identity v r \<longleftrightarrow> sv_report_schema_version v = ar_report_schema_version r
     \<and> sv_input_set_hash v = ar_input_set_hash r"

definition next_version :: "stored_report_version option \<Rightarrow> append_report_request \<Rightarrow> stored_report_version" where
  "next_version latest r =
     \<lparr>sv_report_id = (case latest of Some v \<Rightarrow> sv_report_id v | None \<Rightarrow> ar_report_id r),
      sv_version_id = ar_version_id r, sv_manifest_id = ar_manifest_id r,
      sv_report_date_seoul = ar_report_date_seoul r,
      sv_revision = (case latest of None \<Rightarrow> 1 | Some v \<Rightarrow> sv_revision v + 1),
      sv_supersedes_version_id = map_option sv_version_id latest,
      sv_report_schema_version = ar_report_schema_version r, sv_input_set_hash = ar_input_set_hash r,
      sv_created_at = ar_created_at r, sv_retain_until = ar_retain_until r, sv_retained = ar_retained r\<rparr>"

type_synonym memory_histories = "seoul_date \<Rightarrow> stored_report_version list"

text \<open>The outcome is the version and whether it was created.\<close>

definition append_if_changed ::
    "memory_histories \<Rightarrow> append_report_request \<Rightarrow> memory_histories \<times> stored_report_version \<times> bool" where
  "append_if_changed histories r =
     (let history = histories (ar_report_date_seoul r); latest = last_of history
      in case latest of
           Some v \<Rightarrow> if same_identity v r then (histories, v, False)
             else (histories(ar_report_date_seoul r := history @ [next_version latest r]), next_version latest r, True)
         | None \<Rightarrow>
             (histories(ar_report_date_seoul r := history @ [next_version latest r]), next_version latest r, True))"

section \<open>The SQL repository\<close>

text \<open>Rows in insertion order. \<open>dvr_projection\<close> are the displayed scalars that \<open>version_row\<close> copies from the
  report payload, \<open>smr_payload\<close> those that \<open>manifest_row\<close> copies from the manifest.\<close>

record daily_version_row =
  dvr_id :: uuid
  dvr_report_id :: uuid
  dvr_report_date_seoul :: seoul_date
  dvr_revision :: int
  dvr_supersedes_version_id :: "uuid option"
  dvr_input_set_hash :: string
  dvr_report_schema_version :: string
  dvr_manifest_id :: uuid
  dvr_projection :: daily_report_payload
  dvr_report_payload :: string
  dvr_report_payload_sha256 :: string
  dvr_created_at :: instant
  dvr_retain_until :: instant

record stored_manifest_row =
  smr_id :: uuid
  smr_report_version_id :: uuid
  smr_report_date_seoul :: seoul_date
  smr_report_revision :: int
  smr_payload :: report_input_manifest
  smr_envelope :: manifest_envelope
  smr_created_at :: instant
  smr_retain_until :: instant

record daily_report_row =
  drr_id :: uuid
  drr_report_date_seoul :: seoul_date
  drr_latest_version_id :: "uuid option"

record report_tables =
  tbl_reports :: "seoul_date \<Rightarrow> daily_report_row option"
  tbl_versions :: "daily_version_row list"
  tbl_manifests :: "stored_manifest_row list"

datatype append_error =
    Append_Report_Error report_error
  | Retained_Manifest_Missing
  | Duplicate_Key

definition retained_row :: "stored_manifest_row \<Rightarrow> daily_version_row \<Rightarrow> retained_report" where
  "retained_row m v = \<lparr>rt_manifest = smr_envelope m, rt_report_payload = dvr_report_payload v,
     rt_report_payload_sha256 = dvr_report_payload_sha256 v\<rparr>"

definition stored_row :: "daily_version_row \<Rightarrow> retained_report \<Rightarrow> stored_report_version" where
  "stored_row v kept = \<lparr>sv_report_id = dvr_report_id v, sv_version_id = dvr_id v, sv_manifest_id = dvr_manifest_id v,
     sv_report_date_seoul = dvr_report_date_seoul v, sv_revision = dvr_revision v,
     sv_supersedes_version_id = dvr_supersedes_version_id v,
     sv_report_schema_version = dvr_report_schema_version v, sv_input_set_hash = dvr_input_set_hash v,
     sv_created_at = dvr_created_at v, sv_retain_until = dvr_retain_until v, sv_retained = kept\<rparr>"

definition version_row ::
    "append_report_request \<Rightarrow> daily_report_payload \<Rightarrow> uuid \<Rightarrow> int \<Rightarrow> daily_version_row option \<Rightarrow> daily_version_row" where
  "version_row r payload report_id revision latest =
     \<lparr>dvr_id = ar_version_id r, dvr_report_id = report_id, dvr_report_date_seoul = ar_report_date_seoul r,
      dvr_revision = revision, dvr_supersedes_version_id = map_option dvr_id latest,
      dvr_input_set_hash = ar_input_set_hash r, dvr_report_schema_version = ar_report_schema_version r,
      dvr_manifest_id = ar_manifest_id r, dvr_projection = payload,
      dvr_report_payload = rt_report_payload (ar_retained r),
      dvr_report_payload_sha256 = rt_report_payload_sha256 (ar_retained r),
      dvr_created_at = ar_created_at r, dvr_retain_until = ar_retain_until r\<rparr>"

definition manifest_row :: "append_report_request \<Rightarrow> report_input_manifest \<Rightarrow> int \<Rightarrow> stored_manifest_row" where
  "manifest_row r payload revision =
     \<lparr>smr_id = ar_manifest_id r, smr_report_version_id = ar_version_id r,
      smr_report_date_seoul = ar_report_date_seoul r, smr_report_revision = revision, smr_payload = payload,
      smr_envelope = rt_manifest (ar_retained r), smr_created_at = ar_created_at r,
      smr_retain_until = ar_retain_until r\<rparr>"

definition get_version :: "report_tables \<Rightarrow> uuid \<Rightarrow> daily_version_row option" where
  "get_version t u = List.find (\<lambda>v. dvr_id v = u) (tbl_versions t)"

definition get_manifest :: "report_tables \<Rightarrow> uuid \<Rightarrow> stored_manifest_row option" where
  "get_manifest t u = List.find (\<lambda>m. smr_id m = u) (tbl_manifests t)"

text \<open>The second half of \<open>_append_locked\<close>: replay the proposed report, then add its rows.\<close>

definition append_new_version ::
    "report_library \<Rightarrow> report_tables \<Rightarrow> append_report_request \<Rightarrow> uuid \<Rightarrow> daily_version_row option
      \<Rightarrow> append_error + (report_tables \<times> stored_report_version \<times> bool)" where
  "append_new_version lib t r report_id latest =
     (case reproduce_report lib (ar_retained r) of
        Inl e \<Rightarrow> Inl (Append_Report_Error e)
      | Inr (Manifest_Corrupt reason) \<Rightarrow> Inl (Append_Report_Error (Integrity_Error reason))
      | Inr (Reproduced_Report _ _ _) \<Rightarrow>
        (case read_manifest (lib_nfc lib) (lib_gunzip lib) (lib_parse_manifest lib) (rt_manifest (ar_retained r)) of
           Inl e \<Rightarrow> Inl (Append_Report_Error e)
         | Inr payload \<Rightarrow>
           (case lib_parse_report lib (rt_report_payload (ar_retained r)) of
              Inl reason \<Rightarrow> Inl (Append_Report_Error (Validation_Error reason))
            | Inr projected \<Rightarrow>
              let revision = (case latest of None \<Rightarrow> 1 | Some v \<Rightarrow> dvr_revision v + 1);
                  version = version_row r projected report_id revision latest;
                  manifest = manifest_row r payload revision
              in if get_version t (ar_version_id r) \<noteq> None \<or> get_manifest t (ar_manifest_id r) \<noteq> None
                 then Inl Duplicate_Key
                 else Inr (t\<lparr>tbl_reports := (tbl_reports t)(ar_report_date_seoul r \<mapsto>
                           \<lparr>drr_id = report_id, drr_report_date_seoul = ar_report_date_seoul r,
                            drr_latest_version_id = Some (ar_version_id r)\<rparr>),
                         tbl_versions := tbl_versions t @ [version],
                         tbl_manifests := tbl_manifests t @ [manifest]\<rparr>,
                       stored_row version (ar_retained r), True))))"

definition append_locked ::
    "report_library \<Rightarrow> report_tables \<Rightarrow> append_report_request
      \<Rightarrow> append_error + (report_tables \<times> stored_report_version \<times> bool)" where
  "append_locked lib t r =
     (let report = tbl_reports t (ar_report_date_seoul r);
          latest = Option.bind report (\<lambda>row. Option.bind (drr_latest_version_id row) (get_version t));
          same = (case latest of None \<Rightarrow> False | Some v \<Rightarrow> dvr_report_schema_version v = ar_report_schema_version r
                    \<and> dvr_input_set_hash v = ar_input_set_hash r)
      in if same
         then (case get_manifest t (dvr_manifest_id (the latest)) of
                 None \<Rightarrow> Inl Retained_Manifest_Missing
               | Some m \<Rightarrow> Inr (t, stored_row (the latest) (retained_row m (the latest)), False))
         else append_new_version lib t r
           (case report of Some row \<Rightarrow> drr_id row | None \<Rightarrow> ar_report_id r) latest)"

text \<open>\<open>SqlAlchemyReportCoordinator.reconcile\<close>: assemble, project and append in one transaction.\<close>

definition reconcile_report_date ::
    "report_library \<Rightarrow> topic_codec \<Rightarrow> report_assembly_policy \<Rightarrow> (seoul_date \<Rightarrow> report_input_query_rows)
      \<Rightarrow> instant \<Rightarrow> uuid \<times> uuid \<times> uuid \<Rightarrow> report_tables \<Rightarrow> seoul_date
      \<Rightarrow> append_error + (report_tables \<times> stored_report_version \<times> bool)" where
  "reconcile_report_date lib codec policy load_rows created_at ids t report_date =
     (case assemble codec policy load_rows report_date of
        Inl e \<Rightarrow> Inl (Append_Report_Error e)
      | Inr payload \<Rightarrow>
        (case append_report_request_of lib \<lparr>rq_payload = payload, rq_created_at = created_at,
               rq_report_id = fst ids, rq_version_id = fst (snd ids), rq_manifest_id = snd (snd ids)\<rparr> of
           Inl e \<Rightarrow> Inl (Append_Report_Error e)
         | Inr request \<Rightarrow> append_locked lib t request))"

section \<open>The contract of a repository\<close>

text \<open>What a history of versions promises: the version at position \<open>i\<close> is revision \<open>i + 1\<close> of the date's one
  report, supersedes its predecessor and differs from it in its identity.\<close>

definition linked :: "stored_report_version option \<Rightarrow> stored_report_version \<Rightarrow> bool" where
  "linked latest v \<longleftrightarrow>
     (case latest of
        None \<Rightarrow> sv_revision v = 1 \<and> sv_supersedes_version_id v = None
      | Some w \<Rightarrow> sv_revision v = sv_revision w + 1 \<and> sv_supersedes_version_id v = Some (sv_version_id w)
          \<and> sv_report_id v = sv_report_id w
          \<and> (sv_report_schema_version v, sv_input_set_hash v) \<noteq> (sv_report_schema_version w, sv_input_set_hash w))"

definition history_ok :: "seoul_date \<Rightarrow> stored_report_version list \<Rightarrow> bool" where
  "history_ok d vs \<longleftrightarrow> (\<forall>i < length vs. sv_report_date_seoul (vs ! i) = d
     \<and> linked (if i = 0 then None else Some (vs ! (i - 1))) (vs ! i))"

lemma last_of_snoc [simp]: "last_of (xs @ [x]) = Some x"
  by (cases xs) simp_all

lemma last_of_None [simp]: "last_of xs = None \<longleftrightarrow> xs = []"
  by (cases xs) simp_all

lemma last_of_map: "last_of (map f xs) = map_option f (last_of xs)"
  by (cases xs) (simp_all add: last_map)

lemma last_of_nth: "last_of xs = (if length xs = 0 then None else Some (xs ! (length xs - 1)))"
  by (cases xs) (simp_all add: last_conv_nth del: last.simps)

lemma last_of_SomeD: "last_of xs = Some x \<Longrightarrow> x \<in> set xs"
  using last_in_set [of xs] by (cases xs) (auto simp del: last.simps)

lemma history_ok_snoc:
  "history_ok d vs \<Longrightarrow> sv_report_date_seoul v = d \<Longrightarrow> linked (last_of vs) v \<Longrightarrow> history_ok d (vs @ [v])"
  by (auto simp: history_ok_def nth_append less_Suc_eq last_of_nth)

lemma history_ok_revision: "history_ok d vs \<Longrightarrow> i < length vs \<Longrightarrow> sv_revision (vs ! i) = int i + 1"
proof (induction i)
  case 0
  then show ?case by (auto simp: history_ok_def linked_def)
next
  case (Suc i)
  then have "linked (Some (vs ! i)) (vs ! Suc i)" by (auto simp: history_ok_def dest: spec [of _ "Suc i"])
  with Suc show ?case by (simp add: linked_def)
qed

lemma history_ok_report_id: "history_ok d vs \<Longrightarrow> i < length vs \<Longrightarrow> sv_report_id (vs ! i) = sv_report_id (vs ! 0)"
proof (induction i)
  case (Suc i)
  then have "linked (Some (vs ! i)) (vs ! Suc i)" by (auto simp: history_ok_def dest: spec [of _ "Suc i"])
  with Suc show ?case by (simp add: linked_def)
qed simp

text \<open>An append as the reference sees it.\<close>

lemma append_if_changed_cases:
  obtains (reused) v where "last_of (h (ar_report_date_seoul r)) = Some v" "same_identity v r"
      "append_if_changed h r = (h, v, False)"
  | (added) v where "v = next_version (last_of (h (ar_report_date_seoul r))) r"
      "\<And>w. last_of (h (ar_report_date_seoul r)) = Some w \<Longrightarrow> \<not> same_identity w r"
      "append_if_changed h r = (h(ar_report_date_seoul r := h (ar_report_date_seoul r) @ [v]), v, True)"
  by (cases "last_of (h (ar_report_date_seoul r))"; cases "\<exists>v. last_of (h (ar_report_date_seoul r)) = Some v \<and> same_identity v r")
     (auto simp: append_if_changed_def Let_def)

lemma next_version_linked:
  "(\<And>w. latest = Some w \<Longrightarrow> \<not> same_identity w r) \<Longrightarrow> linked latest (next_version latest r)"
  by (cases latest) (auto simp: linked_def next_version_def same_identity_def)

text \<open>The interface: a state, its abstraction to histories, and an append that does to the histories what the
  reference does.\<close>

locale report_history =
  fixes append :: "'s \<Rightarrow> append_report_request \<Rightarrow> 'e + ('s \<times> stored_report_version \<times> bool)"
    and history :: "'s \<Rightarrow> memory_histories"
    and wf :: "'s \<Rightarrow> bool"
  assumes append_wf: "wf s \<Longrightarrow> append s r = Inr (s', v, c) \<Longrightarrow> wf s'"
    and append_refines: "wf s \<Longrightarrow> append s r = Inr (s', v, c) \<Longrightarrow> append_if_changed (history s) r = (history s', v, c)"
begin

definition appended :: "'s \<Rightarrow> 's \<Rightarrow> bool" where
  "appended s t \<longleftrightarrow> (\<exists>r v c. append s r = Inr (t, v, c))"

lemma append_grows:
  assumes "wf s" and "append s r = Inr (s', v, c)"
  shows "\<exists>vs. history s' d = history s d @ vs"
proof (cases rule: append_if_changed_cases [of "history s" r])
  case (reused w)
  then show ?thesis using append_refines [OF assms] by simp
next
  case (added w)
  then show ?thesis using append_refines [OF assms] by auto
qed

lemma append_history_ok:
  assumes "wf s" and "append s r = Inr (s', v, c)" and "\<And>d. history_ok d (history s d)"
  shows "history_ok d (history s' d)"
proof (cases rule: append_if_changed_cases [of "history s" r])
  case (reused w)
  then show ?thesis using append_refines [OF assms(1,2)] assms(3) by simp
next
  case (added w)
  let ?d = "ar_report_date_seoul r"
  have s': "history s' = (history s)(?d := history s ?d @ [w])" using append_refines [OF assms(1,2)] added(3) by auto
  have "history_ok ?d (history s ?d @ [w])"
    using assms(3) added(1,2) by (intro history_ok_snoc) (simp_all add: next_version_linked, simp add: next_version_def)
  then show ?thesis using assms(3) by (simp add: s')
qed

lemma appended_steps:
  assumes "appended\<^sup>*\<^sup>* s t" and "wf s" and "\<And>d. history_ok d (history s d)"
  shows "wf t \<and> history_ok d (history t d) \<and> (\<exists>vs. history t d = history s d @ vs)"
  using assms(1)
proof (induction arbitrary: d rule: rtranclp_induct)
  case base
  then show ?case using assms(2,3) by simp
next
  case (step t u)
  then obtain r v c where a: "append t r = Inr (u, v, c)" by (auto simp: appended_def)
  have "wf t" using step.IH by simp
  note after = append_wf [OF this a] append_history_ok [OF this a, of d] append_grows [OF this a, of d]
  obtain vs ws where "history u d = history t d @ vs" "history t d = history s d @ ws"
    using after(3) step.IH by blast
  then have "history u d = history s d @ (ws @ vs)" by simp
  then show ?case using after(1,2) step.IH by blast
qed

text \<open>Appending the same identity again creates nothing.\<close>

lemma append_again:
  assumes "wf s" and "append s r = Inr (s', v, c)" and "append s' r = Inr (s'', v', c')"
  shows "v' = v \<and> \<not> c' \<and> history s'' = history s'"
proof -
  have "last_of (history s' (ar_report_date_seoul r)) = Some v \<and> same_identity v r"
  proof (cases rule: append_if_changed_cases [of "history s" r])
    case (reused w)
    then show ?thesis using append_refines [OF assms(1,2)] by simp
  next
    case (added w)
    then show ?thesis using append_refines [OF assms(1,2)] by (auto simp: same_identity_def next_version_def)
  qed
  then show ?thesis
    using append_refines [OF append_wf [OF assms(1,2)] assms(3)] by (simp add: append_if_changed_def Let_def)
qed

end

interpretation memory: report_history "\<lambda>h r. Inr (append_if_changed h r)" "\<lambda>h. h" "\<lambda>_. True"
  by unfold_locales simp_all

section \<open>The SQL repository refines the reference\<close>

definition versions_of :: "report_tables \<Rightarrow> seoul_date \<Rightarrow> daily_version_row list" where
  "versions_of t d = filter (\<lambda>v. dvr_report_date_seoul v = d) (tbl_versions t)"

definition stored_version :: "report_tables \<Rightarrow> daily_version_row \<Rightarrow> stored_report_version" where
  "stored_version t v = stored_row v (retained_row (the (get_manifest t (dvr_manifest_id v))) v)"

definition sql_history :: "report_tables \<Rightarrow> memory_histories" where
  "sql_history t d = map (stored_version t) (versions_of t d)"

definition tables_wf :: "report_tables \<Rightarrow> bool" where
  "tables_wf t \<longleftrightarrow>
     distinct (map dvr_id (tbl_versions t))
     \<and> (\<forall>v \<in> set (tbl_versions t). get_manifest t (dvr_manifest_id v) \<noteq> None)
     \<and> (\<forall>d. case tbl_reports t d of
            None \<Rightarrow> versions_of t d = []
          | Some row \<Rightarrow> (\<exists>v. last_of (versions_of t d) = Some v
              \<and> drr_latest_version_id row = Some (dvr_id v) \<and> dvr_report_id v = drr_id row))"

definition empty_tables :: report_tables where
  "empty_tables = \<lparr>tbl_reports = \<lambda>_. None, tbl_versions = [], tbl_manifests = []\<rparr>"

lemma empty_tables_wf: "tables_wf empty_tables"
  by (simp add: tables_wf_def empty_tables_def versions_of_def)

lemma find_distinct: "distinct (map key xs) \<Longrightarrow> x \<in> set xs \<Longrightarrow> List.find (\<lambda>y. key y = key x) xs = Some x"
  by (induction xs) (auto simp: image_iff)

text \<open>The row that the code calls \<open>latest\<close> is the last version of the date.\<close>

lemma latest_version:
  assumes "tables_wf t"
  shows "Option.bind (tbl_reports t d) (\<lambda>row. Option.bind (drr_latest_version_id row) (get_version t))
    = last_of (versions_of t d)"
    and "tbl_reports t d = Some row \<Longrightarrow> last_of (versions_of t d) = Some v \<Longrightarrow> drr_id row = dvr_report_id v"
    and "tbl_reports t d = None \<Longrightarrow> versions_of t d = []"
proof -
  have ids: "distinct (map dvr_id (tbl_versions t))" using assms by (simp add: tables_wf_def)
  have row: "\<exists>v. last_of (versions_of t d) = Some v \<and> drr_latest_version_id row = Some (dvr_id v) \<and> dvr_report_id v = drr_id row"
    if "tbl_reports t d = Some row" for row
    using assms that by (auto simp: tables_wf_def dest: spec [of _ d])
  show none: "tbl_reports t d = None \<Longrightarrow> versions_of t d = []"
    using assms by (auto simp: tables_wf_def dest: spec [of _ d])
  show "tbl_reports t d = Some row \<Longrightarrow> last_of (versions_of t d) = Some v \<Longrightarrow> drr_id row = dvr_report_id v"
    using row by fastforce
  show "Option.bind (tbl_reports t d) (\<lambda>row. Option.bind (drr_latest_version_id row) (get_version t))
    = last_of (versions_of t d)"
  proof (cases "tbl_reports t d")
    case None
    then show ?thesis using none by simp
  next
    case (Some row)
    then obtain v where v: "last_of (versions_of t d) = Some v" "drr_latest_version_id row = Some (dvr_id v)"
      using row by blast
    then have "v \<in> set (tbl_versions t)" using last_of_SomeD [OF v(1)] by (simp add: versions_of_def)
    then show ?thesis using find_distinct [OF ids] v Some by (simp add: get_version_def)
  qed
qed

text \<open>The two ways in which a SQL append succeeds.\<close>

lemma append_new_versionD:
  assumes "append_new_version lib t r report_id latest = Inr (t', v, c)"
  obtains projected payload revision where
    "revision = (case latest of None \<Rightarrow> 1 | Some v \<Rightarrow> dvr_revision v + 1)"
    "get_version t (ar_version_id r) = None" "get_manifest t (ar_manifest_id r) = None"
    "t' = t\<lparr>tbl_reports := (tbl_reports t)(ar_report_date_seoul r \<mapsto>
          \<lparr>drr_id = report_id, drr_report_date_seoul = ar_report_date_seoul r,
           drr_latest_version_id = Some (ar_version_id r)\<rparr>),
         tbl_versions := tbl_versions t @ [version_row r projected report_id revision latest],
         tbl_manifests := tbl_manifests t @ [manifest_row r payload revision]\<rparr>"
    "v = stored_row (version_row r projected report_id revision latest) (ar_retained r)" "c"
  using assms unfolding append_new_version_def Let_def
  by (auto split: sum.splits reproduction_result.splits if_splits)

lemma append_locked_cases:
  assumes wf: "tables_wf t" and app: "append_locked lib t r = Inr (t', v, c)"
  defines "latest \<equiv> last_of (versions_of t (ar_report_date_seoul r))"
  obtains (reused) w m where "latest = Some w" "dvr_report_schema_version w = ar_report_schema_version r"
      "dvr_input_set_hash w = ar_input_set_hash r" "get_manifest t (dvr_manifest_id w) = Some m"
      "t' = t" "v = stored_row w (retained_row m w)" "\<not> c"
  | (added) projected payload report_id revision where
      "\<And>w. latest = Some w \<Longrightarrow> \<not> (dvr_report_schema_version w = ar_report_schema_version r
         \<and> dvr_input_set_hash w = ar_input_set_hash r)"
      "report_id = (case latest of Some w \<Rightarrow> dvr_report_id w | None \<Rightarrow> ar_report_id r)"
      "revision = (case latest of None \<Rightarrow> 1 | Some w \<Rightarrow> dvr_revision w + 1)"
      "get_version t (ar_version_id r) = None" "get_manifest t (ar_manifest_id r) = None"
      "t' = t\<lparr>tbl_reports := (tbl_reports t)(ar_report_date_seoul r \<mapsto>
          \<lparr>drr_id = report_id, drr_report_date_seoul = ar_report_date_seoul r,
           drr_latest_version_id = Some (ar_version_id r)\<rparr>),
         tbl_versions := tbl_versions t @ [version_row r projected report_id revision latest],
         tbl_manifests := tbl_manifests t @ [manifest_row r payload revision]\<rparr>"
      "v = stored_row (version_row r projected report_id revision latest) (ar_retained r)" "c"
proof -
  note latest = latest_version [OF wf, of "ar_report_date_seoul r"]
  let ?same = "case latest of None \<Rightarrow> False | Some v \<Rightarrow> dvr_report_schema_version v = ar_report_schema_version r
                    \<and> dvr_input_set_hash v = ar_input_set_hash r"
  have rid: "(case tbl_reports t (ar_report_date_seoul r) of Some row \<Rightarrow> drr_id row | None \<Rightarrow> ar_report_id r)
      = (case latest of Some w \<Rightarrow> dvr_report_id w | None \<Rightarrow> ar_report_id r)"
  proof (cases "tbl_reports t (ar_report_date_seoul r)")
    case None
    then show ?thesis using latest(3) by (simp add: latest_def)
  next
    case (Some row)
    then obtain w where "latest = Some w"
      using wf by (force simp: tables_wf_def latest_def dest: spec [of _ "ar_report_date_seoul r"])
    then show ?thesis using latest(2) [OF Some] Some by (simp add: latest_def)
  qed
  show thesis
  proof (cases ?same)
    case True
    then obtain w where w: "latest = Some w" "dvr_report_schema_version w = ar_report_schema_version r"
      "dvr_input_set_hash w = ar_input_set_hash r" by (auto split: option.splits)
    obtain m where m: "get_manifest t (dvr_manifest_id w) = Some m" "t' = t" "v = stored_row w (retained_row m w)" "\<not> c"
      using app w unfolding append_locked_def Let_def latest(1) latest_def [symmetric]
      by (auto split: option.splits)
    show thesis by (rule reused [OF w m])
  next
    case False
    have new: "append_new_version lib t r (case latest of Some w \<Rightarrow> dvr_report_id w | None \<Rightarrow> ar_report_id r) latest
        = Inr (t', v, c)"
      using app False unfolding append_locked_def Let_def latest(1) latest_def [symmetric] rid by simp
    have differs: "\<not> (dvr_report_schema_version w = ar_report_schema_version r
         \<and> dvr_input_set_hash w = ar_input_set_hash r)" if "latest = Some w" for w
      using False that by simp
    show thesis
      by (rule append_new_versionD [OF new]) (rule added [OF differs refl])
  qed
qed

lemma retained_eta [simp]: "\<lparr>rt_manifest = rt_manifest x, rt_report_payload = rt_report_payload x,
    rt_report_payload_sha256 = rt_report_payload_sha256 x\<rparr> = x"
  by (cases x) simp

lemma append_locked_refines:
  assumes wf: "tables_wf t" and app: "append_locked lib t r = Inr (t', v, c)"
  shows "tables_wf t' \<and> append_if_changed (sql_history t) r = (sql_history t', v, c)"
proof (cases rule: append_locked_cases [OF assms, case_names reused added])
  case (reused w m)
  let ?d = "ar_report_date_seoul r"
  have last: "last_of (sql_history t ?d) = Some (stored_version t w)"
    using reused(1) by (simp add: sql_history_def last_of_map)
  have stored: "stored_version t w = v" using reused(4,6) by (simp add: stored_version_def)
  then have "same_identity v r" using reused(2,3) by (auto simp: same_identity_def stored_version_def stored_row_def)
  then show ?thesis using wf last stored reused(5,7) by (simp add: append_if_changed_def Let_def)
next
  case (added projected payload report_id revision)
  define d where "d = ar_report_date_seoul r"
  define latest where "latest = last_of (versions_of t d)"
  define new where "new = version_row r projected report_id revision latest"
  have t': "tbl_versions t' = tbl_versions t @ [new]" "tbl_manifests t' = tbl_manifests t @ [manifest_row r payload revision]"
    "tbl_reports t' = (tbl_reports t)(d \<mapsto> \<lparr>drr_id = report_id, drr_report_date_seoul = d,
       drr_latest_version_id = Some (ar_version_id r)\<rparr>)"
    using added(6) by (simp_all add: new_def latest_def d_def)
  have new: "dvr_id new = ar_version_id r" "dvr_report_date_seoul new = d" "dvr_manifest_id new = ar_manifest_id r"
    "dvr_report_id new = report_id"
    by (simp_all add: new_def version_row_def d_def)
  have known: "get_manifest t' u = get_manifest t u" if "get_manifest t u \<noteq> None" for u
    using that by (auto simp: get_manifest_def t' find_append)
  have fresh: "get_manifest t' (ar_manifest_id r) = Some (manifest_row r payload revision)"
    using added(5) by (simp add: get_manifest_def t' find_append manifest_row_def)
  have vs: "versions_of t' e = versions_of t e @ (if e = d then [new] else [])" for e
    by (simp add: versions_of_def t' new(2))
  have kept: "stored_version t' w = stored_version t w" if "w \<in> set (tbl_versions t)" for w
    using that wf known by (simp add: stored_version_def tables_wf_def)
  have hist: "sql_history t' e = sql_history t e @ (if e = d then [v] else [])" for e
  proof -
    have "stored_version t' new = v"
      using added(7) fresh by (simp add: stored_version_def new(3) new_def [symmetric] latest_def [symmetric] d_def [symmetric])
        (simp add: new_def retained_row_def manifest_row_def version_row_def)
    moreover have "map (stored_version t') (versions_of t e) = map (stored_version t) (versions_of t e)"
      using kept by (simp add: versions_of_def)
    ultimately show ?thesis by (simp add: sql_history_def vs)
  qed
  have last: "last_of (sql_history t d) = map_option (stored_version t) latest"
    by (simp add: sql_history_def last_of_map latest_def)
  have "v = next_version (last_of (sql_history t d)) r"
    unfolding last using added(2,3,7) by (cases latest)
      (simp_all add: next_version_def stored_version_def stored_row_def version_row_def latest_def [symmetric] d_def [symmetric])
  moreover have "\<not> same_identity w r" if "last_of (sql_history t d) = Some w" for w
    using that added(1) unfolding last
    by (auto simp: same_identity_def stored_version_def stored_row_def latest_def d_def)
  ultimately have ref: "append_if_changed (sql_history t) r = ((sql_history t)(d := sql_history t d @ [v]), v, True)"
    by (auto simp: append_if_changed_def d_def Let_def split: option.split)
  have "sql_history t' = (sql_history t)(d := sql_history t d @ [v])" using hist by (auto simp: fun_eq_iff)
  moreover have "tables_wf t'"
    unfolding tables_wf_def
  proof (intro conjI allI ballI)
    have "ar_version_id r \<notin> dvr_id ` set (tbl_versions t)"
      using added(4) by (auto simp: get_version_def find_None_iff)
    then show "distinct (map dvr_id (tbl_versions t'))" using wf by (simp add: t' new(1) tables_wf_def)
    show "get_manifest t' (dvr_manifest_id w) \<noteq> None" if "w \<in> set (tbl_versions t')" for w
      using that wf known fresh by (auto simp: t' new(3) tables_wf_def)
    fix e
    show "case tbl_reports t' e of None \<Rightarrow> versions_of t' e = []
          | Some row \<Rightarrow> \<exists>w. last_of (versions_of t' e) = Some w
              \<and> drr_latest_version_id row = Some (dvr_id w) \<and> dvr_report_id w = drr_id row"
    proof (cases "e = d")
      case True
      then show ?thesis by (simp add: t'(3) vs new)
    next
      case False
      then have same: "versions_of t' e = versions_of t e" "tbl_reports t' e = tbl_reports t e" by (simp_all add: vs t'(3))
      show ?thesis unfolding same using wf by (simp add: tables_wf_def)
    qed
  qed
  ultimately show ?thesis using ref added(8) by simp
qed

interpretation sql: report_history "append_locked lib" sql_history tables_wf for lib
  by unfold_locales (auto dest: append_locked_refines)

end
