(* ===== verification/Report_History.thy ===== *)
theory Report_History
  imports Report_Repository
begin

text \<open>
  The promises of the report repository (\<open>repository.py\<close>, \<open>reproduction.py\<close>, \<open>coordinator.py\<close>): the SQL tables
  refine the in-memory reference, every stored version reproduces byte for byte, and a reconciliation with
  unchanged facts stores nothing.
\<close>

section \<open>Runs of appends\<close>

text \<open>One committed append. A refused one changes nothing.\<close>

inductive append_step :: "report_library \<Rightarrow> report_tables \<Rightarrow> report_tables \<Rightarrow> bool" for lib where
  appended: "append_locked lib t r = Inr (t', v, c) \<Longrightarrow> append_step lib t t'"

inductive_simps append_step_iff: "append_step lib t t'"

lemma append_step_appended: "append_step lib = sql.appended lib"
  by (intro ext) (simp add: append_step_iff sql.appended_def)

lemma empty_history_ok: "history_ok d (sql_history empty_tables d)"
  by (simp add: sql_history_def versions_of_def empty_tables_def history_ok_def)

lemma append_steps:
  assumes "(append_step lib)\<^sup>*\<^sup>* empty_tables t" and "(append_step lib)\<^sup>*\<^sup>* t u"
  shows "tables_wf t" "history_ok d (sql_history u d)" "\<exists>vs. sql_history u d = sql_history t d @ vs"
proof -
  note first = sql.appended_steps [OF assms(1) [unfolded append_step_appended] empty_tables_wf empty_history_ok]
  then show "tables_wf t" by simp
  note sql.appended_steps [OF assms(2) [unfolded append_step_appended] this]
  then show "history_ok d (sql_history u d)" "\<exists>vs. sql_history u d = sql_history t d @ vs" using first by blast+
qed

section \<open>Reproduction\<close>

text \<open>What a report build needs of \<open>gzip\<close> and of the two JSON parsers: that they read back what was written.\<close>

definition reads_back :: "report_library \<Rightarrow> report_build \<Rightarrow> bool" where
  "reads_back lib b \<longleftrightarrow>
     lib_gunzip lib (lib_gzip lib (mb_canonical_bytes (rb_manifest b))) = Some (mb_canonical_bytes (rb_manifest b))
     \<and> lib_parse_manifest lib (mb_canonical_bytes (rb_manifest b)) = Some (mb_payload (rb_manifest b))
     \<and> lib_parse_report lib (rb_canonical_bytes b) = Inr (rb_payload b)"

lemma reproduce_own_report:
  assumes valid: "validate_manifest p = Inr p"
    and build: "project_report (lib_nfc lib) (lib_gzip lib) p = Inr b" and lib: "reads_back lib b"
  shows "read_manifest (lib_nfc lib) (lib_gunzip lib) (lib_parse_manifest lib) (mb_envelope (rb_manifest b))
      = Inr (mb_payload (rb_manifest b))"
    and "reproduce_report lib (retained_of b) = Inr (Reproduced_Report (rb_payload b) (rb_canonical_bytes b) (rb_payload_sha256 b))"
proof -
  note d = project_reportD [OF build]
  show read: "read_manifest (lib_nfc lib) (lib_gunzip lib) (lib_parse_manifest lib) (mb_envelope (rb_manifest b))
      = Inr (mb_payload (rb_manifest b))"
    using manifest_roundtrip_lemma [OF valid d(1)] lib by (simp add: reads_back_def)
  show "reproduce_report lib (retained_of b) = Inr (Reproduced_Report (rb_payload b) (rb_canonical_bytes b) (rb_payload_sha256 b))"
    using read project_report_fixpoint [OF valid build] lib d(5)
    by (simp add: reproduce_report_def retained_of_def reads_back_def)
qed

lemma reproduce_reportD:
  assumes "reproduce_report lib kept = Inr (Reproduced_Report payload bytes digest)"
  obtains b where "bytes = rt_report_payload kept" "digest = sha256_hex bytes"
    "lib_parse_report lib bytes = Inr payload" "digest = rt_report_payload_sha256 kept"
  using assms that unfolding reproduce_report_def
  by (auto split: sum.splits report_error.splits if_splits)

text \<open>An append keeps a version only after it replayed it, so every stored version replays.\<close>

definition reproduces :: "report_library \<Rightarrow> retained_report \<Rightarrow> bool" where
  "reproduces lib kept \<longleftrightarrow> (\<exists>payload. reproduce_report lib kept
     = Inr (Reproduced_Report payload (rt_report_payload kept) (sha256_hex (rt_report_payload kept))))"

lemma append_new_version_reproduces:
  assumes "append_new_version lib t r report_id latest = Inr (t', v, c)"
  shows "reproduces lib (ar_retained r)"
proof -
  obtain payload bytes digest where rep: "reproduce_report lib (ar_retained r) = Inr (Reproduced_Report payload bytes digest)"
    using assms unfolding append_new_version_def by (auto split: sum.splits reproduction_result.splits)
  from rep show ?thesis by (rule reproduce_reportD) (use rep in \<open>auto simp: reproduces_def\<close>)
qed

text \<open>The reference append, from its result.\<close>

lemma append_if_changedD:
  assumes "append_if_changed h r = (h', v, c)"
  shows "last_of (h' (ar_report_date_seoul r)) = Some v" "same_identity v r" "\<not> c \<Longrightarrow> h' = h"
    "c \<Longrightarrow> h' = h(ar_report_date_seoul r := h (ar_report_date_seoul r) @ [v])" "c \<Longrightarrow> sv_retained v = ar_retained r"
proof -
  have new: "same_identity (next_version l r) r" "sv_retained (next_version l r) = ar_retained r" for l
    by (simp_all add: same_identity_def next_version_def)
  show "last_of (h' (ar_report_date_seoul r)) = Some v" "same_identity v r" "\<not> c \<Longrightarrow> h' = h"
    "c \<Longrightarrow> h' = h(ar_report_date_seoul r := h (ar_report_date_seoul r) @ [v])" "c \<Longrightarrow> sv_retained v = ar_retained r"
    by (cases rule: append_if_changed_cases [of h r]; use assms in \<open>simp add: new\<close>;
        use assms in \<open>force simp: new\<close>)+
qed

lemma append_locked_reproduces:
  assumes wf: "tables_wf t" and app: "append_locked lib t r = Inr (t', v, c)"
    and old: "\<forall>d. \<forall>w \<in> set (sql_history t d). reproduces lib (sv_retained w)"
  shows "\<forall>w \<in> set (sql_history t' d). reproduces lib (sv_retained w)"
proof -
  note ref = append_if_changedD [OF append_locked_refines [OF wf app, THEN conjunct2]]
  show ?thesis
  proof (cases c)
    case False
    then show ?thesis using old ref(3) by simp
  next
    case True
    note h = ref(4) [OF True] and v = ref(5) [OF True]
    obtain rid latest where "append_new_version lib t r rid latest = Inr (t', v, c)"
      using app True unfolding append_locked_def Let_def by (auto split: if_splits option.splits)
    then have "reproduces lib (sv_retained v)" unfolding v by (rule append_new_version_reproduces)
    then show ?thesis using old by (simp add: h)
  qed
qed

lemma stored_reproduce_lemma:
  assumes "(append_step lib)\<^sup>*\<^sup>* empty_tables t"
  shows "\<forall>w \<in> set (sql_history t d). reproduces lib (sv_retained w)"
  using assms
proof (induction arbitrary: d rule: rtranclp_induct)
  case base
  then show ?case by (simp add: sql_history_def versions_of_def empty_tables_def)
next
  case (step t u)
  then obtain r v c where "append_locked lib t r = Inr (u, v, c)" by (auto simp: append_step_iff)
  then show ?case
    using append_locked_reproduces [OF append_steps(1) [OF step.hyps(1) rtranclp.rtrancl_refl]] step.IH by blast
qed

section \<open>Properties\<close>

text \<open>(C18) The SQL repository refines the in-memory reference: on well-formed tables every append that commits
  leaves well-formed tables, and the history it leaves, the version it returns and whether it created one are
  those of the reference append.\<close>

theorem sql_append_refines_memory:
  assumes "tables_wf t" and "append_locked lib t r = Inr (t', v, c)"
  shows "tables_wf t' \<and> append_if_changed (sql_history t) r = (sql_history t', v, c)"
  using assms by (rule append_locked_refines)

text \<open>(C16) Report history is append-only: after any sequence of appends the versions of a date are revisions 1, 2,
  3, ... of one report, each superseding the one before it and differing from it in its identity, and every
  later state of the date extends the earlier one.\<close>

theorem report_history_append_only:
  assumes "(append_step lib)\<^sup>*\<^sup>* empty_tables t" and "(append_step lib)\<^sup>*\<^sup>* t u"
  shows "history_ok d (sql_history u d) \<and> map sv_revision (sql_history u d) = map (\<lambda>i. int i + 1) [0..<length (sql_history u d)]
    \<and> (\<exists>vs. sql_history u d = sql_history t d @ vs)"
proof -
  note steps = append_steps(2,3) [OF assms, of d]
  have "map sv_revision (sql_history u d) = map (\<lambda>i. int i + 1) [0..<length (sql_history u d)]"
    by (rule nth_equalityI) (simp_all add: history_ok_revision [OF steps(1)])
  with steps show ?thesis by blast
qed

text \<open>(C17) Every stored version can be reproduced: after any sequence of appends, replaying the retained manifest
  of any version of any date through the formula gives exactly the stored bytes and their digest.\<close>

theorem stored_reports_reproduce:
  assumes "(append_step lib)\<^sup>*\<^sup>* empty_tables t" and "v \<in> set (sql_history t d)"
  shows "\<exists>payload. reproduce_report lib (sv_retained v) = Inr (Reproduced_Report payload
    (rt_report_payload (sv_retained v)) (sha256_hex (rt_report_payload (sv_retained v))))"
  using stored_reproduce_lemma [OF assms(1)] assms(2) by (auto simp: reproduces_def)

text \<open>What a reconciliation does, as one append.\<close>

lemma reconcile_report_dateD:
  assumes "reconcile_report_date lib codec policy load_rows created_at ids t d = Inr (t', v, c)"
  obtains p b r where "assemble codec policy load_rows d = Inr p"
    "project_report (lib_nfc lib) (lib_gzip lib) p = Inr b" "append_locked lib t r = Inr (t', v, c)"
    "ar_report_date_seoul r = drp_report_date_seoul (rb_payload b)"
    "ar_input_set_hash r = drp_input_set_hash (rb_payload b)"
    "ar_report_schema_version r = ''daily-report-payload/v1''" "ar_retained r = retained_of b"
  using assms that unfolding reconcile_report_date_def append_report_request_of_def
  by (auto split: sum.splits)

lemma append_again_locked:
  assumes wf: "tables_wf t" and app: "append_locked lib t r = Inr (t', v, c)"
    and same: "ar_report_date_seoul q = ar_report_date_seoul r" "ar_input_set_hash q = ar_input_set_hash r"
      "ar_report_schema_version q = ar_report_schema_version r"
  shows "append_locked lib t' q = Inr (t', v, False)"
proof -
  have wf': "tables_wf t'" using append_locked_refines [OF assms(1,2)] by simp
  note after = append_if_changedD [OF append_locked_refines [OF assms(1,2), THEN conjunct2]]
  from after(1) obtain w where w: "last_of (versions_of t' (ar_report_date_seoul r)) = Some w" "stored_version t' w = v"
    by (auto simp: sql_history_def last_of_map)
  then have "w \<in> set (tbl_versions t')" using last_of_SomeD [OF w(1)] by (simp add: versions_of_def)
  then obtain m where m: "get_manifest t' (dvr_manifest_id w) = Some m" using wf' by (auto simp: tables_wf_def)
  have "dvr_report_schema_version w = ar_report_schema_version q" "dvr_input_set_hash w = ar_input_set_hash q"
    using after(2) w(2) same by (auto simp: same_identity_def stored_version_def stored_row_def)
  moreover have "stored_row w (retained_row m w) = v" using w(2) m by (simp add: stored_version_def)
  ultimately show ?thesis
    unfolding append_locked_def Let_def latest_version(1) [OF wf'] using w(1) m same(1) by simp
qed

text \<open>Reconciling a date again when its facts have not changed stores nothing and returns the version that is
  already there, whatever fresh identifiers and time the second attempt brings.\<close>

theorem reconcile_again_is_identity:
  assumes "tables_wf t"
    and "reconcile_report_date lib codec policy load_rows created_at ids t d = Inr (t', v, c)"
  shows "reconcile_report_date lib codec policy load_rows created_at' ids' t' d = Inr (t', v, False)"
proof -
  obtain p b r where r: "assemble codec policy load_rows d = Inr p" "project_report (lib_nfc lib) (lib_gzip lib) p = Inr b"
    "append_locked lib t r = Inr (t', v, c)" "ar_report_date_seoul r = drp_report_date_seoul (rb_payload b)"
    "ar_input_set_hash r = drp_input_set_hash (rb_payload b)"
    "ar_report_schema_version r = ''daily-report-payload/v1''"
    using assms(2) by (rule reconcile_report_dateD)
  show ?thesis
    unfolding reconcile_report_date_def append_report_request_of_def r(1,2) reconcile_request.select_convs sum.case
    by (rule append_again_locked [OF assms(1) r(3)]) (simp_all add: r)
qed

lemma reconcile_total:
  assumes "tables_wf t" and "assemble codec policy load_rows d = Inr p"
    and "\<forall>row \<in> set (riq_records (load_rows d)). \<exists>s \<in> set (riq_sources (load_rows d)). source_of_record row s"
    and "get_version t (fst (snd ids)) = None" and "get_manifest t (snd (snd ids)) = None"
    and "\<And>b. project_report (lib_nfc lib) (lib_gzip lib) p = Inr b \<Longrightarrow> reads_back lib b"
  shows "\<exists>t' v c b. reconcile_report_date lib codec policy load_rows created_at ids t d = Inr (t', v, c)
    \<and> project_report (lib_nfc lib) (lib_gzip lib) p = Inr b
    \<and> sv_input_set_hash v = drp_input_set_hash (rb_payload b)
    \<and> (c \<longrightarrow> sv_retained v = retained_of b)"
proof -
  have p: "project_report_input codec policy (load_rows d) = Inr p"
    using assms(2) by (auto simp: assemble_def split: if_splits)
  then obtain b where b: "project_report (lib_nfc lib) (lib_gzip lib) p = Inr b"
    using assembled_projects [OF _ assms(3)] by blast
  note own = reproduce_own_report [OF project_report_inputD(3) [OF p] b assms(6) [OF b]]
  have parse: "lib_parse_report lib (rb_canonical_bytes b) = Inr (rb_payload b)"
    using assms(6) [OF b] by (simp add: reads_back_def)
  define r where "r = \<lparr>ar_report_id = fst ids, ar_version_id = fst (snd ids), ar_manifest_id = snd (snd ids),
         ar_report_date_seoul = drp_report_date_seoul (rb_payload b),
         ar_report_schema_version = ''daily-report-payload/v1'',
         ar_input_set_hash = drp_input_set_hash (rb_payload b), ar_created_at = created_at,
         ar_retain_until = created_at + days REPORT_RETENTION_DAYS, ar_retained = retained_of b\<rparr>"
  have rec: "reconcile_report_date lib codec policy load_rows created_at ids t d = append_locked lib t r"
    by (simp add: reconcile_report_date_def append_report_request_of_def assms(2) b r_def)
  have new: "\<exists>t' v. append_new_version lib t r rid latest = Inr (t', v, True)" for rid latest
  proof -
    have "ar_retained r = retained_of b" "ar_version_id r = fst (snd ids)" "ar_manifest_id r = snd (snd ids)"
      "rt_manifest (retained_of b) = mb_envelope (rb_manifest b)" "rt_report_payload (retained_of b) = rb_canonical_bytes b"
      by (simp_all add: r_def retained_of_def)
    then show ?thesis using own parse assms(4,5) by (simp add: append_new_version_def Let_def)
  qed
  have "\<exists>t' v c. append_locked lib t r = Inr (t', v, c)"
  proof (cases "last_of (versions_of t (ar_report_date_seoul r))")
    case None
    then show ?thesis unfolding append_locked_def Let_def latest_version(1) [OF assms(1)] using new by fastforce
  next
    case (Some w)
    then have "w \<in> set (tbl_versions t)" using last_of_SomeD [OF Some] by (simp add: versions_of_def)
    then obtain m where "get_manifest t (dvr_manifest_id w) = Some m" using assms(1) by (auto simp: tables_wf_def)
    then show ?thesis
      unfolding append_locked_def Let_def latest_version(1) [OF assms(1)] using new Some by fastforce
  qed
  then obtain t' v c where app: "append_locked lib t r = Inr (t', v, c)" by blast
  have "sv_input_set_hash v = ar_input_set_hash r" "c \<Longrightarrow> sv_retained v = ar_retained r"
    using append_if_changedD(2,5) [OF append_locked_refines [OF assms(1) app, THEN conjunct2]]
    by (simp_all add: same_identity_def)
  then show ?thesis using rec app b by (auto simp: r_def)
qed


section \<open>An example\<close>

text \<open>The rows of \<open>example_rows\<close>, with a library that knows the one report they give.\<close>

definition example_library :: "report_build \<Rightarrow> report_library" where
  "example_library b = \<lparr>lib_nfc = id, lib_gzip = id, lib_gunzip = Some,
     lib_parse_manifest = (\<lambda>s. if s = mb_canonical_bytes (rb_manifest b) then Some (mb_payload (rb_manifest b)) else None),
     lib_parse_report = (\<lambda>s. if s = rb_canonical_bytes b then Inr (rb_payload b) else Inl ''invalid'')\<rparr>"

abbreviation example_reconcile where
  "example_reconcile b created_at ids t \<equiv> reconcile_report_date (example_library b) example_codec example_policy
     (\<lambda>_. example_rows) created_at ids t 0"

lemma example_reads_back: "reads_back (example_library b) b"
  by (simp add: reads_back_def example_library_def)

lemma example_input: "\<exists>p b. assemble example_codec example_policy (\<lambda>_. example_rows) 0 = Inr p
    \<and> project_report (lib_nfc (example_library b)) (lib_gzip (example_library b)) p = Inr b"
proof -
  obtain p where p: "project_report_input example_codec example_policy example_rows = Inr p" using example_assembled by blast
  moreover obtain b where "project_report id id p = Inr b" using assembled_projects [OF p example_rows_sourced] by blast
  moreover have "length (gd_analysis_versions (rap_definitions example_policy)) = 1"
    by (simp add: example_policy_def example_manifest_def)
  ultimately show ?thesis by (auto simp: assemble_def example_library_def)
qed

lemma empty_tables_fresh: "get_version empty_tables u = None" "get_manifest empty_tables u = None"
  by (simp_all add: get_version_def get_manifest_def empty_tables_def)

lemma example_reconciled:
  obtains b t v c r where "example_reconcile b 0 (1, 2, 3) empty_tables = Inr (t, v, c)"
    "append_locked (example_library b) empty_tables r = Inr (t, v, c)" "(append_step (example_library b))\<^sup>*\<^sup>* empty_tables t"
    "v \<in> set (sql_history t (ar_report_date_seoul r))"
proof -
  obtain p b where pb: "assemble example_codec example_policy (\<lambda>_. example_rows) 0 = Inr p"
    "project_report (lib_nfc (example_library b)) (lib_gzip (example_library b)) p = Inr b" using example_input by blast
  have "\<exists>t' v c b'. example_reconcile b 0 (1, 2, 3) empty_tables = Inr (t', v, c)
    \<and> project_report (lib_nfc (example_library b)) (lib_gzip (example_library b)) p = Inr b'
    \<and> sv_input_set_hash v = drp_input_set_hash (rb_payload b') \<and> (c \<longrightarrow> sv_retained v = retained_of b')"
    by (rule reconcile_total [OF empty_tables_wf pb(1) example_rows_sourced])
       (use pb(2) example_reads_back in \<open>simp_all add: empty_tables_fresh\<close>)
  then obtain t v c where rec: "example_reconcile b 0 (1, 2, 3) empty_tables = Inr (t, v, c)" by blast
  then obtain r where app: "append_locked (example_library b) empty_tables r = Inr (t, v, c)" by (rule reconcile_report_dateD)
  then have "append_step (example_library b) empty_tables t" by (rule append_step.intros)
  moreover have "v \<in> set (sql_history t (ar_report_date_seoul r))"
    by (rule last_of_SomeD, rule append_if_changedD(1) [OF append_locked_refines [OF empty_tables_wf app, THEN conjunct2]])
  ultimately show thesis using that [OF rec app] by blast
qed

theorem sql_append_refines_memory_witness:
  "\<exists>lib r t v c. append_locked lib empty_tables r = Inr (t, v, c)
     \<and> append_if_changed (sql_history empty_tables) r = (sql_history t, v, c)"
proof -
  obtain b t v c r where "append_locked (example_library b) empty_tables r = Inr (t, v, c)" by (rule example_reconciled) (rule that)
  with sql_append_refines_memory [OF empty_tables_wf this] show ?thesis by blast
qed

theorem report_history_append_only_witness:
  "\<exists>t d. sql_history t d \<noteq> [] \<and> history_ok d (sql_history t d)"
proof -
  obtain b t v c and r :: append_report_request where "(append_step (example_library b))\<^sup>*\<^sup>* empty_tables t"
    "v \<in> set (sql_history t (ar_report_date_seoul r))"
    by (rule example_reconciled) (rule that)
  with report_history_append_only [OF this(1) rtranclp.rtrancl_refl] show ?thesis by (metis empty_iff list.set(1))
qed

theorem stored_reports_reproduce_witness:
  "\<exists>lib kept payload. reproduce_report lib kept
     = Inr (Reproduced_Report payload (rt_report_payload kept) (sha256_hex (rt_report_payload kept)))"
proof -
  obtain b t v c and r :: append_report_request where "(append_step (example_library b))\<^sup>*\<^sup>* empty_tables t"
    "v \<in> set (sql_history t (ar_report_date_seoul r))"
    by (rule example_reconciled) (rule that)
  from stored_reports_reproduce [OF this] show ?thesis by blast
qed

theorem reconcile_again_is_identity_witness:
  "\<exists>b t v c. example_reconcile b 0 (1, 2, 3) empty_tables = Inr (t, v, c)
     \<and> example_reconcile b 5 (4, 5, 6) t = Inr (t, v, False)"
proof -
  obtain b t v c r where "example_reconcile b 0 (1, 2, 3) empty_tables = Inr (t, v, c)" by (rule example_reconciled) (rule that)
  with reconcile_again_is_identity [OF empty_tables_wf this] show ?thesis by blast
qed


end
