(* ===== verification/Daily_Jobs.thy ===== *)
theory Daily_Jobs
  imports Report_Envelope
begin

text \<open>
  \<open>reporting/daily_jobs.py\<close>: the durable daily jobs, one row of \<open>scheduled_job_runs\<close> per job, that are
  claimed under a lease, finished under a compare-and-set on that lease, and recovered when stale.

  The table is a list of rows. The idempotency key of a daily job is the formatted pair of kind and date and
  is kept as that pair. The random lease digests and row ids are arguments. A transaction that raises leaves
  the table as it was.
\<close>

section \<open>Rows, claims and completions\<close>

definition STALE_JOB_AFTER :: duration where "STALE_JOB_AFTER = minutes 15"
definition MAX_JOB_ATTEMPTS :: int where "MAX_JOB_ATTEMPTS = 3"

datatype job_key = Daily_Job_Key job_kind seoul_date | Requested_Job_Key string

record job_row =
  jr_id :: uuid
  jr_kind :: job_kind
  jr_target_date_seoul :: "seoul_date option"
  jr_idempotency_key :: job_key
  jr_status :: job_status
  jr_attempt :: int
  jr_available_at :: instant
  jr_lease_hash :: "string option"
  jr_started_at :: "instant option"
  jr_heartbeat_at :: "instant option"
  jr_finished_at :: "instant option"
  jr_report_outcome :: "json option"
  jr_retention_outcome :: "json option"
  jr_error_code :: "string option"
  jr_created_at :: instant

datatype job_claim_disposition = Claim_RUN | Claim_SUCCEEDED | Claim_BUSY | Claim_TERMINAL

record job_claim =
  jc_disposition :: job_claim_disposition
  jc_job_id :: uuid
  jc_attempt :: int
  jc_lease_hash :: "string option"

record job_completion =
  jn_status :: job_status
  jn_report_outcome :: "json option"
  jn_retention_outcome :: "json option"
  jn_error_code :: "string option"

text \<open>The \<open>RuntimeError\<close>s of the store and the validation error of the response.\<close>

datatype job_error = Job_Claim_Missing | Duplicate_Job_Id | Finish_Without_Lease | Finish_Conflict | Invalid_Job_Request
  | Unhandled_Exception | Invalid_Daily_Bounds

section \<open>Operations of the store\<close>

definition update_row :: "job_row \<Rightarrow> job_row list \<Rightarrow> job_row list" where
  "update_row job rows = map (\<lambda>r. if jr_id r = jr_id job then job else r) rows"

definition grant_job :: "job_row \<Rightarrow> instant \<Rightarrow> int \<Rightarrow> string \<Rightarrow> job_row" where
  "grant_job job observed_at attempt lease = job\<lparr>
     jr_status := Job_RUNNING, jr_attempt := attempt, jr_available_at := observed_at,
     jr_lease_hash := Some lease, jr_started_at := Some observed_at, jr_heartbeat_at := Some observed_at,
     jr_finished_at := None, jr_report_outcome := None, jr_retention_outcome := None, jr_error_code := None\<rparr>"

definition job_busy :: "job_row \<Rightarrow> instant \<Rightarrow> bool" where
  "job_busy job observed_at =
     (case jr_status job of
        Job_RUNNING \<Rightarrow>
          (case (case jr_heartbeat_at job of Some t \<Rightarrow> Some t | None \<Rightarrow> jr_started_at job) of
             None \<Rightarrow> False | Some activity_at \<Rightarrow> observed_at - activity_at < STALE_JOB_AFTER)
      | Job_FAILED_RETRYABLE \<Rightarrow> jr_available_at job > observed_at
      | _ \<Rightarrow> False)"

definition job_claim_of :: "job_claim_disposition \<Rightarrow> job_row \<Rightarrow> job_claim" where
  "job_claim_of disposition job = \<lparr>jc_disposition = disposition, jc_job_id = jr_id job,
     jc_attempt = jr_attempt job, jc_lease_hash = None\<rparr>"

definition claim_locked :: "job_row \<Rightarrow> instant \<Rightarrow> string \<Rightarrow> job_row \<times> job_claim" where
  "claim_locked job observed_at lease =
     (if jr_status job = Job_SUCCEEDED then (job, job_claim_of Claim_SUCCEEDED job)
      else if jr_status job = Job_FAILED_TERMINAL then (job, job_claim_of Claim_TERMINAL job)
      else if job_busy job observed_at then (job, job_claim_of Claim_BUSY job)
      else let attempt = jr_attempt job + (if jr_status job \<noteq> Job_QUEUED then 1 else 0)
      in if attempt > MAX_JOB_ATTEMPTS
         then (job\<lparr>jr_status := Job_FAILED_TERMINAL, jr_finished_at := Some observed_at,
                jr_error_code := Some ''daily_job_attempts_exhausted''\<rparr>, job_claim_of Claim_TERMINAL job)
         else (grant_job job observed_at attempt lease,
               \<lparr>jc_disposition = Claim_RUN, jc_job_id = jr_id job, jc_attempt = attempt,
                jc_lease_hash = Some lease\<rparr>))"

definition queued_job :: "uuid \<Rightarrow> job_kind \<Rightarrow> seoul_date \<Rightarrow> instant \<Rightarrow> job_row" where
  "queued_job new_id kind target_date observed_at =
     \<lparr>jr_id = new_id, jr_kind = kind, jr_target_date_seoul = Some target_date,
      jr_idempotency_key = Daily_Job_Key kind target_date, jr_status = Job_QUEUED, jr_attempt = 1,
      jr_available_at = observed_at, jr_lease_hash = None, jr_started_at = None, jr_heartbeat_at = None,
      jr_finished_at = None, jr_report_outcome = None, jr_retention_outcome = None, jr_error_code = None,
      jr_created_at = observed_at\<rparr>"

definition job_at :: "job_row list \<Rightarrow> job_key \<Rightarrow> job_row option" where
  "job_at rows key = List.find (\<lambda>r. jr_idempotency_key r = key) rows"

definition job_of_id :: "job_row list \<Rightarrow> uuid \<Rightarrow> job_row option" where
  "job_of_id rows i = List.find (\<lambda>r. jr_id r = i) rows"

text \<open>\<open>INSERT ... ON CONFLICT (idempotency_key) DO NOTHING\<close>; a clash of primary keys is an integrity error.\<close>

definition insert_job :: "job_row \<Rightarrow> job_row list \<Rightarrow> job_error + job_row list" where
  "insert_job job rows =
     (if job_at rows (jr_idempotency_key job) \<noteq> None then Inr rows
      else if job_of_id rows (jr_id job) \<noteq> None then Inl Duplicate_Job_Id
      else Inr (rows @ [job]))"

definition claim_job ::
    "job_row list \<Rightarrow> job_kind \<Rightarrow> seoul_date \<Rightarrow> instant \<Rightarrow> uuid \<times> string \<Rightarrow> job_error + (job_row list \<times> job_claim)" where
  "claim_job rows kind target_date observed_at fresh =
     (case insert_job (queued_job (fst fresh) kind target_date observed_at) rows of Inl e \<Rightarrow> Inl e
      | Inr inserted \<Rightarrow>
        (case job_at inserted (Daily_Job_Key kind target_date) of
           None \<Rightarrow> Inl Job_Claim_Missing
         | Some job \<Rightarrow> (case claim_locked job observed_at (snd fresh) of
             (job', claim) \<Rightarrow> Inr (update_row job' inserted, claim))))"

text \<open>\<open>SqlAdminCommandHandler.reconcile_daily\<close> of \<open>services/admin_commands.py\<close>: the row of an administrator's
  trigger. The outcome is the job and whether it was created.\<close>

definition requested_job :: "uuid \<Rightarrow> instant \<Rightarrow> uuid \<Rightarrow> job_row" where
  "requested_job new_id observed_at request_id =
     \<lparr>jr_id = new_id, jr_kind = Job_RECONCILIATION, jr_target_date_seoul = None,
      jr_idempotency_key = Requested_Job_Key (''admin-daily-reconcile/v1/'' @ uuid_str request_id),
      jr_status = Job_QUEUED, jr_attempt = 1,
      jr_available_at = observed_at, jr_lease_hash = None, jr_started_at = None, jr_heartbeat_at = None,
      jr_finished_at = None, jr_report_outcome = Some (JObj [(''request_id'', JUuid request_id)]),
      jr_retention_outcome = None, jr_error_code = None, jr_created_at = observed_at\<rparr>"

definition request_reconciliation ::
    "job_row list \<Rightarrow> uuid \<Rightarrow> instant \<Rightarrow> uuid \<Rightarrow> job_error + (job_row list \<times> uuid \<times> bool)" where
  "request_reconciliation rows new_id observed_at request_id =
     (let job = requested_job new_id observed_at request_id in
      case insert_job job rows of Inl e \<Rightarrow> Inl e
      | Inr inserted \<Rightarrow>
        (case job_at inserted (jr_idempotency_key job) of
           None \<Rightarrow> Inl Job_Claim_Missing
         | Some row \<Rightarrow> if jr_kind row \<noteq> Job_RECONCILIATION then Inl Invalid_Job_Request
             else Inr (inserted, jr_id row, job_at rows (jr_idempotency_key job) = None)))"

text \<open>\<open>busy\<close> are the rows that other transactions hold locked: \<open>SKIP LOCKED\<close> passes over them.\<close>

definition due_reconciliations :: "job_row list \<Rightarrow> uuid set \<Rightarrow> instant \<Rightarrow> job_row list" where
  "due_reconciliations rows busy observed_at =
     sort_key (\<lambda>r. (jr_created_at r, uuid_str (jr_id r)))
       (filter (\<lambda>r. jr_kind r = Job_RECONCILIATION
          \<and> jr_status r \<in> {Job_QUEUED, Job_RUNNING, Job_FAILED_RETRYABLE}
          \<and> jr_available_at r \<le> observed_at \<and> jr_id r \<notin> busy) rows)"

definition claim_reconciliation ::
    "job_row list \<Rightarrow> uuid set \<Rightarrow> instant \<Rightarrow> string \<Rightarrow> (job_row list \<times> job_claim) option" where
  "claim_reconciliation rows busy observed_at lease =
     (case due_reconciliations rows busy observed_at of
        [] \<Rightarrow> None
      | job # _ \<Rightarrow> (case claim_locked job observed_at lease of
          (job', claim) \<Rightarrow> Some (update_row job' rows, claim)))"

definition finished_row :: "job_row \<Rightarrow> instant \<Rightarrow> job_completion \<Rightarrow> job_row" where
  "finished_row r observed_at completion = r\<lparr>jr_status := jn_status completion, jr_lease_hash := None,
     jr_heartbeat_at := Some observed_at, jr_finished_at := Some observed_at,
     jr_report_outcome := jn_report_outcome completion, jr_retention_outcome := jn_retention_outcome completion,
     jr_error_code := jn_error_code completion\<rparr>"

definition holds_lease :: "job_claim \<Rightarrow> job_row \<Rightarrow> bool" where
  "holds_lease claim r \<longleftrightarrow>
     jr_id r = jc_job_id claim \<and> jr_status r = Job_RUNNING \<and> jr_lease_hash r = jc_lease_hash claim"

definition finish_job :: "job_row list \<Rightarrow> job_claim \<Rightarrow> instant \<Rightarrow> job_completion \<Rightarrow> job_error + job_row list" where
  "finish_job rows claim observed_at completion =
     (if jc_lease_hash claim = None then Inl Finish_Without_Lease
      else if \<not> list_ex (holds_lease claim) rows then Inl Finish_Conflict
      else Inr (map (\<lambda>r. if holds_lease claim r then finished_row r observed_at completion else r) rows))"

definition latest_succeeded_date :: "job_row list \<Rightarrow> job_kind \<Rightarrow> seoul_date \<Rightarrow> seoul_date option" where
  "latest_succeeded_date rows kind through_date =
     (let dates = List.map_filter (\<lambda>r. if jr_kind r = kind \<and> jr_status r = Job_SUCCEEDED
          then jr_target_date_seoul r else None) rows;
          bounded = filter (\<lambda>d. d \<le> through_date) dates
      in if bounded = [] then None else Some (Max (set bounded)))"

section \<open>Well-formed tables\<close>

text \<open>The checks and unique constraints of the table, the shape of daily rows, and that a lease exists only
  while a job runs or after its third attempt went stale.\<close>

definition job_wf :: "job_row \<Rightarrow> bool" where
  "job_wf r \<longleftrightarrow> 1 \<le> jr_attempt r \<and> jr_attempt r \<le> MAX_JOB_ATTEMPTS
     \<and> (jr_status r = Job_RUNNING \<longrightarrow> jr_lease_hash r \<noteq> None \<and> jr_started_at r \<noteq> None)
     \<and> (jr_status r \<in> {Job_QUEUED, Job_SUCCEEDED, Job_FAILED_RETRYABLE} \<longrightarrow> jr_lease_hash r = None)
     \<and> (jr_status r = Job_QUEUED \<longrightarrow> jr_attempt r = 1)
     \<and> (case jr_idempotency_key r of
          Daily_Job_Key kind d \<Rightarrow> jr_kind r = kind \<and> jr_target_date_seoul r = Some d
        | Requested_Job_Key _ \<Rightarrow> jr_kind r = Job_RECONCILIATION \<and> jr_target_date_seoul r = None)"

definition jobs_wf :: "job_row list \<Rightarrow> bool" where
  "jobs_wf rows \<longleftrightarrow> distinct (map jr_id rows) \<and> distinct (map jr_idempotency_key rows) \<and> list_all job_wf rows"

text \<open>How often a job has been granted: a queued job is at attempt 1 but has not run.\<close>

definition grants :: "job_row \<Rightarrow> int" where
  "grants r = (if jr_status r = Job_QUEUED then 0 else jr_attempt r)"

definition final_job :: "job_row \<Rightarrow> bool" where
  "final_job r \<longleftrightarrow> jr_status r \<in> {Job_SUCCEEDED, Job_FAILED_TERMINAL}"

text \<open>The result of \<open>_claim_locked\<close>, by cases.\<close>

lemma claim_locked_cases:
  obtains (kept) disposition where "claim_locked job t lease = (job, job_claim_of disposition job)" "disposition \<noteq> Claim_RUN"
      "final_job job \<or> job_busy job t" "disposition = Claim_SUCCEEDED \<longleftrightarrow> jr_status job = Job_SUCCEEDED"
      "disposition = Claim_TERMINAL \<longleftrightarrow> jr_status job = Job_FAILED_TERMINAL"
  | (exhausted) job' where "claim_locked job t lease = (job', job_claim_of Claim_TERMINAL job)"
      "job' = job\<lparr>jr_status := Job_FAILED_TERMINAL, jr_finished_at := Some t,
         jr_error_code := Some ''daily_job_attempts_exhausted''\<rparr>"
      "\<not> final_job job" "jr_status job \<noteq> Job_QUEUED \<or> MAX_JOB_ATTEMPTS < jr_attempt job" "MAX_JOB_ATTEMPTS < jr_attempt job + 1"
  | (granted) attempt where "attempt = grants job + 1 \<or> (jr_status job = Job_QUEUED \<and> attempt = jr_attempt job)"
      "claim_locked job t lease = (grant_job job t attempt lease,
         \<lparr>jc_disposition = Claim_RUN, jc_job_id = jr_id job, jc_attempt = attempt, jc_lease_hash = Some lease\<rparr>)"
      "\<not> final_job job" "\<not> job_busy job t" "attempt \<le> MAX_JOB_ATTEMPTS" "jr_status job \<noteq> Job_QUEUED \<longrightarrow> attempt = jr_attempt job + 1"
proof (cases "jr_status job = Job_SUCCEEDED \<or> jr_status job = Job_FAILED_TERMINAL \<or> job_busy job t")
  case True
  define disposition where "disposition = (if jr_status job = Job_SUCCEEDED then Claim_SUCCEEDED
    else if jr_status job = Job_FAILED_TERMINAL then Claim_TERMINAL else Claim_BUSY)"
  show ?thesis
  proof (rule kept)
    show "claim_locked job t lease = (job, job_claim_of disposition job)"
      using True by (auto simp: claim_locked_def disposition_def)
  qed (use True in \<open>simp_all add: disposition_def final_job_def\<close>)
next
  case False
  show ?thesis
  proof (cases "jr_attempt job + (if jr_status job \<noteq> Job_QUEUED then 1 else 0) > MAX_JOB_ATTEMPTS")
    case over: True
    show ?thesis using False over
      by (intro exhausted) (auto simp: claim_locked_def final_job_def Let_def split: if_splits)
  next
    case within: False
    show ?thesis using False within
      by (intro granted [of "jr_attempt job + (if jr_status job \<noteq> Job_QUEUED then 1 else 0)"])
         (auto simp: claim_locked_def final_job_def Let_def grants_def)
  qed
qed

lemma update_row_ids [simp]: "map jr_id (update_row job rows) = map jr_id rows"
  by (simp add: update_row_def)

lemma grant_job_fields [simp]:
  "jr_id (grant_job job t n l) = jr_id job" "jr_idempotency_key (grant_job job t n l) = jr_idempotency_key job"
  "jr_kind (grant_job job t n l) = jr_kind job" "jr_target_date_seoul (grant_job job t n l) = jr_target_date_seoul job"
  "jr_status (grant_job job t n l) = Job_RUNNING" "jr_attempt (grant_job job t n l) = n"
  "jr_lease_hash (grant_job job t n l) = Some l" "jr_started_at (grant_job job t n l) = Some t"
  by (simp_all add: grant_job_def)

lemma finished_row_fields [simp]:
  "jr_id (finished_row r t c) = jr_id r" "jr_idempotency_key (finished_row r t c) = jr_idempotency_key r"
  "jr_kind (finished_row r t c) = jr_kind r" "jr_target_date_seoul (finished_row r t c) = jr_target_date_seoul r"
  "jr_status (finished_row r t c) = jn_status c" "jr_attempt (finished_row r t c) = jr_attempt r"
  "jr_lease_hash (finished_row r t c) = None"
  by (simp_all add: finished_row_def)

section \<open>One step on one row\<close>

text \<open>The completions that the callers of \<open>finish\<close> pass.\<close>

definition completes :: "job_completion \<Rightarrow> bool" where
  "completes c \<longleftrightarrow> jn_status c \<in> {Job_SUCCEEDED, Job_FAILED_RETRYABLE, Job_FAILED_TERMINAL}"

inductive row_step :: "job_row \<Rightarrow> job_claim option \<Rightarrow> job_row \<Rightarrow> bool" where
  row_claim: "claim_locked r t lease = (r', c) \<Longrightarrow> row_step r (Some c) r'"
| row_finish: "holds_lease c r \<Longrightarrow> completes d \<Longrightarrow> row_step r None (finished_row r t d)"

definition runs_job :: "uuid \<Rightarrow> job_claim option \<Rightarrow> bool" where
  "runs_job i l \<longleftrightarrow> (case l of None \<Rightarrow> False | Some c \<Rightarrow> jc_disposition c = Claim_RUN \<and> jc_job_id c = i)"

lemma row_step_facts:
  assumes "row_step r l r'"
  shows "jr_id r' = jr_id r" "jr_idempotency_key r' = jr_idempotency_key r"
    and "job_wf r \<Longrightarrow> job_wf r'" and "job_wf r \<Longrightarrow> grants r' = grants r + (if runs_job (jr_id r) l then 1 else 0)"
    and "final_job r \<Longrightarrow> r' = r"
    and "l = Some c \<Longrightarrow> jc_job_id c = jr_id r"
    and "jr_lease_hash r' \<noteq> None \<Longrightarrow> jr_lease_hash r' \<noteq> jr_lease_hash r \<Longrightarrow>
      \<exists>c. l = Some c \<and> jc_disposition c = Claim_RUN \<and> jc_lease_hash c = jr_lease_hash r'"
proof -
  have "jr_id r' = jr_id r \<and> jr_idempotency_key r' = jr_idempotency_key r \<and> (job_wf r \<longrightarrow> job_wf r')
    \<and> (job_wf r \<longrightarrow> grants r' = grants r + (if runs_job (jr_id r) l then 1 else 0)) \<and> (final_job r \<longrightarrow> r' = r)
    \<and> (\<forall>c. l = Some c \<longrightarrow> jc_job_id c = jr_id r)
    \<and> (jr_lease_hash r' \<noteq> None \<longrightarrow> jr_lease_hash r' \<noteq> jr_lease_hash r \<longrightarrow>
      (\<exists>c. l = Some c \<and> jc_disposition c = Claim_RUN \<and> jc_lease_hash c = jr_lease_hash r'))"
    using assms
  proof cases
    case (row_claim t lease c)
    show ?thesis
    proof (cases rule: claim_locked_cases [of r t lease, case_names kept exhausted granted])
      case (kept disposition)
      then show ?thesis using row_claim by (auto simp: runs_job_def job_claim_of_def)
    next
      case (exhausted job')
      then show ?thesis using row_claim
        by (auto simp: runs_job_def job_claim_of_def job_wf_def grants_def final_job_def MAX_JOB_ATTEMPTS_def split: job_key.splits)
    next
      case (granted attempt)
      have r': "r' = grant_job r t attempt lease" and c: "c = \<lparr>jc_disposition = Claim_RUN, jc_job_id = jr_id r,
          jc_attempt = attempt, jc_lease_hash = Some lease\<rparr>" using granted(2) row_claim(2) by simp_all
      have "job_wf r \<longrightarrow> attempt = grants r + 1 \<and> 1 \<le> attempt"
        using granted(1,6) by (auto simp: grants_def job_wf_def)
      then show ?thesis using granted(3,5) row_claim(1) unfolding r' c
        by (auto simp: runs_job_def job_wf_def grants_def split: job_key.splits)
    qed
  next
    case (row_finish c d t)
    then show ?thesis
      by (auto simp: runs_job_def job_wf_def grants_def final_job_def holds_lease_def completes_def split: job_key.splits)
  qed
  then show "jr_id r' = jr_id r" "jr_idempotency_key r' = jr_idempotency_key r"
    "job_wf r \<Longrightarrow> job_wf r'" "job_wf r \<Longrightarrow> grants r' = grants r + (if runs_job (jr_id r) l then 1 else 0)"
    "final_job r \<Longrightarrow> r' = r" "l = Some c \<Longrightarrow> jc_job_id c = jr_id r"
    "jr_lease_hash r' \<noteq> None \<Longrightarrow> jr_lease_hash r' \<noteq> jr_lease_hash r \<Longrightarrow>
      \<exists>c. l = Some c \<and> jc_disposition c = Claim_RUN \<and> jc_lease_hash c = jr_lease_hash r'"
    by blast+
qed

section \<open>One step on the table\<close>

lemma job_of_id_Some: "distinct (map jr_id rows) \<Longrightarrow> job_of_id rows i = Some r \<longleftrightarrow> r \<in> set rows \<and> jr_id r = i"
  unfolding job_of_id_def by (induction rows) (auto simp: image_iff)

lemma job_at_Some: "distinct (map jr_idempotency_key rows) \<Longrightarrow>
    job_at rows k = Some r \<longleftrightarrow> r \<in> set rows \<and> jr_idempotency_key r = k"
  unfolding job_at_def by (induction rows) (auto simp: image_iff)

lemma find_update_row:
  assumes "distinct (map jr_id rows)" and "r \<in> set rows" and "jr_id r' = jr_id r"
    and "\<And>x. x \<in> set rows \<Longrightarrow> f x = f r \<longleftrightarrow> jr_id x = jr_id r" and "f r' = f r"
  shows "List.find (\<lambda>x. f x = k) (update_row r' rows) = (if k = f r then Some r' else List.find (\<lambda>x. f x = k) rows)"
  using assms(1,2,4)
proof (induction rows)
  case (Cons x xs)
  show ?case
  proof (cases "jr_id x = jr_id r")
    case True
    then have "x = r" using Cons.prems(1,2) by (auto simp: image_iff)
    moreover from this have "update_row r' xs = xs"
      unfolding update_row_def using Cons.prems(1) assms(3) by (intro map_idI) (auto simp: image_iff)
    ultimately show ?thesis using True assms(3,5) by (auto simp: update_row_def)
  next
    case False
    then have r: "r \<in> set xs" "distinct (map jr_id xs)" "f x \<noteq> f r" using Cons.prems by auto
    show ?thesis using False r Cons.IH [OF r(2,1)] Cons.prems(3) assms(3) by (auto simp: update_row_def)
  qed
qed simp

text \<open>Replacing one row by its successor.\<close>

lemma row_replacement:
  assumes wf: "jobs_wf rows" and here: "r \<in> set rows" and step: "row_step r l r'"
  shows "job_at (update_row r' rows) k = (if k = jr_idempotency_key r then Some r' else job_at rows k)"
    and "job_of_id (update_row r' rows) i = (if i = jr_id r then Some r' else job_of_id rows i)"
    and "jobs_wf (update_row r' rows)"
proof -
  have ids: "distinct (map jr_id rows)" "distinct (map jr_idempotency_key rows)" using wf by (simp_all add: jobs_wf_def)
  note f = row_step_facts(1,2) [OF step]
  have same: "jr_idempotency_key x = jr_idempotency_key r \<longleftrightarrow> jr_id x = jr_id r" if "x \<in> set rows" for x
    using ids here that by (auto simp: distinct_map dest: inj_onD)
  show "job_at (update_row r' rows) k = (if k = jr_idempotency_key r then Some r' else job_at rows k)"
    unfolding job_at_def using f same by (intro find_update_row [OF ids(1) here]) simp_all
  show "job_of_id (update_row r' rows) i = (if i = jr_id r then Some r' else job_of_id rows i)"
    unfolding job_of_id_def using f by (intro find_update_row [OF ids(1) here]) simp_all
  have "map jr_idempotency_key (update_row r' rows) = map jr_idempotency_key rows"
    unfolding update_row_def map_map using f same [symmetric] by (intro map_cong) auto
  moreover have "list_all job_wf (update_row r' rows)"
    using wf here row_step_facts(3) [OF step] by (auto simp: update_row_def jobs_wf_def list_all_iff)
  ultimately show "jobs_wf (update_row r' rows)" using wf by (simp add: jobs_wf_def)
qed

lemma append_job:
  assumes "jobs_wf rows" and "job_at rows (jr_idempotency_key job) = None" and "job_of_id rows (jr_id job) = None"
    and "job_wf job"
  shows "jobs_wf (rows @ [job])"
    and "job_at (rows @ [job]) k = (if k = jr_idempotency_key job then Some job else job_at rows k)"
    and "job_of_id (rows @ [job]) i = (if i = jr_id job then Some job else job_of_id rows i)"
proof -
  show "jobs_wf (rows @ [job])" using assms by (auto simp: jobs_wf_def job_at_def job_of_id_def find_None_iff)
  show "job_at (rows @ [job]) k = (if k = jr_idempotency_key job then Some job else job_at rows k)"
    using assms(2) by (auto simp: job_at_def find_append split: option.splits)
  show "job_of_id (rows @ [job]) i = (if i = jr_id job then Some job else job_of_id rows i)"
    using assms(3) by (auto simp: job_of_id_def find_append split: option.splits)
qed

inductive job_step :: "job_row list \<Rightarrow> job_claim option \<Rightarrow> job_row list \<Rightarrow> bool" where
  daily_claim: "claim_job rows kind d t fresh = Inr (rows', c) \<Longrightarrow> job_step rows (Some c) rows'"
| requested_claim: "claim_reconciliation rows busy t lease = Some (rows', c) \<Longrightarrow> job_step rows (Some c) rows'"
| request: "request_reconciliation rows new_id t request_id = Inr (rows', i, created) \<Longrightarrow> job_step rows None rows'"
| finish: "finish_job rows c t d = Inr rows' \<Longrightarrow> completes d \<Longrightarrow> job_step rows None rows'"

text \<open>Every operation adds at most one queued row and then moves at most one row.\<close>

definition grown :: "job_row list \<Rightarrow> job_row list \<Rightarrow> bool" where
  "grown rows mid \<longleftrightarrow> mid = rows \<or> (\<exists>job. mid = rows @ [job] \<and> job_wf job \<and> jr_status job = Job_QUEUED
     \<and> job_at rows (jr_idempotency_key job) = None \<and> job_of_id rows (jr_id job) = None)"

lemma insert_job_grown:
  "insert_job job rows = Inr mid \<Longrightarrow> job_wf job \<Longrightarrow> jr_status job = Job_QUEUED \<Longrightarrow> grown rows mid"
  by (auto simp: insert_job_def grown_def split: if_splits)

lemma queued_job_wf: "job_wf (queued_job i kind d t)" "job_wf (requested_job i t q)"
  by (simp_all add: job_wf_def queued_job_def requested_job_def MAX_JOB_ATTEMPTS_def)

lemma job_at_set: "job_at rows k = Some r \<Longrightarrow> r \<in> set rows \<and> jr_idempotency_key r = k"
  unfolding job_at_def by (rule find_SomeD)

lemma job_step_shape:
  assumes "job_step rows l rows'" and "jobs_wf rows"
  obtains (inserted) "grown rows rows'" "l = None"
  | (moved) mid r r' where "grown rows mid" "r \<in> set mid" "row_step r l r'" "rows' = update_row r' mid"
  using assms(1)
proof cases
  case (daily_claim kind d t fresh c)
  obtain mid job job' where m: "insert_job (queued_job (fst fresh) kind d t) rows = Inr mid"
    "job_at mid (Daily_Job_Key kind d) = Some job" "claim_locked job t (snd fresh) = (job', c)" "rows' = update_row job' mid"
    using daily_claim(2) by (auto simp: claim_job_def split: sum.splits option.splits prod.splits)
  show thesis
  proof (rule moved)
    show "grown rows mid" using m(1) by (rule insert_job_grown) (simp_all add: queued_job_wf, simp add: queued_job_def)
    show "job \<in> set mid" using m(2) by (simp add: job_at_set)
    show "row_step job l job'" unfolding daily_claim(1) using m(3) by (rule row_step.row_claim)
  qed (rule m(4))
next
  case (requested_claim busy t lease c)
  then obtain job rest job' where m: "due_reconciliations rows busy t = job # rest"
    "claim_locked job t lease = (job', c)" "rows' = update_row job' rows"
    by (auto simp: claim_reconciliation_def split: list.splits prod.splits)
  have "job \<in> set (due_reconciliations rows busy t)" using m(1) by simp
  then have "job \<in> set rows" by (simp add: due_reconciliations_def)
  then show thesis using moved [of rows job job'] m(3) row_step.row_claim [OF m(2)] requested_claim(1)
    by (simp add: grown_def)
next
  case (request new_id t request_id i created)
  then have "insert_job (requested_job new_id t request_id) rows = Inr rows'"
    by (auto simp: request_reconciliation_def Let_def split: sum.splits option.splits if_splits)
  then have "grown rows rows'" by (rule insert_job_grown) (simp_all add: queued_job_wf, simp add: requested_job_def)
  then show thesis using request(1) by (rule inserted)
next
  case (finish c t d)
  then obtain r where r: "r \<in> set rows" "holds_lease c r"
    and rows': "rows' = map (\<lambda>r. if holds_lease c r then finished_row r t d else r) rows"
    by (auto simp: finish_job_def list_ex_iff split: if_splits)
  have "holds_lease c x \<longleftrightarrow> jr_id x = jr_id r" if "x \<in> set rows" for x
  proof -
    have "x = r" if "jr_id x = jr_id r"
      using that \<open>x \<in> set rows\<close> r(1) assms(2) by (auto simp: jobs_wf_def distinct_map dest: inj_onD)
    then show ?thesis using r(2) by (auto simp: holds_lease_def)
  qed
  then have "rows' = update_row (finished_row r t d) rows"
    using r(1) assms(2) unfolding rows' update_row_def
    by (intro map_cong) (auto simp: jobs_wf_def distinct_map dest: inj_onD)
  then show thesis
    using moved [of rows r "finished_row r t d"] r row_step.row_finish [OF r(2) finish(3)] finish(1)
    by (simp add: grown_def)
qed

text \<open>What a step does to the job with a given id.\<close>

definition granted_of :: "job_row list \<Rightarrow> uuid \<Rightarrow> int" where
  "granted_of rows i = (case job_of_id rows i of None \<Rightarrow> 0 | Some r \<Rightarrow> grants r)"

lemma grown_facts:
  assumes "grown rows mid" and "jobs_wf rows"
  shows "jobs_wf mid" "granted_of mid i = granted_of rows i" "job_of_id rows i = Some r \<Longrightarrow> job_of_id mid i = Some r"
    "job_of_id mid i = Some q \<Longrightarrow> job_of_id rows i = Some q \<or> jr_lease_hash q = None"
proof -
  have new: "grants job = 0" "jr_lease_hash job = None" if "job_wf job" "jr_status job = Job_QUEUED" for job
    using that by (simp_all add: grants_def job_wf_def)
  show "jobs_wf mid" using assms by (auto simp: grown_def append_job)
  show "granted_of mid i = granted_of rows i"
    using assms by (auto simp: grown_def granted_of_def append_job new split: option.splits if_splits)
  show "job_of_id rows i = Some r \<Longrightarrow> job_of_id mid i = Some r" using assms by (auto simp: grown_def append_job)
  show "job_of_id mid i = Some q \<Longrightarrow> job_of_id rows i = Some q \<or> jr_lease_hash q = None"
    using assms by (auto simp: grown_def append_job new split: if_splits)
qed

lemma job_step_facts:
  assumes "job_step rows l rows'" and "jobs_wf rows"
  shows "jobs_wf rows'" "granted_of rows' i = granted_of rows i + (if runs_job i l then 1 else 0)"
    "job_of_id rows i = Some r \<Longrightarrow> final_job r \<Longrightarrow> job_of_id rows' i = Some r"
    "job_of_id rows' i = Some q \<Longrightarrow> jr_lease_hash q = Some h \<Longrightarrow>
       (\<exists>r. job_of_id rows i = Some r \<and> jr_lease_hash r = Some h)
       \<or> (\<exists>c. l = Some c \<and> jc_disposition c = Claim_RUN \<and> jc_lease_hash c = Some h)"
proof -
  have "jobs_wf rows' \<and> granted_of rows' i = granted_of rows i + (if runs_job i l then 1 else 0)
    \<and> (\<forall>r. job_of_id rows i = Some r \<longrightarrow> final_job r \<longrightarrow> job_of_id rows' i = Some r)
    \<and> (\<forall>q. job_of_id rows' i = Some q \<longrightarrow> jr_lease_hash q = Some h \<longrightarrow>
       (\<exists>r. job_of_id rows i = Some r \<and> jr_lease_hash r = Some h)
       \<or> (\<exists>c. l = Some c \<and> jc_disposition c = Claim_RUN \<and> jc_lease_hash c = Some h))"
    using assms
  proof (cases rule: job_step_shape [OF assms, case_names inserted moved])
    case inserted
    note g = grown_facts [OF inserted(1) assms(2)]
    have "\<not> runs_job i l" using inserted(2) by (simp add: runs_job_def)
    then show ?thesis using g(1,2,3) g(4) [of i] by auto
  next
    case (moved mid x x')
    note g = grown_facts [OF moved(1) assms(2)] and f = row_step_facts [OF moved(3)]
    note rep = row_replacement [OF g(1) moved(2,3)]
    have x: "job_of_id mid (jr_id x) = Some x" using g(1) moved(2) by (simp add: jobs_wf_def job_of_id_Some)
    have "job_wf x" using g(1) moved(2) by (simp add: jobs_wf_def list_all_iff)
    then have "granted_of rows' i = granted_of mid i + (if runs_job i l then 1 else 0)"
      using f(4) x f(6) unfolding moved(4) granted_of_def rep(2)
      by (auto simp: runs_job_def split: option.splits)
    moreover have "job_of_id rows' i = Some r" if "job_of_id rows i = Some r" "final_job r" for r
      using g(3) [OF that(1)] that(2) x f(5) unfolding moved(4) rep(2) by auto
    moreover have "(\<exists>r. job_of_id rows i = Some r \<and> jr_lease_hash r = Some h)
       \<or> (\<exists>c. l = Some c \<and> jc_disposition c = Claim_RUN \<and> jc_lease_hash c = Some h)"
      if q: "job_of_id rows' i = Some q" "jr_lease_hash q = Some h" for q
    proof (cases "i = jr_id x \<and> jr_lease_hash x \<noteq> Some h")
      case True
      then show ?thesis using q f(7) unfolding moved(4) rep(2) by auto
    next
      case False
      then have "\<exists>r. job_of_id mid i = Some r \<and> jr_lease_hash r = Some h"
        using q x unfolding moved(4) rep(2) by (auto split: if_splits)
      then show ?thesis using g(4) by force
    qed
    ultimately show ?thesis using rep(3) g(2) unfolding moved(4) by auto
  qed
  then show "jobs_wf rows'" "granted_of rows' i = granted_of rows i + (if runs_job i l then 1 else 0)"
    "job_of_id rows i = Some r \<Longrightarrow> final_job r \<Longrightarrow> job_of_id rows' i = Some r"
    "job_of_id rows' i = Some q \<Longrightarrow> jr_lease_hash q = Some h \<Longrightarrow>
       (\<exists>r. job_of_id rows i = Some r \<and> jr_lease_hash r = Some h)
       \<or> (\<exists>c. l = Some c \<and> jc_disposition c = Claim_RUN \<and> jc_lease_hash c = Some h)" by blast+
qed

section \<open>Runs of the job table\<close>

text \<open>Any interleaving of the operations of any number of invocations, with the claims that it grants.\<close>

inductive job_run :: "job_row list \<Rightarrow> job_claim option list \<Rightarrow> job_row list \<Rightarrow> bool" where
  job_run_Nil: "job_run rows [] rows"
| job_run_Cons: "job_step rows l mid \<Longrightarrow> job_run mid ls rows' \<Longrightarrow> job_run rows (l # ls) rows'"

lemma job_run_facts:
  assumes "job_run rows ls rows'" and "jobs_wf rows"
  shows "jobs_wf rows' \<and> granted_of rows' i = granted_of rows i + count_where (runs_job i) ls
    \<and> (\<forall>r. job_of_id rows i = Some r \<longrightarrow> final_job r \<longrightarrow> job_of_id rows' i = Some r)"
  using assms
proof (induction rule: job_run.induct)
  case (job_run_Cons rows l mid ls rows')
  note f = job_step_facts(1,2,3) [OF job_run_Cons.hyps(1) job_run_Cons.prems]
  then show ?case using job_run_Cons.IH by auto
qed simp

lemma granted_of_bound: "jobs_wf rows \<Longrightarrow> 0 \<le> granted_of rows i \<and> granted_of rows i \<le> MAX_JOB_ATTEMPTS"
  by (auto simp: granted_of_def jobs_wf_def job_of_id_Some list_all_iff grants_def job_wf_def MAX_JOB_ATTEMPTS_def
      split: option.split)

lemma granted_lease:
  assumes "job_step rows (Some e) mid" and "jobs_wf rows" and "runs_job i (Some e)" and "job_of_id mid i = Some r"
  shows "jr_lease_hash r = jc_lease_hash e"
  using assms(1,2)
proof (cases rule: job_step_shape [OF assms(1,2), case_names inserted moved])
  case (moved m x x')
  note rep = row_replacement(2) [OF grown_facts(1) [OF moved(1) assms(2)] moved(2,3)]
  from moved(3) obtain t lease where c: "claim_locked x t lease = (x', e)" by (auto elim: row_step.cases)
  have "jc_job_id e = jr_id x" using row_step_facts(6) [OF moved(3)] by simp
  then have "r = x'" using assms(3,4) unfolding moved(4) rep by (simp add: runs_job_def)
  then show ?thesis using c assms(3)
    by (cases rule: claim_locked_cases [of x t lease]) (auto simp: runs_job_def job_claim_of_def)
qed simp

text \<open>A lease that the row has lost does not come back.\<close>

definition lost_lease :: "job_claim \<Rightarrow> job_row list \<Rightarrow> bool" where
  "lost_lease c rows \<longleftrightarrow> (\<forall>r. job_of_id rows (jc_job_id c) = Some r \<longrightarrow> jr_lease_hash r \<noteq> jc_lease_hash c)"

lemma job_run_lost_lease:
  assumes "job_run rows ls rows'" and "jobs_wf rows" and "lost_lease c rows" and "jc_lease_hash c = Some h"
    and "\<forall>d \<in> set ls. \<forall>e. d = Some e \<longrightarrow> jc_lease_hash e \<noteq> Some h"
  shows "lost_lease c rows'"
  using assms
proof (induction rule: job_run.induct)
  case (job_run_Cons rows l mid ls rows')
  note f = job_step_facts(1) [OF job_run_Cons.hyps(1) job_run_Cons.prems(1)]
    job_step_facts(4) [OF job_run_Cons.hyps(1) job_run_Cons.prems(1), where h = h]
  have "lost_lease c mid"
    unfolding lost_lease_def
  proof (intro allI impI notI)
    fix r assume r: "job_of_id mid (jc_job_id c) = Some r" "jr_lease_hash r = jc_lease_hash c"
    then have "jr_lease_hash r = Some h" using job_run_Cons.prems(3) by simp
    from f(2) [OF r(1) this] show False using job_run_Cons.prems(2-4) by (auto simp: lost_lease_def)
  qed
  then show ?case using job_run_Cons f(1) by simp
qed simp

lemma lost_lease_conflict:
  assumes "jobs_wf rows" and "lost_lease c rows" and "jc_lease_hash c \<noteq> None"
  shows "finish_job rows c t d = Inl Finish_Conflict"
proof -
  have "\<not> list_ex (holds_lease c) rows"
    using assms by (auto simp: list_ex_iff holds_lease_def lost_lease_def jobs_wf_def job_of_id_Some)
  then show ?thesis using assms(3) by (simp add: finish_job_def)
qed

section \<open>Properties\<close>

text \<open>(C36) A daily job runs at most three times: over any interleaving of claims, recoveries, triggers and
  completions by any number of invocations, the claims that grant one job are at most three, and the table
  keeps its constraints.\<close>

theorem job_runs_at_most_three:
  assumes "job_run [] ls rows"
  shows "count_where (runs_job i) ls \<le> 3 \<and> jobs_wf rows"
proof -
  have empty: "jobs_wf []" by (simp add: jobs_wf_def)
  note f = job_run_facts [OF assms empty, of i]
  have "granted_of [] i = 0" by (simp add: granted_of_def job_of_id_def)
  then show ?thesis using f granted_of_bound [of rows i] by (simp add: MAX_JOB_ATTEMPTS_def)
qed

text \<open>(C37) The lease fences a superseded worker: once the job of a claim has been granted to another claim, every
  later attempt of the first worker to record an outcome is refused as a conflict, whatever happens in
  between, as long as no later grant draws the same random lease.\<close>

theorem superseded_worker_cannot_finish:
  assumes "jobs_wf rows" and "job_step rows (Some e) mid" and "runs_job (jc_job_id c) (Some e)"
    and "jc_lease_hash c = Some h" and "jc_lease_hash e \<noteq> Some h"
    and "job_run mid ls rows'" and "\<forall>l \<in> set ls. \<forall>d. l = Some d \<longrightarrow> jc_lease_hash d \<noteq> Some h"
  shows "finish_job rows' c t d = Inl Finish_Conflict"
proof -
  note wf = job_step_facts(1) [OF assms(2,1)]
  have "lost_lease c mid" using granted_lease [OF assms(2,1,3)] assms(4,5) by (auto simp: lost_lease_def)
  then have "lost_lease c rows'" using job_run_lost_lease [OF assms(6) wf] assms(4,7) by blast
  moreover have "jobs_wf rows'" using job_run_facts [OF assms(6) wf] by simp
  ultimately show ?thesis using lost_lease_conflict assms(4) by simp
qed

text \<open>An outcome is final: a job that has succeeded or failed for good keeps its row unchanged under every
  later operation.\<close>

theorem finished_jobs_are_final:
  assumes "jobs_wf rows" and "job_of_id rows i = Some r" and "final_job r" and "job_run rows ls rows'"
  shows "job_of_id rows' i = Some r"
  using job_run_facts [OF assms(4,1)] assms(2,3) by blast

section \<open>An example\<close>

text \<open>A retention job is claimed, goes stale after fifteen minutes and is claimed by a second worker.\<close>

definition example_job :: "job_row list" where
  "example_job = [grant_job (queued_job 1 Job_RETENTION 0 0) 0 1 ''a'']"

definition example_job_again :: "job_row list" where
  "example_job_again = [grant_job (grant_job (queued_job 1 Job_RETENTION 0 0) 0 1 ''a'') (minutes 15) 2 ''ab'']"

definition example_claim :: "int \<Rightarrow> string \<Rightarrow> job_claim" where
  "example_claim n lease = \<lparr>jc_disposition = Claim_RUN, jc_job_id = 1, jc_attempt = n, jc_lease_hash = Some lease\<rparr>"

lemma example_claims:
  "claim_job [] Job_RETENTION 0 0 (1, ''a'') = Inr (example_job, example_claim 1 ''a'')"
  "claim_job example_job Job_RETENTION 0 (minutes 15) (2, ''ab'') = Inr (example_job_again, example_claim 2 ''ab'')"
  by (simp_all add: claim_job_def insert_job_def job_at_def job_of_id_def claim_locked_def job_busy_def Let_def
      update_row_def example_job_def example_job_again_def example_claim_def grant_job_def queued_job_def
      STALE_JOB_AFTER_def MAX_JOB_ATTEMPTS_def)

lemma example_job_steps:
  "job_step [] (Some (example_claim 1 ''a'')) example_job"
  "job_step example_job (Some (example_claim 2 ''ab'')) example_job_again"
  by (rule job_step.daily_claim, rule example_claims)+

lemma example_run: "job_run [] [Some (example_claim 1 ''a''), Some (example_claim 2 ''ab'')] example_job_again"
  by (intro job_run_Cons [OF example_job_steps(1)] job_run_Cons [OF example_job_steps(2)] job_run_Nil)

lemma empty_jobs_wf: "jobs_wf []"
  by (simp add: jobs_wf_def)

theorem job_runs_at_most_three_witness:
  "count_where (runs_job 1) [Some (example_claim 1 ''a''), Some (example_claim 2 ''ab'')] = 2
     \<and> jobs_wf example_job_again"
  using job_runs_at_most_three [OF example_run, of 1] by (simp add: runs_job_def example_claim_def)

theorem superseded_worker_cannot_finish_witness:
  "finish_job example_job_again (example_claim 1 ''a'') (minutes 16)
     \<lparr>jn_status = Job_SUCCEEDED, jn_report_outcome = None, jn_retention_outcome = None, jn_error_code = None\<rparr>
     = Inl Finish_Conflict"
proof -
  have wf: "jobs_wf example_job" using job_step_facts(1) [OF example_job_steps(1) empty_jobs_wf] .
  show ?thesis
    by (rule superseded_worker_cannot_finish [OF wf example_job_steps(2) _ _ _ job_run_Nil, where h = "''a''"])
       (auto simp: runs_job_def example_claim_def)
qed

theorem finished_jobs_are_final_witness:
  "\<exists>r rows. job_of_id rows 1 = Some r \<and> final_job r \<and> claim_job rows Job_RETENTION 0 (minutes 20) (2, ''ab'')
     = Inr (rows, job_claim_of Claim_SUCCEEDED r)"
proof -
  let ?r = "(queued_job 1 Job_RETENTION 0 0)\<lparr>jr_status := Job_SUCCEEDED\<rparr>"
  have wf: "jobs_wf [?r]" by (simp add: jobs_wf_def job_wf_def queued_job_def MAX_JOB_ATTEMPTS_def)
  have r: "job_of_id [?r] 1 = Some ?r" "final_job ?r" by (simp_all add: job_of_id_def queued_job_def final_job_def)
  have "claim_job [?r] Job_RETENTION 0 (minutes 20) (2, ''ab'') = Inr ([?r], job_claim_of Claim_SUCCEEDED ?r)"
    by (simp add: claim_job_def insert_job_def job_at_def claim_locked_def update_row_def queued_job_def)
  moreover have "job_of_id [?r] 1 = Some ?r"
    by (rule finished_jobs_are_final [OF wf r job_run_Cons [OF job_step.daily_claim [OF calculation] job_run_Nil]])
  ultimately show ?thesis using r by blast
qed

end
