(* ===== verification/Daily_Run.thy ===== *)
theory Daily_Run
  imports Daily_Jobs
begin

text \<open>
  \<open>reporting/daily.py\<close>, \<open>daily_execution.py\<close>, \<open>daily_reconciliation.py\<close>, \<open>daily_runtime.py\<close> and the response
  model of \<open>api/routes/cron.py\<close>: one invocation of the daily cron.

  The invocation works on the job table and on a world \<open>'w\<close> that holds everything else: the database clock,
  the source of random ids and leases, and the two coordinators. A coordinator completes, raises one of
  \<open>RECONCILIATION_FAILURES\<close>, or raises something else, which no handler catches. An error aborts the
  invocation.
\<close>

section \<open>The environment of an invocation\<close>

record appended_report =
  ap_created :: bool
  ap_report_id :: uuid
  ap_version_id :: uuid
  ap_revision :: int

record retention_pass_outcome =
  rp_cleaned_source_count :: int
  rp_expired_manifest_count :: int
  rp_expired_tombstone_count :: int

datatype 'a attempted = Completed 'a | Reconciliation_Failure | Other_Exception

record 'w daily_deps =
  dd_now :: "'w \<Rightarrow> 'w \<times> instant"
  dd_fresh :: "'w \<Rightarrow> 'w \<times> uuid \<times> string"
  dd_locked :: "'w \<Rightarrow> uuid set"
  dd_report :: "'w \<Rightarrow> seoul_date \<Rightarrow> 'w \<times> appended_report attempted"
  dd_retention :: "'w \<Rightarrow> instant \<Rightarrow> 'w \<times> retention_pass_outcome attempted"

type_synonym 'w daily_state = "job_row list \<times> 'w"

datatype daily_outcome_status = Outcome_SUCCEEDED | Outcome_SKIPPED | Outcome_BLOCKED | Outcome_FAILED

record daily_job_outcome =
  djo_status :: daily_outcome_status
  djo_error_code :: "string option"

definition allows_successor :: "daily_job_outcome \<Rightarrow> bool" where
  "allows_successor outcome \<longleftrightarrow> djo_status outcome \<in> {Outcome_SUCCEEDED, Outcome_SKIPPED}"

definition job_outcome :: "daily_outcome_status \<Rightarrow> string option \<Rightarrow> daily_job_outcome" where
  "job_outcome status code = \<lparr>djo_status = status, djo_error_code = code\<rparr>"

definition MAX_CATCH_UP_DAYS :: int where "MAX_CATCH_UP_DAYS = 7"

definition catch_up_dates :: "seoul_date \<Rightarrow> seoul_date \<Rightarrow> seoul_date list" where
  "catch_up_dates first latest =
     (let count = min MAX_CATCH_UP_DAYS (latest - first + 1) in map (\<lambda>offset. first + int offset) [0..<nat count])"

section \<open>One job of one date\<close>

definition finish_claim :: "'w daily_deps \<Rightarrow> 'w daily_state \<Rightarrow> job_claim \<Rightarrow> job_completion \<Rightarrow> job_error + 'w daily_state" where
  "finish_claim deps s claim completion =
     (case dd_now deps (snd s) of (w, observed_at) \<Rightarrow>
        (case finish_job (fst s) claim observed_at completion of Inl e \<Rightarrow> Inl e | Inr rows \<Rightarrow> Inr (rows, w)))"

definition failure_status :: "job_claim \<Rightarrow> job_status" where
  "failure_status claim = (if jc_attempt claim < MAX_JOB_ATTEMPTS then Job_FAILED_RETRYABLE else Job_FAILED_TERMINAL)"

definition finish_failure ::
    "'w daily_deps \<Rightarrow> 'w daily_state \<Rightarrow> job_claim \<Rightarrow> string \<Rightarrow> job_error + ('w daily_state \<times> daily_job_outcome)" where
  "finish_failure deps s claim error_code =
     (case finish_claim deps s claim \<lparr>jn_status = failure_status claim, jn_report_outcome = None,
             jn_retention_outcome = None, jn_error_code = Some error_code\<rparr> of
        Inl e \<Rightarrow> Inl e
      | Inr s' \<Rightarrow> Inr (s', job_outcome Outcome_FAILED (Some error_code)))"

definition recovered_claim :: "job_claim \<Rightarrow> string \<Rightarrow> daily_job_outcome option" where
  "recovered_claim claim prefix =
     (case jc_disposition claim of
        Claim_RUN \<Rightarrow> None
      | Claim_SUCCEEDED \<Rightarrow> Some (job_outcome Outcome_SKIPPED None)
      | Claim_BUSY \<Rightarrow> Some (job_outcome Outcome_BLOCKED (Some (prefix @ ''_job_busy'')))
      | Claim_TERMINAL \<Rightarrow> Some (job_outcome Outcome_FAILED (Some (prefix @ ''_job_terminal''))))"

definition appended_value :: "appended_report \<Rightarrow> json" where
  "appended_value a = JObj [(''created'', JBool (ap_created a)), (''report_id'', JUuid (ap_report_id a)),
     (''version_id'', JUuid (ap_version_id a)), (''revision'', JInt (ap_revision a))]"

definition retained_value :: "retention_pass_outcome \<Rightarrow> json" where
  "retained_value r = JObj [(''cleaned_source_count'', JInt (rp_cleaned_source_count r)),
     (''expired_manifest_count'', JInt (rp_expired_manifest_count r)),
     (''expired_tombstone_count'', JInt (rp_expired_tombstone_count r))]"

text \<open>\<open>_correction_outcome\<close> of the executor and \<open>_forced_report\<close> of the requested run are the same code.\<close>

definition correction_outcome ::
    "'w daily_deps \<Rightarrow> 'w daily_state \<Rightarrow> seoul_date \<Rightarrow> job_error + ('w daily_state \<times> daily_job_outcome)" where
  "correction_outcome deps s target_date =
     (case dd_report deps (snd s) target_date of (w, result) \<Rightarrow>
        (case result of
           Completed _ \<Rightarrow> Inr ((fst s, w), job_outcome Outcome_SUCCEEDED None)
         | Reconciliation_Failure \<Rightarrow> Inr ((fst s, w), job_outcome Outcome_FAILED (Some ''report_reconciliation_failed''))
         | Other_Exception \<Rightarrow> Inl Unhandled_Exception))"

text \<open>\<open>claim(kind, target_date, ...)\<close> with the id and the lease it draws.\<close>

definition claim_at ::
    "'w daily_deps \<Rightarrow> 'w daily_state \<Rightarrow> job_kind \<Rightarrow> seoul_date \<Rightarrow> instant \<Rightarrow> job_error + ('w daily_state \<times> job_claim)" where
  "claim_at deps s kind target_date observed_at =
     (case dd_fresh deps (snd s) of (w, fresh) \<Rightarrow>
        (case claim_job (fst s) kind target_date observed_at fresh of Inl e \<Rightarrow> Inl e
         | Inr (rows, claim) \<Rightarrow> Inr ((rows, w), claim)))"

definition run_report ::
    "'w daily_deps \<Rightarrow> 'w daily_state \<Rightarrow> job_claim \<Rightarrow> seoul_date \<Rightarrow> job_error + ('w daily_state \<times> daily_job_outcome)" where
  "run_report deps s claim target_date =
     (case dd_report deps (snd s) target_date of (w, result) \<Rightarrow>
        (case result of
           Other_Exception \<Rightarrow> Inl Unhandled_Exception
         | Reconciliation_Failure \<Rightarrow> finish_failure deps (fst s, w) claim ''report_reconciliation_failed''
         | Completed appended \<Rightarrow>
           (case finish_claim deps (fst s, w) claim \<lparr>jn_status = Job_SUCCEEDED,
                   jn_report_outcome = Some (appended_value appended), jn_retention_outcome = None,
                   jn_error_code = None\<rparr> of
              Inl e \<Rightarrow> Inl e
            | Inr s' \<Rightarrow> Inr (s', job_outcome Outcome_SUCCEEDED None))))"

definition report_outcome ::
    "'w daily_deps \<Rightarrow> 'w daily_state \<Rightarrow> seoul_date \<Rightarrow> seoul_date \<Rightarrow> bool
      \<Rightarrow> job_error + ('w daily_state \<times> daily_job_outcome)" where
  "report_outcome deps s target_date first_pending can_continue =
     (if target_date < first_pending then correction_outcome deps s target_date
      else if \<not> can_continue then Inr (s, job_outcome Outcome_BLOCKED (Some ''report_predecessor_failed''))
      else case dd_now deps (snd s) of (w, observed_at) \<Rightarrow>
        (case claim_at deps (fst s, w) Job_DAILY_REPORT target_date observed_at of Inl e \<Rightarrow> Inl e
         | Inr (s', claim) \<Rightarrow>
           if jc_disposition claim = Claim_SUCCEEDED then correction_outcome deps s' target_date
           else (case recovered_claim claim ''report'' of
                Some recovered \<Rightarrow> Inr (s', recovered)
              | None \<Rightarrow> run_report deps s' claim target_date)))"

definition run_retention ::
    "'w daily_deps \<Rightarrow> 'w daily_state \<Rightarrow> job_claim \<Rightarrow> instant \<Rightarrow> job_error + ('w daily_state \<times> daily_job_outcome)" where
  "run_retention deps s claim observed_at =
     (case dd_retention deps (snd s) observed_at of (w, result) \<Rightarrow>
        (case result of
           Other_Exception \<Rightarrow> Inl Unhandled_Exception
         | Reconciliation_Failure \<Rightarrow> finish_failure deps (fst s, w) claim ''retention_reconciliation_failed''
         | Completed retained \<Rightarrow>
           (case finish_claim deps (fst s, w) claim \<lparr>jn_status = Job_SUCCEEDED, jn_report_outcome = None,
                   jn_retention_outcome = Some (retained_value retained), jn_error_code = None\<rparr> of
              Inl e \<Rightarrow> Inl e
            | Inr s' \<Rightarrow> Inr (s', job_outcome Outcome_SUCCEEDED None))))"

definition retention_outcome ::
    "'w daily_deps \<Rightarrow> 'w daily_state \<Rightarrow> seoul_date \<Rightarrow> seoul_date \<Rightarrow> bool
      \<Rightarrow> job_error + ('w daily_state \<times> daily_job_outcome)" where
  "retention_outcome deps s target_date first_pending can_continue =
     (if target_date < first_pending then Inr (s, job_outcome Outcome_SKIPPED None)
      else if \<not> can_continue then Inr (s, job_outcome Outcome_BLOCKED (Some ''retention_predecessor_failed''))
      else case dd_now deps (snd s) of (w, observed_at) \<Rightarrow>
        (case claim_at deps (fst s, w) Job_RETENTION target_date observed_at of Inl e \<Rightarrow> Inl e
         | Inr (s', claim) \<Rightarrow>
           (case recovered_claim claim ''retention'' of
              Some recovered \<Rightarrow> Inr (s', recovered)
            | None \<Rightarrow> run_retention deps s' claim observed_at)))"

section \<open>The catch-up loop\<close>

record daily_outcome =
  do_target_date_seoul :: seoul_date
  do_report :: daily_outcome_status
  do_retention :: daily_outcome_status
  do_error_codes :: "string list"

record daily_cron_response =
  dcr_started_at :: instant
  dcr_finished_at :: instant
  dcr_outcomes :: "daily_outcome list"

text \<open>\<open>dict.fromkeys(code for code in ... if code is not None)\<close>.\<close>

definition error_codes :: "daily_job_outcome \<Rightarrow> daily_job_outcome \<Rightarrow> string list" where
  "error_codes report retention =
     List.map_filter id [djo_error_code report, djo_error_code retention]"

definition unique_codes :: "string list \<Rightarrow> string list" where
  "unique_codes codes = map fst (dict_of (map (\<lambda>c. (c, ())) codes))"

definition daily_outcome_of :: "seoul_date \<Rightarrow> daily_job_outcome \<Rightarrow> daily_job_outcome \<Rightarrow> string list \<Rightarrow> daily_outcome" where
  "daily_outcome_of target_date report retention codes =
     \<lparr>do_target_date_seoul = target_date, do_report = djo_status report, do_retention = djo_status retention,
      do_error_codes = codes\<rparr>"

fun catch_up ::
    "'w daily_deps \<Rightarrow> seoul_date \<Rightarrow> seoul_date \<Rightarrow> bool \<Rightarrow> bool \<Rightarrow> 'w daily_state \<Rightarrow> seoul_date list
      \<Rightarrow> job_error + ('w daily_state \<times> daily_outcome list)" where
  "catch_up deps report_next retention_next report_can retention_can s [] = Inr (s, [])"
| "catch_up deps report_next retention_next report_can retention_can s (target_date # dates) =
     (case report_outcome deps s target_date report_next report_can of Inl e \<Rightarrow> Inl e
      | Inr (s1, report) \<Rightarrow>
     (case retention_outcome deps s1 target_date retention_next retention_can of Inl e \<Rightarrow> Inl e
      | Inr (s2, retention) \<Rightarrow>
     (case catch_up deps report_next retention_next (report_can \<and> allows_successor report)
             (retention_can \<and> allows_successor retention) s2 dates of Inl e \<Rightarrow> Inl e
      | Inr (s3, outcomes) \<Rightarrow>
        Inr (s3, daily_outcome_of target_date report retention (unique_codes (error_codes report retention)) # outcomes))))"

text \<open>The validator \<open>require_bounded_order\<close> of the response, with \<open>max_length=7\<close>.\<close>

definition daily_response :: "instant \<Rightarrow> instant \<Rightarrow> daily_outcome list \<Rightarrow> job_error + daily_cron_response" where
  "daily_response started_at finished_at outcomes =
     (let dates = map do_target_date_seoul outcomes in
      if length outcomes > 7 \<or> finished_at < started_at \<or> dates \<noteq> sorted_list_of_set (set dates)
      then Inl Invalid_Daily_Bounds
      else Inr \<lparr>dcr_started_at = started_at, dcr_finished_at = finished_at, dcr_outcomes = outcomes\<rparr>)"

definition respond :: "'w daily_deps \<Rightarrow> instant \<Rightarrow> 'w daily_state \<Rightarrow> daily_outcome list
    \<Rightarrow> job_error + ('w daily_state \<times> daily_cron_response)" where
  "respond deps started_at s outcomes =
     (case dd_now deps (snd s) of (w, finished_at) \<Rightarrow>
        (case daily_response started_at finished_at outcomes of Inl e \<Rightarrow> Inl e
         | Inr response \<Rightarrow> Inr ((fst s, w), response)))"

section \<open>A requested reconciliation\<close>

definition forced_retention ::
    "'w daily_deps \<Rightarrow> 'w daily_state \<Rightarrow> instant \<Rightarrow> job_error + ('w daily_state \<times> daily_job_outcome \<times> json option)" where
  "forced_retention deps s observed_at =
     (case dd_retention deps (snd s) observed_at of (w, result) \<Rightarrow>
        (case result of
           Completed retained \<Rightarrow> Inr ((fst s, w), job_outcome Outcome_SUCCEEDED None, Some (retained_value retained))
         | Reconciliation_Failure \<Rightarrow>
             Inr ((fst s, w), job_outcome Outcome_FAILED (Some ''retention_reconciliation_failed''), None)
         | Other_Exception \<Rightarrow> Inl Unhandled_Exception))"

text \<open>The accumulators of the loop: successes, the retention summary and whether anything failed.\<close>

record requested_totals =
  rt_report_successes :: int
  rt_retention_summary :: "json option"
  rt_failed :: bool

definition requested_date ::
    "'w daily_deps \<Rightarrow> instant \<Rightarrow> seoul_date \<Rightarrow> 'w daily_state \<times> requested_totals \<times> daily_outcome list \<Rightarrow> seoul_date
      \<Rightarrow> job_error + ('w daily_state \<times> requested_totals \<times> daily_outcome list)" where
  "requested_date deps started_at latest acc target_date =
     (case acc of (s, totals, outcomes) \<Rightarrow>
     (case correction_outcome deps s target_date of Inl e \<Rightarrow> Inl e
      | Inr (s1, report) \<Rightarrow>
     (case (if target_date = latest then forced_retention deps s1 started_at
            else Inr (s1, job_outcome Outcome_SKIPPED None, rt_retention_summary totals)) of Inl e \<Rightarrow> Inl e
      | Inr (s2, retention, summary) \<Rightarrow>
        Inr (s2,
          \<lparr>rt_report_successes = rt_report_successes totals + (if djo_status report = Outcome_SUCCEEDED then 1 else 0),
           rt_retention_summary = summary,
           rt_failed = (rt_failed totals \<or> djo_status report = Outcome_FAILED \<or> djo_status retention = Outcome_FAILED)\<rparr>,
          outcomes @ [daily_outcome_of target_date report retention (error_codes report retention)]))))"

definition requested_completion :: "job_claim \<Rightarrow> requested_totals \<Rightarrow> int \<Rightarrow> job_completion" where
  "requested_completion claim totals attempted =
     \<lparr>jn_status = (if \<not> rt_failed totals then Job_SUCCEEDED else failure_status claim),
      jn_report_outcome = Some (JObj [(''attempted_date_count'', JInt attempted),
        (''successful_date_count'', JInt (rt_report_successes totals))]),
      jn_retention_outcome = rt_retention_summary totals,
      jn_error_code = (if rt_failed totals then Some ''daily_reconciliation_failed'' else None)\<rparr>"

definition run_requested ::
    "'w daily_deps \<Rightarrow> 'w daily_state \<Rightarrow> instant \<Rightarrow> seoul_date \<Rightarrow> job_claim
      \<Rightarrow> job_error + ('w daily_state \<times> daily_cron_response)" where
  "run_requested deps s started_at latest claim =
     (let target_dates = catch_up_dates (latest - (MAX_CATCH_UP_DAYS - 1)) latest in
      case fold_result (requested_date deps started_at latest)
             (s, \<lparr>rt_report_successes = 0, rt_retention_summary = None, rt_failed = False\<rparr>, []) target_dates of
        Inl e \<Rightarrow> Inl e
      | Inr (s1, totals, outcomes) \<Rightarrow>
        (case finish_claim deps s1 claim (requested_completion claim totals (int (length target_dates))) of
           Inl e \<Rightarrow> Inl e
         | Inr s2 \<Rightarrow> respond deps started_at s2 outcomes))"

section \<open>The cron handler\<close>

definition next_date :: "seoul_date option \<Rightarrow> seoul_date \<Rightarrow> seoul_date" where
  "next_date last_succeeded latest_complete =
     (case last_succeeded of None \<Rightarrow> latest_complete | Some d \<Rightarrow> min (d + 1) latest_complete)"

definition first_target_date :: "job_row list \<Rightarrow> seoul_date \<Rightarrow> seoul_date" where
  "first_target_date rows latest =
     (let report_last = latest_succeeded_date rows Job_DAILY_REPORT latest;
          first_target = min (next_date report_last latest)
            (next_date (latest_succeeded_date rows Job_RETENTION latest) latest)
      in if report_last = Some latest then min first_target (latest - (MAX_CATCH_UP_DAYS - 1)) else first_target)"

definition latest_complete_date :: "instant \<Rightarrow> seoul_date" where
  "latest_complete_date started_at = (started_at + SEOUL) div usec_per_day - 1"

definition run_catch_up ::
    "'w daily_deps \<Rightarrow> 'w daily_state \<Rightarrow> instant \<Rightarrow> seoul_date \<Rightarrow> job_error + ('w daily_state \<times> daily_cron_response)" where
  "run_catch_up deps s started_at latest =
     (let report_next = next_date (latest_succeeded_date (fst s) Job_DAILY_REPORT latest) latest;
          retention_next = next_date (latest_succeeded_date (fst s) Job_RETENTION latest) latest
      in case catch_up deps report_next retention_next True True s
               (catch_up_dates (first_target_date (fst s) latest) latest) of
           Inl e \<Rightarrow> Inl e
         | Inr (s', outcomes) \<Rightarrow> respond deps started_at s' outcomes)"

definition run_daily :: "'w daily_deps \<Rightarrow> 'w daily_state \<Rightarrow> job_error + ('w daily_state \<times> daily_cron_response)" where
  "run_daily deps s =
     (case dd_now deps (snd s) of (w1, started_at) \<Rightarrow>
      (case dd_fresh deps w1 of (w2, _, lease) \<Rightarrow>
        let latest = latest_complete_date started_at in
        (case claim_reconciliation (fst s) (dd_locked deps w1) started_at lease of
           None \<Rightarrow> run_catch_up deps (fst s, w2) started_at latest
         | Some (rows, claim) \<Rightarrow>
             if jc_disposition claim = Claim_RUN then run_requested deps (rows, w2) started_at latest claim
             else run_catch_up deps (rows, w2) started_at latest)))"

section \<open>What one job does to the table\<close>

abbreviation succeeded :: "job_row list \<Rightarrow> job_kind \<Rightarrow> seoul_date \<Rightarrow> bool" where
  "succeeded rows kind d \<equiv> map_option jr_status (job_at rows (Daily_Job_Key kind d)) = Some Job_SUCCEEDED"

definition kept_except :: "job_key \<Rightarrow> job_row list \<Rightarrow> job_row list \<Rightarrow> bool" where
  "kept_except key rows rows' \<longleftrightarrow> (\<forall>k. k \<noteq> key \<longrightarrow> job_at rows' k = job_at rows k)"

lemma kept_except_refl [simp]: "kept_except key rows rows"
  by (simp add: kept_except_def)

lemma kept_except_trans: "kept_except key a b \<Longrightarrow> kept_except key b c \<Longrightarrow> kept_except key a c"
  by (simp add: kept_except_def)

lemma claim_job_effect:
  assumes wf: "jobs_wf rows" and claim: "claim_job rows kind d t fresh = Inr (rows', c)"
  obtains job job' where "jobs_wf rows'" "kept_except (Daily_Job_Key kind d) rows rows'"
    "claim_locked job t (snd fresh) = (job', c)"
    "job_at rows (Daily_Job_Key kind d) = Some job \<or> (job_at rows (Daily_Job_Key kind d) = None \<and> jr_status job = Job_QUEUED)"
    "job_at rows' (Daily_Job_Key kind d) = Some job'" "job_wf job"
proof -
  let ?key = "Daily_Job_Key kind d"
  obtain mid job job' where m: "insert_job (queued_job (fst fresh) kind d t) rows = Inr mid"
    "job_at mid ?key = Some job" "claim_locked job t (snd fresh) = (job', c)" "rows' = update_row job' mid"
    using claim by (auto simp: claim_job_def split: sum.splits option.splits prod.splits)
  have key: "jr_idempotency_key (queued_job (fst fresh) kind d t) = ?key" "jr_status (queued_job (fst fresh) kind d t) = Job_QUEUED"
    by (simp_all add: queued_job_def)
  have grown: "grown rows mid" using m(1) by (rule insert_job_grown) (simp_all add: queued_job_wf key)
  have midwf: "jobs_wf mid" using grown_facts(1) [OF grown wf] .
  have job: "job \<in> set mid" "jr_idempotency_key job = ?key" using job_at_set [OF m(2)] by simp_all
  note rep = row_replacement [OF midwf job(1) row_step.row_claim [OF m(3)]]
  have mid: "job_at mid k = (if job_at rows ?key = None \<and> k = ?key then Some (queued_job (fst fresh) kind d t) else job_at rows k)" for k
    using m(1) key by (auto simp: insert_job_def job_at_def find_append split: if_splits option.splits)
  show thesis
  proof (rule that)
    show "jobs_wf rows'" using rep(3) m(4) by simp
    show "kept_except ?key rows rows'" unfolding kept_except_def m(4) rep(1) using mid job(2) by simp
    show "job_at rows ?key = Some job \<or> (job_at rows ?key = None \<and> jr_status job = Job_QUEUED)"
      using m(2) key(2) unfolding mid by (auto split: if_splits)
    show "job_at rows' ?key = Some job'" unfolding m(4) rep(1) using job(2) by simp
    show "job_wf job" using midwf job(1) by (simp add: jobs_wf_def list_all_iff)
  qed (rule m(3))
qed

lemma finish_job_effect:
  assumes wf: "jobs_wf rows" and here: "job_at rows key = Some r" and lease: "holds_lease c r" and d: "completes d"
  obtains rows' where "finish_job rows c t d = Inr rows'" "jobs_wf rows'" "kept_except key rows rows'"
    "job_at rows' key = Some (finished_row r t d)"
proof -
  have r: "r \<in> set rows" "jr_idempotency_key r = key" using job_at_set [OF here] by simp_all
  have "job_wf r" using wf r(1) by (simp add: jobs_wf_def list_all_iff)
  then have "jr_lease_hash r \<noteq> None" using lease by (simp add: job_wf_def holds_lease_def)
  then have some: "jc_lease_hash c \<noteq> None" using lease by (simp add: holds_lease_def)
  have same: "holds_lease c x \<longleftrightarrow> jr_id x = jr_id r" if "x \<in> set rows" for x
  proof -
    have "x = r" if "jr_id x = jr_id r"
      using that \<open>x \<in> set rows\<close> r(1) wf by (auto simp: jobs_wf_def distinct_map dest: inj_onD)
    then show ?thesis using lease by (auto simp: holds_lease_def)
  qed
  have one: "finished_row x t d = finished_row r t d" if "x \<in> set rows" "jr_id x = jr_id r" for x
    using that r(1) wf by (auto simp: jobs_wf_def distinct_map dest: inj_onD)
  have "map (\<lambda>x. if holds_lease c x then finished_row x t d else x) rows = update_row (finished_row r t d) rows"
    unfolding update_row_def using same one by (intro map_cong) auto
  moreover have "list_ex (holds_lease c) rows" using r(1) lease by (auto simp: list_ex_iff)
  ultimately have fin: "finish_job rows c t d = Inr (update_row (finished_row r t d) rows)"
    using some by (simp add: finish_job_def)
  note rep = row_replacement [OF wf r(1) row_step.row_finish [OF lease d]]
  show thesis by (rule that [OF fin rep(3)]) (simp_all add: kept_except_def rep(1) r(2))
qed

text \<open>The result of \<open>claim_locked\<close>, read off the claimed row.\<close>

lemma claim_locked_result:
  assumes "claim_locked job t lease = (job', c)" and "job_wf job"
  shows "jc_disposition c = Claim_RUN \<Longrightarrow> holds_lease c job' \<and> \<not> final_job job \<and> jc_attempt c = jr_attempt job'"
    "jc_disposition c = Claim_SUCCEEDED \<Longrightarrow> job' = job \<and> jr_status job = Job_SUCCEEDED"
    "jc_disposition c \<noteq> Claim_SUCCEEDED \<Longrightarrow> jr_status job \<noteq> Job_SUCCEEDED \<and> jr_status job' \<noteq> Job_SUCCEEDED"
    "jr_status job = Job_FAILED_TERMINAL \<Longrightarrow> job' = job \<and> jc_disposition c = Claim_TERMINAL"
proof -
  have "(jc_disposition c = Claim_RUN \<longrightarrow> holds_lease c job' \<and> \<not> final_job job \<and> jc_attempt c = jr_attempt job')
    \<and> (jc_disposition c = Claim_SUCCEEDED \<longrightarrow> job' = job \<and> jr_status job = Job_SUCCEEDED)
    \<and> (jc_disposition c \<noteq> Claim_SUCCEEDED \<longrightarrow> jr_status job \<noteq> Job_SUCCEEDED \<and> jr_status job' \<noteq> Job_SUCCEEDED)
    \<and> (jr_status job = Job_FAILED_TERMINAL \<longrightarrow> job' = job \<and> jc_disposition c = Claim_TERMINAL)"
    using assms(1)
    by (cases rule: claim_locked_cases [of job t lease])
       (auto simp: job_claim_of_def holds_lease_def final_job_def)
  then show "jc_disposition c = Claim_RUN \<Longrightarrow> holds_lease c job' \<and> \<not> final_job job \<and> jc_attempt c = jr_attempt job'"
    "jc_disposition c = Claim_SUCCEEDED \<Longrightarrow> job' = job \<and> jr_status job = Job_SUCCEEDED"
    "jc_disposition c \<noteq> Claim_SUCCEEDED \<Longrightarrow> jr_status job \<noteq> Job_SUCCEEDED \<and> jr_status job' \<noteq> Job_SUCCEEDED"
    "jr_status job = Job_FAILED_TERMINAL \<Longrightarrow> job' = job \<and> jc_disposition c = Claim_TERMINAL" by blast+
qed

lemma succeeded_iff: "succeeded rows kind d \<longleftrightarrow> (\<exists>r. job_at rows (Daily_Job_Key kind d) = Some r \<and> jr_status r = Job_SUCCEEDED)"
  by auto

lemma job_wf_key: "job_wf r \<Longrightarrow>
    jr_idempotency_key r = Daily_Job_Key kind d \<longleftrightarrow> jr_kind r = kind \<and> jr_target_date_seoul r = Some d"
  by (cases "jr_idempotency_key r") (auto simp: job_wf_def)

lemma mem_map_filter: "y \<in> set (List.map_filter f xs) \<longleftrightarrow> (\<exists>x \<in> set xs. f x = Some y)"
  by (induction xs) (auto split: option.split)

lemma latest_succeeded:
  assumes "jobs_wf rows"
  shows "latest_succeeded_date rows kind through = (let ds = {d. succeeded rows kind d \<and> d \<le> through}
    in if ds = {} then None else Some (Max ds))" and "finite {d. succeeded rows kind d \<and> d \<le> through}"
proof -
  let ?dates = "filter (\<lambda>d. d \<le> through) (List.map_filter (\<lambda>r. if jr_kind r = kind \<and> jr_status r = Job_SUCCEEDED
          then jr_target_date_seoul r else None) rows)"
  have wf: "job_wf r" if "r \<in> set rows" for r using assms that by (simp add: jobs_wf_def list_all_iff)
  have keys: "distinct (map jr_idempotency_key rows)" using assms by (simp add: jobs_wf_def)
  have ds: "set ?dates = {d. succeeded rows kind d \<and> d \<le> through}"
  proof (intro set_eqI iffI)
    fix d assume "d \<in> set ?dates"
    then obtain r where r: "r \<in> set rows" "jr_kind r = kind" "jr_status r = Job_SUCCEEDED"
      "jr_target_date_seoul r = Some d" "d \<le> through"
      by (auto simp: mem_map_filter split: if_splits)
    then have "jr_idempotency_key r = Daily_Job_Key kind d" using job_wf_key [OF wf [OF r(1)]] by simp
    then have "job_at rows (Daily_Job_Key kind d) = Some r" using r(1) job_at_Some [OF keys] by simp
    then show "d \<in> {d. succeeded rows kind d \<and> d \<le> through}" using r by simp
  next
    fix d assume "d \<in> {d. succeeded rows kind d \<and> d \<le> through}"
    then obtain r where r: "job_at rows (Daily_Job_Key kind d) = Some r" "jr_status r = Job_SUCCEEDED" "d \<le> through" by auto
    then have here: "r \<in> set rows" "jr_idempotency_key r = Daily_Job_Key kind d" using job_at_set by blast+
    then have "jr_kind r = kind" "jr_target_date_seoul r = Some d" "r \<in> set rows"
      using job_wf_key [OF wf [OF here(1)]] by simp_all
    then show "d \<in> set ?dates" using r(2,3) by (force simp: mem_map_filter)
  qed
  show "latest_succeeded_date rows kind through = (let ds = {d. succeeded rows kind d \<and> d \<le> through}
    in if ds = {} then None else Some (Max ds))"
    unfolding latest_succeeded_date_def Let_def ds [symmetric] by (simp add: filter_empty_conv)
  show "finite {d. succeeded rows kind d \<and> d \<le> through}" unfolding ds [symmetric] by simp
qed

section \<open>What one date does\<close>

definition kind_effect ::
    "job_kind \<Rightarrow> seoul_date \<Rightarrow> bool \<Rightarrow> job_row list \<Rightarrow> job_row list \<Rightarrow> daily_job_outcome \<Rightarrow> bool" where
  "kind_effect kind d active rows rows' outcome \<longleftrightarrow>
     (\<forall>e. (e \<noteq> d \<or> \<not> active) \<longrightarrow> job_at rows' (Daily_Job_Key kind e) = job_at rows (Daily_Job_Key kind e))
     \<and> (succeeded rows kind d \<longrightarrow> succeeded rows' kind d)
     \<and> (active \<and> allows_successor outcome \<longrightarrow> succeeded rows' kind d)
     \<and> (succeeded rows' kind d \<longrightarrow> succeeded rows kind d \<or> (active \<and> allows_successor outcome))"

lemma allows_job_outcome [simp]: "allows_successor (job_outcome st code) \<longleftrightarrow> st = Outcome_SUCCEEDED \<or> st = Outcome_SKIPPED"
  by (simp add: allows_successor_def job_outcome_def)

lemma failure_completes: "completes \<lparr>jn_status = failure_status c, jn_report_outcome = a, jn_retention_outcome = b, jn_error_code = e\<rparr>"
  "failure_status c \<noteq> Job_SUCCEEDED"
  by (simp_all add: completes_def failure_status_def)

text \<open>A granted claim is finished without a conflict, in a run without interference.\<close>

lemma finish_claim_effect:
  assumes "jobs_wf (fst s)" and "job_at (fst s) key = Some r" and "holds_lease c r" and "completes d"
    and "finish_claim deps s c d = x"
  obtains s' t where "x = Inr s'" "jobs_wf (fst s')" "kept_except key (fst s) (fst s')"
    "job_at (fst s') key = Some (finished_row r t d)"
proof -
  obtain w t where now: "dd_now deps (snd s) = (w, t)" by (rule prod.exhaust)
  obtain rows' where r: "finish_job (fst s) c t d = Inr rows'" "jobs_wf rows'" "kept_except key (fst s) rows'"
    "job_at rows' key = Some (finished_row r t d)" using finish_job_effect [OF assms(1-4)] by blast
  have "x = Inr (rows', w)" using assms(5) now r(1) by (simp add: finish_claim_def)
  from that [OF this] r(2-4) show thesis by simp
qed

definition job_effect :: "job_key \<Rightarrow> job_row list \<Rightarrow> job_row list \<Rightarrow> bool \<Rightarrow> bool" where
  "job_effect key rows rows' success \<longleftrightarrow> jobs_wf rows' \<and> kept_except key rows rows'
     \<and> (map_option jr_status (job_at rows' key) = Some Job_SUCCEEDED \<longleftrightarrow> success)"

lemma run_claimed_effect:
  assumes "jobs_wf (fst s)" and "job_at (fst s) key = Some r" and "holds_lease c r"
  shows "run_report deps s c d = Inr (s', out) \<Longrightarrow> job_effect key (fst s) (fst s') (allows_successor out)"
    and "run_retention deps s c t = Inr (s', out) \<Longrightarrow> job_effect key (fst s) (fst s') (allows_successor out)"
    and "run_report deps s c d = Inl e \<Longrightarrow> e = Unhandled_Exception"
    and "run_retention deps s c t = Inl e \<Longrightarrow> e = Unhandled_Exception"
proof -
  have step: "\<exists>s'. finish_claim deps (fst s, w) c x = Inr s' \<and> job_effect key (fst s) (fst s') (jn_status x = Job_SUCCEEDED)"
    if "completes x" for w x
    using finish_claim_effect [of "(fst s, w)", OF _ _ assms(3) that refl, of key deps] assms(1,2)
    by (fastforce simp: job_effect_def)
  have success: "completes \<lparr>jn_status = Job_SUCCEEDED, jn_report_outcome = a, jn_retention_outcome = b, jn_error_code = e\<rparr>" for a b e
    by (simp add: completes_def)
  have failure: "\<exists>s'. finish_failure deps (fst s, w) c code = Inr (s', job_outcome Outcome_FAILED (Some code))
      \<and> job_effect key (fst s) (fst s') False" for w code
    using step [OF failure_completes(1) [of c None None "Some code"], of w] failure_completes(2) [of c]
    by (auto simp: finish_failure_def)
  have succeed: "\<exists>s'. finish_claim deps (fst s, w) c \<lparr>jn_status = Job_SUCCEEDED, jn_report_outcome = a,
       jn_retention_outcome = b, jn_error_code = e\<rparr> = Inr s' \<and> job_effect key (fst s) (fst s') True" for w a b e
    using step [OF success [of a b e], of w] by simp
  obtain w r1 where rep: "dd_report deps (snd s) d = (w, r1)" by (rule prod.exhaust)
  obtain v r2 where ret: "dd_retention deps (snd s) t = (v, r2)" by (rule prod.exhaust)
  have "run_report deps s c d = Inl Unhandled_Exception
    \<or> (\<exists>s' out. run_report deps s c d = Inr (s', out) \<and> job_effect key (fst s) (fst s') (allows_successor out))"
  proof (cases r1)
    case (Completed a)
    then show ?thesis using succeed [of w "Some (appended_value a)" None None] by (auto simp: run_report_def rep)
  next
    case Reconciliation_Failure
    then show ?thesis using failure [of w "''report_reconciliation_failed''"] by (auto simp: run_report_def rep)
  next
    case Other_Exception
    then show ?thesis by (simp add: run_report_def rep)
  qed
  then show "run_report deps s c d = Inr (s', out) \<Longrightarrow> job_effect key (fst s) (fst s') (allows_successor out)"
    "run_report deps s c d = Inl e \<Longrightarrow> e = Unhandled_Exception" by auto
  have "run_retention deps s c t = Inl Unhandled_Exception
    \<or> (\<exists>s' out. run_retention deps s c t = Inr (s', out) \<and> job_effect key (fst s) (fst s') (allows_successor out))"
  proof (cases r2)
    case (Completed a)
    then show ?thesis using succeed [of v None "Some (retained_value a)" None] by (auto simp: run_retention_def ret)
  next
    case Reconciliation_Failure
    then show ?thesis using failure [of v "''retention_reconciliation_failed''"] by (auto simp: run_retention_def ret)
  next
    case Other_Exception
    then show ?thesis by (simp add: run_retention_def ret)
  qed
  then show "run_retention deps s c t = Inr (s', out) \<Longrightarrow> job_effect key (fst s) (fst s') (allows_successor out)"
    "run_retention deps s c t = Inl e \<Longrightarrow> e = Unhandled_Exception" by auto
qed

lemma correction_outcome_rows: "correction_outcome deps s d = Inr (s', out) \<Longrightarrow> fst s' = fst s"
  by (auto simp: correction_outcome_def split: prod.splits attempted.splits)

text \<open>A claim in an invocation, and what the three refusals leave behind.\<close>

lemma claim_at_effect:
  assumes wf: "jobs_wf (fst s)" and claim: "claim_at deps s kind d t = Inr (s', c)"
  defines "key \<equiv> Daily_Job_Key kind d"
  shows "jobs_wf (fst s')" "kept_except key (fst s) (fst s')"
    "jc_disposition c = Claim_RUN \<Longrightarrow> \<exists>r. job_at (fst s') key = Some r \<and> holds_lease c r"
    "jc_disposition c = Claim_SUCCEEDED \<longleftrightarrow> succeeded (fst s) kind d" "succeeded (fst s') kind d \<longleftrightarrow> succeeded (fst s) kind d"
proof -
  obtain w fresh where "dd_fresh deps (snd s) = (w, fresh)" by (rule prod.exhaust)
  then have c: "claim_job (fst s) kind d t fresh = Inr (fst s', c)"
    using claim by (auto simp: claim_at_def split: sum.splits)
  obtain job job' where e: "jobs_wf (fst s')" "kept_except key (fst s) (fst s')"
    "claim_locked job t (snd fresh) = (job', c)" "job_at (fst s) key = Some job \<or> (job_at (fst s) key = None \<and> jr_status job = Job_QUEUED)"
    "job_at (fst s') key = Some job'" "job_wf job"
    using claim_job_effect [OF wf c] unfolding key_def by blast
  note r = claim_locked_result [OF e(3,6)]
  show "jobs_wf (fst s')" "kept_except key (fst s) (fst s')" using e by simp_all
  show "jc_disposition c = Claim_RUN \<Longrightarrow> \<exists>r. job_at (fst s') key = Some r \<and> holds_lease c r" using e(5) r(1) by simp
  show "jc_disposition c = Claim_SUCCEEDED \<longleftrightarrow> succeeded (fst s) kind d"
    using r(2,3) e(4) unfolding key_def by (cases "jc_disposition c = Claim_SUCCEEDED") auto
  show "succeeded (fst s') kind d \<longleftrightarrow> succeeded (fst s) kind d"
    using r(2,3) e(4,5) unfolding key_def by (cases "jc_disposition c = Claim_SUCCEEDED") auto
qed

lemma kind_effectI:
  assumes "kept_except (Daily_Job_Key kind d) rows rows'" and "\<not> active \<Longrightarrow> rows' = rows"
    and "succeeded rows kind d \<Longrightarrow> succeeded rows' kind d"
    and "active \<Longrightarrow> allows_successor out \<Longrightarrow> succeeded rows' kind d"
    and "active \<Longrightarrow> succeeded rows' kind d \<Longrightarrow> succeeded rows kind d \<or> allows_successor out"
  shows "kind_effect kind d active rows rows' out"
  using assms by (cases active) (auto simp: kind_effect_def kept_except_def)

lemma job_effect_Run:
  assumes "jobs_wf rows" and "kept_except key rows mid" and "job_effect key mid rows' ok"
  shows "jobs_wf rows'" "kept_except key rows rows'"
    "map_option jr_status (job_at rows' key) = Some Job_SUCCEEDED \<longleftrightarrow> ok"
  using assms by (auto simp: job_effect_def intro: kept_except_trans)

lemma report_outcome_effect:
  assumes wf: "jobs_wf (fst s)" and run: "report_outcome deps s d first can = Inr (s', out)"
  shows "jobs_wf (fst s') \<and> kept_except (Daily_Job_Key Job_DAILY_REPORT d) (fst s) (fst s')
    \<and> kind_effect Job_DAILY_REPORT d (\<not> d < first \<and> can) (fst s) (fst s') out"
proof (cases "\<not> d < first \<and> can")
  case False
  then have "fst s' = fst s" using run correction_outcome_rows [of deps s d s' out] by (auto simp: report_outcome_def split: if_splits)
  then show ?thesis using wf False by (auto simp: kind_effect_def)
next
  case True
  obtain w t where now: "dd_now deps (snd s) = (w, t)" by (rule prod.exhaust)
  obtain s1 c where claim: "claim_at deps (fst s, w) Job_DAILY_REPORT d t = Inr (s1, c)"
    using run True now by (auto simp: report_outcome_def split: sum.splits)
  note e = claim_at_effect [of "(fst s, w)", OF _ claim, unfolded fst_conv, OF wf]
  have rest: "(if jc_disposition c = Claim_SUCCEEDED then correction_outcome deps s1 d
      else case recovered_claim c ''report'' of Some r \<Rightarrow> Inr (s1, r) | None \<Rightarrow> run_report deps s1 c d) = Inr (s', out)"
    using run True now claim by (auto simp: report_outcome_def)
  show ?thesis
  proof (cases "jc_disposition c = Claim_RUN")
    case run: True
    then have "run_report deps s1 c d = Inr (s', out)" using rest by (simp add: recovered_claim_def)
    moreover obtain r where "job_at (fst s1) (Daily_Job_Key Job_DAILY_REPORT d) = Some r" "holds_lease c r" using e(3) run by blast
    ultimately have "job_effect (Daily_Job_Key Job_DAILY_REPORT d) (fst s1) (fst s') (allows_successor out)"
      using run_claimed_effect(1) [OF e(1)] by blast
    note eff = job_effect_Run [OF wf e(2) this]
    have "\<not> succeeded (fst s) Job_DAILY_REPORT d" using e(4) run by auto
    then show ?thesis using eff True by (auto intro!: kind_effectI)
  next
    case False
    then have s': "fst s' = fst s1" and out: "jc_disposition c \<noteq> Claim_SUCCEEDED \<Longrightarrow> \<not> allows_successor out"
      using rest correction_outcome_rows [of deps s1 d s' out]
      by (auto simp: recovered_claim_def split: if_splits job_claim_disposition.splits)
    show ?thesis using e(1,2,4,5) s' out True by (auto intro!: kind_effectI)
  qed
qed

lemma retention_outcome_effect:
  assumes wf: "jobs_wf (fst s)" and run: "retention_outcome deps s d first can = Inr (s', out)"
  shows "jobs_wf (fst s') \<and> kept_except (Daily_Job_Key Job_RETENTION d) (fst s) (fst s')
    \<and> kind_effect Job_RETENTION d (\<not> d < first \<and> can) (fst s) (fst s') out"
proof (cases "\<not> d < first \<and> can")
  case False
  then have "fst s' = fst s" using run by (auto simp: retention_outcome_def split: if_splits)
  then show ?thesis using wf False by (auto simp: kind_effect_def)
next
  case True
  obtain w t where now: "dd_now deps (snd s) = (w, t)" by (rule prod.exhaust)
  obtain s1 c where claim: "claim_at deps (fst s, w) Job_RETENTION d t = Inr (s1, c)"
    using run True now by (auto simp: retention_outcome_def split: sum.splits)
  note e = claim_at_effect [of "(fst s, w)", OF _ claim, unfolded fst_conv, OF wf]
  have rest: "(case recovered_claim c ''retention'' of Some r \<Rightarrow> Inr (s1, r) | None \<Rightarrow> run_retention deps s1 c t) = Inr (s', out)"
    using run True now claim by (auto simp: retention_outcome_def)
  show ?thesis
  proof (cases "jc_disposition c = Claim_RUN")
    case run: True
    then have "run_retention deps s1 c t = Inr (s', out)" using rest by (simp add: recovered_claim_def)
    moreover obtain r where "job_at (fst s1) (Daily_Job_Key Job_RETENTION d) = Some r" "holds_lease c r" using e(3) run by blast
    ultimately have "job_effect (Daily_Job_Key Job_RETENTION d) (fst s1) (fst s') (allows_successor out)"
      using run_claimed_effect(2) [OF e(1)] by blast
    note eff = job_effect_Run [OF wf e(2) this]
    have "\<not> succeeded (fst s) Job_RETENTION d" using e(4) run by auto
    then show ?thesis using eff True by (auto intro!: kind_effectI)
  next
    case False
    then have s': "fst s' = fst s1" and out: "jc_disposition c \<noteq> Claim_SUCCEEDED \<Longrightarrow> \<not> allows_successor out"
      using rest by (auto simp: recovered_claim_def split: job_claim_disposition.splits)
    show ?thesis using e(1,2,4,5) s' out True by (auto intro!: kind_effectI)
  qed
qed

section \<open>What the loop does\<close>

lemma kind_effect_kept:
  assumes "kind \<noteq> kind'"
  shows "kind_effect kind d a rows mid out \<Longrightarrow> kept_except (Daily_Job_Key kind' e) mid rows' \<Longrightarrow> kind_effect kind d a rows rows' out"
    and "kept_except (Daily_Job_Key kind' e) rows mid \<Longrightarrow> kind_effect kind d a mid rows' out \<Longrightarrow> kind_effect kind d a rows rows' out"
  using assms by (auto simp: kind_effect_def kept_except_def)

text \<open>Successes are kept, and new ones come in order: a date that is new has all dates of the loop before it,
  from the first pending one on.\<close>

definition in_order ::
    "job_kind \<Rightarrow> seoul_date \<Rightarrow> bool \<Rightarrow> seoul_date list \<Rightarrow> job_row list \<Rightarrow> job_row list \<Rightarrow> bool" where
  "in_order kind first can dates rows rows' \<longleftrightarrow>
     (\<forall>d. succeeded rows kind d \<longrightarrow> succeeded rows' kind d)
     \<and> (\<forall>d. succeeded rows' kind d \<longrightarrow> succeeded rows kind d
          \<or> (can \<and> first \<le> d \<and> d \<in> set dates \<and> (\<forall>e \<in> set dates. first \<le> e \<and> e \<le> d \<longrightarrow> succeeded rows' kind e)))"

lemma in_order_Nil: "in_order kind first can [] rows rows"
  by (simp add: in_order_def)

lemma in_order_Cons:
  assumes step: "kind_effect kind t (\<not> t < first \<and> can) rows mid out"
    and rest: "in_order kind first (can \<and> allows_successor out) ts mid rows'" and sorted: "\<forall>e \<in> set ts. t < e"
  shows "in_order kind first can (t # ts) rows rows'"
proof -
  have old: "succeeded mid kind d \<longleftrightarrow> succeeded rows kind d" if "d \<noteq> t" for d using step that by (simp add: kind_effect_def)
  have keep: "succeeded mid kind d \<Longrightarrow> succeeded rows' kind d" for d using rest by (simp add: in_order_def)
  have grow: "succeeded rows kind d \<Longrightarrow> succeeded mid kind d" for d
    using step old by (cases "d = t") (simp_all add: kind_effect_def)
  have new: "can \<and> first \<le> d \<and> d \<in> set (t # ts) \<and> (\<forall>e \<in> set (t # ts). first \<le> e \<and> e \<le> d \<longrightarrow> succeeded rows' kind e)"
    if s: "succeeded rows' kind d" and n: "\<not> succeeded rows kind d" for d
  proof (cases "succeeded mid kind d")
    case True
    then have t: "d = t" using old n by blast
    have "succeeded mid kind t \<longrightarrow> succeeded rows kind t \<or> ((\<not> t < first \<and> can) \<and> allows_successor out)"
      using step unfolding kind_effect_def by blast
    then have "\<not> t < first \<and> can" using True n unfolding t by blast
    then have "can" "first \<le> t" by simp_all
    then show ?thesis using s sorted unfolding t by force
  next
    case False
    then have d: "can" "allows_successor out" "first \<le> d" "d \<in> set ts"
      "\<forall>e \<in> set ts. first \<le> e \<and> e \<le> d \<longrightarrow> succeeded rows' kind e"
      using rest s by (auto simp: in_order_def)
    have "succeeded rows' kind t" if "first \<le> t"
      using step d(1,2) that keep by (simp add: kind_effect_def)
    then show ?thesis using d by simp
  qed
  show ?thesis unfolding in_order_def using keep grow new by blast
qed

lemma catch_up_effect:
  assumes "jobs_wf (fst s)" and "catch_up deps rn tn rc tc s dates = Inr (s', outs)" and "sorted_wrt (<) dates"
  shows "jobs_wf (fst s') \<and> map do_target_date_seoul outs = dates
    \<and> in_order Job_DAILY_REPORT rn rc dates (fst s) (fst s') \<and> in_order Job_RETENTION tn tc dates (fst s) (fst s')"
  using assms
proof (induction dates arbitrary: s rc tc outs)
  case Nil
  then show ?case by (simp add: in_order_Nil)
next
  case (Cons t ts)
  obtain s1 report where r: "report_outcome deps s t rn rc = Inr (s1, report)"
    using Cons.prems(2) by (auto split: sum.splits)
  obtain s2 retention where q: "retention_outcome deps s1 t tn tc = Inr (s2, retention)"
    using Cons.prems(2) r by (auto split: sum.splits)
  obtain outs' where l: "catch_up deps rn tn (rc \<and> allows_successor report) (tc \<and> allows_successor retention) s2 ts = Inr (s', outs')"
    and outs: "outs = daily_outcome_of t report retention (unique_codes (error_codes report retention)) # outs'"
    using Cons.prems(2) r q by (auto split: sum.splits)
  note e1 = report_outcome_effect [OF Cons.prems(1) r]
  note e2 = retention_outcome_effect [OF e1 [THEN conjunct1] q]
  note ih = Cons.IH [OF e2 [THEN conjunct1] l]
  have s: "sorted_wrt (<) ts" "\<forall>e \<in> set ts. t < e" using Cons.prems(3) by simp_all
  have "kind_effect Job_DAILY_REPORT t (\<not> t < rn \<and> rc) (fst s) (fst s2) report"
    using kind_effect_kept(1) e1 e2 by (metis job_kind.distinct(1))
  moreover have "kind_effect Job_RETENTION t (\<not> t < tn \<and> tc) (fst s) (fst s2) retention"
    using kind_effect_kept(2) e1 e2 by (metis job_kind.distinct(1))
  ultimately show ?case using ih [OF s(1)] in_order_Cons s(2) outs by (simp add: daily_outcome_of_def)
qed

lemma catch_up_dates_sorted: "sorted_wrt (<) (catch_up_dates first latest)"
  by (auto simp: catch_up_dates_def Let_def sorted_wrt_iff_nth_less)

lemma catch_up_dates_mem: "d \<in> set (catch_up_dates first latest) \<longleftrightarrow> first \<le> d \<and> d \<le> latest \<and> d < first + MAX_CATCH_UP_DAYS"
proof -
  have "d \<in> set (catch_up_dates first latest) \<longleftrightarrow> (\<exists>i. d = first + int i \<and> int i < min MAX_CATCH_UP_DAYS (latest - first + 1))"
    by (auto simp: catch_up_dates_def Let_def image_iff)
  also have "\<dots> \<longleftrightarrow> first \<le> d \<and> d \<le> latest \<and> d < first + MAX_CATCH_UP_DAYS"
  proof
    assume "first \<le> d \<and> d \<le> latest \<and> d < first + MAX_CATCH_UP_DAYS"
    then show "\<exists>i. d = first + int i \<and> int i < min MAX_CATCH_UP_DAYS (latest - first + 1)"
      by (intro exI [of _ "nat (d - first)"]) auto
  qed auto
  finally show ?thesis .
qed

lemma catch_up_dates_length: "length (catch_up_dates first latest) \<le> 7"
  by (simp add: catch_up_dates_def Let_def MAX_CATCH_UP_DAYS_def)

section \<open>Requested reconciliations leave the daily jobs alone\<close>

lemma claim_reconciliation_effect:
  assumes wf: "jobs_wf rows" and claim: "claim_reconciliation rows busy t lease = Some (rows', c)"
  shows "jobs_wf rows'" "kind \<noteq> Job_RECONCILIATION \<Longrightarrow> job_at rows' (Daily_Job_Key kind d) = job_at rows (Daily_Job_Key kind d)"
    "jc_disposition c = Claim_RUN \<Longrightarrow> \<exists>r. job_at rows' (jr_idempotency_key r) = Some r \<and> holds_lease c r
      \<and> (\<forall>kind d. kind \<noteq> Job_RECONCILIATION \<longrightarrow> jr_idempotency_key r \<noteq> Daily_Job_Key kind d)"
proof -
  obtain job rest job' where m: "due_reconciliations rows busy t = job # rest"
    "claim_locked job t lease = (job', c)" "rows' = update_row job' rows"
    using claim by (auto simp: claim_reconciliation_def split: list.splits prod.splits)
  have "job \<in> set (due_reconciliations rows busy t)" using m(1) by simp
  then have job: "job \<in> set rows" "jr_kind job = Job_RECONCILIATION" by (auto simp: due_reconciliations_def)
  then have jobwf: "job_wf job" using wf by (simp add: jobs_wf_def list_all_iff)
  then have key: "kind \<noteq> Job_RECONCILIATION \<Longrightarrow> jr_idempotency_key job \<noteq> Daily_Job_Key kind d" for kind d
    using job_wf_key [OF jobwf] job(2) by auto
  note step = row_step.row_claim [OF m(2)]
  note rep = row_replacement [OF wf job(1) step] and f = row_step_facts(1,2) [OF step]
  show "jobs_wf rows'" using rep(3) m(3) by simp
  show "kind \<noteq> Job_RECONCILIATION \<Longrightarrow> job_at rows' (Daily_Job_Key kind d) = job_at rows (Daily_Job_Key kind d)"
    using key [of kind d] by (simp add: m(3) rep(1) eq_commute)
  show "jc_disposition c = Claim_RUN \<Longrightarrow> \<exists>r. job_at rows' (jr_idempotency_key r) = Some r \<and> holds_lease c r
      \<and> (\<forall>kind d. kind \<noteq> Job_RECONCILIATION \<longrightarrow> jr_idempotency_key r \<noteq> Daily_Job_Key kind d)"
    using rep(1) m(3) f(2) key claim_locked_result(1) [OF m(2) jobwf] by (intro exI [of _ job']) simp
qed

lemma requested_date_rows:
  "requested_date deps started latest (s, totals, outs) d = Inr (s', totals', outs') \<Longrightarrow>
     fst s' = fst s \<and> map do_target_date_seoul outs' = map do_target_date_seoul outs @ [d]"
  "requested_date deps started latest (s, totals, outs) d = Inl e \<Longrightarrow> e = Unhandled_Exception"
  by (auto simp: requested_date_def correction_outcome_def forced_retention_def daily_outcome_of_def
      split: prod.splits attempted.splits if_splits sum.splits)

lemma requested_dates_rows:
  "fold_result (requested_date deps started latest) (s, totals, outs) ds = Inr (s', totals', outs') \<Longrightarrow>
     fst s' = fst s \<and> map do_target_date_seoul outs' = map do_target_date_seoul outs @ ds"
  "fold_result (requested_date deps started latest) (s, totals, outs) ds = Inl e \<Longrightarrow> e = Unhandled_Exception"
proof (induction ds arbitrary: s totals outs)
  case (Cons d ds)
  { case 1
    obtain y where y: "requested_date deps started latest (s, totals, outs) d = Inr y"
      using 1 by (cases "requested_date deps started latest (s, totals, outs) d") simp_all
    obtain s1 t1 o1 where x: "y = (s1, t1, o1)" by (rule prod_cases3)
    then have "fold_result (requested_date deps started latest) (s1, t1, o1) ds = Inr (s', totals', outs')" using 1 y by simp
    from Cons.IH(1) [OF this] requested_date_rows(1) [OF y [unfolded x]] show ?case by simp
  next
    case 2
    show ?case
    proof (cases "requested_date deps started latest (s, totals, outs) d")
      case (Inl e')
      then show ?thesis using 2 requested_date_rows(2) [OF Inl] by simp
    next
      case (Inr y)
      obtain s1 t1 o1 where x: "y = (s1, t1, o1)" by (rule prod_cases3)
      then show ?thesis using 2 Inr Cons.IH(2) by simp
    qed }
qed simp_all

lemma strict_dates: "sorted_wrt (<) xs \<Longrightarrow> sorted_list_of_set (set xs) = (xs :: int list)"
  by (simp add: sorted_list_of_set.idem_if_sorted_distinct strict_sorted_iff)

lemma respond_facts:
  "respond deps started s outs = Inr (s', resp) \<Longrightarrow> fst s' = fst s \<and> dcr_outcomes resp = outs"
  "sorted_wrt (<) (map do_target_date_seoul outs) \<Longrightarrow> length outs \<le> 7 \<Longrightarrow> respond deps started s outs = Inl e \<Longrightarrow>
     e = Invalid_Daily_Bounds \<and> snd (dd_now deps (snd s)) < started"
  by (auto simp: respond_def daily_response_def Let_def strict_dates simp del: set_map list.set_map
      split: prod.splits sum.splits if_splits)

lemma run_requested_effect:
  assumes wf: "jobs_wf (fst s)" and here: "job_at (fst s) (jr_idempotency_key r) = Some r" and lease: "holds_lease c r"
  shows "run_requested deps s started latest c = Inr (s', resp) \<Longrightarrow>
      jobs_wf (fst s') \<and> kept_except (jr_idempotency_key r) (fst s) (fst s')
      \<and> map do_target_date_seoul (dcr_outcomes resp) = catch_up_dates (latest - (MAX_CATCH_UP_DAYS - 1)) latest"
    and "run_requested deps s started latest c = Inl e \<Longrightarrow> e = Unhandled_Exception \<or> e = Invalid_Daily_Bounds"
proof -
  let ?ds = "catch_up_dates (latest - (MAX_CATCH_UP_DAYS - 1)) latest"
  let ?loop = "fold_result (requested_date deps started latest)
             (s, \<lparr>rt_report_successes = 0, rt_retention_summary = None, rt_failed = False\<rparr>, []) ?ds"
  have fin: "\<exists>s2. finish_claim deps s1 c d = Inr s2 \<and> jobs_wf (fst s2) \<and> kept_except (jr_idempotency_key r) (fst s) (fst s2)"
    if "fst s1 = fst s" "completes d" for s1 d
    using finish_claim_effect [of s1, OF _ _ lease that(2) refl, of "jr_idempotency_key r" deps] wf here that(1) by metis
  have comp: "completes (requested_completion c totals n)" for totals n
    by (simp add: completes_def failure_status_def requested_completion_def)
  have run_eq: "run_requested deps s started latest c = (case finish_claim deps s1 c
      (requested_completion c totals (int (length ?ds))) of Inl e \<Rightarrow> Inl e | Inr s2 \<Rightarrow> respond deps started s2 outs)"
    if "?loop = Inr (s1, totals, outs)" for s1 totals outs
    using that by (simp add: run_requested_def Let_def)
  show "run_requested deps s started latest c = Inr (s', resp) \<Longrightarrow>
      jobs_wf (fst s') \<and> kept_except (jr_idempotency_key r) (fst s) (fst s')
      \<and> map do_target_date_seoul (dcr_outcomes resp) = ?ds"
  proof -
    assume run: "run_requested deps s started latest c = Inr (s', resp)"
    then obtain s1 totals outs where l: "?loop = Inr (s1, totals, outs)"
      by (auto simp: run_requested_def Let_def split: sum.splits)
    note r1 = requested_dates_rows(1) [OF l]
    obtain s2 where s2: "finish_claim deps s1 c (requested_completion c totals (int (length ?ds))) = Inr s2"
      "jobs_wf (fst s2)" "kept_except (jr_idempotency_key r) (fst s) (fst s2)" using fin [OF r1 [THEN conjunct1] comp] by blast
    have "respond deps started s2 outs = Inr (s', resp)" using run run_eq [OF l] s2(1) by simp
    from respond_facts(1) [OF this] show ?thesis using s2(2,3) r1 by simp
  qed
  assume run: "run_requested deps s started latest c = Inl e"
  show "e = Unhandled_Exception \<or> e = Invalid_Daily_Bounds"
  proof (cases ?loop)
    case (Inl e')
    then show ?thesis using run requested_dates_rows(2) [OF Inl] by (simp add: run_requested_def Let_def)
  next
    case (Inr x)
    obtain s1 totals outs where x: "x = (s1, totals, outs)" by (rule prod_cases3)
    note l = Inr [unfolded x]
    note r1 = requested_dates_rows(1) [OF l]
    obtain s2 where s2: "finish_claim deps s1 c (requested_completion c totals (int (length ?ds))) = Inr s2"
      using fin [OF r1 [THEN conjunct1] comp] by blast
    have dates: "map do_target_date_seoul outs = ?ds" using r1 by simp
    then have "length outs \<le> 7" "sorted_wrt (<) (map do_target_date_seoul outs)"
      using catch_up_dates_length [of "latest - (MAX_CATCH_UP_DAYS - 1)" latest] catch_up_dates_sorted
      by (metis length_map, simp)
    moreover have "respond deps started s2 outs = Inl e" using run run_eq [OF l] s2 by simp
    ultimately show ?thesis using respond_facts(2) by blast
  qed
qed

section \<open>Errors of an undisturbed invocation\<close>

lemma claim_job_error: "claim_job rows kind d t fresh = Inl e \<Longrightarrow> e = Duplicate_Job_Id"
  by (auto simp: claim_job_def insert_job_def job_at_def find_append queued_job_def
      split: sum.splits option.splits prod.splits if_splits)

lemma claim_at_error: "claim_at deps s kind d t = Inl e \<Longrightarrow> e = Duplicate_Job_Id"
  using claim_job_error by (auto simp: claim_at_def split: prod.splits sum.splits)

lemma correction_error: "correction_outcome deps s d = Inl e \<Longrightarrow> e = Unhandled_Exception"
  by (auto simp: correction_outcome_def split: prod.splits attempted.splits)

lemma report_outcome_error:
  assumes wf: "jobs_wf (fst s)" and run: "report_outcome deps s d first can = Inl e"
  shows "e \<in> {Duplicate_Job_Id, Unhandled_Exception}"
proof (cases "\<not> d < first \<and> can")
  case False
  then show ?thesis using run correction_error [of deps s d e] by (auto simp: report_outcome_def split: if_splits)
next
  case True
  obtain w t where now: "dd_now deps (snd s) = (w, t)" by (rule prod.exhaust)
  show ?thesis
  proof (cases "claim_at deps (fst s, w) Job_DAILY_REPORT d t")
    case (Inl e')
    then show ?thesis using run True now claim_at_error [OF Inl] by (simp add: report_outcome_def)
  next
    case (Inr x)
    obtain s1 c where x: "x = (s1, c)" by (rule prod.exhaust)
    note eff = claim_at_effect [of "(fst s, w)", OF _ Inr [unfolded x], unfolded fst_conv, OF wf]
    show ?thesis
    proof (cases "jc_disposition c = Claim_RUN")
      case c: True
      then have "run_report deps s1 c d = Inl e" using run True now Inr x by (simp add: report_outcome_def recovered_claim_def)
      moreover obtain r where "job_at (fst s1) (Daily_Job_Key Job_DAILY_REPORT d) = Some r" "holds_lease c r" using eff(3) c by blast
      ultimately show ?thesis using run_claimed_effect(3) [OF eff(1)] by blast
    next
      case False
      then have "correction_outcome deps s1 d = Inl e" using run True now Inr x
        by (auto simp: report_outcome_def recovered_claim_def split: if_splits job_claim_disposition.splits)
      then show ?thesis using correction_error by blast
    qed
  qed
qed

lemma retention_outcome_error:
  assumes wf: "jobs_wf (fst s)" and run: "retention_outcome deps s d first can = Inl e"
  shows "e \<in> {Duplicate_Job_Id, Unhandled_Exception}"
proof -
  have active: "\<not> d < first \<and> can" using run by (auto simp: retention_outcome_def split: if_splits)
  obtain w t where now: "dd_now deps (snd s) = (w, t)" by (rule prod.exhaust)
  show ?thesis
  proof (cases "claim_at deps (fst s, w) Job_RETENTION d t")
    case (Inl e')
    then show ?thesis using run active now claim_at_error [OF Inl] by (simp add: retention_outcome_def)
  next
    case (Inr x)
    obtain s1 c where x: "x = (s1, c)" by (rule prod.exhaust)
    note eff = claim_at_effect [of "(fst s, w)", OF _ Inr [unfolded x], unfolded fst_conv, OF wf]
    have c: "jc_disposition c = Claim_RUN" "run_retention deps s1 c t = Inl e" using run active now Inr x
      by (auto simp: retention_outcome_def recovered_claim_def split: job_claim_disposition.splits)
    moreover obtain r where "job_at (fst s1) (Daily_Job_Key Job_RETENTION d) = Some r" "holds_lease c r" using eff(3) c by blast
    ultimately show ?thesis using run_claimed_effect(4) [OF eff(1)] by blast
  qed
qed

lemma catch_up_error:
  assumes "jobs_wf (fst s)" and "catch_up deps rn tn rc tc s dates = Inl e"
  shows "e \<in> {Duplicate_Job_Id, Unhandled_Exception}"
  using assms
proof (induction dates arbitrary: s rc tc)
  case (Cons t ts)
  show ?case
  proof (cases "report_outcome deps s t rn rc")
    case (Inl e')
    then show ?thesis using Cons.prems report_outcome_error [OF Cons.prems(1) Inl] by simp
  next
    case (Inr x)
    obtain s1 report where x: "x = (s1, report)" by (rule prod.exhaust)
    note wf1 = report_outcome_effect [OF Cons.prems(1) Inr [unfolded x], THEN conjunct1]
    show ?thesis
    proof (cases "retention_outcome deps s1 t tn tc")
      case (Inl e')
      then show ?thesis using Cons.prems Inr x retention_outcome_error [OF wf1 Inl] by simp
    next
      case inner: (Inr y)
      obtain s2 retention where y: "y = (s2, retention)" by (rule prod.exhaust)
      note wf2 = retention_outcome_effect [OF wf1 inner [unfolded y], THEN conjunct1]
      have "catch_up deps rn tn (rc \<and> allows_successor report) (tc \<and> allows_successor retention) s2 ts = Inl e"
        using Cons.prems(2) Inr x inner y by (auto split: sum.splits)
      then show ?thesis using Cons.IH [OF wf2] by simp
    qed
  qed
qed simp

section \<open>Properties\<close>

text \<open>The two ways in which an invocation goes.\<close>

lemma run_daily_cases:
  assumes wf: "jobs_wf (fst s)" and run: "run_daily deps s = x"
  obtains (requested) s1 started r c where "started = snd (dd_now deps (snd s))" "jobs_wf (fst s1)"
      "job_at (fst s1) (jr_idempotency_key r) = Some r" "holds_lease c r"
      "\<forall>kind d. kind \<noteq> Job_RECONCILIATION \<longrightarrow> jr_idempotency_key r \<noteq> Daily_Job_Key kind d"
      "\<forall>kind d. kind \<noteq> Job_RECONCILIATION \<longrightarrow> job_at (fst s1) (Daily_Job_Key kind d) = job_at (fst s) (Daily_Job_Key kind d)"
      "x = run_requested deps s1 started (latest_complete_date started) c"
  | (regular) s1 started where "started = snd (dd_now deps (snd s))" "jobs_wf (fst s1)"
      "\<forall>kind d. kind \<noteq> Job_RECONCILIATION \<longrightarrow> job_at (fst s1) (Daily_Job_Key kind d) = job_at (fst s) (Daily_Job_Key kind d)"
      "x = run_catch_up deps s1 started (latest_complete_date started)"
proof -
  obtain w1 started where now: "dd_now deps (snd s) = (w1, started)" by (rule prod.exhaust)
  obtain w2 i lease where fresh: "dd_fresh deps w1 = (w2, i, lease)" by (rule prod_cases3)
  let ?claim = "claim_reconciliation (fst s) (dd_locked deps w1) started lease"
  note run = run [symmetric]
  show thesis
  proof (cases ?claim)
    case None
    then have "x = run_catch_up deps (fst s, w2) started (latest_complete_date started)"
      using run now fresh by (simp add: run_daily_def Let_def)
    then show thesis using regular [of started "(fst s, w2)"] wf now by simp
  next
    case (Some y)
    obtain rows c where y: "y = (rows, c)" by (rule prod.exhaust)
    note eff = claim_reconciliation_effect [OF wf Some [unfolded y]]
    show thesis
    proof (cases "jc_disposition c = Claim_RUN")
      case True
      then obtain r where r: "job_at rows (jr_idempotency_key r) = Some r" "holds_lease c r"
        "\<forall>kind d. kind \<noteq> Job_RECONCILIATION \<longrightarrow> jr_idempotency_key r \<noteq> Daily_Job_Key kind d" using eff(3) by blast
      have "x = run_requested deps (rows, w2) started (latest_complete_date started) c"
        using run now fresh Some y True by (simp add: run_daily_def Let_def)
      then show thesis using requested [of started "(rows, w2)" r c] eff(1,2) r now by simp
    next
      case False
      then have "x = run_catch_up deps (rows, w2) started (latest_complete_date started)"
        using run now fresh Some y by (simp add: run_daily_def Let_def)
      then show thesis using regular [of started "(rows, w2)"] eff(1,2) now by simp
    qed
  qed
qed

lemma run_catch_upD:
  assumes wf: "jobs_wf (fst s)" and run: "run_catch_up deps s started latest = Inr (s', resp)"
  defines "rn \<equiv> next_date (latest_succeeded_date (fst s) Job_DAILY_REPORT latest) latest"
    and "tn \<equiv> next_date (latest_succeeded_date (fst s) Job_RETENTION latest) latest"
    and "dates \<equiv> catch_up_dates (first_target_date (fst s) latest) latest"
  shows "jobs_wf (fst s')" "map do_target_date_seoul (dcr_outcomes resp) = dates"
    "in_order Job_DAILY_REPORT rn True dates (fst s) (fst s')" "in_order Job_RETENTION tn True dates (fst s) (fst s')"
proof -
  obtain s1 outs where l: "catch_up deps rn tn True True s dates = Inr (s1, outs)" and r: "respond deps started s1 outs = Inr (s', resp)"
    using run by (auto simp: run_catch_up_def Let_def rn_def tn_def dates_def split: sum.splits)
  note eff = catch_up_effect [OF wf l] and after = respond_facts(1) [OF r]
  have "sorted_wrt (<) dates" by (simp add: dates_def catch_up_dates_sorted)
  then show "jobs_wf (fst s')" "map do_target_date_seoul (dcr_outcomes resp) = dates"
    "in_order Job_DAILY_REPORT rn True dates (fst s) (fst s')" "in_order Job_RETENTION tn True dates (fst s) (fst s')"
    using eff after by auto
qed

lemma run_catch_up_error:
  assumes wf: "jobs_wf (fst s)" and run: "run_catch_up deps s started latest = Inl e"
  shows "e \<in> {Duplicate_Job_Id, Unhandled_Exception, Invalid_Daily_Bounds}"
proof -
  define rn where "rn = next_date (latest_succeeded_date (fst s) Job_DAILY_REPORT latest) latest"
  define tn where "tn = next_date (latest_succeeded_date (fst s) Job_RETENTION latest) latest"
  define dates where "dates = catch_up_dates (first_target_date (fst s) latest) latest"
  have sorted: "sorted_wrt (<) dates" by (simp add: dates_def catch_up_dates_sorted)
  show ?thesis
  proof (cases "catch_up deps rn tn True True s dates")
    case (Inl e')
    then show ?thesis using run catch_up_error [OF wf Inl] by (auto simp: run_catch_up_def Let_def rn_def tn_def dates_def)
  next
    case (Inr x)
    obtain s1 outs where x: "x = (s1, outs)" by (rule prod.exhaust)
    note eff = catch_up_effect [OF wf Inr [unfolded x] sorted]
    have "length outs \<le> 7" using eff catch_up_dates_length unfolding dates_def by (metis length_map)
    moreover have "respond deps started s1 outs = Inl e"
      using run Inr x by (simp add: run_catch_up_def Let_def rn_def tn_def dates_def)
    moreover have "sorted_wrt (<) (map do_target_date_seoul outs)" using eff sorted by simp
    ultimately show ?thesis using respond_facts(2) by blast
  qed
qed

lemma first_target_le: "first_target_date rows latest \<le> next_date (latest_succeeded_date rows Job_DAILY_REPORT latest) latest"
  "first_target_date rows latest \<le> next_date (latest_succeeded_date rows Job_RETENTION latest) latest"
  by (auto simp: first_target_date_def Let_def)

text \<open>A kind of job whose successes have no holes and do not lie in the future.\<close>

definition gapless :: "job_kind \<Rightarrow> job_row list \<Rightarrow> bool" where
  "gapless kind rows \<longleftrightarrow> (\<forall>a d e. succeeded rows kind a \<and> succeeded rows kind d \<and> a \<le> e \<and> e \<le> d \<longrightarrow> succeeded rows kind e)"

lemma in_order_gapless:
  assumes wf: "jobs_wf rows" and old: "gapless kind rows" and past: "\<forall>d. succeeded rows kind d \<longrightarrow> d \<le> latest"
    and run: "in_order kind (next_date (latest_succeeded_date rows kind latest) latest) True (catch_up_dates f latest) rows rows'"
    and f: "f \<le> next_date (latest_succeeded_date rows kind latest) latest"
  shows "gapless kind rows'" "succeeded rows' kind d \<Longrightarrow> d \<le> latest"
proof -
  define n where "n = next_date (latest_succeeded_date rows kind latest) latest"
  let ?ds = "{d. succeeded rows kind d \<and> d \<le> latest}"
  note last = latest_succeeded [OF wf, of kind latest]
  have n: "n = (if ?ds = {} then latest else min (Max ?ds + 1) latest)"
    by (cases "?ds = {}") (simp_all only: n_def last(1) Let_def next_date_def if_True if_False option.case refl)
  have below: "d < n \<or> d = latest" if "succeeded rows kind d" for d
  proof -
    have d: "d \<in> ?ds" using that past by blast
    then have "d \<le> Max ?ds" using last(2) by (rule Max_ge [rotated])
    moreover from d have ne: "?ds \<noteq> {}" by blast
    then have "n = min (Max ?ds + 1) latest" using n by (simp only: if_False)
    moreover have "d \<le> latest" using d by blast
    ultimately show ?thesis by linarith
  qed
  have adjacent: "e < n \<longrightarrow> succeeded rows kind e" if "succeeded rows kind a" "a \<le> e" for a e
  proof
    assume "e < n"
    have a: "a \<in> ?ds" using that past by blast
    then have ne: "?ds \<noteq> {}" by blast
    note m = Max_in [OF last(2) ne]
    have "n = min (Max ?ds + 1) latest" using n ne by (simp only: if_False)
    then have "e \<le> Max ?ds" using \<open>e < n\<close> by linarith
    then show "succeeded rows kind e" using old that m unfolding gapless_def by blast
  qed
  have keep: "succeeded rows kind d \<Longrightarrow> succeeded rows' kind d" for d using run by (simp add: in_order_def)
  have new: "n \<le> d \<and> d \<in> set (catch_up_dates f latest)
      \<and> (\<forall>e \<in> set (catch_up_dates f latest). n \<le> e \<and> e \<le> d \<longrightarrow> succeeded rows' kind e)"
    if "succeeded rows' kind d" "\<not> succeeded rows kind d" for d
    using run that unfolding in_order_def n_def by blast
  have fill: "succeeded rows' kind e" if "succeeded rows' kind d" "n \<le> e" "e \<le> d" for d e
  proof (cases "succeeded rows kind d")
    case True
    then have ds: "d \<in> ?ds" using past by blast
    then have ne: "?ds \<noteq> {}" by blast
    have "d \<le> Max ?ds" using ds last(2) by (rule Max_ge [rotated])
    moreover have "n = min (Max ?ds + 1) latest" using n ne by (simp only: if_False)
    moreover have "d \<le> latest" using ds by blast
    ultimately have "e = d" using that by linarith
    then show ?thesis using that(1) by simp
  next
    case False
    note d = new [OF that(1) False]
    then have "e \<in> set (catch_up_dates f latest)" using that f unfolding catch_up_dates_mem n_def by auto
    then show ?thesis using d that by blast
  qed
  show "succeeded rows' kind d \<Longrightarrow> d \<le> latest" using new [of d] past by (auto simp: catch_up_dates_mem)
  show "gapless kind rows'"
    unfolding gapless_def
  proof (intro allI impI)
    fix a d e assume h: "succeeded rows' kind a \<and> succeeded rows' kind d \<and> a \<le> e \<and> e \<le> d"
    show "succeeded rows' kind e"
    proof (cases "n \<le> e")
      case True
      then show ?thesis using fill h by blast
    next
      case False
      then have "succeeded rows kind a" using new h by force
      then show ?thesis using adjacent h False keep by force
    qed
  qed
qed

text \<open>(C35) The daily history has no holes: an invocation keeps the table's constraints and every success, and after
  it the dates for which reports (or retention passes) have succeeded are again consecutive and complete
  days, whatever the coordinators did and whether or not an administrator's reconciliation was due.\<close>

theorem daily_history_gapless:
  assumes "jobs_wf (fst s)" and "run_daily deps s = Inr (s', resp)" and "kind \<noteq> Job_RECONCILIATION"
    and "gapless kind (fst s)"
    and "\<forall>d. succeeded (fst s) kind d \<longrightarrow> d \<le> latest_complete_date (snd (dd_now deps (snd s)))"
  shows "jobs_wf (fst s') \<and> gapless kind (fst s') \<and> (\<forall>d. succeeded (fst s) kind d \<longrightarrow> succeeded (fst s') kind d)
    \<and> (\<forall>d. succeeded (fst s') kind d \<longrightarrow> d \<le> latest_complete_date (snd (dd_now deps (snd s))))"
proof (cases rule: run_daily_cases [OF assms(1,2), case_names requested regular])
  case (requested s1 started r c)
  note eff = run_requested_effect(1) [OF requested(2,3,4) requested(7) [symmetric]]
  have same: "job_at (fst s') (Daily_Job_Key kind d) = job_at (fst s) (Daily_Job_Key kind d)" for d
  proof -
    have "Daily_Job_Key kind d \<noteq> jr_idempotency_key r" using requested(5) assms(3) by metis
    then have "job_at (fst s') (Daily_Job_Key kind d) = job_at (fst s1) (Daily_Job_Key kind d)"
      using eff unfolding kept_except_def by blast
    then show ?thesis using requested(6) assms(3) by simp
  qed
  have wf: "jobs_wf (fst s')" using eff by blast
  have keep: "succeeded (fst s') kind d \<longleftrightarrow> succeeded (fst s) kind d" for d by (simp only: same)
  have "gapless kind (fst s')" using assms(4) unfolding gapless_def keep .
  with wf show ?thesis using assms(5) unfolding keep by blast
next
  case (regular s1 started)
  note same = regular(3) [rule_format, OF assms(3)]
  have old: "gapless kind (fst s1)" "\<forall>d. succeeded (fst s1) kind d \<longrightarrow> d \<le> latest_complete_date started"
    using assms(4,5) unfolding gapless_def same regular(1) by blast+
  note eff = run_catch_upD [OF regular(2) regular(4) [symmetric]]
  have order: "in_order kind (next_date (latest_succeeded_date (fst s1) kind (latest_complete_date started)) (latest_complete_date started))
      True (catch_up_dates (first_target_date (fst s1) (latest_complete_date started)) (latest_complete_date started)) (fst s1) (fst s')"
    using eff(3,4) assms(3) by (cases kind) auto
  have le: "first_target_date (fst s1) (latest_complete_date started)
      \<le> next_date (latest_succeeded_date (fst s1) kind (latest_complete_date started)) (latest_complete_date started)"
    using first_target_le assms(3) by (cases kind) auto
  note g = in_order_gapless [OF regular(2) old order le]
  have "succeeded (fst s) kind d \<longrightarrow> succeeded (fst s') kind d" for d
    using order unfolding in_order_def same by blast
  then show ?thesis using eff(1) g unfolding regular(1) by blast
qed

text \<open>A response covers at most seven consecutive ascending dates, none after the last complete Seoul day.\<close>

theorem daily_response_bounded:
  assumes "jobs_wf (fst s)" and "run_daily deps s = Inr (s', resp)"
  shows "\<exists>first. map do_target_date_seoul (dcr_outcomes resp)
      = catch_up_dates first (latest_complete_date (snd (dd_now deps (snd s))))
    \<and> length (dcr_outcomes resp) \<le> 7"
proof (cases rule: run_daily_cases [OF assms, case_names requested regular])
  case (requested s1 started r c)
  note eff = run_requested_effect(1) [OF requested(2,3,4) requested(7) [symmetric]]
  then show ?thesis using requested(1) catch_up_dates_length by (metis length_map)
next
  case (regular s1 started)
  note eff = run_catch_upD(2) [OF regular(2) regular(4) [symmetric]]
  then show ?thesis using regular(1) catch_up_dates_length by (metis length_map)
qed

text \<open>Without interference an invocation never loses a lease that it took: the only errors it can end with are
  a clash of random ids, an exception outside the handled failures, and a clock that runs backwards.\<close>

theorem daily_run_errors:
  assumes "jobs_wf (fst s)" and "run_daily deps s = Inl e"
  shows "e \<in> {Duplicate_Job_Id, Unhandled_Exception, Invalid_Daily_Bounds}"
proof (cases rule: run_daily_cases [OF assms, case_names requested regular])
  case (requested s1 started r c)
  then show ?thesis using run_requested_effect(2) [OF requested(2,3,4) requested(7) [symmetric]] by blast
next
  case (regular s1 started)
  then show ?thesis using run_catch_up_error [OF regular(2) regular(4) [symmetric]] by blast
qed

end
