(* ===== verification/Daily_Progress.thy ===== *)
theory Daily_Progress
  imports Daily_Run
begin

text \<open>
  Progress of the daily cron (\<open>reporting/daily.py\<close>, \<open>daily_execution.py\<close>): what a healthy invocation
  completes, and a state from which no invocation completes anything any more.
\<close>

section \<open>A failed retention date holds the reports back\<close>

text \<open>A job that failed for good is refused, and nothing is written.\<close>

lemma update_row_same: "distinct (map jr_id rows) \<Longrightarrow> r \<in> set rows \<Longrightarrow> update_row r rows = rows"
  unfolding update_row_def by (intro map_idI) (auto simp: distinct_map dest: inj_onD)

lemma claim_at_terminal:
  assumes "jobs_wf (fst s)" and "job_at (fst s) (Daily_Job_Key kind d) = Some r" and "jr_status r = Job_FAILED_TERMINAL"
    and "claim_at deps s kind d t = Inr (s', c)"
  shows "fst s' = fst s" "jc_disposition c = Claim_TERMINAL"
proof -
  obtain w i lease where f: "dd_fresh deps (snd s) = (w, i, lease)" by (rule prod_cases3)
  have key: "jr_idempotency_key (queued_job i kind d t) = Daily_Job_Key kind d" by (simp add: queued_job_def)
  have "update_row r (fst s) = fst s"
    using assms(1) job_at_set [OF assms(2)] by (intro update_row_same) (simp_all add: jobs_wf_def)
  then have "claim_job (fst s) kind d t (i, lease) = Inr (fst s, job_claim_of Claim_TERMINAL r)"
    using assms(2,3) by (simp add: claim_job_def insert_job_def key claim_locked_def)
  then show "fst s' = fst s" "jc_disposition c = Claim_TERMINAL"
    using assms(4) f by (auto simp: claim_at_def job_claim_of_def)
qed

lemma retention_outcome_terminal:
  assumes "jobs_wf (fst s)" and "job_at (fst s) (Daily_Job_Key Job_RETENTION d) = Some r"
    and "jr_status r = Job_FAILED_TERMINAL" and "retention_outcome deps s d first can = Inr (s', out)" and "\<not> d < first"
  shows "fst s' = fst s \<and> \<not> allows_successor out"
proof (cases can)
  case True
  obtain w t where now: "dd_now deps (snd s) = (w, t)" by (rule prod.exhaust)
  obtain s1 c where claim: "claim_at deps (fst s, w) Job_RETENTION d t = Inr (s1, c)"
    using assms(4,5) True now by (auto simp: retention_outcome_def split: sum.splits)
  note e = claim_at_terminal [of "(fst s, w)", unfolded fst_conv, OF assms(1,2,3) claim]
  show ?thesis using assms(4,5) True now claim e by (auto simp: retention_outcome_def recovered_claim_def)
next
  case False
  then show ?thesis using assms(4,5) by (auto simp: retention_outcome_def)
qed

lemma report_outcome_before: "report_outcome deps s d first can = Inr (s', out) \<Longrightarrow> d < first \<Longrightarrow> fst s' = fst s"
  using correction_outcome_rows [of deps s d s' out] by (simp add: report_outcome_def)

lemma retention_outcome_blocked: "retention_outcome deps s d first False = Inr (s', out) \<Longrightarrow> fst s' = fst s"
  by (auto simp: retention_outcome_def split: if_splits)

lemma catch_up_blocked:
  assumes "catch_up deps rn tn rc False s dates = Inr (s', outs)" and "\<forall>d \<in> set dates. d < rn"
  shows "fst s' = fst s"
  using assms
proof (induction dates arbitrary: s rc outs)
  case (Cons t ts)
  obtain s1 report where r: "report_outcome deps s t rn rc = Inr (s1, report)"
    using Cons.prems(1) by (auto split: sum.splits)
  obtain s2 retention where q: "retention_outcome deps s1 t tn False = Inr (s2, retention)"
    using Cons.prems(1) r by (auto split: sum.splits)
  obtain outs' where l: "catch_up deps rn tn (rc \<and> allows_successor report) False s2 ts = Inr (s', outs')"
    using Cons.prems(1) r q by (auto split: sum.splits)
  have "fst s' = fst s2" using Cons.IH [OF l] Cons.prems(2) by simp
  then show ?case using report_outcome_before [OF r] retention_outcome_blocked [OF q] Cons.prems(2) by simp
qed simp

lemma catch_up_dates_Cons: "first \<le> latest \<Longrightarrow> \<exists>ts. catch_up_dates first latest = first # ts"
  by (simp add: catch_up_dates_def Let_def MAX_CATCH_UP_DAYS_def upt_conv_Cons)


section \<open>A healthy invocation completes its dates\<close>

text \<open>\<open>good n w U t\<close> says of a world that it can still draw \<open>n\<close> ids that are not in \<open>U\<close> and that its clock has
  reached \<open>t\<close>. In a healthy environment the clock does not run backwards, drawn ids are new, and the
  coordinators complete.\<close>

definition healthy :: "'w daily_deps \<Rightarrow> (nat \<Rightarrow> 'w \<Rightarrow> uuid set \<Rightarrow> instant \<Rightarrow> bool) \<Rightarrow> bool" where
  "healthy deps good \<longleftrightarrow>
     (\<forall>n w U t w' t'. good n w U t \<longrightarrow> dd_now deps w = (w', t') \<longrightarrow> t \<le> t' \<and> good n w' U t')
     \<and> (\<forall>n w U t d w' r. good n w U t \<longrightarrow> dd_report deps w d = (w', r) \<longrightarrow> good n w' U t \<and> (\<exists>a. r = Completed a))
     \<and> (\<forall>n w U t x w' r. good n w U t \<longrightarrow> dd_retention deps w x = (w', r) \<longrightarrow> good n w' U t \<and> (\<exists>a. r = Completed a))
     \<and> (\<forall>n w U t w' i lease. good (Suc n) w U t \<longrightarrow> dd_fresh deps w = (w', i, lease) \<longrightarrow> i \<notin> U \<and> good n w' (insert i U) t)"

lemma healthyD:
  assumes "healthy deps good"
  shows "good n w U t \<Longrightarrow> dd_now deps w = (w', t') \<Longrightarrow> t \<le> t' \<and> good n w' U t'"
    and "good n w U t \<Longrightarrow> dd_report deps w d = (w', r) \<Longrightarrow> good n w' U t \<and> (\<exists>a. r = Completed a)"
    and "good n w U t \<Longrightarrow> dd_retention deps w x = (w', q) \<Longrightarrow> good n w' U t \<and> (\<exists>a. q = Completed a)"
    and "good (Suc n) w U t \<Longrightarrow> dd_fresh deps w = (w', i, lease) \<Longrightarrow> i \<notin> U \<and> good n w' (insert i U) t"
proof -
  note h = assms [unfolded healthy_def]
  show "good n w U t \<Longrightarrow> dd_now deps w = (w', t') \<Longrightarrow> t \<le> t' \<and> good n w' U t'"
    by (rule h [THEN conjunct1, rule_format])
  show "good n w U t \<Longrightarrow> dd_report deps w d = (w', r) \<Longrightarrow> good n w' U t \<and> (\<exists>a. r = Completed a)"
    by (rule h [THEN conjunct2, THEN conjunct1, rule_format])
  show "good n w U t \<Longrightarrow> dd_retention deps w x = (w', q) \<Longrightarrow> good n w' U t \<and> (\<exists>a. q = Completed a)"
    by (rule h [THEN conjunct2, THEN conjunct2, THEN conjunct1, rule_format])
  show "good (Suc n) w U t \<Longrightarrow> dd_fresh deps w = (w', i, lease) \<Longrightarrow> i \<notin> U \<and> good n w' (insert i U) t"
    by (rule h [THEN conjunct2, THEN conjunct2, THEN conjunct2, rule_format])
qed

definition ready :: "(nat \<Rightarrow> 'w \<Rightarrow> uuid set \<Rightarrow> instant \<Rightarrow> bool) \<Rightarrow> nat \<Rightarrow> 'w daily_state \<Rightarrow> instant \<Rightarrow> bool" where
  "ready good n s t \<longleftrightarrow> jobs_wf (fst s) \<and> (\<exists>m U. n \<le> m \<and> good m (snd s) U t \<and> jr_id ` set (fst s) \<subseteq> U)"

fun claimable :: "job_row option \<Rightarrow> instant \<Rightarrow> bool" where
  "claimable None t = True"
| "claimable (Some r) t \<longleftrightarrow> jr_status r \<in> {Job_SUCCEEDED, Job_QUEUED}
     \<or> (jr_status r = Job_FAILED_RETRYABLE \<and> jr_attempt r < MAX_JOB_ATTEMPTS \<and> jr_available_at r \<le> t)"

lemma claimable_mono: "claimable r t \<Longrightarrow> t \<le> t' \<Longrightarrow> claimable r t'"
  by (cases r) auto

lemma ready_mono: "ready good n s t \<Longrightarrow> k \<le> n \<Longrightarrow> ready good k s t"
  unfolding ready_def by (meson order_trans)

lemma ready_now:
  assumes "healthy deps good" and "ready good n s t" and "dd_now deps (snd s) = (w, t')"
  shows "t \<le> t' \<and> ready good n (fst s, w) t'"
proof -
  obtain m U where m: "n \<le> m" "good m (snd s) U t" "jr_id ` set (fst s) \<subseteq> U" "jobs_wf (fst s)"
    using assms(2) by (auto simp: ready_def)
  have "t \<le> t' \<and> good m w U t'" by (rule healthyD(1) [OF assms(1) m(2) assms(3)])
  then show ?thesis using m by (auto simp: ready_def)
qed

lemma ready_coordinators:
  assumes "healthy deps good" and "ready good n s t"
  shows "\<exists>w a. dd_report deps (snd s) d = (w, Completed a) \<and> ready good n (fst s, w) t"
    and "\<exists>w a. dd_retention deps (snd s) x = (w, Completed a) \<and> ready good n (fst s, w) t"
proof -
  obtain m U where m: "n \<le> m" "good m (snd s) U t" "jr_id ` set (fst s) \<subseteq> U" "jobs_wf (fst s)"
    using assms(2) by (auto simp: ready_def)
  obtain w r where r: "dd_report deps (snd s) d = (w, r)" by (rule prod.exhaust)
  obtain v q where q: "dd_retention deps (snd s) x = (v, q)" by (rule prod.exhaust)
  note h = healthyD(2) [OF assms(1) m(2) r] healthyD(3) [OF assms(1) m(2) q]
  show "\<exists>w a. dd_report deps (snd s) d = (w, Completed a) \<and> ready good n (fst s, w) t" using h(1) r m by (auto simp: ready_def)
  show "\<exists>w a. dd_retention deps (snd s) x = (w, Completed a) \<and> ready good n (fst s, w) t" using h(2) q m by (auto simp: ready_def)
qed

lemma claim_locked_claimable:
  assumes "claimable (Some job) t" and "job_wf job" and "claim_locked job t lease = (job', c)"
  shows "jc_disposition c \<in> {Claim_RUN, Claim_SUCCEEDED}"
  using assms(3)
  by (cases rule: claim_locked_cases [of job t lease])
     (use assms(1,2) in \<open>auto simp: job_claim_of_def job_busy_def final_job_def job_wf_def MAX_JOB_ATTEMPTS_def\<close>)

lemma ready_claim:
  assumes "healthy deps good" and "ready good (Suc n) s t" and "claimable (job_at (fst s) (Daily_Job_Key kind d)) t"
  shows "\<exists>s' c. claim_at deps s kind d t = Inr (s', c) \<and> ready good n s' t \<and> jc_disposition c \<in> {Claim_RUN, Claim_SUCCEEDED}"
proof -
  let ?key = "Daily_Job_Key kind d"
  obtain m U where m: "Suc n \<le> m" "good m (snd s) U t" "jr_id ` set (fst s) \<subseteq> U" and wf: "jobs_wf (fst s)"
    using assms(2) by (auto simp: ready_def)
  then obtain k where k: "m = Suc k" "n \<le> k" by (cases m) simp_all
  obtain w i lease where f: "dd_fresh deps (snd s) = (w, i, lease)" by (rule prod_cases3)
  have fresh: "i \<notin> U \<and> good k w (insert i U) t"
    by (rule healthyD(4) [OF assms(1) m(2) [unfolded k(1)] f])
  let ?job = "queued_job i kind d t"
  have q: "jr_id ?job = i" "jr_idempotency_key ?job = ?key" "jr_status ?job = Job_QUEUED" by (simp_all add: queued_job_def)
  have "job_of_id (fst s) i = None" using fresh m(3) by (auto simp: job_of_id_def find_None_iff)
  then have "insert_job ?job (fst s) = Inr (fst s) \<or> insert_job ?job (fst s) = Inr (fst s @ [?job])"
    by (simp add: insert_job_def q)
  moreover have "jr_id ` set (fst s) \<subseteq> insert i U" "jr_id ` set (fst s @ [?job]) \<subseteq> insert i U"
    using m(3) q(1) by auto
  ultimately obtain mid where mid: "insert_job ?job (fst s) = Inr mid" "jr_id ` set mid \<subseteq> insert i U" by blast
  obtain job where job: "job_at mid ?key = Some job"
    using mid(1) q(2) by (auto simp: insert_job_def job_at_def find_append split: if_splits option.splits)
  obtain job' c where c: "claim_locked job t lease = (job', c)" by (rule prod.exhaust)
  have claim: "claim_job (fst s) kind d t (i, lease) = Inr (update_row job' mid, c)"
    using mid(1) job c by (simp add: claim_job_def)
  obtain e e' where eff: "jobs_wf (update_row job' mid)" "claim_locked e t lease = (e', c)"
    "job_at (fst s) ?key = Some e \<or> (job_at (fst s) ?key = None \<and> jr_status e = Job_QUEUED)" "job_wf e"
    using claim_job_effect [OF wf claim] unfolding snd_conv by blast
  have "set (map jr_id (update_row job' mid)) = set (map jr_id mid)" by (simp only: update_row_ids)
  then have ids: "jr_id ` set (update_row job' mid) \<subseteq> insert i U" using mid(2) unfolding set_map by (simp only:)
  have "claimable (Some e) t" using assms(3) eff(3) by auto
  from claim_locked_claimable [OF this eff(4,2)] show ?thesis
    using claim f eff(1) ids fresh k(2) by (auto simp: claim_at_def ready_def)
qed

lemma ready_finish:
  assumes "healthy deps good" and "ready good n s t" and "job_at (fst s) key = Some r" and "holds_lease c r" and "completes d"
  shows "\<exists>s' t'. finish_claim deps s c d = Inr s' \<and> ready good n s' t' \<and> t \<le> t'"
proof -
  obtain w t' where now: "dd_now deps (snd s) = (w, t')" by (rule prod.exhaust)
  note n = ready_now [OF assms(1,2) now]
  obtain rows' where r: "finish_job (fst s) c t' d = Inr rows'" "jobs_wf rows'"
    using finish_job_effect [of "fst s", OF _ assms(3-5)] assms(2) by (metis ready_def)
  have "map jr_id rows' = map jr_id (fst s)" using r(1) by (auto simp: finish_job_def split: if_splits)
  then have "jr_id ` set rows' = jr_id ` set (fst s)" by (metis set_map)
  then have "ready good n (rows', w) t'" using n r(2) by (auto simp: ready_def)
  then show ?thesis using r(1) now n by (auto simp: finish_claim_def)
qed

text \<open>One job of one date.\<close>

lemma report_outcome_healthy:
  assumes h: "healthy deps good" and r: "ready good (Suc n) s t"
    and c: "d < first \<or> claimable (job_at (fst s) (Daily_Job_Key Job_DAILY_REPORT d)) t"
  shows "\<exists>s' t'. report_outcome deps s d first True = Inr (s', job_outcome Outcome_SUCCEEDED None)
    \<and> ready good n s' t' \<and> t \<le> t'"
proof -
  have correction: "\<exists>s'. correction_outcome deps s d = Inr (s', job_outcome Outcome_SUCCEEDED None) \<and> ready good m s' t"
    if "ready good m s t" for s m t
    using ready_coordinators(1) [OF h that, of d] by (auto simp: correction_outcome_def)
  show ?thesis
  proof (cases "d < first")
    case True
    then show ?thesis using correction [OF ready_mono [OF r, of n]] by (auto simp: report_outcome_def)
  next
    case False
    obtain w t1 where now: "dd_now deps (snd s) = (w, t1)" by (rule prod.exhaust)
    note r1 = ready_now [OF h r now]
    have "claimable (job_at (fst (fst s, w)) (Daily_Job_Key Job_DAILY_REPORT d)) t1" using c False r1 claimable_mono by auto
    from ready_claim [OF h r1 [THEN conjunct2] this] obtain s1 c where
      s1: "claim_at deps (fst s, w) Job_DAILY_REPORT d t1 = Inr (s1, c)" "ready good n s1 t1"
        "jc_disposition c \<in> {Claim_RUN, Claim_SUCCEEDED}" by blast
    have wf: "jobs_wf (fst (fst s, w))" using r by (simp add: ready_def)
    show ?thesis
    proof (cases "jc_disposition c = Claim_RUN")
      case run: True
      obtain row where row: "job_at (fst s1) (Daily_Job_Key Job_DAILY_REPORT d) = Some row" "holds_lease c row"
        using claim_at_effect(3) [OF wf s1(1) run] by blast
      obtain v a where v: "dd_report deps (snd s1) d = (v, Completed a)" "ready good n (fst s1, v) t1"
        using ready_coordinators(1) [OF h s1(2)] by blast
      have "completes \<lparr>jn_status = Job_SUCCEEDED, jn_report_outcome = Some (appended_value a),
          jn_retention_outcome = None, jn_error_code = None\<rparr>" by (simp add: completes_def)
      note fin = ready_finish [OF h v(2) _ row(2) this, unfolded fst_conv, OF row(1)]
      then obtain s2 t2 where
        "finish_claim deps (fst s1, v) c \<lparr>jn_status = Job_SUCCEEDED, jn_report_outcome = Some (appended_value a),
          jn_retention_outcome = None, jn_error_code = None\<rparr> = Inr s2" "ready good n s2 t2" "t1 \<le> t2" by blast
      then show ?thesis using False now s1(1) run v(1) r1 by (auto simp: report_outcome_def recovered_claim_def run_report_def)
    next
      case refused: False
      then have "jc_disposition c = Claim_SUCCEEDED" using s1(3) by simp
      then show ?thesis using False now s1(1) correction [OF s1(2)] r1 by (auto simp: report_outcome_def)
    qed
  qed
qed

lemma retention_outcome_healthy:
  assumes h: "healthy deps good" and r: "ready good (Suc n) s t"
    and c: "d < first \<or> claimable (job_at (fst s) (Daily_Job_Key Job_RETENTION d)) t"
  shows "\<exists>s' t' out. retention_outcome deps s d first True = Inr (s', out) \<and> allows_successor out
    \<and> ready good n s' t' \<and> t \<le> t'"
proof (cases "d < first")
  case True
  then show ?thesis using ready_mono [OF r, of n] by (auto simp: retention_outcome_def)
next
  case False
  obtain w t1 where now: "dd_now deps (snd s) = (w, t1)" by (rule prod.exhaust)
  note r1 = ready_now [OF h r now]
  have "claimable (job_at (fst (fst s, w)) (Daily_Job_Key Job_RETENTION d)) t1" using c False r1 claimable_mono by auto
  from ready_claim [OF h r1 [THEN conjunct2] this] obtain s1 c where
    s1: "claim_at deps (fst s, w) Job_RETENTION d t1 = Inr (s1, c)" "ready good n s1 t1"
      "jc_disposition c \<in> {Claim_RUN, Claim_SUCCEEDED}" by blast
  have wf: "jobs_wf (fst (fst s, w))" using r by (simp add: ready_def)
  show ?thesis
  proof (cases "jc_disposition c = Claim_RUN")
    case run: True
    obtain row where row: "job_at (fst s1) (Daily_Job_Key Job_RETENTION d) = Some row" "holds_lease c row"
      using claim_at_effect(3) [OF wf s1(1) run] by blast
    obtain v a where v: "dd_retention deps (snd s1) t1 = (v, Completed a)" "ready good n (fst s1, v) t1"
      using ready_coordinators(2) [OF h s1(2)] by blast
    have "completes \<lparr>jn_status = Job_SUCCEEDED, jn_report_outcome = None,
        jn_retention_outcome = Some (retained_value a), jn_error_code = None\<rparr>" by (simp add: completes_def)
    note fin = ready_finish [OF h v(2) _ row(2) this, unfolded fst_conv, OF row(1)]
    then obtain s2 t2 where
      "finish_claim deps (fst s1, v) c \<lparr>jn_status = Job_SUCCEEDED, jn_report_outcome = None,
        jn_retention_outcome = Some (retained_value a), jn_error_code = None\<rparr> = Inr s2" "ready good n s2 t2" "t1 \<le> t2" by blast
    then show ?thesis using False now s1(1) run v(1) r1 by (auto simp: retention_outcome_def recovered_claim_def run_retention_def)
  next
    case refused: False
    then have "jc_disposition c = Claim_SUCCEEDED" using s1(3) by simp
    then show ?thesis using False now s1(1,2) r1 by (auto simp: retention_outcome_def recovered_claim_def)
  qed
qed

text \<open>All dates of the loop.\<close>

definition all_claimable :: "job_kind \<Rightarrow> seoul_date \<Rightarrow> job_row list \<Rightarrow> instant \<Rightarrow> seoul_date list \<Rightarrow> bool" where
  "all_claimable kind first rows t dates \<longleftrightarrow>
     (\<forall>d \<in> set dates. d < first \<or> claimable (job_at rows (Daily_Job_Key kind d)) t)"

lemma all_claimable_Cons:
  assumes "all_claimable kind first rows t (e # dates)" and "\<forall>d \<in> set dates. e < d" and "t \<le> t'"
    and "\<And>d. d \<noteq> e \<Longrightarrow> job_at rows' (Daily_Job_Key kind d) = job_at rows (Daily_Job_Key kind d)"
  shows "all_claimable kind first rows' t' dates"
  unfolding all_claimable_def
proof
  fix d assume d: "d \<in> set dates"
  then have "job_at rows' (Daily_Job_Key kind d) = job_at rows (Daily_Job_Key kind d)" using assms(2,4) by auto
  then show "d < first \<or> claimable (job_at rows' (Daily_Job_Key kind d)) t'"
    using assms(1,3) d claimable_mono by (auto simp: all_claimable_def)
qed

lemma catch_up_healthy:
  assumes h: "healthy deps good" and "ready good (2 * length dates) s t" and "sorted_wrt (<) dates"
    and "all_claimable Job_DAILY_REPORT rn (fst s) t dates" and "all_claimable Job_RETENTION tn (fst s) t dates"
  shows "\<exists>s' t' outs. catch_up deps rn tn True True s dates = Inr (s', outs) \<and> ready good 0 s' t' \<and> t \<le> t'
    \<and> (\<forall>out \<in> set outs. do_report out = Outcome_SUCCEEDED \<and> do_retention out \<in> {Outcome_SUCCEEDED, Outcome_SKIPPED})
    \<and> (\<forall>d \<in> set dates. (rn \<le> d \<longrightarrow> succeeded (fst s') Job_DAILY_REPORT d) \<and> (tn \<le> d \<longrightarrow> succeeded (fst s') Job_RETENTION d))"
  using assms(2-)
proof (induction dates arbitrary: s t)
  case Nil
  then show ?case by auto
next
  case (Cons d ds)
  have wf: "jobs_wf (fst s)" using Cons.prems(1) by (simp add: ready_def)
  have r: "ready good (Suc (Suc (2 * length ds))) s t" using Cons.prems(1) by simp
  have "d < rn \<or> claimable (job_at (fst s) (Daily_Job_Key Job_DAILY_REPORT d)) t"
    using Cons.prems(3) by (simp add: all_claimable_def)
  from report_outcome_healthy [OF h r this] obtain s1 t1 where
    rep: "report_outcome deps s d rn True = Inr (s1, job_outcome Outcome_SUCCEEDED None)"
    and r1: "ready good (Suc (2 * length ds)) s1 t1" "t \<le> t1" by blast
  note e1 = report_outcome_effect [OF wf rep]
  have same1: "job_at (fst s1) (Daily_Job_Key Job_RETENTION e) = job_at (fst s) (Daily_Job_Key Job_RETENTION e)" for e
    using e1 by (simp add: kept_except_def)
  have "d < tn \<or> claimable (job_at (fst s1) (Daily_Job_Key Job_RETENTION d)) t1"
    using Cons.prems(4) r1(2) claimable_mono unfolding same1 by (auto simp: all_claimable_def)
  from retention_outcome_healthy [OF h r1(1) this] obtain s2 t2 out where
    ret: "retention_outcome deps s1 d tn True = Inr (s2, out)" "allows_successor out"
    and r2: "ready good (2 * length ds) s2 t2" "t1 \<le> t2" by blast
  note e2 = retention_outcome_effect [OF e1 [THEN conjunct1] ret(1)]
  have same2: "job_at (fst s2) (Daily_Job_Key Job_DAILY_REPORT e) = job_at (fst s1) (Daily_Job_Key Job_DAILY_REPORT e)" for e
    using e2 by (simp add: kept_except_def)
  have kept: "job_at (fst s2) (Daily_Job_Key Job_DAILY_REPORT e) = job_at (fst s) (Daily_Job_Key Job_DAILY_REPORT e)"
    "job_at (fst s2) (Daily_Job_Key Job_RETENTION e) = job_at (fst s) (Daily_Job_Key Job_RETENTION e)" if "e \<noteq> d" for e
    using that e1 e2 same2 same1 by (simp_all add: kept_except_def)
  have sorted: "\<forall>e \<in> set ds. d < e" "sorted_wrt (<) ds" using Cons.prems(2) by simp_all
  have t2: "t \<le> t2" using r1(2) r2(2) by simp
  obtain s3 t3 outs where l: "catch_up deps rn tn True True s2 ds = Inr (s3, outs)" "ready good 0 s3 t3" "t2 \<le> t3"
    "\<forall>out \<in> set outs. do_report out = Outcome_SUCCEEDED \<and> do_retention out \<in> {Outcome_SUCCEEDED, Outcome_SKIPPED}"
    "\<forall>d \<in> set ds. (rn \<le> d \<longrightarrow> succeeded (fst s3) Job_DAILY_REPORT d) \<and> (tn \<le> d \<longrightarrow> succeeded (fst s3) Job_RETENTION d)"
    using Cons.IH [OF r2(1) sorted(2) all_claimable_Cons [OF Cons.prems(3) sorted(1) t2 kept(1)]
        all_claimable_Cons [OF Cons.prems(4) sorted(1) t2 kept(2)]] by blast
  note keep = catch_up_effect [OF e2 [THEN conjunct1] l(1) sorted(2)]
  have "rn \<le> d \<longrightarrow> succeeded (fst s2) Job_DAILY_REPORT d" "tn \<le> d \<longrightarrow> succeeded (fst s2) Job_RETENTION d"
    using e1 e2 ret(2) unfolding same2 by (simp_all add: kind_effect_def not_less)
  then have d: "rn \<le> d \<longrightarrow> succeeded (fst s3) Job_DAILY_REPORT d" "tn \<le> d \<longrightarrow> succeeded (fst s3) Job_RETENTION d"
    using keep unfolding in_order_def by blast+
  have "catch_up deps rn tn True True s (d # ds) = Inr (s3, daily_outcome_of d (job_outcome Outcome_SUCCEEDED None) out
      (unique_codes (error_codes (job_outcome Outcome_SUCCEEDED None) out)) # outs)"
    using rep ret l(1) by simp
  moreover have "djo_status out \<in> {Outcome_SUCCEEDED, Outcome_SKIPPED}" using ret(2) by (simp add: allows_successor_def)
  ultimately show ?case using l(2-5) d t2
    by (intro exI conjI) (assumption | auto simp: daily_outcome_of_def job_outcome_def)+
qed

lemma healthy_invocation:
  assumes "healthy deps good" and "ready good 15 s t"
    and "dd_now deps (snd s) = (w, started)" and "latest = latest_complete_date started"
    and "due_reconciliations (fst s) (dd_locked deps w) started = []"
    and "dates = catch_up_dates (first_target_date (fst s) latest) latest"
    and "rn = next_date (latest_succeeded_date (fst s) Job_DAILY_REPORT latest) latest"
    and "tn = next_date (latest_succeeded_date (fst s) Job_RETENTION latest) latest"
    and "all_claimable Job_DAILY_REPORT rn (fst s) t dates" and "all_claimable Job_RETENTION tn (fst s) t dates"
  shows "\<exists>s' resp. run_daily deps s = Inr (s', resp) \<and> map do_target_date_seoul (dcr_outcomes resp) = dates
    \<and> (\<forall>out \<in> set (dcr_outcomes resp). do_report out = Outcome_SUCCEEDED
         \<and> do_retention out \<in> {Outcome_SUCCEEDED, Outcome_SKIPPED})
    \<and> (\<forall>d \<in> set dates. (rn \<le> d \<longrightarrow> succeeded (fst s') Job_DAILY_REPORT d) \<and> (tn \<le> d \<longrightarrow> succeeded (fst s') Job_RETENTION d))"
proof -
  note r1 = ready_now [OF assms(1,2,3)]
  obtain w2 i lease where f: "dd_fresh deps w = (w2, i, lease)" by (rule prod_cases3)
  obtain m U where m: "15 \<le> m" "good m w U started" "jr_id ` set (fst s) \<subseteq> U" and wf: "jobs_wf (fst s)"
    using r1 by (auto simp: ready_def)
  obtain k where k: "m = Suc k" using m(1) by (cases m) simp_all
  have "good k w2 (insert i U) started" using healthyD(4) [OF assms(1) m(2) [unfolded k] f] by simp
  then have "ready good 14 (fst s, w2) started" using m k wf by (auto simp: ready_def)
  moreover have len: "length dates \<le> 7" using catch_up_dates_length assms(6) by simp
  then have "2 * length dates \<le> 14" by simp
  ultimately have r: "ready good (2 * length dates) (fst s, w2) started" using ready_mono by blast
  have sorted: "sorted_wrt (<) dates" using catch_up_dates_sorted assms(6) by simp
  have c: "all_claimable Job_DAILY_REPORT rn (fst (fst s, w2)) started dates" "all_claimable Job_RETENTION tn (fst (fst s, w2)) started dates"
    using assms(9,10) r1 claimable_mono unfolding all_claimable_def fst_conv by blast+
  obtain s' t' outs where l: "catch_up deps rn tn True True (fst s, w2) dates = Inr (s', outs)" "ready good 0 s' t'" "started \<le> t'"
    "\<forall>out \<in> set outs. do_report out = Outcome_SUCCEEDED \<and> do_retention out \<in> {Outcome_SUCCEEDED, Outcome_SKIPPED}"
    "\<forall>d \<in> set dates. (rn \<le> d \<longrightarrow> succeeded (fst s') Job_DAILY_REPORT d) \<and> (tn \<le> d \<longrightarrow> succeeded (fst s') Job_RETENTION d)"
    using catch_up_healthy [OF assms(1) r sorted c] by blast
  have dates: "map do_target_date_seoul outs = dates" using catch_up_effect [OF _ l(1) sorted] wf by simp
  obtain v finished where v: "dd_now deps (snd s') = (v, finished)" by (rule prod.exhaust)
  have "started \<le> finished" using ready_now [OF assms(1) l(2) v] l(3) by simp
  moreover have "length outs \<le> 7" using len dates by (metis length_map)
  ultimately obtain s'' resp where resp: "respond deps started s' outs = Inr (s'', resp)"
    using respond_facts(2) [of outs deps started s'] v sorted dates by (cases "respond deps started s' outs") auto
  have "run_daily deps s = Inr (s'', resp)"
    using assms(3-8) f l(1) resp by (simp add: run_daily_def claim_reconciliation_def run_catch_up_def Let_def)
  moreover note respond_facts(1) [OF resp]
  ultimately show ?thesis using l(4,5) dates by (intro exI conjI) (assumption | simp)+
qed

text \<open>(C34) A healthy day completes: when no administrator's request is due, every job row of the dates to process
  is new, queued, retryable or done, drawn ids are fresh, the clock is monotone and the coordinators
  complete, then an invocation returns, every date it covers is reported as succeeded, and each pending
  report and retention date among them has succeeded in the job table.\<close>

theorem healthy_invocation_completes:
  assumes "healthy deps good" and "ready good 15 s t"
    and "dd_now deps (snd s) = (w, started)" and "latest = latest_complete_date started"
    and "due_reconciliations (fst s) (dd_locked deps w) started = []"
    and "dates = catch_up_dates (first_target_date (fst s) latest) latest"
    and "rn = next_date (latest_succeeded_date (fst s) Job_DAILY_REPORT latest) latest"
    and "tn = next_date (latest_succeeded_date (fst s) Job_RETENTION latest) latest"
    and "all_claimable Job_DAILY_REPORT rn (fst s) t dates" and "all_claimable Job_RETENTION tn (fst s) t dates"
  shows "\<exists>s' resp. run_daily deps s = Inr (s', resp) \<and> map do_target_date_seoul (dcr_outcomes resp) = dates
    \<and> (\<forall>out \<in> set (dcr_outcomes resp). do_report out = Outcome_SUCCEEDED
         \<and> do_retention out \<in> {Outcome_SUCCEEDED, Outcome_SKIPPED})
    \<and> (\<forall>d \<in> set dates. (rn \<le> d \<longrightarrow> succeeded (fst s') Job_DAILY_REPORT d) \<and> (tn \<le> d \<longrightarrow> succeeded (fst s') Job_RETENTION d))"
  using assms by (rule healthy_invocation)

section \<open>An example\<close>

text \<open>A world with a fixed clock, in which every coordinator completes.\<close>

definition example_world :: "('w \<Rightarrow> 'w \<times> uuid \<times> string) \<Rightarrow> 'w daily_deps" where
  "example_world fresh = \<lparr>dd_now = \<lambda>w. (w, days 9), dd_fresh = fresh, dd_locked = \<lambda>w. {},
     dd_report = \<lambda>w d. (w, Completed \<lparr>ap_created = True, ap_report_id = 1, ap_version_id = 2, ap_revision = 1\<rparr>),
     dd_retention = \<lambda>w t. (w, Completed \<lparr>rp_cleaned_source_count = 0, rp_expired_manifest_count = 0,
       rp_expired_tombstone_count = 0\<rparr>)\<rparr>"

definition example_deps :: "unit daily_deps" where
  "example_deps = example_world (\<lambda>w. (w, 9, ''a''))"

definition example_done :: "uuid \<Rightarrow> job_kind \<Rightarrow> seoul_date \<Rightarrow> job_status \<Rightarrow> job_row" where
  "example_done i kind d status = (queued_job i kind d 0)\<lparr>jr_status := status\<rparr>"

text \<open>Retention succeeded on day 0 and failed for good on day 1; the last report is that of day 7.\<close>

definition example_stuck :: "job_row list" where
  "example_stuck = [example_done 1 Job_RETENTION 0 Job_SUCCEEDED, example_done 2 Job_RETENTION 1 Job_FAILED_TERMINAL,
     example_done 3 Job_DAILY_REPORT 7 Job_SUCCEEDED]"

lemma example_done_fields [simp]:
  "jr_id (example_done i k d st) = i" "jr_kind (example_done i k d st) = k"
  "jr_idempotency_key (example_done i k d st) = Daily_Job_Key k d" "jr_status (example_done i k d st) = st"
  "jr_target_date_seoul (example_done i k d st) = Some d" "jr_attempt (example_done i k d st) = 1"
  "jr_lease_hash (example_done i k d st) = None"
  by (simp_all add: example_done_def queued_job_def)

lemma example_latest: "latest_complete_date (days 9) = 8"
  by (simp add: latest_complete_date_def SEOUL_def duration_defs)

lemma example_stuck_wf: "jobs_wf example_stuck"
  by (simp add: example_stuck_def jobs_wf_def job_wf_def MAX_JOB_ATTEMPTS_def)

lemma example_stuck_dates:
  "latest_succeeded_date example_stuck Job_RETENTION 8 = Some 0" "latest_succeeded_date example_stuck Job_DAILY_REPORT 8 = Some 7"
  "job_at example_stuck (Daily_Job_Key Job_RETENTION 1) = Some (example_done 2 Job_RETENTION 1 Job_FAILED_TERMINAL)"
  "due_reconciliations example_stuck {} t = []"
  by (simp_all add: example_stuck_def latest_succeeded_date_def job_at_def due_reconciliations_def)

lemma example_stuck_catch_up: "catch_up_dates 1 8 = [1, 2, 3, 4, 5, 6, 7]"
  by (simp add: catch_up_dates_def MAX_CATCH_UP_DAYS_def upt_rec)

lemma example_stuck_correction: "d < 8 \<Longrightarrow> report_outcome example_deps (rows, w) d 8 can
    = Inr ((rows, w), job_outcome Outcome_SUCCEEDED None)"
  by (simp add: report_outcome_def correction_outcome_def example_deps_def example_world_def)

lemma example_stuck_retention:
  "retention_outcome example_deps (example_stuck, w) 1 1 True
     = Inr ((example_stuck, w), job_outcome Outcome_FAILED (Some ''retention_job_terminal''))"
  "1 < d \<Longrightarrow> retention_outcome example_deps (example_stuck, w) d 1 False
     = Inr ((example_stuck, w), job_outcome Outcome_BLOCKED (Some ''retention_predecessor_failed''))"
  by (simp_all add: retention_outcome_def example_deps_def example_world_def claim_at_def claim_job_def insert_job_def queued_job_def
      example_stuck_dates claim_locked_def update_row_same example_stuck_wf [unfolded jobs_wf_def] recovered_claim_def
      job_claim_of_def)
     (simp add: update_row_def example_stuck_def)

lemma example_stuck_run:
  "\<exists>outs. catch_up example_deps 8 1 True True (example_stuck, ()) [1, 2, 3, 4, 5, 6, 7] = Inr ((example_stuck, ()), outs)
     \<and> map do_target_date_seoul outs = [1, 2, 3, 4, 5, 6, 7]"
  by (simp add: example_stuck_correction example_stuck_retention daily_outcome_of_def)


text \<open>A world that draws the ids 1, 2, 3, ...\<close>

definition example_counter :: "nat daily_deps" where
  "example_counter = example_world (\<lambda>w. (Suc w, word_of_nat (Suc w), ''a''))"

definition example_good :: "nat \<Rightarrow> nat \<Rightarrow> uuid set \<Rightarrow> instant \<Rightarrow> bool" where
  "example_good n w U t \<longleftrightarrow> w + n \<le> 15 \<and> U \<subseteq> word_of_nat ` {..w} \<and> t \<le> days 9"

lemma small_ids: "i \<le> 15 \<Longrightarrow> j \<le> 15 \<Longrightarrow> (word_of_nat i :: uuid) = word_of_nat j \<Longrightarrow> i = j"
  by (drule arg_cong [of _ _ unat]) (simp add: unat_of_nat take_bit_nat_eq_self)

lemma example_healthy: "healthy example_counter example_good"
proof -
  have "example_good n (Suc w) (insert (word_of_nat (Suc w)) U) t \<and> word_of_nat (Suc w) \<notin> U"
    if "example_good (Suc n) w U t" for n w U t
  proof -
    have "(word_of_nat (Suc w) :: uuid) \<noteq> word_of_nat i" if "i \<le> w" for i
      using small_ids [of "Suc w" i] that \<open>example_good (Suc n) w U t\<close> by (auto simp: example_good_def)
    then show ?thesis using that unfolding example_good_def by (auto simp del: of_nat_Suc)
  qed
  moreover have "example_good n w U (days 9)" if "example_good n w U t" for n w U t
    using that by (simp add: example_good_def)
  ultimately show ?thesis by (auto simp: healthy_def example_counter_def example_world_def example_good_def simp del: of_nat_Suc)
qed

lemma example_counter_premises:
  "ready example_good 15 ([], 0) 0" "dd_now example_counter (snd ([] :: job_row list, 0 :: nat)) = (0, days 9)"
  "8 = latest_complete_date (days 9)"
  "due_reconciliations (fst ([] :: job_row list, 0 :: nat)) (dd_locked example_counter 0) (days 9) = []"
  "[8] = catch_up_dates (first_target_date (fst ([] :: job_row list, 0 :: nat)) 8) 8"
  "8 = next_date (latest_succeeded_date (fst ([] :: job_row list, 0 :: nat)) k 8) 8"
  "all_claimable k 8 (fst ([], 0 :: nat)) 0 [8]"
proof -
  have none: "latest_succeeded_date [] k 8 = None" for k by (simp add: latest_succeeded_date_def)
  show "ready example_good 15 ([], 0) 0"
    by (simp add: ready_def jobs_wf_def example_good_def duration_defs) (rule exI [of _ "15"], simp, rule exI [of _ "{}"], simp)
  show "dd_now example_counter (snd ([] :: job_row list, 0 :: nat)) = (0, days 9)"
    by (simp add: example_counter_def example_world_def)
  show "[8] = catch_up_dates (first_target_date (fst ([] :: job_row list, 0 :: nat)) 8) 8"
    by (simp add: first_target_date_def none next_date_def catch_up_dates_def MAX_CATCH_UP_DAYS_def)
  show "8 = next_date (latest_succeeded_date (fst ([] :: job_row list, 0 :: nat)) k 8) 8" by (simp add: none next_date_def)
qed (simp_all add: example_latest due_reconciliations_def all_claimable_def job_at_def)

theorem healthy_invocation_completes_witness:
  "\<exists>s resp. run_daily example_counter ([], 0) = Inr (s, resp) \<and> succeeded (fst s) Job_DAILY_REPORT 8
     \<and> succeeded (fst s) Job_RETENTION 8"
  using healthy_invocation_completes [OF example_healthy example_counter_premises(1-5) example_counter_premises(6,6,7,7)]
  by (elim exE conjE) (intro exI conjI, assumption, simp_all)

lemma example_counter_run: "\<exists>s resp. run_daily example_counter ([], 0) = Inr (s, resp)"
  using healthy_invocation [OF example_healthy example_counter_premises(1-5) example_counter_premises(6,6,7,7)] by blast

theorem daily_history_gapless_witness:
  "\<exists>s resp. run_daily example_counter ([], 0) = Inr (s, resp) \<and> jobs_wf (fst s) \<and> gapless Job_DAILY_REPORT (fst s)"
proof -
  obtain s resp where run: "run_daily example_counter ([], 0) = Inr (s, resp)" using example_counter_run by blast
  have none: "\<not> succeeded [] k d" for k d by (simp add: job_at_def)
  have empty: "jobs_wf (fst ([] :: job_row list, 0 :: nat))" "gapless Job_DAILY_REPORT (fst ([] :: job_row list, 0 :: nat))"
    by (simp add: jobs_wf_def, unfold fst_conv gapless_def, use none in blast)
  have "\<forall>d. succeeded (fst ([] :: job_row list, 0 :: nat)) Job_DAILY_REPORT d
      \<longrightarrow> d \<le> latest_complete_date (snd (dd_now example_counter (snd ([] :: job_row list, 0 :: nat))))"
    unfolding fst_conv using none by blast
  from daily_history_gapless [OF empty(1) run job_kind.distinct(3) empty(2) this]
  have "jobs_wf (fst s) \<and> gapless Job_DAILY_REPORT (fst s)" by blast
  with run show ?thesis by blast
qed

text \<open>A coordinator that raises outside the handled failures aborts the invocation.\<close>

definition example_raising :: "unit daily_deps" where
  "example_raising = example_deps\<lparr>dd_report := \<lambda>w d. (w, Other_Exception)\<rparr>"

theorem daily_run_errors_witness:
  "run_daily example_raising ([], ()) = Inl Unhandled_Exception
     \<and> Unhandled_Exception \<in> {Duplicate_Job_Id, Unhandled_Exception, Invalid_Daily_Bounds}"
proof -
  have dates: "catch_up_dates 8 8 = [8]" by (simp add: catch_up_dates_def MAX_CATCH_UP_DAYS_def)
  have now: "dd_now example_raising () = ((), days 9)" "dd_fresh example_raising () = ((), 9, ''a'')"
    "dd_locked example_raising () = {}" "dd_report example_raising w d = (w, Other_Exception)" for w d
    by (simp_all add: example_raising_def example_deps_def example_world_def)
  have "\<exists>s' c. claim_at example_raising ([], ()) Job_DAILY_REPORT 8 (days 9) = Inr (s', c) \<and> jc_disposition c = Claim_RUN"
    by (simp add: claim_at_def now claim_job_def insert_job_def job_at_def job_of_id_def
        queued_job_def claim_locked_def job_busy_def MAX_JOB_ATTEMPTS_def)
  then obtain s' c where c: "claim_at example_raising ([], ()) Job_DAILY_REPORT 8 (days 9) = Inr (s', c)"
    "jc_disposition c = Claim_RUN" by blast
  have "report_outcome example_raising ([], ()) 8 8 True = Inl Unhandled_Exception"
    using c by (simp add: report_outcome_def now recovered_claim_def run_report_def)
  moreover have "latest_succeeded_date [] k 8 = None" for k by (simp add: latest_succeeded_date_def)
  ultimately have run: "run_daily example_raising ([], ()) = Inl Unhandled_Exception"
    by (simp add: run_daily_def now claim_reconciliation_def due_reconciliations_def example_latest run_catch_up_def
        first_target_date_def next_date_def dates Let_def)
  have "jobs_wf (fst ([] :: job_row list, ()))" by (simp add: jobs_wf_def)
  from daily_run_errors [OF this run] run show ?thesis by blast
qed

end
