(* ===== verification/Transaction.thy ===== *)
theory Transaction
  imports Prelude
begin

text \<open>
  Transactions that read and change a state and may raise: the shape of the \<open>async with
  repository.transaction()\<close> blocks. An action that raises has no final state, because the transaction is
  rolled back. The rules below follow one loop or one sequence of calls at a time.
\<close>

type_synonym ('s, 'e, 'a) action = "'s \<Rightarrow> 'e + 'a \<times> 's"

definition give :: "'a \<Rightarrow> ('s, 'e, 'a) action" where
  "give x s = Inr (x, s)"

definition raise :: "'e \<Rightarrow> ('s, 'e, 'a) action" where
  "raise e s = Inl e"

definition and_then :: "('s, 'e, 'a) action \<Rightarrow> ('a \<Rightarrow> ('s, 'e, 'b) action) \<Rightarrow> ('s, 'e, 'b) action" where
  "and_then m f s = (case m s of Inl e \<Rightarrow> Inl e | Inr (x, t) \<Rightarrow> f x t)"

definition raise_unless :: "bool \<Rightarrow> 'e \<Rightarrow> ('s, 'e, unit) action" where
  "raise_unless c e s = (if c then Inr ((), s) else Inl e)"

definition look :: "('s \<Rightarrow> 'a) \<Rightarrow> ('s, 'e, 'a) action" where
  "look f s = Inr (f s, s)"

definition change :: "('s \<Rightarrow> 's) \<Rightarrow> ('s, 'e, unit) action" where
  "change f s = Inr ((), f s)"

definition attempt :: "'e + 'a \<Rightarrow> ('s, 'e, 'a) action" where
  "attempt r s = (case r of Inl e \<Rightarrow> Inl e | Inr x \<Rightarrow> Inr (x, s))"

text \<open>\<open>for x in xs: await f(x)\<close>.\<close>

fun each :: "('a \<Rightarrow> ('s, 'e, unit) action) \<Rightarrow> 'a list \<Rightarrow> ('s, 'e, unit) action" where
  "each f [] = give ()"
| "each f (x # xs) = and_then (f x) (\<lambda>_. each f xs)"

section \<open>Inversion\<close>

lemma give_Inr [simp]: "give x s = Inr (y, t) \<longleftrightarrow> x = y \<and> s = t"
  by (simp add: give_def)

lemma raise_Inr [simp]: "raise e s = Inr r \<longleftrightarrow> False"
  by (simp add: raise_def)

lemma raise_Inl [simp]: "raise e s = Inl f \<longleftrightarrow> e = f"
  by (simp add: raise_def)

lemma raise_unless_Inr [simp]: "raise_unless c e s = Inr (y, t) \<longleftrightarrow> c \<and> s = t"
  by (auto simp: raise_unless_def)

lemma look_Inr [simp]: "look f s = Inr (y, t) \<longleftrightarrow> y = f s \<and> s = t"
  by (auto simp: look_def)

lemma change_Inr [simp]: "change f s = Inr (y, t) \<longleftrightarrow> t = f s"
  by (auto simp: change_def)

lemma attempt_Inr [simp]: "attempt r s = Inr (x, t) \<longleftrightarrow> r = Inr x \<and> t = s"
  by (auto simp: attempt_def split: sum.splits)

lemma and_then_Inr: "and_then m f s = Inr (y, u) \<longleftrightarrow> (\<exists>x t. m s = Inr (x, t) \<and> f x t = Inr (y, u))"
  by (auto simp: and_then_def split: sum.splits)

lemma and_thenE:
  assumes "and_then m f s = Inr (y, u)"
  obtains x t where "m s = Inr (x, t)" "f x t = Inr (y, u)"
  using assms by (auto simp: and_then_Inr)

lemma and_then_run: "m s = Inr (x, t) \<Longrightarrow> and_then m f s = f x t"
  by (simp add: and_then_def)

lemma and_then_raised: "m s = Inl e \<Longrightarrow> and_then m f s = Inl e"
  by (simp add: and_then_def)

lemmas action_steps = give_def raise_def raise_unless_def look_def change_def attempt_def and_then_def

section \<open>Loops\<close>

text \<open>An action keeps \<open>I\<close>, or leads from \<open>I\<close> to \<open>J\<close>, if it does so whenever it does not raise.\<close>

definition leads :: "('s \<Rightarrow> bool) \<Rightarrow> ('s, 'e, 'a) action \<Rightarrow> ('s \<Rightarrow> bool) \<Rightarrow> bool" where
  "leads I m J \<longleftrightarrow> (\<forall>s x t. I s \<longrightarrow> m s = Inr (x, t) \<longrightarrow> J t)"

abbreviation keeps :: "('s \<Rightarrow> bool) \<Rightarrow> ('s, 'e, 'a) action \<Rightarrow> bool" where
  "keeps I m \<equiv> leads I m I"

lemma leadsI: "(\<And>s x t. I s \<Longrightarrow> m s = Inr (x, t) \<Longrightarrow> J t) \<Longrightarrow> leads I m J"
  by (auto simp: leads_def)

lemma leadsD: "leads I m J \<Longrightarrow> I s \<Longrightarrow> m s = Inr (x, t) \<Longrightarrow> J t"
  by (auto simp: leads_def)

text \<open>A loop keeps what every turn keeps; if the turn on \<open>x\<close> establishes \<open>D x\<close> and the other turns keep it,
  it holds for all of them in the end.\<close>

lemma each_keeps: "\<forall>x \<in> set xs. keeps I (f x) \<Longrightarrow> keeps I (each f xs)"
proof (induction xs)
  case Nil
  then show ?case by (auto intro: leadsI)
next
  case (Cons x xs)
  then have "keeps I (f x)" "keeps I (each f xs)" by simp_all
  then show ?case by (intro leadsI) (auto elim!: and_thenE intro: leadsD)
qed

lemma each_establishes:
  assumes "\<forall>x \<in> set xs. leads I (f x) (\<lambda>t. I t \<and> D x t)"
    and "\<forall>x \<in> set xs. \<forall>y. keeps (\<lambda>s. I s \<and> D y s) (f x)"
  shows "leads I (each f xs) (\<lambda>t. I t \<and> (\<forall>x \<in> set xs. D x t))"
  using assms
proof (induction xs)
  case Nil
  then show ?case by (auto intro: leadsI)
next
  case (Cons x xs)
  then have IH: "leads I (each f xs) (\<lambda>t. I t \<and> (\<forall>x \<in> set xs. D x t))" by simp
  have first: "leads I (f x) (\<lambda>t. I t \<and> D x t)" using Cons.prems(1) by simp
  have rest: "keeps (\<lambda>s. I s \<and> D x s) (each f xs)" by (rule each_keeps) (use Cons.prems(2) in simp)
  show ?case
  proof (rule leadsI)
    fix s u t
    assume s: "I s" and run: "each f (x # xs) s = Inr (u, t)"
    then obtain y r where x: "f x s = Inr (y, r)" and xs: "each f xs r = Inr (u, t)"
      by (auto simp: and_then_Inr)
    have r: "I r \<and> D x r" using leadsD [OF first s x] .
    then have "I t \<and> (\<forall>x \<in> set xs. D x t)" using leadsD [OF IH _ xs] by blast
    then show "I t \<and> (\<forall>z \<in> set (x # xs). D z t)" using leadsD [OF rest r xs] by simp
  qed
qed

lemma each_total:
  assumes "I s xs"
    and "\<And>x zs s. I s (x # zs) \<Longrightarrow> \<exists>t. f x s = Inr ((), t) \<and> I t zs"
  shows "\<exists>t. each f xs s = Inr ((), t) \<and> I t []"
  using assms(1)
proof (induction xs arbitrary: s)
  case Nil
  then show ?case by (simp add: give_def)
next
  case (Cons x xs)
  obtain t where "f x s = Inr ((), t)" "I t xs" using assms(2) [OF Cons.prems] by blast
  with Cons.IH [of t] show ?case by (auto simp: and_then_run)
qed

section \<open>Rows kept in insertion order\<close>

text \<open>A Python dict whose values carry their own key, as the list of its values: assignment replaces the
  value in place or appends it, \<open>del\<close> removes it.\<close>

definition row_of :: "('a \<Rightarrow> 'k) \<Rightarrow> 'k \<Rightarrow> 'a list \<Rightarrow> 'a option" where
  "row_of key k xs = List.find (\<lambda>x. key x = k) xs"

definition put_row :: "('a \<Rightarrow> 'k) \<Rightarrow> 'a \<Rightarrow> 'a list \<Rightarrow> 'a list" where
  "put_row key x xs = (if key x \<in> key ` set xs then map (\<lambda>y. if key y = key x then x else y) xs else xs @ [x])"

definition drop_row :: "('a \<Rightarrow> 'k) \<Rightarrow> 'k \<Rightarrow> 'a list \<Rightarrow> 'a list" where
  "drop_row key k xs = filter (\<lambda>x. key x \<noteq> k) xs"

lemma row_of_Nil [simp]: "row_of key k [] = None"
  by (simp add: row_of_def)

lemma row_of_Cons [simp]: "row_of key k (x # xs) = (if key x = k then Some x else row_of key k xs)"
  by (simp add: row_of_def)

lemma row_of_SomeD: "row_of key k xs = Some x \<Longrightarrow> x \<in> set xs \<and> key x = k"
  unfolding row_of_def by (rule find_SomeD)

lemma row_of_None: "row_of key k xs = None \<longleftrightarrow> k \<notin> key ` set xs"
  by (induction xs) auto

lemma row_of_mem: "distinct (map key xs) \<Longrightarrow> x \<in> set xs \<Longrightarrow> row_of key (key x) xs = Some x"
  by (induction xs) auto

lemma row_of_iff: "distinct (map key xs) \<Longrightarrow> row_of key k xs = Some x \<longleftrightarrow> x \<in> set xs \<and> key x = k"
  using row_of_SomeD row_of_mem by metis

lemma row_of_map:
  "(\<And>x. key (f x) = key x) \<Longrightarrow> row_of key k (map f xs) = map_option f (row_of key k xs)"
  by (induction xs) auto

lemma row_of_append: "row_of key k (xs @ ys) = (case row_of key k xs of None \<Rightarrow> row_of key k ys | Some x \<Rightarrow> Some x)"
  by (induction xs) auto

lemma row_of_put: "row_of key k (put_row key x xs) = (if k = key x then Some x else row_of key k xs)"
proof -
  have "row_of key k (map (\<lambda>y. if key y = key x then x else y) xs)
    = (if k = key x \<and> key x \<in> key ` set xs then Some x else row_of key k xs)"
    by (induction xs) auto
  then show ?thesis by (auto simp: put_row_def row_of_append row_of_None [symmetric] split: option.splits)
qed

lemma keys_put: "key ` set (put_row key x xs) = insert (key x) (key ` set xs)"
  by (auto simp: put_row_def image_iff)

lemma distinct_put: "distinct (map key xs) \<Longrightarrow> distinct (map key (put_row key x xs))"
proof -
  have "map key (map (\<lambda>y. if key y = key x then x else y) xs) = map key xs" by (induction xs) auto
  then show "distinct (map key xs) \<Longrightarrow> distinct (map key (put_row key x xs))"
    unfolding put_row_def by (auto simp del: map_map)
qed

lemma set_put:
  "distinct (map key xs) \<Longrightarrow> set (put_row key x xs) = insert x {y \<in> set xs. key y \<noteq> key x}"
  by (auto simp: put_row_def image_iff)

lemma row_of_filter:
  "distinct (map key xs) \<Longrightarrow> row_of key k (filter p xs) = (case row_of key k xs of None \<Rightarrow> None | Some x \<Rightarrow> if p x then Some x else None)"
  by (induction xs) (auto simp: row_of_None [symmetric] split: option.splits dest: row_of_SomeD)

lemma row_of_drop: "row_of key k (drop_row key d xs) = (if k = d then None else row_of key k xs)"
  unfolding drop_row_def by (induction xs) auto

lemma set_drop: "set (drop_row key d xs) = {x \<in> set xs. key x \<noteq> d}"
  by (auto simp: drop_row_def)

lemma keys_drop: "key ` set (drop_row key d xs) = key ` set xs - {d}"
  by (auto simp: drop_row_def)

lemma distinct_drop: "distinct (map key xs) \<Longrightarrow> distinct (map key (drop_row key d xs))"
  unfolding drop_row_def by (simp add: distinct_map_filter)

end
