(* ===== verification/Retention_Policy.thy ===== *)
theory Retention_Policy
  imports Transaction Report_History
begin

text \<open>
  \<open>reporting/retention_types.py\<close>, \<open>retention_ports.py\<close> and \<open>retention.py\<close>: the deletion of raw evidence
  after thirty days and of reports after their own retention, over a persistence port. Before a source row is
  deleted every reference a retained report has to it is verified against the retained manifest and switched
  to a tombstone. A transaction that raises is rolled back.
\<close>

section \<open>Values\<close>

record source_entity =
  se_id :: uuid
  se_entity_kind :: tombstone_entity_kind
  se_source_entity_hash :: string
  se_source_id :: "uuid option"
  se_published_or_observed_at :: "instant option"
  se_retention_started_at :: instant

record retained_manifest =
  rmf_id :: uuid
  rmf_envelope :: manifest_envelope
  rmf_retain_until :: instant

record manifest_item_reference =
  mir_id :: uuid
  mir_manifest_id :: uuid
  mir_item_kind :: manifest_item_kind
  mir_role :: report_role
  mir_ordinal :: int
  mir_source_id :: uuid
  mir_source_entity_id :: uuid
  mir_source_entity_hash :: string
  mir_value_slice_sha256 :: string
  mir_live_source_entity_id :: "uuid option"
  mir_tombstone_id :: "uuid option"

record tombstone_identity =
  ti_entity_kind :: tombstone_entity_kind
  ti_source_entity_id :: uuid
  ti_source_entity_hash :: string
  ti_manifest_value_slice_sha256 :: string

record tombstone_candidate =
  tc_identity :: tombstone_identity
  tc_source_id :: "uuid option"
  tc_published_or_observed_at :: "instant option"
  tc_deleted_at :: instant
  tc_deletion_reason :: tombstone_deletion_reason
  tc_first_manifest_id :: uuid
  tc_retain_until :: instant

record retention_tombstone =
  rto_id :: uuid
  rto_identity :: tombstone_identity
  rto_source_id :: "uuid option"
  rto_published_or_observed_at :: "instant option"
  rto_deleted_at :: instant
  rto_deletion_reason :: tombstone_deletion_reason
  rto_first_manifest_id :: uuid
  rto_retain_until :: instant

record cleanup_request =
  cr_source_entity_id :: uuid
  cr_observed_at :: instant

record cleanup_outcome =
  co_deleted :: bool
  co_tombstone_ids :: "uuid list"
  co_reason :: "string option"

record expiry_outcome =
  eo_deleted_manifest_ids :: "uuid list"
  eo_deleted_tombstone_ids :: "uuid list"

text \<open>What a transaction can raise: \<open>RetentionIntegrityError\<close>, the \<open>RuntimeError\<close> of an adapter, an error of
  the report code, a missing key, and for PostgreSQL a violated constraint, a rejected update of an immutable
  row, a query that finds no row, and an invalid argument.\<close>

datatype retention_error =
    Retention_Integrity_Error string
  | Retention_Runtime_Error string
  | Retention_Report_Error report_error
  | Retention_Key_Error
  | Constraint_Violated
  | Immutable_Row_Updated
  | No_Row_Found
  | Retention_Value_Error string

section \<open>The persistence port\<close>

text \<open>\<open>'d\<close> is the state of the repository between transactions, \<open>'s\<close> the state inside one.\<close>

record ('d, 's) retention_port =
  rp_open :: "'d \<Rightarrow> 's"
  rp_commit :: "'s \<Rightarrow> retention_error + 'd"
  rp_lock_source :: "uuid \<Rightarrow> ('s, retention_error, source_entity option) action"
  rp_lock_live_references :: "uuid \<Rightarrow> ('s, retention_error, manifest_item_reference list) action"
  rp_lock_manifest :: "uuid \<Rightarrow> ('s, retention_error, retained_manifest option) action"
  rp_upsert_tombstone :: "tombstone_candidate \<Rightarrow> ('s, retention_error, retention_tombstone) action"
  rp_switch_reference :: "uuid \<Rightarrow> uuid \<Rightarrow> ('s, retention_error, unit) action"
  rp_delete_source :: "uuid \<Rightarrow> ('s, retention_error, unit) action"
  rp_lock_expired_manifests :: "instant \<Rightarrow> ('s, retention_error, retained_manifest list) action"
  rp_delete_report_dependencies :: "uuid \<Rightarrow> ('s, retention_error, unit) action"
  rp_delete_manifest_items :: "uuid \<Rightarrow> ('s, retention_error, unit) action"
  rp_delete_manifest :: "uuid \<Rightarrow> ('s, retention_error, unit) action"
  rp_lock_unreferenced_tombstones :: "instant \<Rightarrow> ('s, retention_error, retention_tombstone list) action"
  rp_delete_tombstone :: "uuid \<Rightarrow> ('s, retention_error, unit) action"

definition transact ::
    "('d, 's) retention_port \<Rightarrow> ('s, retention_error, 'a) action \<Rightarrow> ('d, retention_error, 'a) action" where
  "transact port body d =
     (case body (rp_open port d) of
        Inl e \<Rightarrow> Inl e
      | Inr (x, s) \<Rightarrow> (case rp_commit port s of Inl e \<Rightarrow> Inl e | Inr d' \<Rightarrow> Inr (x, d')))"

section \<open>Verification of a reference\<close>

datatype manifest_value_slice = Slice_Record report_record | Slice_Coverage source_coverage_item

fun slice_source_id :: "manifest_value_slice \<Rightarrow> uuid" where
  "slice_source_id (Slice_Record r) = rr_source_id r"
| "slice_source_id (Slice_Coverage c) = sco_source_id c"

fun slice_value :: "manifest_value_slice \<Rightarrow> json" where
  "slice_value (Slice_Record r) = record_value r"
| "slice_value (Slice_Coverage c) = coverage_value c"

definition slice_sha256 :: "(string \<Rightarrow> string) \<Rightarrow> manifest_value_slice \<Rightarrow> string" where
  "slice_sha256 nfc part = sha256_hex (canonical_bytes nfc (slice_value part))"

definition selected_slices :: "report_input_manifest \<Rightarrow> manifest_item_reference \<Rightarrow> manifest_value_slice list" where
  "selected_slices payload r =
     (case mir_item_kind r of
        Manifest_RECORD \<Rightarrow> map Slice_Record
          (filter (\<lambda>x. rr_role x = mir_role r \<and> rr_ordinal x = mir_ordinal r) (rim_records payload))
      | Manifest_SOURCE_COVERAGE \<Rightarrow>
          (let role_coverage = filter (\<lambda>c. sco_role c = mir_role r) (rim_source_coverage payload)
           in if 0 \<le> mir_ordinal r \<and> mir_ordinal r < int (length role_coverage)
              then [Slice_Coverage (role_coverage ! nat (mir_ordinal r))] else []))"

definition manifest_value_slice_of ::
    "report_input_manifest \<Rightarrow> manifest_item_reference \<Rightarrow> retention_error + manifest_value_slice" where
  "manifest_value_slice_of payload r =
     (case selected_slices payload r of
        [part] \<Rightarrow> Inr part
      | _ \<Rightarrow> Inl (Retention_Integrity_Error ''manifest_value_slice_missing''))"

fun record_hash :: "report_record \<Rightarrow> tombstone_entity_kind \<Rightarrow> uuid \<Rightarrow> string option" where
  "record_hash r Entity_POST_VERSION u = (if rr_post_version_id r = u then Some (rr_post_content_hash r) else None)"
| "record_hash r Entity_ANALYSIS u =
     (if as_analysis_id (rr_analysis r) = Some u then as_output_hash (rr_analysis r) else None)"
| "record_hash r Entity_MATCH u =
     map_option rm_match_hash (List.find (\<lambda>m. rm_match_id m = u) (rr_rule_matches r))"
| "record_hash r Entity_ENGAGEMENT u =
     (if es_observation_id (rr_engagement r) = Some u then es_engagement_hash (rr_engagement r) else None)"
| "record_hash r Entity_SOURCE_MANIFEST u =
     (if rr_source_publication_manifest_id r = u then Some (rr_source_publication_manifest_hash r) else None)"

fun provenance_hash :: "manifest_value_slice \<Rightarrow> source_entity \<Rightarrow> string option" where
  "provenance_hash (Slice_Record r) source = record_hash r (se_entity_kind source) (se_id source)"
| "provenance_hash (Slice_Coverage c) source =
     (if se_entity_kind source = Entity_SOURCE_MANIFEST \<and> sco_cutoff_publication_manifest_id c = Some (se_id source)
      then sco_cutoff_publication_manifest_hash c else None)"

definition identities_match :: "manifest_value_slice \<Rightarrow> manifest_item_reference \<Rightarrow> source_entity \<Rightarrow> bool" where
  "identities_match part r source \<longleftrightarrow>
     se_source_id source \<noteq> None \<and> mir_source_entity_id r = se_id source
     \<and> mir_source_entity_hash r = se_source_entity_hash source
     \<and> Some (mir_source_id r) = se_source_id source \<and> se_source_id source = Some (slice_source_id part)
     \<and> provenance_hash part source = Some (se_source_entity_hash source)"

definition verify_reference ::
    "(string \<Rightarrow> string) \<Rightarrow> report_input_manifest \<Rightarrow> manifest_item_reference \<Rightarrow> source_entity \<Rightarrow> retention_error + unit" where
  "verify_reference nfc payload r source =
     (case manifest_value_slice_of payload r of Inl e \<Rightarrow> Inl e
      | Inr part \<Rightarrow>
          if \<not> identities_match part r source then Inl (Retention_Integrity_Error ''source_provenance_mismatch'')
          else if slice_sha256 nfc part \<noteq> mir_value_slice_sha256 r
          then Inl (Retention_Integrity_Error ''value_slice_hash_mismatch'')
          else Inr ())"

definition verified_manifest :: "report_library \<Rightarrow> retained_manifest \<Rightarrow> retention_error + report_input_manifest" where
  "verified_manifest lib kept =
     (case read_manifest (lib_nfc lib) (lib_gunzip lib) (lib_parse_manifest lib) (rmf_envelope kept) of
        Inl (Integrity_Error reason) \<Rightarrow> Inl (Retention_Integrity_Error reason)
      | Inl (Corrupt_Error reason) \<Rightarrow> Inl (Retention_Integrity_Error reason)
      | Inl e \<Rightarrow> Inl (Retention_Report_Error e)
      | Inr payload \<Rightarrow>
        (case project_report (lib_nfc lib) (lib_gzip lib) payload of
           Inl (Integrity_Error reason) \<Rightarrow> Inl (Retention_Integrity_Error reason)
         | Inl (Corrupt_Error reason) \<Rightarrow> Inl (Retention_Integrity_Error reason)
         | Inl e \<Rightarrow> Inl (Retention_Report_Error e)
         | Inr _ \<Rightarrow> Inr payload))"

section \<open>Cleanup of one source\<close>

definition RAW_RETENTION_DAYS :: int where "RAW_RETENTION_DAYS = 30"

definition eligible_at :: "source_entity \<Rightarrow> instant" where
  "eligible_at source = se_retention_started_at source + days RAW_RETENTION_DAYS"

definition source_identity :: "source_entity \<Rightarrow> string \<Rightarrow> tombstone_identity" where
  "source_identity source slice_hash =
     \<lparr>ti_entity_kind = se_entity_kind source, ti_source_entity_id = se_id source,
      ti_source_entity_hash = se_source_entity_hash source, ti_manifest_value_slice_sha256 = slice_hash\<rparr>"

definition candidate_of ::
    "source_entity \<Rightarrow> instant \<Rightarrow> manifest_item_reference \<Rightarrow> retained_manifest \<Rightarrow> tombstone_candidate" where
  "candidate_of source observed_at r kept =
     \<lparr>tc_identity = source_identity source (mir_value_slice_sha256 r),
      tc_source_id = se_source_id source, tc_published_or_observed_at = se_published_or_observed_at source,
      tc_deleted_at = observed_at, tc_deletion_reason = RAW_RETENTION_EXPIRED,
      tc_first_manifest_id = mir_manifest_id r, tc_retain_until = rmf_retain_until kept\<rparr>"

text \<open>The payloads verified so far, by manifest id: the dict \<open>payloads\<close>.\<close>

type_synonym payload_cache = "(uuid \<times> report_input_manifest \<times> retained_manifest) list"

definition cached_payload ::
    "report_library \<Rightarrow> payload_cache \<Rightarrow> uuid \<Rightarrow> retained_manifest option
      \<Rightarrow> retention_error + report_input_manifest \<times> retained_manifest" where
  "cached_payload lib payloads m retained =
     (case map_of payloads m of
        Some cached \<Rightarrow> Inr cached
      | None \<Rightarrow>
        (case retained of
           None \<Rightarrow> Inl (Retention_Integrity_Error ''retained_manifest_missing'')
         | Some kept \<Rightarrow> (case verified_manifest lib kept of Inl e \<Rightarrow> Inl e | Inr payload \<Rightarrow> Inr (payload, kept))))"

fun cleanup_references ::
    "report_library \<Rightarrow> ('d, 's) retention_port \<Rightarrow> source_entity \<Rightarrow> instant \<Rightarrow> payload_cache
      \<Rightarrow> manifest_item_reference list \<Rightarrow> ('s, retention_error, uuid list) action" where
  "cleanup_references lib port source observed_at payloads [] = give []"
| "cleanup_references lib port source observed_at payloads (r # rs) =
     and_then (rp_lock_manifest port (mir_manifest_id r)) (\<lambda>retained.
     and_then (attempt (cached_payload lib payloads (mir_manifest_id r) retained)) (\<lambda>cached.
     and_then (attempt (verify_reference (lib_nfc lib) (fst cached) r source)) (\<lambda>_.
     and_then (rp_upsert_tombstone port (candidate_of source observed_at r (snd cached))) (\<lambda>tombstone.
     and_then (rp_switch_reference port (mir_id r) (rto_id tombstone)) (\<lambda>_.
     and_then (cleanup_references lib port source observed_at ((mir_manifest_id r, cached) # payloads) rs) (\<lambda>ids.
     give (rto_id tombstone # ids)))))))"

text \<open>\<open>tuple(dict.fromkeys(ids))\<close> keeps the first occurrence of each id.\<close>

definition cleanup_body ::
    "report_library \<Rightarrow> ('d, 's) retention_port \<Rightarrow> cleanup_request \<Rightarrow> ('s, retention_error, cleanup_outcome) action" where
  "cleanup_body lib port request =
     and_then (rp_lock_source port (cr_source_entity_id request)) (\<lambda>found.
     case found of
       None \<Rightarrow> raise (Retention_Integrity_Error ''source_missing'')
     | Some source \<Rightarrow>
         if cr_observed_at request < eligible_at source
         then give \<lparr>co_deleted = False, co_tombstone_ids = [], co_reason = Some ''not_eligible''\<rparr>
         else and_then (rp_lock_live_references port (se_id source)) (\<lambda>references.
              and_then (cleanup_references lib port source (cr_observed_at request) [] references) (\<lambda>ids.
              and_then (rp_delete_source port (se_id source)) (\<lambda>_.
              give \<lparr>co_deleted = True, co_tombstone_ids = rev (remdups (rev ids)), co_reason = None\<rparr>))))"

definition cleanup_source ::
    "report_library \<Rightarrow> ('d, 's) retention_port \<Rightarrow> cleanup_request \<Rightarrow> ('d, retention_error, cleanup_outcome) action" where
  "cleanup_source lib port request = transact port (cleanup_body lib port request)"

section \<open>Expiry of retained reports\<close>

definition expiry_body ::
    "('d, 's) retention_port \<Rightarrow> instant \<Rightarrow> ('s, retention_error, expiry_outcome) action" where
  "expiry_body port observed_at =
     and_then (rp_lock_expired_manifests port observed_at) (\<lambda>manifests.
     and_then (each (\<lambda>m. rp_delete_report_dependencies port (rmf_id m)) manifests) (\<lambda>_.
     and_then (each (\<lambda>m. rp_delete_manifest_items port (rmf_id m)) manifests) (\<lambda>_.
     and_then (each (\<lambda>m. rp_delete_manifest port (rmf_id m)) manifests) (\<lambda>_.
     and_then (rp_lock_unreferenced_tombstones port observed_at) (\<lambda>tombstones.
     and_then (each (\<lambda>t. rp_delete_tombstone port (rto_id t)) tombstones) (\<lambda>_.
     give \<lparr>eo_deleted_manifest_ids = map rmf_id manifests, eo_deleted_tombstone_ids = map rto_id tombstones\<rparr>))))))"

definition expire_retained_reports ::
    "('d, 's) retention_port \<Rightarrow> instant \<Rightarrow> ('d, retention_error, expiry_outcome) action" where
  "expire_retained_reports port observed_at = transact port (expiry_body port observed_at)"

section \<open>Inversion\<close>

lemma transactD:
  assumes "transact port body d = Inr (x, d')"
  obtains s where "body (rp_open port d) = Inr (x, s)" "rp_commit port s = Inr d'"
  using assms by (auto simp: transact_def split: sum.splits)

lemma cached_payloadD:
  assumes "cached_payload lib payloads m retained = Inr (payload, kept)"
  shows "map_of payloads m = Some (payload, kept) \<or> retained = Some kept"
  using assms by (auto simp: cached_payload_def split: option.splits sum.splits)

lemma cleanup_referencesE:
  assumes "cleanup_references lib port source now payloads (r # rs) s = Inr (ids, t)"
  obtains retained payload kept tombstone u a b c ids' where
    "rp_lock_manifest port (mir_manifest_id r) s = Inr (retained, a)"
    "cached_payload lib payloads (mir_manifest_id r) retained = Inr (payload, kept)"
    "verify_reference (lib_nfc lib) payload r source = Inr ()"
    "rp_upsert_tombstone port (candidate_of source now r kept) a = Inr (tombstone, b)"
    "rp_switch_reference port (mir_id r) (rto_id tombstone) b = Inr (u, c)"
    "cleanup_references lib port source now ((mir_manifest_id r, payload, kept) # payloads) rs c = Inr (ids', t)"
    "ids = rto_id tombstone # ids'"
  using assms by (auto simp: and_then_Inr)

lemma cleanup_bodyE:
  assumes "cleanup_body lib port request s = Inr (outcome, t)"
  obtains
    (kept) source where
      "rp_lock_source port (cr_source_entity_id request) s = Inr (Some source, t)"
      "cr_observed_at request < eligible_at source" "co_deleted outcome = False"
  | (deleted) source references ids u a b c where
      "rp_lock_source port (cr_source_entity_id request) s = Inr (Some source, a)"
      "eligible_at source \<le> cr_observed_at request"
      "rp_lock_live_references port (se_id source) a = Inr (references, b)"
      "cleanup_references lib port source (cr_observed_at request) [] references b = Inr (ids, c)"
      "rp_delete_source port (se_id source) c = Inr (u, t)"
      "outcome = \<lparr>co_deleted = True, co_tombstone_ids = rev (remdups (rev ids)), co_reason = None\<rparr>"
proof -
  obtain found a where lock: "rp_lock_source port (cr_source_entity_id request) s = Inr (found, a)"
    and rest: "(case found of
       None \<Rightarrow> raise (Retention_Integrity_Error ''source_missing'')
     | Some source \<Rightarrow>
         if cr_observed_at request < eligible_at source
         then give \<lparr>co_deleted = False, co_tombstone_ids = [], co_reason = Some ''not_eligible''\<rparr>
         else and_then (rp_lock_live_references port (se_id source)) (\<lambda>references.
              and_then (cleanup_references lib port source (cr_observed_at request) [] references) (\<lambda>ids.
              and_then (rp_delete_source port (se_id source)) (\<lambda>_.
              give \<lparr>co_deleted = True, co_tombstone_ids = rev (remdups (rev ids)), co_reason = None\<rparr>)))) a
       = Inr (outcome, t)"
    using assms unfolding cleanup_body_def by (rule and_thenE)
  from rest obtain source where "found = Some source" by (cases found) simp_all
  show thesis
  proof (cases "cr_observed_at request < eligible_at source")
    case True
    with rest \<open>found = Some source\<close> lock show thesis by (intro kept [of source]) auto
  next
    case False
    with rest \<open>found = Some source\<close> lock show thesis by (auto simp: and_then_Inr intro: deleted)
  qed
qed

lemma expiry_bodyE:
  assumes "expiry_body port now s = Inr (outcome, t)"
  obtains manifests tombstones a b c d e u v w x where
    "rp_lock_expired_manifests port now s = Inr (manifests, a)"
    "each (\<lambda>m. rp_delete_report_dependencies port (rmf_id m)) manifests a = Inr (u, b)"
    "each (\<lambda>m. rp_delete_manifest_items port (rmf_id m)) manifests b = Inr (v, c)"
    "each (\<lambda>m. rp_delete_manifest port (rmf_id m)) manifests c = Inr (w, d)"
    "rp_lock_unreferenced_tombstones port now d = Inr (tombstones, e)"
    "each (\<lambda>t. rp_delete_tombstone port (rto_id t)) tombstones e = Inr (x, t)"
    "outcome = \<lparr>eo_deleted_manifest_ids = map rmf_id manifests, eo_deleted_tombstone_ids = map rto_id tombstones\<rparr>"
  using assms by (auto simp: expiry_body_def and_then_Inr)

end
