(* ===== verification/Retention_Contract.thy ===== *)
theory Retention_Contract
  imports Retention_Policy
begin

text \<open>
  The contract of the retention port, and what the cleanup and expiry policy guarantees over any adapter that
  keeps it. The contract speaks of a view of the adapter: the source rows, the retained manifests, the live
  references to each source, the links from manifest slices to tombstones, and the tombstones. An operation
  that an adapter refuses raises, so the laws constrain successful calls only.
\<close>

section \<open>Views\<close>

record retention_view =
  rv_sources :: "uuid \<Rightarrow> source_entity option"
  rv_manifests :: "uuid \<Rightarrow> retained_manifest option"
  rv_live :: "uuid \<Rightarrow> manifest_item_reference set"
  rv_links :: "(uuid \<times> string \<times> uuid) set"
  rv_tombs :: "uuid \<Rightarrow> retention_tombstone option"

text \<open>A reference is accounted for by a tombstone with exactly the deleted row's identity.\<close>

definition tombstoned :: "retention_view \<Rightarrow> source_entity \<Rightarrow> manifest_item_reference \<Rightarrow> bool" where
  "tombstoned w source r \<longleftrightarrow>
     (\<exists>t. rv_tombs w (rto_id t) = Some t \<and> rto_identity t = source_identity source (mir_value_slice_sha256 r)
        \<and> (mir_manifest_id r, mir_value_slice_sha256 r, rto_id t) \<in> rv_links w)"

text \<open>A link is sound if its tombstone exists, is for the linked slice and outlives the linking manifest.\<close>

definition sound_link :: "retention_view \<Rightarrow> uuid \<times> string \<times> uuid \<Rightarrow> bool" where
  "sound_link w l \<longleftrightarrow>
     (\<exists>t. rv_tombs w (snd (snd l)) = Some t \<and> ti_manifest_value_slice_sha256 (rto_identity t) = fst (snd l)
        \<and> (case rv_manifests w (fst l) of None \<Rightarrow> True | Some m \<Rightarrow> rmf_retain_until m \<le> rto_retain_until t))"

definition sound_view :: "retention_view \<Rightarrow> bool" where
  "sound_view w \<longleftrightarrow> (\<forall>l \<in> rv_links w. sound_link w l)"

text \<open>Every reference that \<open>v\<close> held live, of a manifest that still exists, is still live and its row still
  there, or is tombstoned.\<close>

definition accounted :: "retention_view \<Rightarrow> retention_view \<Rightarrow> bool" where
  "accounted v w \<longleftrightarrow>
     (\<forall>e source r. rv_sources v e = Some source \<longrightarrow> r \<in> rv_live v e \<longrightarrow> rv_manifests w (mir_manifest_id r) \<noteq> None \<longrightarrow>
        rv_sources w e = Some source \<and> r \<in> rv_live w e \<or> tombstoned w source r)"

definition evidence_kept :: "retention_view \<Rightarrow> retention_view \<Rightarrow> bool" where
  "evidence_kept v w \<longleftrightarrow> sound_view w \<and> accounted v w \<and> rv_manifests w \<subseteq>\<^sub>m rv_manifests v"

text \<open>What a cleanup may do: turn live references into tombstone links and delete unreferenced rows.\<close>

definition tombs_grow :: "retention_view \<Rightarrow> retention_view \<Rightarrow> bool" where
  "tombs_grow v w \<longleftrightarrow> (\<forall>i t. rv_tombs v i = Some t \<longrightarrow>
     (\<exists>t'. rv_tombs w i = Some t' \<and> rto_id t' = rto_id t \<and> rto_identity t' = rto_identity t
        \<and> rto_retain_until t \<le> rto_retain_until t'))"

definition cleaned :: "retention_view \<Rightarrow> retention_view \<Rightarrow> bool" where
  "cleaned v w \<longleftrightarrow>
     rv_manifests w = rv_manifests v \<and> rv_sources w \<subseteq>\<^sub>m rv_sources v
     \<and> tombs_grow v w \<and> rv_links v \<subseteq> rv_links w \<and> (\<forall>l \<in> rv_links w - rv_links v. sound_link w l)
     \<and> (\<forall>e. rv_live w e \<subseteq> rv_live v e)
     \<and> (\<forall>e source. rv_sources v e = Some source \<longrightarrow> (\<forall>r \<in> rv_live v e - rv_live w e. tombstoned w source r))
     \<and> (\<forall>e source. rv_sources v e = Some source \<longrightarrow> rv_sources w e = None \<longrightarrow> rv_live w e = {})"

text \<open>What an expiry does.\<close>

definition expired_manifest :: "retention_view \<Rightarrow> instant \<Rightarrow> uuid \<Rightarrow> bool" where
  "expired_manifest v now m \<longleftrightarrow> (case rv_manifests v m of None \<Rightarrow> False | Some k \<Rightarrow> rmf_retain_until k \<le> now)"

definition expired_view :: "instant \<Rightarrow> retention_view \<Rightarrow> retention_view" where
  "expired_view now v =
     (let links = {l \<in> rv_links v. \<not> expired_manifest v now (fst l)}
      in v\<lparr>rv_manifests := \<lambda>m. if expired_manifest v now m then None else rv_manifests v m,
           rv_live := \<lambda>e. {r \<in> rv_live v e. \<not> expired_manifest v now (mir_manifest_id r)},
           rv_links := links,
           rv_tombs := \<lambda>i. (case rv_tombs v i of None \<Rightarrow> None
             | Some t \<Rightarrow> if rto_retain_until t \<le> now \<and> i \<notin> (\<lambda>l. snd (snd l)) ` links then None else Some t)\<rparr>)"

text \<open>One committed transaction of the policy. One that raises changes nothing.\<close>

inductive retention_step :: "report_library \<Rightarrow> ('d, 's) retention_port \<Rightarrow> 'd \<Rightarrow> 'd \<Rightarrow> bool" for lib port where
  cleaned_up: "cleanup_source lib port request d = Inr (outcome, d') \<Longrightarrow> retention_step lib port d d'"
| expired: "expire_retained_reports port now d = Inr (outcome, d') \<Longrightarrow> retention_step lib port d d'"

section \<open>Facts about views\<close>

lemma tombstoned_grow:
  assumes "tombstoned v source r" and "tombs_grow v w" and "rv_links v \<subseteq> rv_links w"
  shows "tombstoned w source r"
proof -
  obtain t where t: "rv_tombs v (rto_id t) = Some t"
    "rto_identity t = source_identity source (mir_value_slice_sha256 r)"
    "(mir_manifest_id r, mir_value_slice_sha256 r, rto_id t) \<in> rv_links v"
    using assms(1) by (auto simp: tombstoned_def)
  obtain t' where "rv_tombs w (rto_id t) = Some t'" "rto_id t' = rto_id t" "rto_identity t' = rto_identity t"
    using assms(2) t(1) unfolding tombs_grow_def by blast
  with t assms(3) show ?thesis unfolding tombstoned_def by (intro exI [of _ t']) auto
qed

lemma sound_link_grow:
  assumes "sound_link v l" and "tombs_grow v w" and "rv_manifests w = rv_manifests v"
  shows "sound_link w l"
proof -
  obtain t where t: "rv_tombs v (snd (snd l)) = Some t" "ti_manifest_value_slice_sha256 (rto_identity t) = fst (snd l)"
    "case rv_manifests v (fst l) of None \<Rightarrow> True | Some m \<Rightarrow> rmf_retain_until m \<le> rto_retain_until t"
    using assms(1) by (auto simp: sound_link_def)
  obtain t' where "rv_tombs w (snd (snd l)) = Some t'" "rto_identity t' = rto_identity t"
    "rto_retain_until t \<le> rto_retain_until t'"
    using assms(2) t(1) unfolding tombs_grow_def by blast
  with t assms(3) show ?thesis unfolding sound_link_def by (auto split: option.splits)
qed

lemma tombs_grow_refl [simp]: "tombs_grow v v"
  by (simp add: tombs_grow_def)

lemma tombs_grow_trans:
  assumes "tombs_grow u v" and "tombs_grow v w"
  shows "tombs_grow u w"
  unfolding tombs_grow_def
proof (intro allI impI)
  fix i t
  assume "rv_tombs u i = Some t"
  then obtain t' where t': "rv_tombs v i = Some t'" "rto_id t' = rto_id t" "rto_identity t' = rto_identity t"
    "rto_retain_until t \<le> rto_retain_until t'" using assms(1) unfolding tombs_grow_def by blast
  then obtain t'' where "rv_tombs w i = Some t''" "rto_id t'' = rto_id t'" "rto_identity t'' = rto_identity t'"
    "rto_retain_until t' \<le> rto_retain_until t''" using assms(2) unfolding tombs_grow_def by blast
  with t' show "\<exists>t'. rv_tombs w i = Some t' \<and> rto_id t' = rto_id t \<and> rto_identity t' = rto_identity t
        \<and> rto_retain_until t \<le> rto_retain_until t'" by (intro exI [of _ t'']) simp
qed

lemma cleaned_refl [simp]: "cleaned v v"
  by (simp add: cleaned_def)

lemma cleanedD:
  assumes "cleaned v w"
  shows "rv_manifests w = rv_manifests v" "rv_sources w \<subseteq>\<^sub>m rv_sources v" "tombs_grow v w"
    "rv_links v \<subseteq> rv_links w" "l \<in> rv_links w \<Longrightarrow> l \<notin> rv_links v \<Longrightarrow> sound_link w l" "rv_live w e \<subseteq> rv_live v e"
    "rv_sources v e = Some source \<Longrightarrow> r \<in> rv_live v e \<Longrightarrow> r \<notin> rv_live w e \<Longrightarrow> tombstoned w source r"
    "rv_sources v e = Some source \<Longrightarrow> rv_sources w e = None \<Longrightarrow> rv_live w e = {}"
  using assms unfolding cleaned_def by auto

lemma cleaned_trans:
  assumes uv: "cleaned u v" and vw: "cleaned v w"
  shows "cleaned u w"
  unfolding cleaned_def
proof (intro conjI ballI allI impI)
  show "rv_manifests w = rv_manifests u" using cleanedD(1) [OF uv] cleanedD(1) [OF vw] by simp
  show "rv_sources w \<subseteq>\<^sub>m rv_sources u" using cleanedD(2) [OF uv] cleanedD(2) [OF vw] map_le_trans by blast
  show "tombs_grow u w" using cleanedD(3) [OF uv] cleanedD(3) [OF vw] by (rule tombs_grow_trans)
  show "rv_links u \<subseteq> rv_links w" using cleanedD(4) [OF uv] cleanedD(4) [OF vw] by blast
  show "rv_live w e \<subseteq> rv_live u e" for e using cleanedD(6) [OF uv] cleanedD(6) [OF vw] by blast
  show "sound_link w l" if l: "l \<in> rv_links w - rv_links u" for l
  proof (cases "l \<in> rv_links v")
    case True
    then have "sound_link v l" using l cleanedD(5) [OF uv] by blast
    then show ?thesis using sound_link_grow cleanedD(1,3) [OF vw] by blast
  next
    case False
    then show ?thesis using l cleanedD(5) [OF vw] by blast
  qed
  fix e source
  assume source: "rv_sources u e = Some source"
  show "tombstoned w source r" if r: "r \<in> rv_live u e - rv_live w e" for r
  proof (cases "r \<in> rv_live v e")
    case True
    then have "rv_sources v e \<noteq> None" using cleanedD(8) [OF uv source] by auto
    then have "rv_sources v e = Some source"
      using source cleanedD(2) [OF uv] by (metis domIff map_le_def)
    then show ?thesis using True r cleanedD(7) [OF vw] by blast
  next
    case False
    then have "tombstoned v source r" using r cleanedD(7) [OF uv source] by blast
    then show ?thesis using tombstoned_grow cleanedD(3,4) [OF vw] by blast
  qed
  show "rv_live w e = {}" if gone: "rv_sources w e = None"
  proof (cases "rv_sources v e")
    case None
    then have "rv_live v e = {}" using cleanedD(8) [OF uv source] by simp
    then show ?thesis using cleanedD(6) [OF vw] by blast
  next
    case (Some s)
    then show ?thesis using gone cleanedD(8) [OF vw] by blast
  qed
qed

lemma evidence_kept_refl: "sound_view v \<Longrightarrow> evidence_kept v v"
  by (simp add: evidence_kept_def accounted_def)

lemma evidence_kept_cleaned:
  assumes kept: "evidence_kept u v" and step: "cleaned v w"
  shows "evidence_kept u w"
proof -
  have "sound_link w l" if "l \<in> rv_links w" for l
  proof (cases "l \<in> rv_links v")
    case True
    then have "sound_link v l" using kept by (simp add: evidence_kept_def sound_view_def)
    then show ?thesis using sound_link_grow cleanedD(1,3) [OF step] by blast
  qed (use that cleanedD(5) [OF step] in blast)
  moreover have "accounted u w"
    unfolding accounted_def
  proof (intro allI impI)
    fix e source r
    assume r: "rv_sources u e = Some source" "r \<in> rv_live u e" "rv_manifests w (mir_manifest_id r) \<noteq> None"
    then have "rv_sources v e = Some source \<and> r \<in> rv_live v e \<or> tombstoned v source r"
      using kept cleanedD(1) [OF step] unfolding evidence_kept_def accounted_def by simp
    then show "rv_sources w e = Some source \<and> r \<in> rv_live w e \<or> tombstoned w source r"
    proof (elim disjE conjE)
      assume live: "rv_sources v e = Some source" "r \<in> rv_live v e"
      show ?thesis
      proof (cases "r \<in> rv_live w e")
        case True
        then have "rv_sources w e \<noteq> None" using cleanedD(8) [OF step live(1)] by auto
        then have "rv_sources w e = Some source" using live(1) cleanedD(2) [OF step] by (metis domIff map_le_def)
        with True show ?thesis by simp
      next
        case False
        then show ?thesis using live cleanedD(7) [OF step] by blast
      qed
    next
      assume "tombstoned v source r"
      then show ?thesis using tombstoned_grow cleanedD(3,4) [OF step] by blast
    qed
  qed
  ultimately show ?thesis
    using kept cleanedD(1) [OF step] by (simp add: evidence_kept_def sound_view_def)
qed

lemma expired_view_fields [simp]:
  "rv_sources (expired_view now v) = rv_sources v"
  "rv_manifests (expired_view now v) m = (if expired_manifest v now m then None else rv_manifests v m)"
  "rv_live (expired_view now v) e = {r \<in> rv_live v e. \<not> expired_manifest v now (mir_manifest_id r)}"
  "rv_links (expired_view now v) = {l \<in> rv_links v. \<not> expired_manifest v now (fst l)}"
  by (simp_all add: expired_view_def Let_def)

lemma expired_view_linked:
  assumes "l \<in> rv_links (expired_view now v)"
  shows "rv_tombs (expired_view now v) (snd (snd l)) = rv_tombs v (snd (snd l))"
  using assms by (auto simp: expired_view_def Let_def split: option.splits)

lemma evidence_kept_expired:
  assumes kept: "evidence_kept u v"
  shows "evidence_kept u (expired_view now v)"
proof -
  let ?w = "expired_view now v"
  have sound: "sound_link ?w l" if "l \<in> rv_links ?w" for l
  proof -
    have "sound_link v l" using that kept by (simp add: evidence_kept_def sound_view_def)
    then show ?thesis using that expired_view_linked [OF that] by (simp add: sound_link_def)
  qed
  have "accounted u ?w"
    unfolding accounted_def
  proof (intro allI impI)
    fix e source r
    assume r: "rv_sources u e = Some source" "r \<in> rv_live u e" "rv_manifests ?w (mir_manifest_id r) \<noteq> None"
    then have live: "\<not> expired_manifest v now (mir_manifest_id r)" "rv_manifests v (mir_manifest_id r) \<noteq> None"
      by (auto split: if_splits)
    then have "rv_sources v e = Some source \<and> r \<in> rv_live v e \<or> tombstoned v source r"
      using kept r unfolding evidence_kept_def accounted_def by blast
    then show "rv_sources ?w e = Some source \<and> r \<in> rv_live ?w e \<or> tombstoned ?w source r"
    proof (elim disjE conjE)
      assume "tombstoned v source r"
      then obtain t where t: "rv_tombs v (rto_id t) = Some t"
        "rto_identity t = source_identity source (mir_value_slice_sha256 r)"
        "(mir_manifest_id r, mir_value_slice_sha256 r, rto_id t) \<in> rv_links v" by (auto simp: tombstoned_def)
      then have link: "(mir_manifest_id r, mir_value_slice_sha256 r, rto_id t) \<in> rv_links ?w" using live by simp
      then show ?thesis using t expired_view_linked [OF link] by (auto simp: tombstoned_def)
    qed (use live in simp)
  qed
  moreover have "rv_manifests ?w \<subseteq>\<^sub>m rv_manifests u"
    using kept by (auto simp: evidence_kept_def map_le_def split: if_splits)
  ultimately show ?thesis using sound by (simp add: evidence_kept_def sound_view_def)
qed

lemma restrict_upd_None: "(f(k := None)) |` (- A) = f |` (- insert k A)"
  by (auto simp: restrict_map_def)

lemma rv_manifests_drop_again: "v\<lparr>rv_manifests := (rv_manifests v)(k := None)\<rparr>\<lparr>rv_manifests :=
    rv_manifests (v\<lparr>rv_manifests := (rv_manifests v)(k := None)\<rparr>) |` (- A)\<rparr>
  = v\<lparr>rv_manifests := rv_manifests v |` (- insert k A)\<rparr>"
  by (cases v) (simp add: restrict_upd_None del: restrict_fun_upd fun_upd_restrict_conv)

lemma rv_tombs_drop_again: "v\<lparr>rv_tombs := (rv_tombs v)(k := None)\<rparr>\<lparr>rv_tombs :=
    rv_tombs (v\<lparr>rv_tombs := (rv_tombs v)(k := None)\<rparr>) |` (- A)\<rparr>
  = v\<lparr>rv_tombs := rv_tombs v |` (- insert k A)\<rparr>"
  by (cases v) (simp add: restrict_upd_None del: restrict_fun_upd fun_upd_restrict_conv)

section \<open>The contract\<close>

text \<open>\<open>ready\<close> is the representation invariant inside a transaction; \<open>locked s e\<close> says that the references of
  source \<open>e\<close> have been locked, which an adapter may require before it switches one.\<close>

locale retention_laws =
  fixes port :: "('d, 's) retention_port"
    and ready :: "'s \<Rightarrow> bool"
    and view :: "'s \<Rightarrow> retention_view"
    and locked :: "'s \<Rightarrow> uuid \<Rightarrow> bool"
    and ready_db :: "'d \<Rightarrow> bool"
    and db_view :: "'d \<Rightarrow> retention_view"
  assumes open_law: "ready_db d \<Longrightarrow> ready (rp_open port d) \<and> view (rp_open port d) = db_view d"
    and commit_law: "ready s \<Longrightarrow> rp_commit port s = Inr d \<Longrightarrow> ready_db d \<and> db_view d = view s"
    and source_ids: "ready s \<Longrightarrow> rv_sources (view s) e = Some source \<Longrightarrow> se_id source = e"
    and manifest_ids: "ready s \<Longrightarrow> rv_manifests (view s) m = Some k \<Longrightarrow> rmf_id k = m"
    and tomb_ids: "ready s \<Longrightarrow> rv_tombs (view s) i = Some b \<Longrightarrow> rto_id b = i"
    and live_ids: "ready s \<Longrightarrow> inj_on mir_id (rv_live (view s) e)"
    and lock_source_law: "ready s \<Longrightarrow> rp_lock_source port e s = Inr (found, t) \<Longrightarrow>
      ready t \<and> view t = view s \<and> found = rv_sources (view s) e"
    and lock_references_law: "ready s \<Longrightarrow> rv_sources (view s) e = Some source \<Longrightarrow>
      rp_lock_live_references port e s = Inr (rs, t) \<Longrightarrow>
      ready t \<and> view t = view s \<and> locked t e \<and> set rs = rv_live (view s) e \<and> distinct (map mir_id rs)"
    and lock_manifest_law: "ready s \<Longrightarrow> rp_lock_manifest port m s = Inr (retained, t) \<Longrightarrow>
      ready t \<and> view t = view s \<and> (locked s e \<longrightarrow> locked t e) \<and> retained = rv_manifests (view s) m"
    and upsert_law: "ready s \<Longrightarrow> rp_upsert_tombstone port c s = Inr (b, t) \<Longrightarrow>
      ready t \<and> (locked s e \<longrightarrow> locked t e) \<and> rto_identity b = tc_identity c \<and> tc_retain_until c \<le> rto_retain_until b
      \<and> view t = (view s)\<lparr>rv_tombs := (rv_tombs (view s))(rto_id b \<mapsto> b)\<rparr>
      \<and> (\<forall>old. rv_tombs (view s) (rto_id b) = Some old \<longrightarrow>
            rto_identity old = rto_identity b \<and> rto_retain_until old \<le> rto_retain_until b)"
    and switch_law: "ready s \<Longrightarrow> locked s e \<Longrightarrow> r \<in> rv_live (view s) e \<Longrightarrow>
      rp_switch_reference port (mir_id r) i s = Inr (u, t) \<Longrightarrow>
      ready t \<and> locked t e
      \<and> view t = (view s)\<lparr>rv_live := (rv_live (view s))(e := {x \<in> rv_live (view s) e. mir_id x \<noteq> mir_id r}),
           rv_links := insert (mir_manifest_id r, mir_value_slice_sha256 r, i) (rv_links (view s))\<rparr>"
    and delete_source_law: "ready s \<Longrightarrow> rp_delete_source port e s = Inr (u, t) \<Longrightarrow>
      ready t \<and> (\<exists>gone. e \<in> gone \<and> (\<forall>g \<in> gone. rv_live (view s) g = {})
        \<and> view t = (view s)\<lparr>rv_sources := rv_sources (view s) |` (- gone)\<rparr>)"
    and lock_expired_law: "ready s \<Longrightarrow> rp_lock_expired_manifests port now s = Inr (ms, t) \<Longrightarrow>
      ready t \<and> view t = view s \<and> rmf_id ` set ms = Collect (expired_manifest (view s) now)"
    and delete_dependencies_law: "ready s \<Longrightarrow> rp_delete_report_dependencies port m s = Inr (u, t) \<Longrightarrow>
      ready t \<and> view t = view s"
    and delete_items_law: "ready s \<Longrightarrow> rp_delete_manifest_items port m s = Inr (u, t) \<Longrightarrow>
      ready t \<and> view t = (view s)\<lparr>rv_live := \<lambda>e. {r \<in> rv_live (view s) e. mir_manifest_id r \<noteq> m},
        rv_links := {l \<in> rv_links (view s). fst l \<noteq> m}\<rparr>"
    and delete_manifest_law: "ready s \<Longrightarrow> rp_delete_manifest port m s = Inr (u, t) \<Longrightarrow>
      ready t \<and> view t = (view s)\<lparr>rv_manifests := (rv_manifests (view s))(m := None)\<rparr>"
    and lock_tombstones_law: "ready s \<Longrightarrow> rp_lock_unreferenced_tombstones port now s = Inr (ts, t) \<Longrightarrow>
      ready t \<and> view t = view s \<and> rto_id ` set ts =
        {i. \<exists>b. rv_tombs (view s) i = Some b \<and> rto_retain_until b \<le> now \<and> i \<notin> (\<lambda>l. snd (snd l)) ` rv_links (view s)}"
    and delete_tombstone_law: "ready s \<Longrightarrow> rp_delete_tombstone port i s = Inr (u, t) \<Longrightarrow>
      ready t \<and> view t = (view s)\<lparr>rv_tombs := (rv_tombs (view s))(i := None)\<rparr>"
begin

lemma turn_cleaned:
  assumes ready: "ready s" and locked: "locked s (se_id source)" and source: "rv_sources (view s) (se_id source) = Some source"
    and r: "r \<in> rv_live (view s) (se_id source)" and kept: "rv_manifests (view s) (mir_manifest_id r) = Some kept"
    and upsert: "rp_upsert_tombstone port (candidate_of source now r kept) s = Inr (b, x)"
    and switch: "rp_switch_reference port (mir_id r) (rto_id b) x = Inr (u, t)"
  shows "ready t \<and> locked t (se_id source) \<and> cleaned (view s) (view t) \<and> tombstoned (view t) source r
    \<and> rv_sources (view t) = rv_sources (view s)
    \<and> rv_live (view t) = (rv_live (view s))(se_id source := {x \<in> rv_live (view s) (se_id source). mir_id x \<noteq> mir_id r})"
proof -
  let ?v = "view s" and ?w = "view t" and ?e = "se_id source"
    and ?link = "(mir_manifest_id r, mir_value_slice_sha256 r, rto_id b)"
  note up = upsert_law [OF ready upsert, of ?e]
  have x: "ready x" "locked x ?e" and vx: "view x = ?v\<lparr>rv_tombs := (rv_tombs ?v)(rto_id b \<mapsto> b)\<rparr>"
    and old: "\<forall>old. rv_tombs ?v (rto_id b) = Some old \<longrightarrow>
            rto_identity old = rto_identity b \<and> rto_retain_until old \<le> rto_retain_until b"
    and b: "rto_identity b = source_identity source (mir_value_slice_sha256 r)" "rmf_retain_until kept \<le> rto_retain_until b"
    using up locked by (auto simp: candidate_of_def)
  have rx: "r \<in> rv_live (view x) ?e" using r vx by simp
  have t: "ready t" "locked t ?e" and vt: "?w = (view x)\<lparr>rv_live := (rv_live (view x))(?e := {y \<in> rv_live (view x) ?e. mir_id y \<noteq> mir_id r}),
           rv_links := insert ?link (rv_links (view x))\<rparr>"
    using switch_law [OF x rx switch] by auto
  have w: "rv_sources ?w = rv_sources ?v" "rv_manifests ?w = rv_manifests ?v" "rv_tombs ?w = (rv_tombs ?v)(rto_id b \<mapsto> b)"
    "rv_links ?w = insert ?link (rv_links ?v)"
    "rv_live ?w = (rv_live ?v)(?e := {y \<in> rv_live ?v ?e. mir_id y \<noteq> mir_id r})"
    using vt vx by simp_all
  have grow: "tombs_grow ?v ?w"
    unfolding tombs_grow_def
  proof (intro allI impI)
    fix i c
    assume c: "rv_tombs ?v i = Some c"
    show "\<exists>t'. rv_tombs ?w i = Some t' \<and> rto_id t' = rto_id c \<and> rto_identity t' = rto_identity c
        \<and> rto_retain_until c \<le> rto_retain_until t'"
    proof (cases "i = rto_id b")
      case True
      then have "rto_id c = rto_id b" using tomb_ids [OF ready c] by simp
      with True c old w(3) show ?thesis by (intro exI [of _ b]) auto
    qed (use c w(3) in simp)
  qed
  have switched: "tombstoned ?w source r" using w b unfolding tombstoned_def by (intro exI [of _ b]) simp
  have sound: "sound_link ?w ?link" using w b kept by (simp add: sound_link_def source_identity_def)
  have "cleaned ?v ?w"
    unfolding cleaned_def
  proof (intro conjI ballI allI impI)
    show "sound_link ?w l" if "l \<in> rv_links ?w - rv_links ?v" for l using that w(4) sound by auto
    show "rv_live ?w e \<subseteq> rv_live ?v e" for e using w(5) by auto
    fix e src
    assume src: "rv_sources ?v e = Some src"
    show "tombstoned ?w src y" if y: "y \<in> rv_live ?v e - rv_live ?w e" for y
    proof -
      have e: "e = ?e" using y w(5) by (auto split: if_splits)
      then have "mir_id y = mir_id r" using y w(5) by auto
      then have "y = r" using y r live_ids [OF ready, of ?e] e by (auto dest: inj_onD)
      then show ?thesis using switched src source e by simp
    qed
    show "rv_live ?w e = {}" if "rv_sources ?w e = None" using that src w(1) by simp
  qed (use w grow in auto)
  then show ?thesis using t switched w by simp
qed

lemma references_cleaned:
  assumes "cleanup_references lib port source now payloads rs s = Inr (ids, t)"
    and "ready s" and "locked s (se_id source)" and "rv_sources (view s) (se_id source) = Some source"
    and "set rs \<subseteq> rv_live (view s) (se_id source)" and "distinct (map mir_id rs)"
    and "\<forall>(m, p, kept) \<in> set payloads. rv_manifests (view s) m = Some kept"
  shows "ready t \<and> cleaned (view s) (view t) \<and> rv_sources (view t) = rv_sources (view s)
    \<and> (\<forall>e. e \<noteq> se_id source \<longrightarrow> rv_live (view t) e = rv_live (view s) e)"
  using assms
proof (induction rs arbitrary: payloads s ids)
  case Nil
  then show ?case by simp
next
  case (Cons r rs)
  let ?e = "se_id source"
  from Cons.prems(1) obtain retained payload kept b u a x c ids' where
    lock: "rp_lock_manifest port (mir_manifest_id r) s = Inr (retained, a)" and
    cached: "cached_payload lib payloads (mir_manifest_id r) retained = Inr (payload, kept)" and
    upsert: "rp_upsert_tombstone port (candidate_of source now r kept) a = Inr (b, x)" and
    switch: "rp_switch_reference port (mir_id r) (rto_id b) x = Inr (u, c)" and
    rest: "cleanup_references lib port source now ((mir_manifest_id r, payload, kept) # payloads) rs c = Inr (ids', t)"
    by (rule cleanup_referencesE)
  have a: "ready a" "locked a ?e" "view a = view s" "retained = rv_manifests (view s) (mir_manifest_id r)"
    using lock_manifest_law [OF Cons.prems(2) lock, of ?e] Cons.prems(3) by auto
  have kept: "rv_manifests (view s) (mir_manifest_id r) = Some kept"
    using cached_payloadD [OF cached] a(4) Cons.prems(7) by (auto dest: map_of_SomeD)
  have r: "r \<in> rv_live (view s) ?e" using Cons.prems(5) by simp
  have c: "ready c" "locked c ?e" "cleaned (view s) (view c)" "rv_sources (view c) = rv_sources (view s)"
    "rv_live (view c) = (rv_live (view s))(?e := {x \<in> rv_live (view s) ?e. mir_id x \<noteq> mir_id r})"
    using turn_cleaned [OF a(1,2) _ _ _ upsert switch] r kept Cons.prems(4) a(3) by auto
  have "set rs \<subseteq> rv_live (view c) ?e" using Cons.prems(5,6) c(5) by (auto simp: image_iff)
  moreover have "\<forall>(m, p, kept) \<in> set ((mir_manifest_id r, payload, kept) # payloads). rv_manifests (view c) m = Some kept"
    using Cons.prems(7) kept cleanedD(1) [OF c(3)] by auto
  ultimately have "ready t \<and> cleaned (view c) (view t) \<and> rv_sources (view t) = rv_sources (view c)
    \<and> (\<forall>e. e \<noteq> ?e \<longrightarrow> rv_live (view t) e = rv_live (view c) e)"
    using Cons.IH [OF rest c(1,2)] Cons.prems(4,6) c(4) by simp
  then show ?case using c(3,4,5) cleaned_trans by auto
qed


lemma delete_cleaned:
  assumes "ready s" and "rp_delete_source port e s = Inr (u, t)"
  shows "ready t \<and> cleaned (view s) (view t) \<and> rv_sources (view t) e = None \<and> rv_live (view t) e = {}"
proof -
  obtain gone where ready: "ready t" and e: "e \<in> gone" and free: "\<forall>g \<in> gone. rv_live (view s) g = {}"
    and t: "view t = (view s)\<lparr>rv_sources := rv_sources (view s) |` (- gone)\<rparr>"
    using delete_source_law [OF assms] by blast
  have "cleaned (view s) (view t)"
    unfolding cleaned_def using free
    by (auto simp: t map_le_def restrict_map_def tombs_grow_def split: if_splits)
  then show ?thesis using ready e free t by simp
qed

lemma cleanup_effect:
  assumes ready: "ready_db d" and run: "cleanup_source lib port request d = Inr (outcome, d')"
  shows "ready_db d' \<and> cleaned (db_view d) (db_view d')
    \<and> (\<exists>source. rv_sources (db_view d) (cr_source_entity_id request) = Some source
        \<and> (co_deleted outcome \<longleftrightarrow> eligible_at source \<le> cr_observed_at request))
    \<and> (if co_deleted outcome then rv_sources (db_view d') (cr_source_entity_id request) = None
         \<and> rv_live (db_view d') (cr_source_entity_id request) = {} else db_view d' = db_view d)"
proof -
  let ?s = "rp_open port d" and ?e = "cr_source_entity_id request"
  have s: "ready ?s" "view ?s = db_view d" using open_law [OF ready] by simp_all
  obtain t where body: "cleanup_body lib port request ?s = Inr (outcome, t)" and commit: "rp_commit port t = Inr d'"
    using run unfolding cleanup_source_def by (rule transactD)
  from body show ?thesis
  proof (cases rule: cleanup_bodyE)
    case (kept source)
    then have "ready t" "view t = view ?s" "rv_sources (view ?s) ?e = Some source"
      using lock_source_law [OF s(1) kept(1)] by simp_all
    with kept commit_law [OF _ commit] s show ?thesis by auto
  next
    case (deleted source references ids u a b c)
    have a: "ready a" "view a = view ?s" and source: "rv_sources (view ?s) ?e = Some source"
      using lock_source_law [OF s(1) deleted(1)] by simp_all
    have e: "se_id source = ?e" using source_ids [OF s(1) source] .
    have b: "ready b" "view b = view ?s" "locked b ?e" "set references = rv_live (view ?s) ?e"
      "distinct (map mir_id references)"
      using lock_references_law [OF a(1) _ deleted(3)] a(2) source e by auto
    have c: "ready c" "cleaned (view ?s) (view c)"
      using references_cleaned [OF deleted(4)] b source e by auto
    have t: "ready t" "cleaned (view c) (view t)" "rv_sources (view t) ?e = None" "rv_live (view t) ?e = {}"
      using delete_cleaned [OF c(1) deleted(5)] e by auto
    have "cleaned (view ?s) (view t)" using c(2) t(2) by (rule cleaned_trans)
    with t deleted(2,6) commit_law [OF t(1) commit] s(2) source show ?thesis by auto
  qed
qed

lemma delete_items_each:
  assumes "each (\<lambda>m. rp_delete_manifest_items port (rmf_id m)) ms s = Inr (u, t)" and "ready s"
  shows "ready t \<and> view t = (view s)
    \<lparr>rv_live := \<lambda>e. {r \<in> rv_live (view s) e. mir_manifest_id r \<notin> rmf_id ` set ms},
     rv_links := {l \<in> rv_links (view s). fst l \<notin> rmf_id ` set ms}\<rparr>"
  using assms
proof (induction ms arbitrary: s)
  case Nil
  then show ?case by simp
next
  case (Cons m ms)
  then obtain x r where "rp_delete_manifest_items port (rmf_id m) s = Inr (x, r)"
    and rest: "each (\<lambda>m. rp_delete_manifest_items port (rmf_id m)) ms r = Inr (u, t)" by (auto simp: and_then_Inr)
  with delete_items_law [OF Cons.prems(2)] have "ready r"
    and r: "view r = (view s)\<lparr>rv_live := \<lambda>e. {r \<in> rv_live (view s) e. mir_manifest_id r \<noteq> rmf_id m},
        rv_links := {l \<in> rv_links (view s). fst l \<noteq> rmf_id m}\<rparr>" by blast+
  from Cons.IH [OF rest this(1)] show ?case by (auto simp: r)
qed

lemma delete_manifests_each:
  assumes "each (\<lambda>m. rp_delete_manifest port (rmf_id m)) ms s = Inr (u, t)" and "ready s"
  shows "ready t \<and> view t = (view s)\<lparr>rv_manifests := rv_manifests (view s) |` (- rmf_id ` set ms)\<rparr>"
  using assms
proof (induction ms arbitrary: s)
  case Nil
  then show ?case by simp
next
  case (Cons m ms)
  then obtain x r where "rp_delete_manifest port (rmf_id m) s = Inr (x, r)"
    and rest: "each (\<lambda>m. rp_delete_manifest port (rmf_id m)) ms r = Inr (u, t)" by (auto simp: and_then_Inr)
  with delete_manifest_law [OF Cons.prems(2)] have "ready r"
    and r: "view r = (view s)\<lparr>rv_manifests := (rv_manifests (view s))(rmf_id m := None)\<rparr>" by blast+
  have "set (m # ms) = insert m (set ms)" by simp
  with Cons.IH [OF rest \<open>ready r\<close>] show ?case unfolding r rv_manifests_drop_again image_insert by simp
qed

lemma delete_tombstones_each:
  assumes "each (\<lambda>b. rp_delete_tombstone port (rto_id b)) bs s = Inr (u, t)" and "ready s"
  shows "ready t \<and> view t = (view s)\<lparr>rv_tombs := rv_tombs (view s) |` (- rto_id ` set bs)\<rparr>"
  using assms
proof (induction bs arbitrary: s)
  case Nil
  then show ?case by simp
next
  case (Cons b bs)
  then obtain x r where "rp_delete_tombstone port (rto_id b) s = Inr (x, r)"
    and rest: "each (\<lambda>b. rp_delete_tombstone port (rto_id b)) bs r = Inr (u, t)" by (auto simp: and_then_Inr)
  with delete_tombstone_law [OF Cons.prems(2)] have "ready r"
    and r: "view r = (view s)\<lparr>rv_tombs := (rv_tombs (view s))(rto_id b := None)\<rparr>" by blast+
  have "set (b # bs) = insert b (set bs)" by simp
  with Cons.IH [OF rest \<open>ready r\<close>] show ?case unfolding r rv_tombs_drop_again image_insert by simp
qed

lemma expiry_effect:
  assumes ready: "ready_db d" and run: "expire_retained_reports port now d = Inr (outcome, d')"
  shows "ready_db d' \<and> db_view d' = expired_view now (db_view d)
    \<and> set (eo_deleted_manifest_ids outcome) = Collect (expired_manifest (db_view d) now)"
proof -
  let ?s = "rp_open port d" and ?v = "db_view d"
  have s: "ready ?s" "view ?s = ?v" using open_law [OF ready] by simp_all
  obtain t where body: "expiry_body port now ?s = Inr (outcome, t)" and commit: "rp_commit port t = Inr d'"
    using run unfolding expire_retained_reports_def by (rule transactD)
  from body obtain manifests tombstones a b c e f u v w x where
    expired: "rp_lock_expired_manifests port now ?s = Inr (manifests, a)" and
    dependencies: "each (\<lambda>m. rp_delete_report_dependencies port (rmf_id m)) manifests a = Inr (u, b)" and
    items: "each (\<lambda>m. rp_delete_manifest_items port (rmf_id m)) manifests b = Inr (v, c)" and
    payloads: "each (\<lambda>m. rp_delete_manifest port (rmf_id m)) manifests c = Inr (w, e)" and
    orphans: "rp_lock_unreferenced_tombstones port now e = Inr (tombstones, f)" and
    tombs: "each (\<lambda>b. rp_delete_tombstone port (rto_id b)) tombstones f = Inr (x, t)" and
    outcome: "outcome = \<lparr>eo_deleted_manifest_ids = map rmf_id manifests, eo_deleted_tombstone_ids = map rto_id tombstones\<rparr>"
    by (rule expiry_bodyE)
  let ?gone = "Collect (expired_manifest ?v now)"
  have a: "ready a" "view a = ?v" and gone: "rmf_id ` set manifests = ?gone"
    using lock_expired_law [OF s(1) expired] s(2) by simp_all
  have kept: "keeps (\<lambda>s. ready s \<and> view s = ?v) (each (\<lambda>m. rp_delete_report_dependencies port (rmf_id m)) manifests)"
    by (intro each_keeps ballI leadsI) (auto dest: delete_dependencies_law)
  then have b: "ready b" "view b = ?v" using leadsD [OF kept _ dependencies] a by simp_all
  have c: "ready c" "view c = ?v\<lparr>rv_live := \<lambda>e. {r \<in> rv_live ?v e. mir_manifest_id r \<notin> ?gone},
      rv_links := {l \<in> rv_links ?v. fst l \<notin> ?gone}\<rparr>"
    using delete_items_each [OF items b(1)] b(2) gone by simp_all
  have e: "ready e" "view e = (view c)\<lparr>rv_manifests := rv_manifests (view c) |` (- ?gone)\<rparr>"
    using delete_manifests_each [OF payloads c(1)] gone by simp_all
  have f: "ready f" "view f = view e" and orphaned: "rto_id ` set tombstones =
        {i. \<exists>b. rv_tombs (view e) i = Some b \<and> rto_retain_until b \<le> now \<and> i \<notin> (\<lambda>l. snd (snd l)) ` rv_links (view e)}"
    using lock_tombstones_law [OF e(1) orphans] by simp_all
  have t: "ready t" "view t = (view f)\<lparr>rv_tombs := rv_tombs (view f) |` (- rto_id ` set tombstones)\<rparr>"
    using delete_tombstones_each [OF tombs f(1)] by simp_all
  have "view t = expired_view now ?v"
    unfolding t(2) orphaned f(2) e(2) c(2) expired_view_def Let_def
    by (auto simp: restrict_map_def fun_eq_iff split: option.splits)
  then show ?thesis using commit_law [OF t(1) commit] outcome gone by simp
qed

text \<open>Whatever passes are run, and at whatever times, a live reference of a retained report is either still live
  or replaced by a tombstone with the identity of the deleted row, and every linked tombstone outlives the
  reports that link it.\<close>

lemma steps_keep_evidence:
  assumes "(retention_step lib port)\<^sup>*\<^sup>* d d'" and "ready_db d" and "sound_view (db_view d)"
  shows "ready_db d' \<and> evidence_kept (db_view d) (db_view d')"
  using assms(1)
proof (induction rule: rtranclp_induct)
  case base
  show ?case using assms(2,3) evidence_kept_refl by simp
next
  case (step x y)
  then have x: "ready_db x" "evidence_kept (db_view d) (db_view x)" by simp_all
  from step.hyps(2) show ?case
  proof cases
    case (cleaned_up request outcome)
    then show ?thesis using cleanup_effect [OF x(1)] evidence_kept_cleaned [OF x(2)] by blast
  next
    case (expired now outcome)
    then show ?thesis using expiry_effect [OF x(1)] evidence_kept_expired [OF x(2)] by auto
  qed
qed

end

end
