(* ===== verification/Retention_Memory.thy ===== *)
theory Retention_Memory
  imports Retention_Contract
begin

text \<open>
  \<open>reporting/retention_memory.py\<close>: the in-memory reference adapter of the retention port. Its dicts are lists of
  rows in insertion order. \<open>mem_uuid4\<close> lists the ids that \<open>uuid4\<close> will return; a run is modelled as long as its
  list lasts, and a draw from the empty list raises. The counter of source reads that a test inspects is left out. The adapter keeps the contract \<open>retention_laws\<close>, so the
  guarantees of the policy hold for it; and it refuses nothing that the policy asks it to expire.
\<close>

section \<open>The adapter\<close>

record retention_memory =
  mem_sources :: "source_entity list"
  mem_manifests :: "retained_manifest list"
  mem_references :: "manifest_item_reference list"
  mem_tombstones :: "retention_tombstone list"
  mem_report_dependencies :: "uuid list"
  mem_events :: "string list"
  mem_uuid4 :: "uuid list"

definition memory_of ::
    "source_entity list \<Rightarrow> retained_manifest list \<Rightarrow> manifest_item_reference list \<Rightarrow> uuid list \<Rightarrow> retention_memory" where
  "memory_of sources manifests references uuid4 =
     (let kept = fold (put_row rmf_id) manifests []
      in \<lparr>mem_sources = fold (put_row se_id) sources [], mem_manifests = kept,
          mem_references = fold (put_row mir_id) references [], mem_tombstones = [],
          mem_report_dependencies = map rmf_id kept, mem_events = [], mem_uuid4 = uuid4\<rparr>)"

type_synonym 'a memory_action = "(retention_memory, retention_error, 'a) action"

definition memory_emit :: "string \<Rightarrow> retention_memory \<Rightarrow> retention_memory" where
  "memory_emit event s = s\<lparr>mem_events := mem_events s @ [event]\<rparr>"

definition memory_lock_source :: "uuid \<Rightarrow> source_entity option memory_action" where
  "memory_lock_source e = look (\<lambda>s. row_of se_id e (mem_sources s))"

definition memory_lock_live_references :: "uuid \<Rightarrow> manifest_item_reference list memory_action" where
  "memory_lock_live_references e = look (\<lambda>s. sort_key (\<lambda>r. uuid_str (mir_id r))
     (filter (\<lambda>r. mir_live_source_entity_id r = Some e) (mem_references s)))"

definition memory_lock_manifest :: "uuid \<Rightarrow> retained_manifest option memory_action" where
  "memory_lock_manifest m = look (\<lambda>s. row_of rmf_id m (mem_manifests s))"

definition memory_tombstones :: "retention_memory \<Rightarrow> retention_tombstone list" where
  "memory_tombstones s = sort_key (\<lambda>t. uuid_str (rto_id t)) (mem_tombstones s)"

definition tombstone_of :: "uuid \<Rightarrow> tombstone_candidate \<Rightarrow> retention_tombstone" where
  "tombstone_of u c =
     \<lparr>rto_id = u, rto_identity = tc_identity c, rto_source_id = tc_source_id c,
      rto_published_or_observed_at = tc_published_or_observed_at c, rto_deleted_at = tc_deleted_at c,
      rto_deletion_reason = tc_deletion_reason c, rto_first_manifest_id = tc_first_manifest_id c,
      rto_retain_until = tc_retain_until c\<rparr>"

definition extended_tombstone :: "retention_tombstone \<Rightarrow> tombstone_candidate \<Rightarrow> retention_tombstone" where
  "extended_tombstone t c = t\<lparr>rto_retain_until := max (rto_retain_until t) (tc_retain_until c)\<rparr>"

definition memory_upsert_tombstone :: "tombstone_candidate \<Rightarrow> retention_tombstone memory_action" where
  "memory_upsert_tombstone c s =
     (case List.find (\<lambda>t. rto_identity t = tc_identity c) (memory_tombstones s) of
        Some existing \<Rightarrow> Inr (extended_tombstone existing c,
          s\<lparr>mem_tombstones := put_row rto_id (extended_tombstone existing c) (mem_tombstones s)\<rparr>)
      | None \<Rightarrow>
          (case mem_uuid4 s of
             [] \<Rightarrow> Inl (Retention_Runtime_Error ''uuid4_list_exhausted'')
           | u # us \<Rightarrow> Inr (tombstone_of u c,
               s\<lparr>mem_tombstones := put_row rto_id (tombstone_of u c) (mem_tombstones s), mem_uuid4 := us\<rparr>)))"

definition memory_switch_reference :: "uuid \<Rightarrow> uuid \<Rightarrow> unit memory_action" where
  "memory_switch_reference reference_id tombstone_id s =
     (case row_of mir_id reference_id (mem_references s) of
        None \<Rightarrow> Inl Retention_Key_Error
      | Some r \<Rightarrow> Inr ((), memory_emit ''reference_switched''
          (s\<lparr>mem_references := put_row mir_id
             (r\<lparr>mir_live_source_entity_id := None, mir_tombstone_id := Some tombstone_id\<rparr>) (mem_references s)\<rparr>)))"

definition memory_delete_source :: "uuid \<Rightarrow> unit memory_action" where
  "memory_delete_source e s =
     (if \<exists>r \<in> set (mem_references s). mir_live_source_entity_id r = Some e
      then Inl (Retention_Runtime_Error ''live_reference_prevents_source_deletion'')
      else if e \<notin> se_id ` set (mem_sources s) then Inl Retention_Key_Error
      else Inr ((), memory_emit ''source_deleted'' (s\<lparr>mem_sources := drop_row se_id e (mem_sources s)\<rparr>)))"

definition memory_lock_expired_manifests :: "instant \<Rightarrow> retained_manifest list memory_action" where
  "memory_lock_expired_manifests now = look (\<lambda>s. sort_key (\<lambda>m. (rmf_retain_until m, uuid_str (rmf_id m)))
     (filter (\<lambda>m. rmf_retain_until m \<le> now) (mem_manifests s)))"

definition memory_delete_report_dependencies :: "uuid \<Rightarrow> unit memory_action" where
  "memory_delete_report_dependencies m s =
     (if m \<notin> set (mem_report_dependencies s) then Inl Retention_Key_Error
      else Inr ((), memory_emit ''report_dependencies_deleted''
        (s\<lparr>mem_report_dependencies := removeAll m (mem_report_dependencies s)\<rparr>)))"

definition memory_delete_manifest_items :: "uuid \<Rightarrow> unit memory_action" where
  "memory_delete_manifest_items m s =
     (if m \<in> set (mem_report_dependencies s)
      then Inl (Retention_Runtime_Error ''report_dependency_prevents_item_deletion'')
      else Inr ((), memory_emit ''manifest_items_deleted''
        (s\<lparr>mem_references := filter (\<lambda>r. mir_manifest_id r \<noteq> m) (mem_references s)\<rparr>)))"

definition memory_delete_manifest :: "uuid \<Rightarrow> unit memory_action" where
  "memory_delete_manifest m s =
     (if \<exists>r \<in> set (mem_references s). mir_manifest_id r = m
      then Inl (Retention_Runtime_Error ''manifest_item_prevents_manifest_deletion'')
      else if m \<notin> rmf_id ` set (mem_manifests s) then Inl Retention_Key_Error
      else Inr ((), memory_emit ''manifest_deleted'' (s\<lparr>mem_manifests := drop_row rmf_id m (mem_manifests s)\<rparr>)))"

definition memory_lock_unreferenced_tombstones :: "instant \<Rightarrow> retention_tombstone list memory_action" where
  "memory_lock_unreferenced_tombstones now = look (\<lambda>s.
     filter (\<lambda>t. Some (rto_id t) \<notin> mir_tombstone_id ` set (mem_references s) \<and> rto_retain_until t \<le> now)
       (memory_tombstones s))"

definition memory_delete_tombstone :: "uuid \<Rightarrow> unit memory_action" where
  "memory_delete_tombstone i s =
     (if \<exists>r \<in> set (mem_references s). mir_tombstone_id r = Some i
      then Inl (Retention_Runtime_Error ''manifest_reference_prevents_tombstone_deletion'')
      else if i \<notin> rto_id ` set (mem_tombstones s) then Inl Retention_Key_Error
      else Inr ((), memory_emit ''tombstone_deleted'' (s\<lparr>mem_tombstones := drop_row rto_id i (mem_tombstones s)\<rparr>)))"

definition memory_port :: "(retention_memory, retention_memory) retention_port" where
  "memory_port =
     \<lparr>rp_open = id, rp_commit = Inr, rp_lock_source = memory_lock_source,
      rp_lock_live_references = memory_lock_live_references, rp_lock_manifest = memory_lock_manifest,
      rp_upsert_tombstone = memory_upsert_tombstone, rp_switch_reference = memory_switch_reference,
      rp_delete_source = memory_delete_source, rp_lock_expired_manifests = memory_lock_expired_manifests,
      rp_delete_report_dependencies = memory_delete_report_dependencies,
      rp_delete_manifest_items = memory_delete_manifest_items, rp_delete_manifest = memory_delete_manifest,
      rp_lock_unreferenced_tombstones = memory_lock_unreferenced_tombstones,
      rp_delete_tombstone = memory_delete_tombstone\<rparr>"

section \<open>The adapter keeps the contract\<close>

definition memory_ready :: "retention_memory \<Rightarrow> bool" where
  "memory_ready s \<longleftrightarrow>
     distinct (map se_id (mem_sources s)) \<and> distinct (map rmf_id (mem_manifests s))
     \<and> distinct (map mir_id (mem_references s)) \<and> distinct (map rto_id (mem_tombstones s))
     \<and> (\<forall>r \<in> set (mem_references s). mir_live_source_entity_id r = None \<or> mir_tombstone_id r = None)
     \<and> distinct (mem_uuid4 s) \<and> set (mem_uuid4 s) \<inter> rto_id ` set (mem_tombstones s) = {}"

definition memory_view :: "retention_memory \<Rightarrow> retention_view" where
  "memory_view s =
     \<lparr>rv_sources = \<lambda>e. row_of se_id e (mem_sources s), rv_manifests = \<lambda>m. row_of rmf_id m (mem_manifests s),
      rv_live = \<lambda>e. {r \<in> set (mem_references s). mir_live_source_entity_id r = Some e},
      rv_links = {(mir_manifest_id r, mir_value_slice_sha256 r, t) | r t.
        r \<in> set (mem_references s) \<and> mir_tombstone_id r = Some t},
      rv_tombs = \<lambda>i. row_of rto_id i (mem_tombstones s)\<rparr>"

lemma memory_emit_same [simp]:
  "memory_view (memory_emit x s) = memory_view s" "memory_ready (memory_emit x s) = memory_ready s"
  by (simp_all add: memory_emit_def memory_view_def memory_ready_def)

lemma memory_links: "(m, h, i) \<in> rv_links (memory_view s) \<longleftrightarrow>
    (\<exists>r \<in> set (mem_references s). m = mir_manifest_id r \<and> h = mir_value_slice_sha256 r \<and> mir_tombstone_id r = Some i)"
  by (auto simp: memory_view_def)

lemma memory_linked: "(\<lambda>l. snd (snd l)) ` rv_links (memory_view s) = {i. Some i \<in> mir_tombstone_id ` set (mem_references s)}"
  by (force simp: memory_view_def image_iff)

lemma put_view: "(\<lambda>k. row_of key k (put_row key x xs)) = (\<lambda>k. row_of key k xs)(key x \<mapsto> x)"
  by (simp add: row_of_put fun_eq_iff)

lemma drop_view: "(\<lambda>k. row_of key k (drop_row key d xs)) = (\<lambda>k. row_of key k xs)(d := None)"
  by (simp add: row_of_drop fun_eq_iff)

lemma memory_upsert_law:
  assumes ready: "memory_ready s" and run: "memory_upsert_tombstone c s = Inr (b, t)"
  shows "memory_ready t \<and> rto_identity b = tc_identity c \<and> tc_retain_until c \<le> rto_retain_until b
    \<and> memory_view t = (memory_view s)\<lparr>rv_tombs := (rv_tombs (memory_view s))(rto_id b \<mapsto> b)\<rparr>
    \<and> (\<forall>old. rv_tombs (memory_view s) (rto_id b) = Some old \<longrightarrow>
          rto_identity old = rto_identity b \<and> rto_retain_until old \<le> rto_retain_until b)"
proof (cases "List.find (\<lambda>t. rto_identity t = tc_identity c) (memory_tombstones s)")
  case None
  then obtain u us where draw: "mem_uuid4 s = u # us" and b: "b = tombstone_of u c"
    and t: "t = s\<lparr>mem_tombstones := put_row rto_id b (mem_tombstones s), mem_uuid4 := us\<rparr>"
    using run by (auto simp: memory_upsert_tombstone_def split: list.splits)
  have id: "rto_id b = u" by (simp add: b tombstone_of_def)
  have new: "rto_id b \<notin> rto_id ` set (mem_tombstones s)" using ready id draw by (simp add: memory_ready_def)
  have "memory_ready t"
    using ready by (auto simp: t memory_ready_def keys_put distinct_put id draw)
  moreover have "rv_tombs (memory_view s) (rto_id b) = None" using new by (simp add: memory_view_def row_of_None)
  ultimately show ?thesis by (simp add: t memory_view_def put_view) (simp add: b tombstone_of_def)
next
  case (Some old)
  then have old: "old \<in> set (mem_tombstones s)" "rto_identity old = tc_identity c"
    by (auto dest!: find_SomeD simp: memory_tombstones_def)
  have b: "b = extended_tombstone old c" and t: "t = s\<lparr>mem_tombstones := put_row rto_id b (mem_tombstones s)\<rparr>"
    using run Some by (auto simp: memory_upsert_tombstone_def)
  have id: "rto_id b = rto_id old" by (simp add: b extended_tombstone_def)
  have "row_of rto_id (rto_id old) (mem_tombstones s) = Some old"
    using ready old(1) by (simp add: memory_ready_def row_of_mem)
  moreover have "insert (rto_id old) (rto_id ` set (mem_tombstones s)) = rto_id ` set (mem_tombstones s)"
    using old(1) by auto
  ultimately show ?thesis
    using ready old(2) by (simp add: t memory_ready_def memory_view_def put_view keys_put distinct_put id)
      (simp add: b extended_tombstone_def)
qed

lemma memory_switch_law:
  assumes ready: "memory_ready s" and r: "r \<in> rv_live (memory_view s) e"
    and run: "memory_switch_reference (mir_id r) i s = Inr (u, t)"
  shows "memory_ready t \<and> memory_view t = (memory_view s)
    \<lparr>rv_live := (rv_live (memory_view s))(e := {x \<in> rv_live (memory_view s) e. mir_id x \<noteq> mir_id r}),
     rv_links := insert (mir_manifest_id r, mir_value_slice_sha256 r, i) (rv_links (memory_view s))\<rparr>"
proof -
  let ?r = "r\<lparr>mir_live_source_entity_id := None, mir_tombstone_id := Some i\<rparr>"
  have ids: "distinct (map mir_id (mem_references s))" using ready by (simp add: memory_ready_def)
  have mem: "r \<in> set (mem_references s)" "mir_live_source_entity_id r = Some e" using r by (simp_all add: memory_view_def)
  then have "mir_tombstone_id r = None" using ready by (auto simp: memory_ready_def)
  have row: "row_of mir_id (mir_id r) (mem_references s) = Some r" using row_of_mem [OF ids mem(1)] .
  define t' where "t' = s\<lparr>mem_references := put_row mir_id ?r (mem_references s)\<rparr>"
  have t: "t = memory_emit ''reference_switched'' t'"
    using run row by (simp add: memory_switch_reference_def t'_def)
  have refs: "set (mem_references t') = insert ?r {y \<in> set (mem_references s). mir_id y \<noteq> mir_id r}"
    using set_put [OF ids, of ?r] by (simp add: t'_def)
  have same: "y = r" if "y \<in> set (mem_references s)" "mir_id y = mir_id r" for y
    using that mem(1) ids by (auto simp: distinct_map dest: inj_onD)
  have "memory_ready t'"
    using ready distinct_put [OF ids, of ?r] refs by (auto simp: memory_ready_def t'_def)
  moreover have "rv_live (memory_view t') = (rv_live (memory_view s))(e := {x \<in> rv_live (memory_view s) e. mir_id x \<noteq> mir_id r})"
    using mem by (auto simp: memory_view_def refs fun_eq_iff dest: same)
  moreover have "(m, h, k) \<in> rv_links (memory_view t') \<longleftrightarrow> (m, h, k) \<in> insert (mir_manifest_id r, mir_value_slice_sha256 r, i) (rv_links (memory_view s))" for m h k
    unfolding insert_iff memory_links refs using \<open>mir_tombstone_id r = None\<close>
    by (auto dest: same) (metis same option.distinct(1))
  then have "rv_links (memory_view t') = insert (mir_manifest_id r, mir_value_slice_sha256 r, i) (rv_links (memory_view s))"
    by auto
  moreover have "rv_sources (memory_view t') = rv_sources (memory_view s)" "rv_manifests (memory_view t') = rv_manifests (memory_view s)"
    "rv_tombs (memory_view t') = rv_tombs (memory_view s)" by (simp_all add: memory_view_def t'_def)
  ultimately show ?thesis by (simp add: t)
qed

lemma memory_delete_source_law:
  assumes "memory_ready s" and "memory_delete_source e s = Inr (u, t)"
  shows "memory_ready t \<and> rv_live (memory_view s) e = {}
    \<and> memory_view t = (memory_view s)\<lparr>rv_sources := rv_sources (memory_view s) |` (- {e})\<rparr>"
proof -
  have t: "t = memory_emit ''source_deleted'' (s\<lparr>mem_sources := drop_row se_id e (mem_sources s)\<rparr>)"
    and free: "\<forall>r \<in> set (mem_references s). mir_live_source_entity_id r \<noteq> Some e"
    using assms(2) by (auto simp: memory_delete_source_def split: if_splits)
  have "(\<lambda>k. row_of se_id k (mem_sources s)) |` (- {e}) = (\<lambda>k. row_of se_id k (mem_sources s))(e := None)"
    by (auto simp: restrict_map_def)
  moreover have "memory_ready (s\<lparr>mem_sources := drop_row se_id e (mem_sources s)\<rparr>)"
    using assms(1) by (simp add: memory_ready_def distinct_drop)
  ultimately show ?thesis using free by (simp add: t) (simp add: memory_view_def drop_view)
qed

lemma memory_delete_items_law:
  assumes "memory_ready s" and "memory_delete_manifest_items m s = Inr (u, t)"
  shows "memory_ready t \<and> memory_view t = (memory_view s)
    \<lparr>rv_live := \<lambda>e. {r \<in> rv_live (memory_view s) e. mir_manifest_id r \<noteq> m},
     rv_links := {l \<in> rv_links (memory_view s). fst l \<noteq> m}\<rparr>"
proof -
  have t: "t = memory_emit ''manifest_items_deleted''
      (s\<lparr>mem_references := filter (\<lambda>r. mir_manifest_id r \<noteq> m) (mem_references s)\<rparr>)"
    using assms(2) by (auto simp: memory_delete_manifest_items_def split: if_splits)
  have "memory_ready (s\<lparr>mem_references := filter (\<lambda>r. mir_manifest_id r \<noteq> m) (mem_references s)\<rparr>)"
    using assms(1) by (simp add: memory_ready_def distinct_map_filter)
  then show ?thesis by (simp add: t) (auto simp: memory_view_def fun_eq_iff)
qed

lemma memory_delete_manifest_law:
  assumes "memory_ready s" and "memory_delete_manifest m s = Inr (u, t)"
  shows "memory_ready t \<and> memory_view t = (memory_view s)\<lparr>rv_manifests := (rv_manifests (memory_view s))(m := None)\<rparr>"
proof -
  have t: "t = memory_emit ''manifest_deleted'' (s\<lparr>mem_manifests := drop_row rmf_id m (mem_manifests s)\<rparr>)"
    using assms(2) by (auto simp: memory_delete_manifest_def split: if_splits)
  have "memory_ready (s\<lparr>mem_manifests := drop_row rmf_id m (mem_manifests s)\<rparr>)"
    using assms(1) by (simp add: memory_ready_def distinct_drop)
  then show ?thesis by (simp add: t) (simp add: memory_view_def drop_view)
qed

lemma memory_delete_tombstone_law:
  assumes "memory_ready s" and "memory_delete_tombstone i s = Inr (u, t)"
  shows "memory_ready t \<and> memory_view t = (memory_view s)\<lparr>rv_tombs := (rv_tombs (memory_view s))(i := None)\<rparr>"
proof -
  have t: "t = memory_emit ''tombstone_deleted'' (s\<lparr>mem_tombstones := drop_row rto_id i (mem_tombstones s)\<rparr>)"
    using assms(2) by (auto simp: memory_delete_tombstone_def split: if_splits)
  have "memory_ready (s\<lparr>mem_tombstones := drop_row rto_id i (mem_tombstones s)\<rparr>)"
    using assms(1) by (auto simp: memory_ready_def distinct_drop set_drop)
  then show ?thesis by (simp add: t) (simp add: memory_view_def drop_view)
qed

lemma memory_expired:
  assumes "memory_ready s"
  shows "rmf_id ` set (filter (\<lambda>m. rmf_retain_until m \<le> now) (mem_manifests s))
    = Collect (expired_manifest (memory_view s) now)"
  using assms by (auto simp: expired_manifest_def memory_view_def memory_ready_def row_of_mem split: option.splits
      dest!: row_of_SomeD)

lemma memory_orphans:
  assumes "memory_ready s"
  shows "rto_id ` set (filter (\<lambda>t. Some (rto_id t) \<notin> mir_tombstone_id ` set (mem_references s) \<and> rto_retain_until t \<le> now)
      (memory_tombstones s))
    = {i. \<exists>b. rv_tombs (memory_view s) i = Some b \<and> rto_retain_until b \<le> now
        \<and> i \<notin> (\<lambda>l. snd (snd l)) ` rv_links (memory_view s)}"
  unfolding memory_linked memory_tombstones_def
  using assms by (auto simp: memory_view_def memory_ready_def row_of_mem dest!: row_of_SomeD)

lemma memory_ops [simp]:
  "rp_open memory_port d = d" "rp_commit memory_port s = Inr s"
  "rp_lock_source memory_port = memory_lock_source" "rp_lock_live_references memory_port = memory_lock_live_references"
  "rp_lock_manifest memory_port = memory_lock_manifest" "rp_upsert_tombstone memory_port = memory_upsert_tombstone"
  "rp_switch_reference memory_port = memory_switch_reference" "rp_delete_source memory_port = memory_delete_source"
  "rp_lock_expired_manifests memory_port = memory_lock_expired_manifests"
  "rp_delete_report_dependencies memory_port = memory_delete_report_dependencies"
  "rp_delete_manifest_items memory_port = memory_delete_manifest_items"
  "rp_delete_manifest memory_port = memory_delete_manifest"
  "rp_lock_unreferenced_tombstones memory_port = memory_lock_unreferenced_tombstones"
  "rp_delete_tombstone memory_port = memory_delete_tombstone"
  by (simp_all add: memory_port_def)

lemma memory_lock_references_law:
  assumes "memory_ready s" and "memory_lock_live_references e s = Inr (rs, t)"
  shows "memory_ready t \<and> memory_view t = memory_view s \<and> set rs = rv_live (memory_view s) e \<and> distinct (map mir_id rs)"
  using assms by (auto simp: memory_lock_live_references_def memory_ready_def memory_view_def distinct_map
      intro: inj_on_subset)

lemma memory_dependencies_law:
  assumes "memory_ready s" and "memory_delete_report_dependencies m s = Inr (u, t)"
  shows "memory_ready t \<and> memory_view t = memory_view s"
proof -
  have "t = memory_emit ''report_dependencies_deleted''
      (s\<lparr>mem_report_dependencies := removeAll m (mem_report_dependencies s)\<rparr>)"
    using assms(2) by (auto simp: memory_delete_report_dependencies_def split: if_splits)
  then show ?thesis using assms(1) by simp (simp add: memory_view_def memory_ready_def)
qed

lemma memory_ids:
  assumes "memory_ready s"
  shows "rv_sources (memory_view s) e = Some x \<Longrightarrow> se_id x = e"
    and "rv_manifests (memory_view s) m = Some k \<Longrightarrow> rmf_id k = m"
    and "rv_tombs (memory_view s) i = Some b \<Longrightarrow> rto_id b = i"
    and "inj_on mir_id (rv_live (memory_view s) e)"
  using assms by (auto simp: memory_view_def memory_ready_def distinct_map intro: inj_on_subset dest!: row_of_SomeD)

interpretation memory: retention_laws memory_port memory_ready memory_view "\<lambda>_ _. True" memory_ready memory_view
  apply unfold_locales
  unfolding memory_ops
  subgoal by simp
  subgoal by simp
  subgoal by (rule memory_ids)
  subgoal by (rule memory_ids)
  subgoal by (rule memory_ids)
  subgoal by (rule memory_ids)
  subgoal by (auto simp: memory_lock_source_def memory_view_def)
  subgoal by (auto dest: memory_lock_references_law)
  subgoal by (auto simp: memory_lock_manifest_def memory_view_def)
  subgoal by (drule (1) memory_upsert_law) simp
  subgoal by (drule (2) memory_switch_law) simp
  subgoal for s e u t by (drule (1) memory_delete_source_law) (auto intro!: exI [of _ "{e}"])
  subgoal using memory_expired by (simp add: memory_lock_expired_manifests_def)
  subgoal by (rule memory_dependencies_law)
  subgoal by (rule memory_delete_items_law)
  subgoal by (rule memory_delete_manifest_law)
  subgoal using memory_orphans by (simp add: memory_lock_unreferenced_tombstones_def)
  subgoal by (rule memory_delete_tombstone_law)
  done

section \<open>Evidence is never lost\<close>

lemma fold_put_distinct: "distinct (map key acc) \<Longrightarrow> distinct (map key (fold (put_row key) xs acc))"
  by (induction xs arbitrary: acc) (simp_all add: distinct_put)

lemma fold_put_subset: "set (fold (put_row key) xs acc) \<subseteq> set xs \<union> set acc"
proof (induction xs arbitrary: acc)
  case (Cons x xs)
  have "set (put_row key x acc) \<subseteq> insert x (set acc)" by (auto simp: put_row_def)
  with Cons [of "put_row key x acc"] show ?case by auto
qed simp

lemma memory_of_ready:
  assumes "distinct uuid4" and "\<forall>r \<in> set references. mir_tombstone_id r = None"
  shows "memory_ready (memory_of sources manifests references uuid4)"
    and "sound_view (memory_view (memory_of sources manifests references uuid4))"
proof -
  have refs: "\<forall>r \<in> set (fold (put_row mir_id) references []). mir_tombstone_id r = None"
    using fold_put_subset [of mir_id references "[]"] assms(2) by auto
  show "memory_ready (memory_of sources manifests references uuid4)"
    using assms(1) refs by (simp add: memory_ready_def memory_of_def Let_def fold_put_distinct)
  show "sound_view (memory_view (memory_of sources manifests references uuid4))"
    using refs by (auto simp: sound_view_def memory_view_def memory_of_def Let_def)
qed


section \<open>Expiry succeeds\<close>

lemma memory_emit_fields [simp]:
  "mem_manifests (memory_emit x s) = mem_manifests s" "mem_references (memory_emit x s) = mem_references s"
  "mem_tombstones (memory_emit x s) = mem_tombstones s" "mem_sources (memory_emit x s) = mem_sources s"
  "mem_report_dependencies (memory_emit x s) = mem_report_dependencies s"
  by (simp_all add: memory_emit_def)

lemma memory_lock_expired_set:
  "set (sort_key (\<lambda>m. (rmf_retain_until m, uuid_str (rmf_id m))) (filter (\<lambda>m. rmf_retain_until m \<le> now) (mem_manifests s)))
    = {m \<in> set (mem_manifests s). rmf_retain_until m \<le> now}"
  by auto

lemma memory_dependencies_total:
  assumes "distinct (map rmf_id ms)" and "rmf_id ` set ms \<subseteq> set (mem_report_dependencies s)"
  shows "\<exists>t. each (\<lambda>m. memory_delete_report_dependencies (rmf_id m)) ms s = Inr ((), t)
    \<and> mem_manifests t = mem_manifests s \<and> mem_references t = mem_references s \<and> mem_tombstones t = mem_tombstones s
    \<and> set (mem_report_dependencies t) = set (mem_report_dependencies s) - rmf_id ` set ms"
  using assms
proof (induction ms arbitrary: s)
  case Nil
  then show ?case by (simp add: give_def)
next
  case (Cons m ms)
  let ?r = "memory_emit ''report_dependencies_deleted''
    (s\<lparr>mem_report_dependencies := removeAll (rmf_id m) (mem_report_dependencies s)\<rparr>)"
  have r: "memory_delete_report_dependencies (rmf_id m) s = Inr ((), ?r)"
    using Cons.prems(2) by (simp add: memory_delete_report_dependencies_def)
  have "rmf_id ` set ms \<subseteq> set (mem_report_dependencies ?r)"
    using Cons.prems by (simp add: subset_Diff_insert)
  from Cons.IH [OF _ this] Cons.prems(1) show ?case by (auto simp: and_then_def r)
qed

lemma memory_items_total:
  assumes "set (mem_report_dependencies s) \<inter> rmf_id ` set ms = {}"
  shows "\<exists>t. each (\<lambda>m. memory_delete_manifest_items (rmf_id m)) ms s = Inr ((), t)
    \<and> mem_manifests t = mem_manifests s \<and> mem_tombstones t = mem_tombstones s
    \<and> set (mem_references t) = {r \<in> set (mem_references s). mir_manifest_id r \<notin> rmf_id ` set ms}"
  using assms
proof (induction ms arbitrary: s)
  case Nil
  then show ?case by (simp add: give_def)
next
  case (Cons m ms)
  let ?r = "memory_emit ''manifest_items_deleted''
    (s\<lparr>mem_references := filter (\<lambda>r. mir_manifest_id r \<noteq> rmf_id m) (mem_references s)\<rparr>)"
  have r: "memory_delete_manifest_items (rmf_id m) s = Inr ((), ?r)"
    using Cons.prems by (simp add: memory_delete_manifest_items_def)
  have "set (mem_report_dependencies ?r) \<inter> rmf_id ` set ms = {}" using Cons.prems by auto
  from Cons.IH [OF this] show ?case by (auto simp: and_then_def r)
qed

lemma memory_manifests_total:
  assumes "distinct (map rmf_id ms)" and "rmf_id ` set ms \<subseteq> rmf_id ` set (mem_manifests s)"
    and "\<forall>r \<in> set (mem_references s). mir_manifest_id r \<notin> rmf_id ` set ms"
  shows "\<exists>t. each (\<lambda>m. memory_delete_manifest (rmf_id m)) ms s = Inr ((), t)
    \<and> mem_references t = mem_references s \<and> mem_tombstones t = mem_tombstones s"
  using assms
proof (induction ms arbitrary: s)
  case Nil
  then show ?case by (simp add: give_def)
next
  case (Cons m ms)
  let ?r = "memory_emit ''manifest_deleted'' (s\<lparr>mem_manifests := drop_row rmf_id (rmf_id m) (mem_manifests s)\<rparr>)"
  have r: "memory_delete_manifest (rmf_id m) s = Inr ((), ?r)"
    using Cons.prems(2,3) by (auto simp: memory_delete_manifest_def)
  have "rmf_id ` set ms \<subseteq> rmf_id ` set (mem_manifests ?r)"
    using Cons.prems(1,2) by (simp add: keys_drop subset_Diff_insert)
  moreover have "\<forall>r \<in> set (mem_references ?r). mir_manifest_id r \<notin> rmf_id ` set ms"
    using Cons.prems(3) by simp
  ultimately show ?case
    using Cons.IH [of ?r] Cons.prems(1) by (auto simp: and_then_def r)
qed

lemma memory_tombstones_total:
  assumes "distinct (map rto_id bs)" and "rto_id ` set bs \<subseteq> rto_id ` set (mem_tombstones s)"
    and "\<forall>r \<in> set (mem_references s). mir_tombstone_id r \<notin> Some ` rto_id ` set bs"
  shows "\<exists>t. each (\<lambda>b. memory_delete_tombstone (rto_id b)) bs s = Inr ((), t)"
  using assms
proof (induction bs arbitrary: s)
  case Nil
  then show ?case by (simp add: give_def)
next
  case (Cons b bs)
  let ?r = "memory_emit ''tombstone_deleted'' (s\<lparr>mem_tombstones := drop_row rto_id (rto_id b) (mem_tombstones s)\<rparr>)"
  have r: "memory_delete_tombstone (rto_id b) s = Inr ((), ?r)"
    using Cons.prems(2,3) by (auto simp: memory_delete_tombstone_def)
  have "rto_id ` set bs \<subseteq> rto_id ` set (mem_tombstones ?r)"
    using Cons.prems(1,2) by (simp add: keys_drop subset_Diff_insert)
  moreover have "\<forall>r \<in> set (mem_references ?r). mir_tombstone_id r \<notin> Some ` rto_id ` set bs"
    using Cons.prems(3) by simp
  ultimately show ?case using Cons.IH [of ?r] Cons.prems(1) by (simp add: and_then_def r)
qed

lemma memory_expiry_lemma:
  assumes ready: "memory_ready s" and deps: "rmf_id ` set (mem_manifests s) \<subseteq> set (mem_report_dependencies s)"
  shows "\<exists>outcome t. expire_retained_reports memory_port now s = Inr (outcome, t)"
proof -
  let ?ms = "sort_key (\<lambda>m. (rmf_retain_until m, uuid_str (rmf_id m))) (filter (\<lambda>m. rmf_retain_until m \<le> now) (mem_manifests s))"
  have ids: "distinct (map rmf_id (mem_manifests s))" "distinct (map rto_id (mem_tombstones s))"
    using ready by (simp_all add: memory_ready_def)
  have ms: "distinct (map rmf_id ?ms)" "set ?ms \<subseteq> set (mem_manifests s)"
    using ids(1) by (auto simp: distinct_map intro: inj_on_subset)
  have "rmf_id ` set ?ms \<subseteq> set (mem_report_dependencies s)" using ms(2) deps by blast
  from memory_dependencies_total [OF ms(1) this] obtain a where
    a: "each (\<lambda>m. memory_delete_report_dependencies (rmf_id m)) ?ms s = Inr ((), a)"
    "mem_manifests a = mem_manifests s" "mem_tombstones a = mem_tombstones s"
    "set (mem_report_dependencies a) = set (mem_report_dependencies s) - rmf_id ` set ?ms" by blast
  have "set (mem_report_dependencies a) \<inter> rmf_id ` set ?ms = {}" unfolding a(4) by blast
  from memory_items_total [OF this] obtain b where
    b: "each (\<lambda>m. memory_delete_manifest_items (rmf_id m)) ?ms a = Inr ((), b)"
    "mem_manifests b = mem_manifests s" "mem_tombstones b = mem_tombstones s"
    "set (mem_references b) = {r \<in> set (mem_references a). mir_manifest_id r \<notin> rmf_id ` set ?ms}"
    using a(2,3) by auto
  have "rmf_id ` set ?ms \<subseteq> rmf_id ` set (mem_manifests b)" "\<forall>r \<in> set (mem_references b). mir_manifest_id r \<notin> rmf_id ` set ?ms"
    using ms(2) b(2,4) by auto
  from memory_manifests_total [OF ms(1) this] obtain c where
    c: "each (\<lambda>m. memory_delete_manifest (rmf_id m)) ?ms b = Inr ((), c)"
    "mem_references c = mem_references b" "mem_tombstones c = mem_tombstones s" using b(3) by auto
  let ?ts = "filter (\<lambda>t. Some (rto_id t) \<notin> mir_tombstone_id ` set (mem_references c) \<and> rto_retain_until t \<le> now)
    (memory_tombstones c)"
  have "distinct (map rto_id ?ts)" "rto_id ` set ?ts \<subseteq> rto_id ` set (mem_tombstones c)"
    using ids(2) c(3) by (auto simp: memory_tombstones_def distinct_map intro: inj_on_subset)
  moreover have "\<forall>r \<in> set (mem_references c). mir_tombstone_id r \<notin> Some ` rto_id ` set ?ts"
    by (force simp: image_iff)
  ultimately obtain d where d: "each (\<lambda>b. memory_delete_tombstone (rto_id b)) ?ts c = Inr ((), d)"
    using memory_tombstones_total by blast
  have "expiry_body memory_port now s = Inr (\<lparr>eo_deleted_manifest_ids = map rmf_id ?ms, eo_deleted_tombstone_ids = map rto_id ?ts\<rparr>, d)"
    by (simp add: expiry_body_def and_then_def look_def give_def memory_lock_expired_manifests_def
        memory_lock_unreferenced_tombstones_def a(1) b(1) c(1) d)
  then show ?thesis by (simp add: expire_retained_reports_def transact_def)
qed

text \<open>On the reference adapter an expiry always succeeds and removes exactly the reports whose retention has
  ended, their references and links, and the tombstones that no remaining report links and whose own retention
  has ended; everything else stays.\<close>

theorem memory_expiry_exact:
  assumes "memory_ready s" and "rmf_id ` set (mem_manifests s) \<subseteq> set (mem_report_dependencies s)"
  shows "\<exists>outcome t. expire_retained_reports memory_port now s = Inr (outcome, t)
    \<and> memory_view t = expired_view now (memory_view s)
    \<and> set (eo_deleted_manifest_ids outcome) = Collect (expired_manifest (memory_view s) now)"
proof -
  obtain outcome t where run: "expire_retained_reports memory_port now s = Inr (outcome, t)"
    using memory_expiry_lemma [OF assms] by blast
  with memory.expiry_effect [OF assms(1) run] show ?thesis by blast
qed

section \<open>Examples\<close>

definition example_source :: source_entity where
  "example_source = \<lparr>se_id = 4, se_entity_kind = Entity_ANALYSIS, se_source_entity_hash = ''h'', se_source_id = Some 7,
     se_published_or_observed_at = None, se_retention_started_at = 0\<rparr>"

definition example_kept_manifest :: retained_manifest where
  "example_kept_manifest = \<lparr>rmf_id = 5, rmf_envelope = \<lparr>me_compressed_payload = '''', me_uncompressed_byte_length = 0,
     me_manifest_payload_sha256 = '''', me_input_set_hash = ''''\<rparr>, rmf_retain_until = days 180\<rparr>"

definition example_memory :: retention_memory where
  "example_memory = memory_of [example_source] [example_kept_manifest] [] [9]"

lemma example_memory_ready: "memory_ready example_memory" "mem_manifests example_memory = [example_kept_manifest]"
  "mem_report_dependencies example_memory = [5]"
  by (simp_all add: memory_ready_def example_memory_def memory_of_def Let_def put_row_def example_kept_manifest_def)

theorem memory_expiry_exact_witness:
  "\<exists>outcome t. expire_retained_reports memory_port (days 180) example_memory = Inr (outcome, t)
     \<and> set (eo_deleted_manifest_ids outcome) = {5}"
proof -
  have "Collect (expired_manifest (memory_view example_memory) (days 180)) = {5}"
    by (auto simp: expired_manifest_def memory_view_def example_memory_ready example_kept_manifest_def
        split: option.splits if_splits)
  with memory_expiry_exact [OF example_memory_ready(1), of "days 180"] show ?thesis
    by (auto simp: example_memory_ready example_kept_manifest_def)
qed

lemma example_memory_step:
  "\<exists>s. retention_step lib memory_port example_memory s \<and> mem_sources s = []"
proof -
  have "\<exists>outcome t. cleanup_source lib memory_port \<lparr>cr_source_entity_id = 4, cr_observed_at = days 30\<rparr> example_memory = Inr (outcome, t)
    \<and> mem_sources t = []"
    by (simp add: cleanup_source_def cleanup_body_def transact_def and_then_def memory_lock_source_def look_def
        example_memory_def memory_of_def Let_def put_row_def example_source_def eligible_at_def RAW_RETENTION_DAYS_def
        memory_lock_live_references_def give_def memory_delete_source_def drop_row_def)
  then show ?thesis by (blast intro: retention_step.cleaned_up)
qed


end
