(* ===== verification/Retention_Tables.thy ===== *)
theory Retention_Tables
  imports Retention_Contract Daily_Progress
begin

text \<open>
  \<open>reporting/retention_sql.py\<close> and its parts \<open>retention_sql_sources.py\<close>, \<open>retention_sql_statements.py\<close>,
  \<open>retention_sql_tombstones.py\<close>, \<open>retention_sql_deletion.py\<close>, \<open>retention_sql_expiry.py\<close> and
  \<open>retention_sql_orphans.py\<close>: the PostgreSQL adapter of the retention port, on the tables it reads and writes.

  A row keeps the columns these statements use. The declared constraints are part of the model: a foreign key
  with \<open>ON DELETE RESTRICT\<close> refuses the deletion of a referenced row at once, also where the key is declared
  deferrable (the check of \<open>RESTRICT\<close> cannot be deferred); an update of a row of a table in
  \<open>IMMUTABLE_UPDATE_TABLES\<close> of \<open>db/triggers.py\<close> is rejected by its trigger; a check constraint is tested before
  the row is written; a deferrable key of a written row is tested at commit.
\<close>

section \<open>Tables\<close>

record post_row =
  po_id :: uuid
  po_source_id :: uuid
  po_published_at :: instant
  po_current_version_id :: "uuid option"

record post_version_row =
  pv_id :: uuid
  pv_post_id :: uuid
  pv_content_hash :: string
  pv_collected_at :: instant

record analysis_row =
  an_id :: uuid
  an_post_version_id :: uuid
  an_output_hash :: string
  an_analyzed_at :: instant

record post_match_row =
  pm_id :: uuid
  pm_post_version_id :: uuid
  pm_match_hash :: string
  pm_matched_at :: instant

record engagement_row =
  eg_id :: uuid
  eg_post_version_id :: uuid
  eg_engagement_hash :: string
  eg_observed_at :: instant

record queue_item_row =
  qi_id :: uuid
  qi_post_id :: uuid
  qi_post_version_id :: uuid

record page_item_row =
  pci_id :: uuid
  pci_post_version_id :: "uuid option"

record observation_row =
  vo_id :: uuid
  vo_visible_publication_manifest_id :: "uuid option"

record manifest_item_row =
  mi_id :: uuid
  mi_manifest_id :: uuid
  mi_item_kind :: manifest_item_kind
  mi_ordinal :: int
  mi_role :: report_role
  mi_source_id :: uuid
  mi_source_entity_id :: "uuid option"
  mi_source_entity_hash :: "string option"
  mi_live_post_version_id :: "uuid option"
  mi_post_version_tombstone_id :: "uuid option"
  mi_live_analysis_id :: "uuid option"
  mi_live_engagement_observation_id :: "uuid option"
  mi_live_source_publication_manifest_id :: "uuid option"
  mi_value_slice_sha256 :: string

record item_match_row =
  im_id :: uuid
  im_manifest_item_id :: uuid
  im_post_match_id :: uuid

record item_tombstone_row =
  it_id :: uuid
  it_manifest_item_id :: uuid
  it_tombstone_id :: uuid

record retention_db =
  db_posts :: "post_row list"
  db_post_versions :: "post_version_row list"
  db_analyses :: "analysis_row list"
  db_post_matches :: "post_match_row list"
  db_engagements :: "engagement_row list"
  db_publications :: "publication_fingerprint list"
  db_queue_items :: "queue_item_row list"
  db_page_items :: "page_item_row list"
  db_observations :: "observation_row list"
  db_manifests :: "stored_manifest_row list"
  db_items :: "manifest_item_row list"
  db_item_matches :: "item_match_row list"
  db_item_tombstones :: "item_tombstone_row list"
  db_tombstones :: "retention_tombstone list"
  db_versions :: "daily_version_row list"
  db_reports :: "daily_report_row list"

section \<open>Sources and their references\<close>

fun first_some :: "'a option list \<Rightarrow> 'a option" where
  "first_some [] = None"
| "first_some (None # xs) = first_some xs"
| "first_some (Some x # xs) = Some x"

text \<open>The five statements \<open>LOCK_*_SOURCE\<close>, with their joins to the post.\<close>

definition version_post :: "retention_db \<Rightarrow> uuid \<Rightarrow> (post_version_row \<times> post_row) option" where
  "version_post db v =
     (case row_of pv_id v (db_post_versions db) of None \<Rightarrow> None
      | Some row \<Rightarrow> map_option (Pair row) (row_of po_id (pv_post_id row) (db_posts db)))"

fun source_of_kind :: "text_codec \<Rightarrow> retention_db \<Rightarrow> tombstone_entity_kind \<Rightarrow> uuid \<Rightarrow> source_entity option" where
  "source_of_kind codec db Entity_POST_VERSION e =
     (case version_post db e of None \<Rightarrow> None
      | Some (v, p) \<Rightarrow> Some \<lparr>se_id = pv_id v, se_entity_kind = Entity_POST_VERSION,
          se_source_entity_hash = pv_content_hash v, se_source_id = Some (po_source_id p),
          se_published_or_observed_at = Some (po_published_at p), se_retention_started_at = pv_collected_at v\<rparr>)"
| "source_of_kind codec db Entity_ANALYSIS e =
     (case row_of an_id e (db_analyses db) of None \<Rightarrow> None
      | Some a \<Rightarrow> map_option (\<lambda>(v, p). \<lparr>se_id = an_id a, se_entity_kind = Entity_ANALYSIS,
          se_source_entity_hash = an_output_hash a, se_source_id = Some (po_source_id p),
          se_published_or_observed_at = Some (an_analyzed_at a), se_retention_started_at = an_analyzed_at a\<rparr>)
          (version_post db (an_post_version_id a)))"
| "source_of_kind codec db Entity_MATCH e =
     (case row_of pm_id e (db_post_matches db) of None \<Rightarrow> None
      | Some m \<Rightarrow> map_option (\<lambda>(v, p). \<lparr>se_id = pm_id m, se_entity_kind = Entity_MATCH,
          se_source_entity_hash = pm_match_hash m, se_source_id = Some (po_source_id p),
          se_published_or_observed_at = Some (pm_matched_at m), se_retention_started_at = pm_matched_at m\<rparr>)
          (version_post db (pm_post_version_id m)))"
| "source_of_kind codec db Entity_ENGAGEMENT e =
     (case row_of eg_id e (db_engagements db) of None \<Rightarrow> None
      | Some g \<Rightarrow> map_option (\<lambda>(v, p). \<lparr>se_id = eg_id g, se_entity_kind = Entity_ENGAGEMENT,
          se_source_entity_hash = eg_engagement_hash g, se_source_id = Some (po_source_id p),
          se_published_or_observed_at = Some (eg_observed_at g), se_retention_started_at = eg_observed_at g\<rparr>)
          (version_post db (eg_post_version_id g)))"
| "source_of_kind codec db Entity_SOURCE_MANIFEST e =
     map_option (\<lambda>p. \<lparr>se_id = pf_id p, se_entity_kind = Entity_SOURCE_MANIFEST,
       se_source_entity_hash = publication_hash codec p, se_source_id = Some (pf_source_id p),
       se_published_or_observed_at = Some (pf_committed_at p), se_retention_started_at = pf_committed_at p\<rparr>)
       (row_of pf_id e (db_publications db))"

definition source_locks :: "tombstone_entity_kind list" where
  "source_locks = [Entity_POST_VERSION, Entity_ANALYSIS, Entity_MATCH, Entity_ENGAGEMENT, Entity_SOURCE_MANIFEST]"

definition lock_source_row :: "text_codec \<Rightarrow> retention_db \<Rightarrow> uuid \<Rightarrow> source_entity option" where
  "lock_source_row codec db e = first_some (map (\<lambda>kind. source_of_kind codec db kind e) source_locks)"

text \<open>The live column of an item for a kind of source; matches have a table of their own.\<close>

fun live_link :: "tombstone_entity_kind \<Rightarrow> manifest_item_row \<Rightarrow> uuid option" where
  "live_link Entity_POST_VERSION i = mi_live_post_version_id i"
| "live_link Entity_ANALYSIS i = mi_live_analysis_id i"
| "live_link Entity_ENGAGEMENT i = mi_live_engagement_observation_id i"
| "live_link Entity_SOURCE_MANIFEST i = mi_live_source_publication_manifest_id i"
| "live_link Entity_MATCH i = None"

text \<open>The five statements \<open>LOCK_*_REFERENCES\<close>: pairs of the id of the referencing row and its item.\<close>

definition match_pair :: "retention_db \<Rightarrow> item_match_row \<Rightarrow> (uuid \<times> manifest_item_row) option" where
  "match_pair db l = map_option (Pair (im_id l)) (row_of mi_id (im_manifest_item_id l) (db_items db))"

definition reference_pairs :: "retention_db \<Rightarrow> tombstone_entity_kind \<Rightarrow> uuid \<Rightarrow> (uuid \<times> manifest_item_row) list" where
  "reference_pairs db kind e =
     (if kind = Entity_MATCH
      then List.map_filter (match_pair db) (filter (\<lambda>l. im_post_match_id l = e) (db_item_matches db))
      else map (\<lambda>i. (mi_id i, i)) (filter (\<lambda>i. live_link kind i = Some e) (db_items db)))"

definition reference_of :: "source_entity \<Rightarrow> uuid \<times> manifest_item_row \<Rightarrow> manifest_item_reference" where
  "reference_of source = (\<lambda>(reference_id, i).
     \<lparr>mir_id = reference_id, mir_manifest_id = mi_manifest_id i, mir_item_kind = mi_item_kind i, mir_role = mi_role i,
      mir_ordinal = mi_ordinal i, mir_source_id = mi_source_id i, mir_source_entity_id = se_id source,
      mir_source_entity_hash = se_source_entity_hash source, mir_value_slice_sha256 = mi_value_slice_sha256 i,
      mir_live_source_entity_id = Some (se_id source), mir_tombstone_id = None\<rparr>)"

record reference_switch_target =
  rst_reference_id :: uuid
  rst_manifest_item_id :: uuid
  rst_source_entity_id :: uuid
  rst_entity_kind :: tombstone_entity_kind

definition target_of :: "source_entity \<Rightarrow> uuid \<times> manifest_item_row \<Rightarrow> reference_switch_target" where
  "target_of source = (\<lambda>(reference_id, i).
     \<lparr>rst_reference_id = reference_id, rst_manifest_item_id = mi_id i, rst_source_entity_id = se_id source,
      rst_entity_kind = se_entity_kind source\<rparr>)"

definition lock_reference_rows ::
    "retention_db \<Rightarrow> source_entity \<Rightarrow> manifest_item_reference list \<times> reference_switch_target list" where
  "lock_reference_rows db source =
     (let rows = sort_key (\<lambda>(reference_id, i). (mi_manifest_id i, reference_id))
            (reference_pairs db (se_entity_kind source) (se_id source))
      in (map (reference_of source) rows, map (target_of source) rows))"

section \<open>Eligible sources\<close>

definition MAX_RETENTION_BATCH :: nat where "MAX_RETENTION_BATCH = 1000"

text \<open>\<open>ELIGIBLE_SOURCE_IDS\<close>: the union of the five tables with a priority.\<close>

definition retention_candidates :: "retention_db \<Rightarrow> (nat \<times> instant \<times> uuid) list" where
  "retention_candidates db =
     map (\<lambda>a. (1, an_analyzed_at a, an_id a)) (db_analyses db)
     @ map (\<lambda>m. (2, pm_matched_at m, pm_id m)) (db_post_matches db)
     @ map (\<lambda>g. (3, eg_observed_at g, eg_id g)) (db_engagements db)
     @ map (\<lambda>p. (4, pf_committed_at p, pf_id p)) (db_publications db)
     @ map (\<lambda>v. (5, pv_collected_at v, pv_id v)) (db_post_versions db)"

definition eligible_source_ids :: "retention_db \<Rightarrow> instant \<Rightarrow> nat \<Rightarrow> retention_error + uuid list" where
  "eligible_source_ids db observed_at limit =
     (if \<not> (1 \<le> limit \<and> limit \<le> MAX_RETENTION_BATCH)
      then Inl (Retention_Value_Error ''retention_batch_limit_invalid'')
      else let cutoff = observed_at - days RAW_RETENTION_DAYS
           in Inr (map (\<lambda>(_, _, e). e) (take limit (sort (filter (\<lambda>(_, started, _). started \<le> cutoff)
                (retention_candidates db))))))"

section \<open>Tombstones\<close>

record sql_transaction =
  tx_db :: retention_db
  tx_locked_source :: "source_entity option"
  tx_targets :: "reference_switch_target list"
  tx_draws :: nat

type_synonym 'a sql_action = "(sql_transaction, retention_error, 'a) action"

definition tombstone_row :: "uuid \<Rightarrow> tombstone_candidate \<Rightarrow> retention_tombstone" where
  "tombstone_row u c =
     \<lparr>rto_id = u, rto_identity = tc_identity c, rto_source_id = tc_source_id c,
      rto_published_or_observed_at = tc_published_or_observed_at c, rto_deleted_at = tc_deleted_at c,
      rto_deletion_reason = tc_deletion_reason c, rto_first_manifest_id = tc_first_manifest_id c,
      rto_retain_until = tc_retain_until c\<rparr>"

text \<open>\<open>INSERT ... ON CONFLICT DO UPDATE ... RETURNING\<close>. The check constraint \<open>tombstone_retention_window\<close> is
  tested on the proposed row.\<close>

definition upsert_tombstone_row :: "(nat \<Rightarrow> uuid) \<Rightarrow> tombstone_candidate \<Rightarrow> retention_tombstone sql_action" where
  "upsert_tombstone_row uuid4 c s =
     (let db = tx_db s; u = uuid4 (tx_draws s); s' = s\<lparr>tx_draws := tx_draws s + 1\<rparr>
      in if tc_retain_until c \<le> tc_deleted_at c then Inl Constraint_Violated
         else (case List.find (\<lambda>t. rto_identity t = tc_identity c) (db_tombstones db) of
             Some t \<Rightarrow>
               let t' = t\<lparr>rto_retain_until := max (rto_retain_until t) (tc_retain_until c)\<rparr>
               in Inr (t', s'\<lparr>tx_db := db\<lparr>db_tombstones := put_row rto_id t' (db_tombstones db)\<rparr>\<rparr>)
           | None \<Rightarrow>
               if u \<in> rto_id ` set (db_tombstones db) then Inl Constraint_Violated
               else Inr (tombstone_row u c,
                 s'\<lparr>tx_db := db\<lparr>db_tombstones := db_tombstones db @ [tombstone_row u c]\<rparr>\<rparr>)))"

fun unlink :: "tombstone_entity_kind \<Rightarrow> uuid \<Rightarrow> manifest_item_row \<Rightarrow> manifest_item_row" where
  "unlink Entity_POST_VERSION t i = i\<lparr>mi_live_post_version_id := None, mi_post_version_tombstone_id := Some t\<rparr>"
| "unlink Entity_ANALYSIS t i = i\<lparr>mi_live_analysis_id := None\<rparr>"
| "unlink Entity_ENGAGEMENT t i = i\<lparr>mi_live_engagement_observation_id := None\<rparr>"
| "unlink Entity_SOURCE_MANIFEST t i = i\<lparr>mi_live_source_publication_manifest_id := None\<rparr>"
| "unlink Entity_MATCH t i = i"

definition switched_items :: "reference_switch_target \<Rightarrow> uuid \<Rightarrow> retention_db \<Rightarrow> retention_db option" where
  "switched_items target t db =
     (let kind = rst_entity_kind target;
          hit = (\<lambda>i. mi_id i = rst_manifest_item_id target \<and> live_link kind i = Some (rst_source_entity_id target))
      in if \<exists>i \<in> set (db_items db). hit i
         then Some (db\<lparr>db_items := map (\<lambda>i. if hit i then unlink kind t i else i) (db_items db)\<rparr>) else None)"

definition switched_matches :: "reference_switch_target \<Rightarrow> retention_db \<Rightarrow> retention_db option" where
  "switched_matches target db =
     (let hit = (\<lambda>l. im_id l = rst_reference_id target \<and> im_post_match_id l = rst_source_entity_id target)
      in if \<exists>l \<in> set (db_item_matches db). hit l
         then Some (db\<lparr>db_item_matches := filter (\<lambda>l. \<not> hit l) (db_item_matches db)\<rparr>) else None)"

text \<open>The tombstone must exist: the columns that receive its id are foreign keys.\<close>

definition link_tombstone :: "(nat \<Rightarrow> uuid) \<Rightarrow> uuid \<Rightarrow> uuid \<Rightarrow> unit sql_action" where
  "link_tombstone uuid4 item t s =
     (let db = tx_db s; u = uuid4 (tx_draws s); s' = s\<lparr>tx_draws := tx_draws s + 1\<rparr>
      in if \<exists>l \<in> set (db_item_tombstones db). it_manifest_item_id l = item \<and> it_tombstone_id l = t then Inr ((), s')
         else if u \<in> it_id ` set (db_item_tombstones db) then Inl Constraint_Violated
         else Inr ((), s'\<lparr>tx_db := db\<lparr>db_item_tombstones := db_item_tombstones db @
                [\<lparr>it_id = u, it_manifest_item_id = item, it_tombstone_id = t\<rparr>]\<rparr>\<rparr>))"

definition switch_reference_row :: "(nat \<Rightarrow> uuid) \<Rightarrow> reference_switch_target \<Rightarrow> uuid \<Rightarrow> unit sql_action" where
  "switch_reference_row uuid4 target t s =
     (let kind = rst_entity_kind target
      in case (if kind = Entity_MATCH then switched_matches target (tx_db s) else switched_items target t (tx_db s)) of
           None \<Rightarrow> Inl (Retention_Runtime_Error ''retention_reference_switch_failed'')
         | Some db \<Rightarrow>
             if t \<notin> rto_id ` set (db_tombstones db) then Inl Constraint_Violated
             else if kind = Entity_POST_VERSION then Inr ((), s\<lparr>tx_db := db\<rparr>)
             else link_tombstone uuid4 (rst_manifest_item_id target) t (s\<lparr>tx_db := db\<rparr>))"

end
