(* ===== verification/Retention_SQL.thy ===== *)
theory Retention_SQL
  imports Retention_Tables
begin

text \<open>
  The deletions of the PostgreSQL adapter (\<open>retention_sql_deletion.py\<close>, \<open>retention_sql_expiry.py\<close>,
  \<open>retention_sql_orphans.py\<close>), its transaction (\<open>retention_sql.py\<close>) and the bounded pass of
  \<open>retention_coordinator.py\<close>.
\<close>

section \<open>Deletion of a source\<close>

text \<open>The foreign keys into the five source tables.\<close>

fun referenced :: "retention_db \<Rightarrow> tombstone_entity_kind \<Rightarrow> uuid \<Rightarrow> bool" where
  "referenced db Entity_ANALYSIS e \<longleftrightarrow> (\<exists>i \<in> set (db_items db). mi_live_analysis_id i = Some e)"
| "referenced db Entity_MATCH e \<longleftrightarrow> (\<exists>l \<in> set (db_item_matches db). im_post_match_id l = e)"
| "referenced db Entity_ENGAGEMENT e \<longleftrightarrow> (\<exists>i \<in> set (db_items db). mi_live_engagement_observation_id i = Some e)"
| "referenced db Entity_SOURCE_MANIFEST e \<longleftrightarrow>
     (\<exists>i \<in> set (db_items db). mi_live_source_publication_manifest_id i = Some e)
     \<or> (\<exists>x \<in> set (db_observations db). vo_visible_publication_manifest_id x = Some e)"
| "referenced db Entity_POST_VERSION e \<longleftrightarrow>
     (\<exists>i \<in> set (db_items db). mi_live_post_version_id i = Some e)
     \<or> (\<exists>a \<in> set (db_analyses db). an_post_version_id a = e) \<or> (\<exists>m \<in> set (db_post_matches db). pm_post_version_id m = e)
     \<or> (\<exists>g \<in> set (db_engagements db). eg_post_version_id g = e)
     \<or> (\<exists>q \<in> set (db_queue_items db). qi_post_version_id q = e)
     \<or> (\<exists>c \<in> set (db_page_items db). pci_post_version_id c = Some e)
     \<or> (\<exists>p \<in> set (db_posts db). po_current_version_id p = Some e)"

text \<open>The statements of \<open>_delete_post_version\<close>, in their order.\<close>

type_synonym db_action = "retention_db \<Rightarrow> retention_error + retention_db"

definition delete_version_analyses :: "uuid \<Rightarrow> db_action" where
  "delete_version_analyses v db =
     (if \<exists>a \<in> set (db_analyses db). an_post_version_id a = v \<and> referenced db Entity_ANALYSIS (an_id a)
      then Inl Constraint_Violated
      else Inr (db\<lparr>db_analyses := filter (\<lambda>a. an_post_version_id a \<noteq> v) (db_analyses db)\<rparr>))"

definition delete_version_matches :: "uuid \<Rightarrow> db_action" where
  "delete_version_matches v db =
     (if \<exists>m \<in> set (db_post_matches db). pm_post_version_id m = v \<and> referenced db Entity_MATCH (pm_id m)
      then Inl Constraint_Violated
      else Inr (db\<lparr>db_post_matches := filter (\<lambda>m. pm_post_version_id m \<noteq> v) (db_post_matches db)\<rparr>))"

definition delete_version_engagements :: "uuid \<Rightarrow> db_action" where
  "delete_version_engagements v db =
     (if \<exists>g \<in> set (db_engagements db). eg_post_version_id g = v \<and> referenced db Entity_ENGAGEMENT (eg_id g)
      then Inl Constraint_Violated
      else Inr (db\<lparr>db_engagements := filter (\<lambda>g. eg_post_version_id g \<noteq> v) (db_engagements db)\<rparr>))"

definition delete_version_queue_items :: "uuid \<Rightarrow> db_action" where
  "delete_version_queue_items v db =
     Inr (db\<lparr>db_queue_items := filter (\<lambda>q. qi_post_version_id q \<noteq> v) (db_queue_items db)\<rparr>)"

text \<open>\<open>page_commit_items\<close> is one of the immutable tables.\<close>

definition clear_page_items :: "uuid \<Rightarrow> db_action" where
  "clear_page_items v db =
     (if \<exists>c \<in> set (db_page_items db). pci_post_version_id c = Some v then Inl Immutable_Row_Updated else Inr db)"

definition clear_current_version :: "uuid \<Rightarrow> uuid \<Rightarrow> db_action" where
  "clear_current_version post v db =
     Inr (db\<lparr>db_posts := map (\<lambda>p. if po_id p = post \<and> po_current_version_id p = Some v
        then p\<lparr>po_current_version_id := None\<rparr> else p) (db_posts db)\<rparr>)"

definition delete_version_row :: "uuid \<Rightarrow> db_action" where
  "delete_version_row v db =
     (if referenced db Entity_POST_VERSION v then Inl Constraint_Violated
      else Inr (db\<lparr>db_post_versions := drop_row pv_id v (db_post_versions db)\<rparr>))"

definition delete_orphan_post :: "uuid \<Rightarrow> db_action" where
  "delete_orphan_post post db =
     (if (\<exists>v \<in> set (db_post_versions db). pv_post_id v = post) \<or> post \<notin> po_id ` set (db_posts db) then Inr db
      else if \<exists>q \<in> set (db_queue_items db). qi_post_id q = post then Inl Constraint_Violated
      else Inr (db\<lparr>db_posts := drop_row po_id post (db_posts db)\<rparr>))"

definition delete_post_version :: "uuid \<Rightarrow> db_action" where
  "delete_post_version v db =
     (case row_of pv_id v (db_post_versions db) of
        None \<Rightarrow> Inl No_Row_Found
      | Some row \<Rightarrow>
          fold_result (\<lambda>db statement. statement db) db
            [delete_version_analyses v, delete_version_matches v, delete_version_engagements v,
             delete_version_queue_items v, clear_page_items v, clear_current_version (pv_post_id row) v,
             delete_version_row v, delete_orphan_post (pv_post_id row)])"

fun kind_ids :: "retention_db \<Rightarrow> tombstone_entity_kind \<Rightarrow> uuid list" where
  "kind_ids db Entity_POST_VERSION = map pv_id (db_post_versions db)"
| "kind_ids db Entity_ANALYSIS = map an_id (db_analyses db)"
| "kind_ids db Entity_MATCH = map pm_id (db_post_matches db)"
| "kind_ids db Entity_ENGAGEMENT = map eg_id (db_engagements db)"
| "kind_ids db Entity_SOURCE_MANIFEST = map pf_id (db_publications db)"

fun drop_source :: "tombstone_entity_kind \<Rightarrow> uuid \<Rightarrow> retention_db \<Rightarrow> retention_db" where
  "drop_source Entity_ANALYSIS e db = db\<lparr>db_analyses := drop_row an_id e (db_analyses db)\<rparr>"
| "drop_source Entity_MATCH e db = db\<lparr>db_post_matches := drop_row pm_id e (db_post_matches db)\<rparr>"
| "drop_source Entity_ENGAGEMENT e db = db\<lparr>db_engagements := drop_row eg_id e (db_engagements db)\<rparr>"
| "drop_source Entity_SOURCE_MANIFEST e db = db\<lparr>db_publications := drop_row pf_id e (db_publications db)\<rparr>"
| "drop_source Entity_POST_VERSION e db = db\<lparr>db_post_versions := drop_row pv_id e (db_post_versions db)\<rparr>"

definition delete_source_row :: "source_entity \<Rightarrow> db_action" where
  "delete_source_row source db =
     (if se_entity_kind source = Entity_POST_VERSION then delete_post_version (se_id source) db
      else if se_id source \<notin> set (kind_ids db (se_entity_kind source))
      then Inl (Retention_Runtime_Error ''retention_source_delete_failed'')
      else if referenced db (se_entity_kind source) (se_id source) then Inl Constraint_Violated
      else Inr (drop_source (se_entity_kind source) (se_id source) db))"

section \<open>Expiry\<close>

definition retained_manifest_of :: "stored_manifest_row \<Rightarrow> retained_manifest" where
  "retained_manifest_of m = \<lparr>rmf_id = smr_id m, rmf_envelope = smr_envelope m, rmf_retain_until = smr_retain_until m\<rparr>"

definition lock_expired_manifest_rows :: "retention_db \<Rightarrow> instant \<Rightarrow> retained_manifest list" where
  "lock_expired_manifest_rows db observed_at =
     map retained_manifest_of (sort_key (\<lambda>m. (smr_retain_until m, smr_id m))
       (filter (\<lambda>m. smr_retain_until m \<le> observed_at) (db_manifests db)))"

text \<open>The foreign keys into \<open>daily_report_versions\<close>: from its manifest, its report and a later version.\<close>

definition version_referenced :: "retention_db \<Rightarrow> uuid \<Rightarrow> bool" where
  "version_referenced db v \<longleftrightarrow>
     (\<exists>m \<in> set (db_manifests db). smr_report_version_id m = v)
     \<or> (\<exists>r \<in> set (db_reports db). drr_latest_version_id r = Some v)
     \<or> (\<exists>x \<in> set (db_versions db). dvr_supersedes_version_id x = Some v)"

definition latest_revision :: "daily_version_row list \<Rightarrow> daily_version_row option" where
  "latest_revision vs = max_by dvr_revision vs"

definition repoint_report :: "uuid \<Rightarrow> uuid \<Rightarrow> db_action" where
  "repoint_report report version db =
     (let db' = db\<lparr>db_reports := map (\<lambda>r. if drr_id r = report \<and> drr_latest_version_id r = Some version
            then r\<lparr>drr_latest_version_id := None\<rparr> else r) (db_reports db)\<rparr>
      in if \<exists>x \<in> set (db_versions db). dvr_supersedes_version_id x = Some version then Inl Immutable_Row_Updated
         else if version_referenced db' version then Inl Constraint_Violated
         else Inr (db'\<lparr>db_versions := drop_row dvr_id version (db_versions db)\<rparr>))"

definition replace_latest :: "uuid \<Rightarrow> db_action" where
  "replace_latest report db =
     (case latest_revision (filter (\<lambda>x. dvr_report_id x = report) (db_versions db)) of
        None \<Rightarrow> Inr (db\<lparr>db_reports := drop_row drr_id report (db_reports db)\<rparr>)
      | Some x \<Rightarrow> Inr (db\<lparr>db_reports := map (\<lambda>r. if drr_id r = report \<and> drr_latest_version_id r = None
            then r\<lparr>drr_latest_version_id := Some (dvr_id x)\<rparr> else r) (db_reports db)\<rparr>))"

definition delete_report_dependencies_row :: "uuid \<Rightarrow> db_action" where
  "delete_report_dependencies_row m db =
     (case filter (\<lambda>x. dvr_manifest_id x = m) (db_versions db) of
        [version] \<Rightarrow>
          (case filter (\<lambda>r. drr_id r = dvr_report_id version) (db_reports db) of
             [report] \<Rightarrow>
               (case repoint_report (drr_id report) (dvr_id version) db of Inl e \<Rightarrow> Inl e
                | Inr db' \<Rightarrow> replace_latest (drr_id report) db')
           | _ \<Rightarrow> Inl No_Row_Found)
      | _ \<Rightarrow> Inl No_Row_Found)"

definition delete_manifest_items_rows :: "uuid \<Rightarrow> retention_db \<Rightarrow> retention_db" where
  "delete_manifest_items_rows m db =
     (let ids = map mi_id (filter (\<lambda>i. mi_manifest_id i = m) (db_items db))
      in db\<lparr>db_item_matches := filter (\<lambda>l. im_manifest_item_id l \<notin> set ids) (db_item_matches db),
            db_item_tombstones := filter (\<lambda>l. it_manifest_item_id l \<notin> set ids) (db_item_tombstones db),
            db_items := filter (\<lambda>i. mi_id i \<notin> set ids) (db_items db)\<rparr>)"

definition delete_manifest_row :: "uuid \<Rightarrow> db_action" where
  "delete_manifest_row m db =
     (if m \<notin> smr_id ` set (db_manifests db) then Inl (Retention_Runtime_Error ''retention_manifest_delete_failed'')
      else if (\<exists>i \<in> set (db_items db). mi_manifest_id i = m) \<or> (\<exists>x \<in> set (db_versions db). dvr_manifest_id x = m)
      then Inl Constraint_Violated
      else Inr (db\<lparr>db_manifests := drop_row smr_id m (db_manifests db)\<rparr>))"

section \<open>Orphan tombstones\<close>

definition tombstone_referenced :: "retention_db \<Rightarrow> uuid \<Rightarrow> bool" where
  "tombstone_referenced db t \<longleftrightarrow>
     (\<exists>i \<in> set (db_items db). mi_post_version_tombstone_id i = Some t)
     \<or> (\<exists>l \<in> set (db_item_tombstones db). it_tombstone_id l = t)"

definition lock_orphan_tombstone_rows :: "retention_db \<Rightarrow> instant \<Rightarrow> retention_tombstone list" where
  "lock_orphan_tombstone_rows db observed_at = sort_key (\<lambda>t. (rto_retain_until t, rto_id t))
     (filter (\<lambda>t. rto_retain_until t \<le> observed_at \<and> \<not> tombstone_referenced db (rto_id t)) (db_tombstones db))"

definition delete_tombstone_row :: "uuid \<Rightarrow> db_action" where
  "delete_tombstone_row t db =
     (if t \<notin> rto_id ` set (db_tombstones db) then Inl (Retention_Runtime_Error ''retention_tombstone_delete_failed'')
      else if tombstone_referenced db t then Inl Constraint_Violated
      else Inr (db\<lparr>db_tombstones := drop_row rto_id t (db_tombstones db)\<rparr>))"

section \<open>The transaction\<close>

definition run_statement :: "db_action \<Rightarrow> unit sql_action" where
  "run_statement f s = (case f (tx_db s) of Inl e \<Rightarrow> Inl e | Inr db \<Rightarrow> Inr ((), s\<lparr>tx_db := db\<rparr>))"

definition sql_lock_source :: "text_codec \<Rightarrow> uuid \<Rightarrow> source_entity option sql_action" where
  "sql_lock_source codec e s =
     (let source = lock_source_row codec (tx_db s) e in Inr (source, s\<lparr>tx_locked_source := source\<rparr>))"

definition sql_lock_live_references :: "uuid \<Rightarrow> manifest_item_reference list sql_action" where
  "sql_lock_live_references e s =
     (case tx_locked_source s of
        None \<Rightarrow> Inl (Retention_Runtime_Error ''retention_source_not_locked'')
      | Some source \<Rightarrow>
          if se_id source \<noteq> e then Inl (Retention_Runtime_Error ''retention_source_not_locked'')
          else (case lock_reference_rows (tx_db s) source of
             (references, targets) \<Rightarrow> Inr (references, s\<lparr>tx_targets := targets\<rparr>)))"

definition sql_lock_manifest :: "uuid \<Rightarrow> retained_manifest option sql_action" where
  "sql_lock_manifest m = look (\<lambda>s. map_option retained_manifest_of (row_of smr_id m (db_manifests (tx_db s))))"

definition sql_switch_reference :: "(nat \<Rightarrow> uuid) \<Rightarrow> uuid \<Rightarrow> uuid \<Rightarrow> unit sql_action" where
  "sql_switch_reference uuid4 reference_id t s =
     (case row_of rst_reference_id reference_id (rev (tx_targets s)) of
        None \<Rightarrow> Inl (Retention_Runtime_Error ''retention_reference_not_locked'')
      | Some target \<Rightarrow> switch_reference_row uuid4 target t s)"

definition sql_delete_source :: "uuid \<Rightarrow> unit sql_action" where
  "sql_delete_source e s =
     (case tx_locked_source s of
        None \<Rightarrow> Inl (Retention_Runtime_Error ''retention_source_not_locked'')
      | Some source \<Rightarrow>
          if se_id source \<noteq> e then Inl (Retention_Runtime_Error ''retention_source_not_locked'')
          else run_statement (delete_source_row source) s)"

text \<open>The deferred keys, tested at commit.\<close>

definition deferred_keys_ok :: "retention_db \<Rightarrow> bool" where
  "deferred_keys_ok db \<longleftrightarrow>
     (\<forall>r \<in> set (db_reports db). case drr_latest_version_id r of None \<Rightarrow> True
        | Some v \<Rightarrow> v \<in> dvr_id ` set (db_versions db))
     \<and> (\<forall>x \<in> set (db_versions db). dvr_manifest_id x \<in> smr_id ` set (db_manifests db))
     \<and> (\<forall>m \<in> set (db_manifests db). smr_report_version_id m \<in> dvr_id ` set (db_versions db))"

definition sql_commit :: "sql_transaction \<Rightarrow> retention_error + retention_db" where
  "sql_commit s = (if deferred_keys_ok (tx_db s) then Inr (tx_db s) else Inl Constraint_Violated)"

definition sql_open :: "retention_db \<Rightarrow> sql_transaction" where
  "sql_open db = \<lparr>tx_db = db, tx_locked_source = None, tx_targets = [], tx_draws = 0\<rparr>"

definition sql_port :: "text_codec \<Rightarrow> (nat \<Rightarrow> uuid) \<Rightarrow> (retention_db, sql_transaction) retention_port" where
  "sql_port codec uuid4 =
     \<lparr>rp_open = sql_open, rp_commit = sql_commit, rp_lock_source = sql_lock_source codec,
      rp_lock_live_references = sql_lock_live_references, rp_lock_manifest = sql_lock_manifest,
      rp_upsert_tombstone = upsert_tombstone_row uuid4, rp_switch_reference = sql_switch_reference uuid4,
      rp_delete_source = sql_delete_source,
      rp_lock_expired_manifests = (\<lambda>now. look (\<lambda>s. lock_expired_manifest_rows (tx_db s) now)),
      rp_delete_report_dependencies = (\<lambda>m. run_statement (delete_report_dependencies_row m)),
      rp_delete_manifest_items = (\<lambda>m. run_statement (Inr \<circ> delete_manifest_items_rows m)),
      rp_delete_manifest = (\<lambda>m. run_statement (delete_manifest_row m)),
      rp_lock_unreferenced_tombstones = (\<lambda>now. look (\<lambda>s. lock_orphan_tombstone_rows (tx_db s) now)),
      rp_delete_tombstone = (\<lambda>t. run_statement (delete_tombstone_row t))\<rparr>"

lemma sql_ops [simp]:
  "rp_open (sql_port codec uuid4) = sql_open" "rp_commit (sql_port codec uuid4) = sql_commit"
  "rp_lock_source (sql_port codec uuid4) = sql_lock_source codec"
  "rp_lock_live_references (sql_port codec uuid4) = sql_lock_live_references"
  "rp_lock_manifest (sql_port codec uuid4) = sql_lock_manifest"
  "rp_upsert_tombstone (sql_port codec uuid4) = upsert_tombstone_row uuid4"
  "rp_switch_reference (sql_port codec uuid4) = sql_switch_reference uuid4"
  "rp_delete_source (sql_port codec uuid4) = sql_delete_source"
  "rp_lock_expired_manifests (sql_port codec uuid4) now = look (\<lambda>s. lock_expired_manifest_rows (tx_db s) now)"
  "rp_delete_report_dependencies (sql_port codec uuid4) m = run_statement (delete_report_dependencies_row m)"
  "rp_delete_manifest_items (sql_port codec uuid4) m = run_statement (Inr \<circ> delete_manifest_items_rows m)"
  "rp_delete_manifest (sql_port codec uuid4) m = run_statement (delete_manifest_row m)"
  "rp_lock_unreferenced_tombstones (sql_port codec uuid4) now = look (\<lambda>s. lock_orphan_tombstone_rows (tx_db s) now)"
  "rp_delete_tombstone (sql_port codec uuid4) t = run_statement (delete_tombstone_row t)"
  by (simp_all add: sql_port_def)

section \<open>The pass\<close>

definition RETENTION_SOURCE_BATCH :: nat where "RETENTION_SOURCE_BATCH = 100"

text \<open>The transactions of a pass commit one by one. The result is the last committed state together with the
  outcome or the error that ended the pass; \<open>uuid4 n\<close> supplies the ids of the \<open>n\<close>-th transaction.\<close>

fun clean_batch ::
    "report_library \<Rightarrow> text_codec \<Rightarrow> (nat \<Rightarrow> nat \<Rightarrow> uuid) \<Rightarrow> instant \<Rightarrow> nat \<Rightarrow> uuid list \<Rightarrow> retention_db
      \<Rightarrow> retention_db \<times> (retention_error + int)" where
  "clean_batch lib codec uuid4 observed_at n [] db = (db, Inr 0)"
| "clean_batch lib codec uuid4 observed_at n (e # es) db =
     (case cleanup_source lib (sql_port codec (uuid4 n)) \<lparr>cr_source_entity_id = e, cr_observed_at = observed_at\<rparr> db of
        Inl err \<Rightarrow> (db, Inl err)
      | Inr (outcome, db') \<Rightarrow>
          (case clean_batch lib codec uuid4 observed_at (n + 1) es db' of
             (db'', Inl err) \<Rightarrow> (db'', Inl err)
           | (db'', Inr n_cleaned) \<Rightarrow> (db'', Inr ((if co_deleted outcome then 1 else 0) + n_cleaned))))"

definition retention_reconcile ::
    "report_library \<Rightarrow> text_codec \<Rightarrow> (nat \<Rightarrow> nat \<Rightarrow> uuid) \<Rightarrow> instant \<Rightarrow> retention_db
      \<Rightarrow> retention_db \<times> (retention_error + retention_pass_outcome)" where
  "retention_reconcile lib codec uuid4 observed_at db =
     (case eligible_source_ids db observed_at RETENTION_SOURCE_BATCH of
        Inl err \<Rightarrow> (db, Inl err)
      | Inr ids \<Rightarrow>
          (case clean_batch lib codec uuid4 observed_at 0 ids db of
             (db', Inl err) \<Rightarrow> (db', Inl err)
           | (db', Inr n_cleaned) \<Rightarrow>
             (case expire_retained_reports (sql_port codec (uuid4 (length ids))) observed_at db' of
                Inl err \<Rightarrow> (db', Inl err)
              | Inr (expired, db'') \<Rightarrow> (db'', Inr
                  \<lparr>rp_cleaned_source_count = n_cleaned,
                   rp_expired_manifest_count = int (length (eo_deleted_manifest_ids expired)),
                   rp_expired_tombstone_count = int (length (eo_deleted_tombstone_ids expired))\<rparr>))))"

end
