(* ===== verification/Retention_Blocked.thy ===== *)
theory Retention_Blocked
  imports Retention_SQL
begin

text \<open>
  Where the declared constraints stop the PostgreSQL adapter: the expiry of any report the repository stored,
  and the deletion of any post version that arrived on a page.
\<close>

section \<open>No stored report can expire\<close>

text \<open>The two keys of a report graph point at each other.\<close>

definition graphs_linked :: "daily_version_row list \<Rightarrow> stored_manifest_row list \<Rightarrow> bool" where
  "graphs_linked versions manifests \<longleftrightarrow>
     (\<forall>x \<in> set versions. \<forall>m \<in> set manifests. dvr_manifest_id x = smr_id m \<longrightarrow> smr_report_version_id m = dvr_id x)"

lemma append_step_linked:
  assumes "append_step lib t t'" and "tables_wf t" and "graphs_linked (tbl_versions t) (tbl_manifests t)"
  shows "graphs_linked (tbl_versions t') (tbl_manifests t')"
proof -
  obtain r v c where "append_locked lib t r = Inr (t', v, c)" using assms(1) by (auto simp: append_step_iff)
  then consider "t' = t" | report_id latest where "append_new_version lib t r report_id latest = Inr (t', v, c)"
    unfolding append_locked_def Let_def by (auto split: if_splits option.splits)
  then show ?thesis
  proof cases
    case 2
    obtain payload projected revision where
      new: "get_version t (ar_version_id r) = None" "get_manifest t (ar_manifest_id r) = None"
      and rows: "tbl_versions t' = tbl_versions t @ [version_row r projected report_id revision latest]"
        "tbl_manifests t' = tbl_manifests t @ [manifest_row r payload revision]"
      using 2 unfolding append_new_version_def Let_def
      by (auto split: sum.splits reproduction_result.splits if_splits option.splits)
    have "ar_manifest_id r \<notin> smr_id ` set (tbl_manifests t)"
      using new(2) by (auto simp: get_manifest_def find_None_iff)
    moreover have "ar_manifest_id r \<notin> dvr_manifest_id ` set (tbl_versions t)"
      using assms(2) new(2) by (auto simp: tables_wf_def)
    moreover have "dvr_manifest_id (version_row r projected report_id revision latest) = ar_manifest_id r"
      "dvr_id (version_row r projected report_id revision latest) = ar_version_id r"
      "smr_id (manifest_row r payload revision) = ar_manifest_id r"
      "smr_report_version_id (manifest_row r payload revision) = ar_version_id r"
      by (simp_all add: version_row_def manifest_row_def)
    ultimately show ?thesis
      using assms(3) unfolding graphs_linked_def rows by (auto simp: image_iff)
  qed (use assms(3) in simp)
qed

lemma append_steps_linked:
  assumes "(append_step lib)\<^sup>*\<^sup>* empty_tables t"
  shows "graphs_linked (tbl_versions t) (tbl_manifests t)"
  using assms
proof (induction rule: rtranclp_induct)
  case base
  show ?case by (simp add: graphs_linked_def empty_tables_def)
next
  case (step t u)
  then show ?case using append_step_linked append_steps(1) [OF step.hyps(1), of u] by blast
qed

text \<open>Deleting the version is refused because the manifest still refers to it, and the manifest is deleted last.\<close>

lemma dependenciesD:
  assumes "delete_report_dependencies_row m db = Inr db'"
  obtains version report db'' where "filter (\<lambda>x. dvr_manifest_id x = m) (db_versions db) = [version]"
    "filter (\<lambda>r. drr_id r = dvr_report_id version) (db_reports db) = [report]"
    "repoint_report (drr_id report) (dvr_id version) db = Inr db''" "replace_latest (drr_id report) db'' = Inr db'"
  using assms unfolding delete_report_dependencies_row_def by (auto split: list.splits sum.splits)

lemma dependencies_refused:
  assumes "graphs_linked (db_versions db) (db_manifests db)" and "m \<in> set (db_manifests db)"
  shows "\<exists>e. delete_report_dependencies_row (smr_id m) db = Inl e"
proof (cases "delete_report_dependencies_row (smr_id m) db")
  case (Inr db')
  then obtain version report db'' where v: "filter (\<lambda>x. dvr_manifest_id x = smr_id m) (db_versions db) = [version]"
    and "filter (\<lambda>r. drr_id r = dvr_report_id version) (db_reports db) = [report]"
    and run: "repoint_report (drr_id report) (dvr_id version) db = Inr db''" and "replace_latest (drr_id report) db'' = Inr db'"
    by (rule dependenciesD)
  have "version \<in> set (filter (\<lambda>x. dvr_manifest_id x = smr_id m) (db_versions db))" unfolding v by simp
  then have "version \<in> set (db_versions db)" "dvr_manifest_id version = smr_id m" by simp_all
  then have link: "smr_report_version_id m = dvr_id version"
    using assms unfolding graphs_linked_def by blast
  have "version_referenced d (dvr_id version)" if "db_manifests d = db_manifests db" for d
    unfolding version_referenced_def that using link assms(2) by blast
  then have False using run by (simp add: repoint_report_def Let_def split: if_splits)
  then show ?thesis ..
qed blast

lemma expiry_refused:
  assumes "graphs_linked (db_versions db) (db_manifests db)"
    and "\<exists>m \<in> set (db_manifests db). smr_retain_until m \<le> now"
  shows "\<exists>e. expire_retained_reports (sql_port codec uuid4) now db = Inl e"
proof -
  let ?rows = "sort_key (\<lambda>m. (smr_retain_until m, smr_id m)) (filter (\<lambda>m. smr_retain_until m \<le> now) (db_manifests db))"
  have "set ?rows \<noteq> {}" using assms(2) by (auto simp: filter_empty_conv)
  then obtain m ms where rows: "?rows = m # ms" by (cases ?rows) auto
  have "m \<in> set ?rows" unfolding rows by simp
  then have "m \<in> set (db_manifests db)" by simp
  then obtain e where e: "delete_report_dependencies_row (smr_id m) db = Inl e" using dependencies_refused assms(1) by blast
  have "expiry_body (sql_port codec uuid4) now (sql_open db) = Inl e"
    by (simp add: expiry_body_def and_then_def look_def lock_expired_manifest_rows_def rows sql_open_def
        run_statement_def retained_manifest_of_def e)
  then show ?thesis by (simp add: expire_retained_reports_def transact_def)
qed

section \<open>What the statements do not touch\<close>

text \<open>A reflexive and transitive relation that every writing statement keeps, is kept by a transaction.\<close>

lemma cleanup_statements:
  assumes "reflp R" and "transp R"
    and upsert: "\<And>c s b t. upsert_tombstone_row uuid4 c s = Inr (b, t) \<Longrightarrow> R (tx_db s) (tx_db t)"
    and switch: "\<And>g i s u t. switch_reference_row uuid4 g i s = Inr (u, t) \<Longrightarrow> R (tx_db s) (tx_db t)"
    and delete: "\<And>source db db'. delete_source_row source db = Inr db' \<Longrightarrow> R db db'"
    and run: "cleanup_source lib (sql_port codec uuid4) request db = Inr (outcome, db')"
  shows "R db db'"
proof -
  have refl: "R x x" for x using assms(1) by (rule reflpD)
  have trans: "R x y \<Longrightarrow> R y z \<Longrightarrow> R x z" for x y z using assms(2) by (rule transpD)
  have references: "R (tx_db s) (tx_db t)"
    if "cleanup_references lib (sql_port codec uuid4) source now payloads rs s = Inr (ids, t)" for source now payloads rs s ids t
    using that
  proof (induction rs arbitrary: payloads s ids)
    case Nil
    then show ?case by (simp add: refl)
  next
    case (Cons r rs)
    from Cons.prems obtain retained payload kept b u a x c ids' where
      "rp_lock_manifest (sql_port codec uuid4) (mir_manifest_id r) s = Inr (retained, a)"
      "cached_payload lib payloads (mir_manifest_id r) retained = Inr (payload, kept)"
      "verify_reference (lib_nfc lib) payload r source = Inr ()" and
      up: "rp_upsert_tombstone (sql_port codec uuid4) (candidate_of source now r kept) a = Inr (b, x)" and
      sw: "rp_switch_reference (sql_port codec uuid4) (mir_id r) (rto_id b) x = Inr (u, c)" and
      rest: "cleanup_references lib (sql_port codec uuid4) source now ((mir_manifest_id r, payload, kept) # payloads) rs c = Inr (ids', t)"
      and "ids = rto_id b # ids'"
      by (rule cleanup_referencesE)
    then have "a = s" by (simp add: sql_lock_manifest_def)
    moreover have "R (tx_db a) (tx_db x)" using up upsert by simp
    moreover have "R (tx_db x) (tx_db c)" using sw switch by (auto simp: sql_switch_reference_def split: option.splits)
    ultimately show ?case using Cons.IH [OF rest] trans by blast
  qed
  obtain s where body: "cleanup_body lib (sql_port codec uuid4) request (sql_open db) = Inr (outcome, s)"
    and "rp_commit (sql_port codec uuid4) s = Inr db'"
    using run unfolding cleanup_source_def by (rule transactD) simp
  then have db': "db' = tx_db s" by (simp add: sql_commit_def split: if_splits)
  from body show ?thesis
  proof (cases rule: cleanup_bodyE)
    case (kept source)
    then show ?thesis by (auto simp: sql_lock_source_def Let_def sql_open_def db' refl)
  next
    case (deleted source references ids u a b c)
    have "tx_db a = db" using deleted(1) by (auto simp: sql_lock_source_def Let_def sql_open_def)
    moreover have "tx_db b = tx_db a"
      using deleted(3) by (auto simp: sql_lock_live_references_def split: option.splits if_splits prod.splits)
    moreover have "R (tx_db b) (tx_db c)" using references [OF deleted(4)] .
    moreover have "R (tx_db c) (tx_db s)"
      using deleted(5) delete by (auto simp: sql_delete_source_def run_statement_def split: option.splits if_splits sum.splits)
    ultimately show ?thesis using trans db' by simp
  qed
qed

definition same_reports :: "retention_db \<Rightarrow> retention_db \<Rightarrow> bool" where
  "same_reports db db' \<longleftrightarrow> db_versions db' = db_versions db \<and> db_manifests db' = db_manifests db
     \<and> db_reports db' = db_reports db \<and> db_page_items db' = db_page_items db"

text \<open>The post versions that page items point to.\<close>

definition collected :: "retention_db \<Rightarrow> uuid \<Rightarrow> bool" where
  "collected db v \<longleftrightarrow> (\<exists>c \<in> set (db_page_items db). pci_post_version_id c = Some v)"

definition collected_kept :: "retention_db \<Rightarrow> retention_db \<Rightarrow> bool" where
  "collected_kept db db' \<longleftrightarrow> db_page_items db' = db_page_items db
     \<and> (\<forall>v. collected db v \<longrightarrow> row_of pv_id v (db_post_versions db') = row_of pv_id v (db_post_versions db))"

lemma same_reports_order: "reflp same_reports" "transp same_reports"
  by (auto simp: same_reports_def intro!: reflpI transpI)

lemma collected_kept_order: "reflp collected_kept" "transp collected_kept"
  by (auto simp: collected_kept_def collected_def intro!: reflpI transpI)

text \<open>Both at once, for the statements of a cleanup.\<close>

definition spares :: "retention_db \<Rightarrow> retention_db \<Rightarrow> bool" where
  "spares db db' \<longleftrightarrow> same_reports db db' \<and> collected_kept db db'"

lemma spares_order: "reflp spares" "transp spares"
  using same_reports_order collected_kept_order by (auto simp: spares_def reflp_def transp_def)

lemma sparesI:
  "db_versions db' = db_versions db \<Longrightarrow> db_manifests db' = db_manifests db \<Longrightarrow> db_reports db' = db_reports db \<Longrightarrow>
   db_page_items db' = db_page_items db \<Longrightarrow> db_post_versions db' = db_post_versions db \<Longrightarrow> spares db db'"
  by (simp add: spares_def same_reports_def collected_kept_def)

lemma upsert_spares: "upsert_tombstone_row uuid4 c s = Inr (b, t) \<Longrightarrow> spares (tx_db s) (tx_db t)"
  by (auto simp: upsert_tombstone_row_def Let_def split: if_splits option.splits intro!: sparesI)

lemma switch_spares: "switch_reference_row uuid4 g i s = Inr (u, t) \<Longrightarrow> spares (tx_db s) (tx_db t)"
  by (auto simp: switch_reference_row_def Let_def switched_items_def switched_matches_def link_tombstone_def
      split: if_splits option.splits intro!: sparesI)

lemma delete_post_versionD:
  assumes "delete_post_version v db = Inr db'"
  obtains row a b c d e f g where "row_of pv_id v (db_post_versions db) = Some row"
    "delete_version_analyses v db = Inr a" "delete_version_matches v a = Inr b" "delete_version_engagements v b = Inr c"
    "delete_version_queue_items v c = Inr d" "clear_page_items v d = Inr e"
    "clear_current_version (pv_post_id row) v e = Inr f" "delete_version_row v f = Inr g"
    "delete_orphan_post (pv_post_id row) g = Inr db'"
  using assms by (auto simp: delete_post_version_def split: option.splits sum.splits)

lemma delete_source_spares:
  assumes "delete_source_row source db = Inr db'"
  shows "spares db db'"
proof (cases "se_entity_kind source = Entity_POST_VERSION")
  case True
  let ?v = "se_id source"
  have "delete_post_version ?v db = Inr db'" using assms True by (simp add: delete_source_row_def)
  then obtain row a b c d e f g where row: "row_of pv_id ?v (db_post_versions db) = Some row"
    and statements: "delete_version_analyses ?v db = Inr a" "delete_version_matches ?v a = Inr b"
    "delete_version_engagements ?v b = Inr c" "delete_version_queue_items ?v c = Inr d" and page: "clear_page_items ?v d = Inr e"
    and current: "clear_current_version (pv_post_id row) ?v e = Inr f" and version: "delete_version_row ?v f = Inr g"
    and post: "delete_orphan_post (pv_post_id row) g = Inr db'" by (rule delete_post_versionD)
  have "spares db a" "spares a b" "spares b c" "spares c d"
    using statements by (auto simp: delete_version_analyses_def delete_version_matches_def delete_version_engagements_def
        delete_version_queue_items_def split: if_splits intro!: sparesI)
  moreover have free: "e = d" "\<not> collected d ?v"
    using page by (auto simp: clear_page_items_def collected_def split: if_splits)
  moreover have "spares e f" using current by (auto simp: clear_current_version_def intro!: sparesI)
  moreover have "spares g db'" using post by (auto simp: delete_orphan_post_def split: if_splits intro!: sparesI)
  moreover have "spares f g"
  proof -
    have g: "g = f\<lparr>db_post_versions := drop_row pv_id ?v (db_post_versions f)\<rparr>"
      using version by (simp add: delete_version_row_def split: if_splits)
    have "\<not> collected f ?v" using free current by (auto simp: clear_current_version_def collected_def)
    then show ?thesis by (auto simp: g spares_def same_reports_def collected_kept_def row_of_drop)
  qed
  ultimately show ?thesis using spares_order(2) by (metis transpD)
next
  case False
  then have "db' = drop_source (se_entity_kind source) (se_id source) db"
    using assms by (auto simp: delete_source_row_def split: if_splits)
  then show ?thesis using False by (cases "se_entity_kind source") (auto intro!: sparesI)
qed

lemma cleanup_spares:
  assumes "cleanup_source lib (sql_port codec uuid4) request db = Inr (outcome, db')"
  shows "spares db db'"
  using spares_order upsert_spares switch_spares delete_source_spares assms by (rule cleanup_statements)

text \<open>The raw rows only become fewer.\<close>

definition fewer_sources :: "retention_db \<Rightarrow> retention_db \<Rightarrow> bool" where
  "fewer_sources db db' \<longleftrightarrow> (\<forall>kind. set (kind_ids db' kind) \<subseteq> set (kind_ids db kind))"

lemma fewer_sources_order: "reflp fewer_sources" "transp fewer_sources"
  unfolding fewer_sources_def reflp_def transp_def by blast+

lemma fewer_sourcesI:
  assumes "set (db_post_versions db') \<subseteq> set (db_post_versions db)" "set (db_analyses db') \<subseteq> set (db_analyses db)"
    "set (db_post_matches db') \<subseteq> set (db_post_matches db)" "set (db_engagements db') \<subseteq> set (db_engagements db)"
    "set (db_publications db') \<subseteq> set (db_publications db)"
  shows "fewer_sources db db'"
proof -
  have "set (kind_ids db' kind) \<subseteq> set (kind_ids db kind)" for kind using assms by (cases kind) auto
  then show ?thesis by (simp add: fewer_sources_def)
qed

lemma upsert_fewer: "upsert_tombstone_row uuid4 c s = Inr (b, t) \<Longrightarrow> fewer_sources (tx_db s) (tx_db t)"
  by (auto simp: upsert_tombstone_row_def Let_def split: if_splits option.splits intro!: fewer_sourcesI)

lemma switch_fewer: "switch_reference_row uuid4 g i s = Inr (u, t) \<Longrightarrow> fewer_sources (tx_db s) (tx_db t)"
  by (auto simp: switch_reference_row_def Let_def switched_items_def switched_matches_def link_tombstone_def
      split: if_splits option.splits intro!: fewer_sourcesI)

lemma delete_source_fewer:
  assumes "delete_source_row source db = Inr db'"
  shows "fewer_sources db db'"
proof (cases "se_entity_kind source = Entity_POST_VERSION")
  case True
  let ?v = "se_id source"
  have "delete_post_version ?v db = Inr db'" using assms True by (simp add: delete_source_row_def)
  then obtain row a b c d e f g where row: "row_of pv_id ?v (db_post_versions db) = Some row"
    and statements: "delete_version_analyses ?v db = Inr a" "delete_version_matches ?v a = Inr b"
    "delete_version_engagements ?v b = Inr c" "delete_version_queue_items ?v c = Inr d" "clear_page_items ?v d = Inr e"
    "clear_current_version (pv_post_id row) ?v e = Inr f" "delete_version_row ?v f = Inr g"
    "delete_orphan_post (pv_post_id row) g = Inr db'" by (rule delete_post_versionD)
  have "fewer_sources db a" using statements(1) by (auto simp: delete_version_analyses_def split: if_splits intro!: fewer_sourcesI)
  moreover have "fewer_sources a b" using statements(2) by (auto simp: delete_version_matches_def split: if_splits intro!: fewer_sourcesI)
  moreover have "fewer_sources b c" using statements(3) by (auto simp: delete_version_engagements_def split: if_splits intro!: fewer_sourcesI)
  moreover have "fewer_sources c d" using statements(4) by (auto simp: delete_version_queue_items_def intro!: fewer_sourcesI)
  moreover have "d = e" using statements(5) by (auto simp: clear_page_items_def split: if_splits)
  moreover have "fewer_sources e f" using statements(6) by (auto simp: clear_current_version_def intro!: fewer_sourcesI)
  moreover have "fewer_sources f g"
    using statements(7) by (auto simp: delete_version_row_def drop_row_def split: if_splits simp del: referenced.simps intro!: fewer_sourcesI)
  moreover have "fewer_sources g db'" using statements(8) by (auto simp: delete_orphan_post_def split: if_splits intro!: fewer_sourcesI)
  ultimately have "fewer_sources db a" "fewer_sources a b" "fewer_sources b c" "fewer_sources c d" "fewer_sources d f"
    "fewer_sources f g" "fewer_sources g db'" by simp_all
  then show ?thesis unfolding fewer_sources_def by blast
next
  case False
  then have "db' = drop_source (se_entity_kind source) (se_id source) db"
    using assms by (auto simp: delete_source_row_def split: if_splits)
  then show ?thesis using False
    by (cases "se_entity_kind source") (auto simp: drop_row_def intro!: fewer_sourcesI)
qed

lemma cleanup_fewer:
  assumes "cleanup_source lib (sql_port codec uuid4) request db = Inr (outcome, db')"
  shows "fewer_sources db db'"
  using fewer_sources_order upsert_fewer switch_fewer delete_source_fewer assms by (rule cleanup_statements)

section \<open>No collected post can be deleted\<close>

lemma expiry_keeps_collected:
  assumes "expire_retained_reports (sql_port codec uuid4) now db = Inr (outcome, db')"
  shows "collected_kept db db'"
proof -
  let ?port = "sql_port codec uuid4" and ?I = "\<lambda>s. collected_kept db (tx_db s)"
  have deps: "db_page_items y = db_page_items x \<and> db_post_versions y = db_post_versions x"
    if "delete_report_dependencies_row m x = Inr y" for m x y
    using that by (auto simp: repoint_report_def replace_latest_def Let_def split: if_splits option.splits elim!: dependenciesD)
  have kept: "collected_kept db y" if "collected_kept db x" "db_page_items y = db_page_items x \<and> db_post_versions y = db_post_versions x" for x y
    using that by (simp add: collected_kept_def)
  have dependencies: "keeps ?I (rp_delete_report_dependencies ?port m)" for m
    by (rule leadsI, erule kept) (auto simp: run_statement_def split: sum.splits dest: deps)
  have items: "keeps ?I (rp_delete_manifest_items ?port m)" for m
    by (rule leadsI, erule kept) (auto simp: run_statement_def delete_manifest_items_rows_def Let_def)
  have payloads: "keeps ?I (rp_delete_manifest ?port m)" for m
    by (rule leadsI, erule kept) (auto simp: run_statement_def delete_manifest_row_def split: if_splits)
  have tombstones: "keeps ?I (rp_delete_tombstone ?port t)" for t
    by (rule leadsI, erule kept) (auto simp: run_statement_def delete_tombstone_row_def split: if_splits)
  obtain s where body: "expiry_body ?port now (sql_open db) = Inr (outcome, s)" and commit: "rp_commit ?port s = Inr db'"
    using assms unfolding expire_retained_reports_def by (rule transactD) simp
  from body obtain manifests orphans a b c d e u v w x where
    "rp_lock_expired_manifests ?port now (sql_open db) = Inr (manifests, a)" and
    1: "each (\<lambda>m. rp_delete_report_dependencies ?port (rmf_id m)) manifests a = Inr (u, b)" and
    2: "each (\<lambda>m. rp_delete_manifest_items ?port (rmf_id m)) manifests b = Inr (v, c)" and
    3: "each (\<lambda>m. rp_delete_manifest ?port (rmf_id m)) manifests c = Inr (w, d)" and
    "rp_lock_unreferenced_tombstones ?port now d = Inr (orphans, e)" and
    4: "each (\<lambda>t. rp_delete_tombstone ?port (rto_id t)) orphans e = Inr (x, s)" and
    "outcome = \<lparr>eo_deleted_manifest_ids = map rmf_id manifests, eo_deleted_tombstone_ids = map rto_id orphans\<rparr>"
    by (rule expiry_bodyE)
  then have ends: "a = sql_open db" "e = d" by simp_all
  have "?I a" using collected_kept_order(1) by (simp add: ends sql_open_def reflp_def)
  then have "?I b" by (rule leadsD [OF each_keeps _ 1, rotated]) (intro ballI dependencies)
  then have "?I c" by (rule leadsD [OF each_keeps _ 2, rotated]) (intro ballI items)
  then have "?I d" by (rule leadsD [OF each_keeps _ 3, rotated]) (intro ballI payloads)
  then have "?I e" using ends by simp
  then have "?I s" by (rule leadsD [OF each_keeps _ 4, rotated]) (intro ballI tombstones)
  then show ?thesis using commit by (simp add: sql_commit_def split: if_splits)
qed

lemma steps_keep_collected:
  assumes "(\<lambda>d d'. \<exists>uuid4. retention_step lib (sql_port codec uuid4) d d')\<^sup>*\<^sup>* db db'"
  shows "collected_kept db db'"
  using assms
proof (induction rule: rtranclp_induct)
  case base
  show ?case using collected_kept_order(1) by (simp add: reflp_def)
next
  case (step x y)
  from step.hyps(2) have "collected_kept x y"
    by (auto elim!: retention_step.cases dest: cleanup_spares expiry_keeps_collected simp: spares_def)
  then show ?case using step.IH collected_kept_order(2) by (blast dest: transpD)
qed

lemma first_some_mem: "first_some xs = Some x \<Longrightarrow> Some x \<in> set xs"
  by (induction xs rule: first_some.induct) auto

text \<open>Row ids are unique across the raw tables.\<close>

definition source_ids_unique :: "retention_db \<Rightarrow> bool" where
  "source_ids_unique db \<longleftrightarrow> distinct (concat (map (kind_ids db) source_locks))"

definition version_only :: "retention_db \<Rightarrow> uuid \<Rightarrow> bool" where
  "version_only db v \<longleftrightarrow> (\<forall>kind. kind \<noteq> Entity_POST_VERSION \<longrightarrow> v \<notin> set (kind_ids db kind))"

lemma unique_version_only:
  assumes "source_ids_unique db" and "v \<in> set (kind_ids db Entity_POST_VERSION)"
  shows "version_only db v"
  unfolding version_only_def
proof (intro allI impI)
  show "v \<notin> set (kind_ids db kind)" if "kind \<noteq> Entity_POST_VERSION" for kind
    using assms that by (cases kind) (auto simp: source_ids_unique_def source_locks_def)
qed

lemma version_source:
  assumes only: "version_only db v" and lock: "lock_source_row codec db v = Some source"
    and row: "row_of pv_id v (db_post_versions db) = Some row"
  shows "se_entity_kind source = Entity_POST_VERSION \<and> se_id source = v \<and> se_retention_started_at source = pv_collected_at row"
proof -
  obtain kind where kind: "source_of_kind codec db kind v = Some source"
    using first_some_mem [OF lock [unfolded lock_source_row_def]] by auto
  have "v \<in> set (kind_ids db kind)"
    using kind by (cases kind) (auto simp: version_post_def split: option.splits dest: row_of_SomeD)
  then have "kind = Entity_POST_VERSION" using only by (auto simp: version_only_def)
  with kind row show ?thesis
    by (auto simp: version_post_def split: option.splits dest: row_of_SomeD)
qed

lemma delete_post_version_gone:
  assumes "delete_post_version v db = Inr db'"
  shows "row_of pv_id v (db_post_versions db') = None"
proof -
  obtain row a b c d e f g where "row_of pv_id v (db_post_versions db) = Some row"
    "delete_version_analyses v db = Inr a" "delete_version_matches v a = Inr b" "delete_version_engagements v b = Inr c"
    "delete_version_queue_items v c = Inr d" "clear_page_items v d = Inr e"
    "clear_current_version (pv_post_id row) v e = Inr f" and version: "delete_version_row v f = Inr g"
    and post: "delete_orphan_post (pv_post_id row) g = Inr db'" using assms by (rule delete_post_versionD)
  have "db_post_versions g = drop_row pv_id v (db_post_versions f)"
    using version by (auto simp: delete_version_row_def simp del: referenced.simps split: if_splits)
  moreover have "db_post_versions db' = db_post_versions g"
    using post by (auto simp: delete_orphan_post_def split: if_splits)
  ultimately show ?thesis by (simp add: row_of_drop)
qed

lemma collected_cleanup_refused:
  assumes "collected db v" and row: "row_of pv_id v (db_post_versions db) = Some row" and only: "version_only db v"
    and due: "pv_collected_at row + days RAW_RETENTION_DAYS \<le> now"
  shows "\<exists>e. cleanup_source lib (sql_port codec uuid4) \<lparr>cr_source_entity_id = v, cr_observed_at = now\<rparr> db = Inl e"
proof (rule ccontr)
  let ?request = "\<lparr>cr_source_entity_id = v, cr_observed_at = now\<rparr>" and ?port = "sql_port codec uuid4"
  assume "\<not> ?thesis"
  then obtain outcome db' where run: "cleanup_source lib ?port ?request db = Inr (outcome, db')"
    by (metis old.sum.exhaust surj_pair)
  then obtain s where body: "cleanup_body lib ?port ?request (sql_open db) = Inr (outcome, s)"
    and "rp_commit ?port s = Inr db'" unfolding cleanup_source_def by (rule transactD) simp
  then have db': "db' = tx_db s" by (simp add: sql_commit_def split: if_splits)
  have kept: "row_of pv_id v (db_post_versions db') = Some row"
    using cleanup_spares [OF run] assms(1) row by (simp add: spares_def collected_kept_def)
  from body show False
  proof (cases rule: cleanup_bodyE)
    case (kept source)
    then have "lock_source_row codec db v = Some source" by (simp add: sql_lock_source_def Let_def sql_open_def)
    from version_source [OF only this row] kept(2) due show False by (simp add: eligible_at_def)
  next
    case (deleted source references ids u a b c)
    have lock: "lock_source_row codec db v = Some source" and a: "tx_locked_source a = Some source"
      using deleted(1) by (auto simp: sql_lock_source_def Let_def sql_open_def)
    note source = version_source [OF only lock row]
    have "delete_source_row source' (tx_db c) = Inr (tx_db s) \<and> se_id source' = v" if "tx_locked_source c = Some source'" for source'
      using deleted(5) that source
      by (auto simp: sql_delete_source_def run_statement_def split: if_splits sum.splits)
    moreover have "tx_locked_source c = Some source"
    proof -
      have "tx_locked_source t = tx_locked_source s"
        if "cleanup_references lib ?port source now payloads rs s = Inr (ids, t)" for payloads rs s ids t
        using that
      proof (induction rs arbitrary: payloads s ids)
        case (Cons r rs)
        from Cons.prems obtain retained payload kept b u a x c ids' where
          "rp_lock_manifest ?port (mir_manifest_id r) s = Inr (retained, a)"
          "cached_payload lib payloads (mir_manifest_id r) retained = Inr (payload, kept)"
          "verify_reference (lib_nfc lib) payload r source = Inr ()" and
          up: "rp_upsert_tombstone ?port (candidate_of source now r kept) a = Inr (b, x)" and
          sw: "rp_switch_reference ?port (mir_id r) (rto_id b) x = Inr (u, c)" and
          rest: "cleanup_references lib ?port source now ((mir_manifest_id r, payload, kept) # payloads) rs c = Inr (ids', t)"
          and "ids = rto_id b # ids'" by (rule cleanup_referencesE)
        then have "a = s" by (simp add: sql_lock_manifest_def)
        moreover have "tx_locked_source x = tx_locked_source a"
          using up by (auto simp: upsert_tombstone_row_def Let_def split: if_splits option.splits)
        moreover have "tx_locked_source c = tx_locked_source x"
          using sw by (auto simp: sql_switch_reference_def switch_reference_row_def Let_def link_tombstone_def
              split: if_splits option.splits)
        ultimately show ?case using Cons.IH [OF rest] by simp
      qed simp
      from this [OF deleted(4) [simplified]] show ?thesis using deleted(3) a
        by (auto simp: sql_lock_live_references_def split: if_splits prod.splits)
    qed
    ultimately have "delete_post_version v (tx_db c) = Inr db'" using source db' by (auto simp: delete_source_row_def)
    from delete_post_version_gone [OF this] kept show False by simp
  qed
qed

lemma clean_batch_blocked:
  assumes "v \<in> set es" and "collected db v" and "row_of pv_id v (db_post_versions db) = Some row"
    and "version_only db v" and "pv_collected_at row + days RAW_RETENTION_DAYS \<le> now"
  shows "\<exists>e. snd (clean_batch lib codec uuid4 now n es db) = Inl e"
  using assms
proof (induction es arbitrary: n db)
  case (Cons e es)
  let ?run = "cleanup_source lib (sql_port codec (uuid4 n)) \<lparr>cr_source_entity_id = e, cr_observed_at = now\<rparr> db"
  show ?case
  proof (cases ?run)
    case (Inr r)
    then obtain outcome db' where run: "?run = Inr (outcome, db')" by (cases r) simp
    have "e \<noteq> v" using collected_cleanup_refused [OF Cons.prems(2-5), of lib codec "uuid4 n"] run by auto
    then have v: "v \<in> set es" using Cons.prems(1) by simp
    have spared: "spares db db'" "fewer_sources db db'" using cleanup_spares [OF run] cleanup_fewer [OF run] by simp_all
    have "collected db' v" "row_of pv_id v (db_post_versions db') = Some row"
      using spared(1) Cons.prems(2,3) by (auto simp: spares_def same_reports_def collected_kept_def collected_def)
    moreover have "version_only db' v" using spared(2) Cons.prems(4) unfolding version_only_def fewer_sources_def by blast
    ultimately obtain f where "snd (clean_batch lib codec uuid4 now (n + 1) es db') = Inl f"
      using Cons.IH [OF v] Cons.prems(5) by blast
    then show ?thesis using run by (auto split: prod.splits sum.splits)
  qed simp
qed simp

lemma clean_batch_spares:
  assumes "clean_batch lib codec uuid4 now n es db = (db', r)"
  shows "spares db db'"
  using assms
proof (induction es arbitrary: n db r)
  case Nil
  then show ?case using spares_order(1) by (simp add: reflp_def)
next
  case (Cons e es)
  let ?run = "cleanup_source lib (sql_port codec (uuid4 n)) \<lparr>cr_source_entity_id = e, cr_observed_at = now\<rparr> db"
  show ?case
  proof (cases ?run)
    case (Inl f)
    then show ?thesis using Cons.prems spares_order(1) by (simp add: reflp_def)
  next
    case (Inr x)
    then obtain outcome db1 where run: "?run = Inr (outcome, db1)" by (cases x) simp
    obtain r' where "clean_batch lib codec uuid4 now (n + 1) es db1 = (db', r')"
      using Cons.prems run by (auto split: prod.splits sum.splits)
    then have "spares db1 db'" by (rule Cons.IH)
    with cleanup_spares [OF run] spares_order(2) show ?thesis by (blast dest: transpD)
  qed
qed

section \<open>Properties\<close>

text \<open>(C38) Every retention pass fails once a stored report has reached the end of its retention, and the report tables
  stay as they are. The version and the manifest of a report refer to each other under \<open>ON DELETE RESTRICT\<close>,
  and the expiry deletes the version while the manifest still refers to it. The tables are any that the
  repository can have written, whatever raw rows, items and tombstones are beside them.\<close>

theorem stored_reports_never_expire:
  assumes "(append_step rlib)\<^sup>*\<^sup>* empty_tables t"
    and "db_versions db = tbl_versions t" and "db_manifests db = tbl_manifests t"
    and "m \<in> set (tbl_manifests t)" and "smr_retain_until m \<le> now"
  shows "(\<exists>e. snd (retention_reconcile lib codec uuid4 now db) = Inl e)
    \<and> same_reports db (fst (retention_reconcile lib codec uuid4 now db))"
proof -
  have linked: "graphs_linked (db_versions db) (db_manifests db)" using append_steps_linked [OF assms(1)] assms(2,3) by simp
  obtain ids where ids: "eligible_source_ids db now RETENTION_SOURCE_BATCH = Inr ids"
    by (simp add: eligible_source_ids_def RETENTION_SOURCE_BATCH_def MAX_RETENTION_BATCH_def Let_def)
  obtain db' r where batch: "clean_batch lib codec uuid4 now 0 ids db = (db', r)" by (rule prod.exhaust)
  have spared: "same_reports db db'" using clean_batch_spares [OF batch] by (simp add: spares_def)
  then have "graphs_linked (db_versions db') (db_manifests db')" "\<exists>m \<in> set (db_manifests db'). smr_retain_until m \<le> now"
    using linked assms(3-5) by (auto simp: same_reports_def)
  then obtain e where "expire_retained_reports (sql_port codec (uuid4 (length ids))) now db' = Inl e"
    using expiry_refused by blast
  then show ?thesis using ids batch spared by (auto simp: retention_reconcile_def split: sum.splits)
qed


text \<open>And the attempt fails the whole pass: if a post version that a page brought in is in the batch of a pass,
  the pass ends with an error and the version is still there.\<close>

theorem collected_post_fails_pass:
  assumes unique: "source_ids_unique db" and row: "row \<in> set (db_post_versions db)"
    and item: "c \<in> set (db_page_items db)" "pci_post_version_id c = Some (pv_id row)"
    and ids: "eligible_source_ids db now RETENTION_SOURCE_BATCH = Inr ids" "pv_id row \<in> set ids"
  shows "(\<exists>e. snd (retention_reconcile lib codec uuid4 now db) = Inl e)
    \<and> row \<in> set (db_post_versions (fst (retention_reconcile lib codec uuid4 now db)))"
proof -
  let ?v = "pv_id row"
  have collected: "collected db ?v" using item by (auto simp: collected_def)
  have only: "version_only db ?v" using unique_version_only [OF unique] row by simp
  have versions: "distinct (map pv_id (db_post_versions db))"
    using unique by (simp add: source_ids_unique_def source_locks_def)
  note here = row_of_mem [OF versions row]
  have others: "?v \<notin> set (kind_ids db Entity_ANALYSIS)" "?v \<notin> set (kind_ids db Entity_MATCH)"
    "?v \<notin> set (kind_ids db Entity_ENGAGEMENT)" "?v \<notin> set (kind_ids db Entity_SOURCE_MANIFEST)"
    using only by (simp_all add: version_only_def del: kind_ids.simps)
  have "\<exists>p started. (p, started, ?v) \<in> set (retention_candidates db) \<and> started \<le> now - days RAW_RETENTION_DAYS"
    using ids by (auto simp: eligible_source_ids_def Let_def split: if_splits dest!: in_set_takeD) blast
  then obtain x where x: "x \<in> set (db_post_versions db)" "pv_id x = ?v" "pv_collected_at x \<le> now - days RAW_RETENTION_DAYS"
    using others by (auto simp: retention_candidates_def image_iff)
  then have "x = row" using row versions by (auto simp: distinct_map dest: inj_onD)
  then have due: "pv_collected_at row + days RAW_RETENTION_DAYS \<le> now" using x(3) by simp
  obtain db' r where batch: "clean_batch lib codec uuid4 now 0 ids db = (db', r)" by (rule prod.exhaust)
  obtain e where "snd (clean_batch lib codec uuid4 now 0 ids db) = Inl e"
    using clean_batch_blocked [OF ids(2) collected here only due] by blast
  then have "retention_reconcile lib codec uuid4 now db = (db', Inl e)" using ids(1) batch by (simp add: retention_reconcile_def)
  moreover have "row_of pv_id ?v (db_post_versions db') = Some row"
    using clean_batch_spares [OF batch] collected here by (simp add: spares_def collected_kept_def)
  ultimately show ?thesis by (auto dest: row_of_SomeD)
qed

section \<open>Examples\<close>

definition empty_db :: retention_db where
  "empty_db = \<lparr>db_posts = [], db_post_versions = [], db_analyses = [], db_post_matches = [], db_engagements = [],
     db_publications = [], db_queue_items = [], db_page_items = [], db_observations = [], db_manifests = [],
     db_items = [], db_item_matches = [], db_item_tombstones = [], db_tombstones = [], db_versions = [], db_reports = []\<rparr>"

text \<open>One post with one version that a page brought in, thirty days ago.\<close>

definition example_version :: post_version_row where
  "example_version = \<lparr>pv_id = 2, pv_post_id = 1, pv_content_hash = ''h'', pv_collected_at = 0\<rparr>"

definition example_collected :: retention_db where
  "example_collected = empty_db
     \<lparr>db_posts := [\<lparr>po_id = 1, po_source_id = 7, po_published_at = 0, po_current_version_id = Some 2\<rparr>],
      db_post_versions := [example_version], db_page_items := [\<lparr>pci_id = 3, pci_post_version_id = Some 2\<rparr>]\<rparr>"

definition example_sql_codec :: text_codec where
  "example_sql_codec = \<lparr>tc_nfc = id, tc_iso = (\<lambda>_. '''')\<rparr>"

lemma example_collected_facts:
  "db_post_versions example_collected = [example_version]" "pv_id example_version = 2"
  "db_page_items example_collected = [\<lparr>pci_id = 3, pci_post_version_id = Some 2\<rparr>]"
  "source_ids_unique example_collected"
  "eligible_source_ids example_collected (days 30) RETENTION_SOURCE_BATCH = Inr [2]"
  by (simp_all add: example_collected_def example_version_def empty_db_def source_ids_unique_def source_locks_def
      eligible_source_ids_def RETENTION_SOURCE_BATCH_def MAX_RETENTION_BATCH_def retention_candidates_def
      RAW_RETENTION_DAYS_def Let_def)


theorem collected_post_fails_pass_witness:
  "\<exists>lib e. snd (retention_reconcile lib example_sql_codec (\<lambda>_ _. 5) (days 30) example_collected) = Inl e"
  using collected_post_fails_pass [OF example_collected_facts(4) _ _ _ example_collected_facts(5),
      of example_version "\<lparr>pci_id = 3, pci_post_version_id = Some 2\<rparr>" _ example_sql_codec "\<lambda>_ _. 5"]
  by (simp add: example_collected_facts)

theorem stored_reports_never_expire_witness:
  "\<exists>db m lib e. m \<in> set (db_manifests db)
     \<and> snd (retention_reconcile lib example_sql_codec (\<lambda>_ _. 5) (smr_retain_until m) db) = Inl e"
proof -
  obtain b t v c and r :: append_report_request where "example_reconcile b 0 (1, 2, 3) empty_tables = Inr (t, v, c)"
    "append_locked (example_library b) empty_tables r = Inr (t, v, c)" and
    steps: "(append_step (example_library b))\<^sup>*\<^sup>* empty_tables t" and v: "v \<in> set (sql_history t (ar_report_date_seoul r))"
    by (rule example_reconciled)
  have "tables_wf t" by (rule append_steps(1) [OF steps rtranclp.rtrancl_refl])
  moreover obtain x where "x \<in> set (tbl_versions t)" using v by (auto simp: sql_history_def versions_of_def)
  ultimately obtain m where "get_manifest t (dvr_manifest_id x) = Some m" by (auto simp: tables_wf_def)
  then have m: "m \<in> set (tbl_manifests t)" by (auto simp: get_manifest_def dest: find_SomeD)
  let ?db = "empty_db\<lparr>db_versions := tbl_versions t, db_manifests := tbl_manifests t\<rparr>"
  have "\<exists>e. snd (retention_reconcile (example_library b) example_sql_codec (\<lambda>_ _. 5) (smr_retain_until m) ?db) = Inl e"
    using stored_reports_never_expire [OF steps, of ?db m] m by simp
  moreover have "m \<in> set (db_manifests ?db)" using m by simp
  ultimately show ?thesis by blast
qed

end
