(* ===== verification/Encoding.thy ===== *)
theory Encoding
  imports Digest
begin

text \<open>
  The parts of the Python standard library that the identity services parse with: \<open>base64.urlsafe_b64encode\<close>
  without its padding, \<open>base64.b64decode(.., altchars=b"-_", validate=True)\<close> of CPython 3.12, \<open>str.split\<close> on one
  character, \<open>int(str)\<close> and \<open>str.isdecimal\<close>.

  Header values reach the application decoded from Latin-1, so a \<open>str\<close> here is a list of characters below 256
  and the parsers are exact for such text.
\<close>

section \<open>Base64\<close>

abbreviation byte_value :: "char \<Rightarrow> nat" where "byte_value c \<equiv> of_char c"

text \<open>The alphabet \<open>A-Z a-z 0-9 - _\<close>.\<close>

definition b64_char :: "nat \<Rightarrow> char" where
  "b64_char n =
     (let k = n mod 64
      in char_of (if k < 26 then 65 + k else if k < 52 then 71 + k else if k < 62 then k - 4
                  else if k = 62 then 45 else 95))"

fun b64url_encode :: "string \<Rightarrow> string" where
  "b64url_encode [] = []"
| "b64url_encode [a] = [b64_char (byte_value a div 4), b64_char (byte_value a mod 4 * 16)]"
| "b64url_encode [a, b] =
     [b64_char (byte_value a div 4), b64_char (byte_value a mod 4 * 16 + byte_value b div 16),
      b64_char (byte_value b mod 16 * 4)]"
| "b64url_encode (a # b # c # rest) =
     b64_char (byte_value a div 4) # b64_char (byte_value a mod 4 * 16 + byte_value b div 16)
     # b64_char (byte_value b mod 16 * 4 + byte_value c div 64) # b64_char (byte_value c mod 64)
     # b64url_encode rest"

text \<open>The alternative characters are translated to the standard ones, which stay valid.\<close>

definition b64_value :: "char \<Rightarrow> nat option" where
  "b64_value c =
     (let n = byte_value c
      in if 65 \<le> n \<and> n \<le> 90 then Some (n - 65)
         else if 97 \<le> n \<and> n \<le> 122 then Some (n - 71)
         else if 48 \<le> n \<and> n \<le> 57 then Some (n + 4)
         else if n = 43 \<or> n = 45 then Some 62
         else if n = 47 \<or> n = 95 then Some 63
         else None)"

fun b64_values :: "string \<Rightarrow> nat list option" where
  "b64_values [] = Some []"
| "b64_values (c # cs) =
     (case (b64_value c, b64_values cs) of (Some n, Some ns) \<Rightarrow> Some (n # ns) | _ \<Rightarrow> None)"

fun b64_bytes :: "nat list \<Rightarrow> string" where
  "b64_bytes (p # q # r # s # rest) =
     char_of (p * 4 + q div 16) # char_of (q mod 16 * 16 + r div 4) # char_of (r mod 4 * 64 + s) # b64_bytes rest"
| "b64_bytes [p, q, r] = [char_of (p * 4 + q div 16), char_of (q mod 16 * 16 + r div 4)]"
| "b64_bytes [p, q] = [char_of (p * 4 + q div 16)]"
| "b64_bytes _ = []"

text \<open>Strict decoding: data, then padding. After complete quadruples any padding is accepted, unless there
  is no data; bits that do not fill a byte are dropped.\<close>

definition b64_padding_ok :: "nat \<Rightarrow> nat \<Rightarrow> bool" where
  "b64_padding_ok n pads \<longleftrightarrow>
     (case n mod 4 of 0 \<Rightarrow> n \<noteq> 0 \<or> pads = 0 | Suc 0 \<Rightarrow> False | Suc (Suc 0) \<Rightarrow> pads = 2 | _ \<Rightarrow> pads = 1)"

definition b64_strict_decode :: "string \<Rightarrow> string option" where
  "b64_strict_decode s =
     (let data = takeWhile (\<lambda>c. c \<noteq> CHR ''='') s; pads = dropWhile (\<lambda>c. c \<noteq> CHR ''='') s
      in if list_all (\<lambda>c. c = CHR ''='') pads \<and> b64_padding_ok (length data) (length pads)
         then map_option b64_bytes (b64_values data) else None)"

text \<open>\<open>b64decode(encoded + "=" * (-len(encoded) % 4), altchars=b"-_", validate=True)\<close>.\<close>

definition b64url_decode :: "string \<Rightarrow> string option" where
  "b64url_decode s = b64_strict_decode (s @ replicate (nat ((- int (length s)) mod 4)) (CHR ''=''))"

lemma byte_value_inject: "c = d \<longleftrightarrow> byte_value c = byte_value d"
  by simp

lemma b64_value_char: "n < 64 \<Longrightarrow> b64_value (b64_char n) = Some n"
  by (simp add: b64_value_def b64_char_def Let_def) presburger

lemma b64_char_plain: "b64_char n \<noteq> CHR ''=''" "b64_char n \<noteq> CHR ''.''"
proof -
  have "n mod 64 < 64" by simp
  then have "byte_value (b64_char n) \<notin> {61, 46}" by (simp add: b64_char_def Let_def) presburger
  then show "b64_char n \<noteq> CHR ''=''" "b64_char n \<noteq> CHR ''.''" by auto
qed

lemma b64url_encode_chars: "c \<in> set (b64url_encode bs) \<Longrightarrow> c \<noteq> CHR ''='' \<and> c \<noteq> CHR ''.''"
  by (induction bs rule: b64url_encode.induct) (auto simp: b64_char_plain)

lemma byte_lt: "byte_value c < 256"
  using nat_of_char_less_256 .

text \<open>Three bytes as four sextets and back.\<close>

lemma sextets:
  fixes a b c :: nat
  assumes "a < 256" and "b < 256" and "c < 256"
  shows "a div 4 < 64" "a mod 4 * 16 + b div 16 < 64" "b mod 16 * 4 + c div 64 < 64" "c mod 64 < 64"
    "a mod 4 * 16 < 64" "b mod 16 * 4 < 64"
    "b div 16 div 16 = 0" "b div 16 mod 16 = b div 16" "c div 64 div 4 = 0" "c div 64 mod 4 = c div 64"
proof -
  have lt: "a mod 4 < 4" "b mod 16 < 16" "b div 16 < 16" "c div 64 < 4" using assms(2,3) by (simp, simp, linarith, linarith)
  then show "a mod 4 * 16 + b div 16 < 64" "b mod 16 * 4 + c div 64 < 64" "a mod 4 * 16 < 64" "b mod 16 * 4 < 64"
    by linarith+
  show "b div 16 div 16 = 0" "b div 16 mod 16 = b div 16" "c div 64 div 4 = 0" "c div 64 mod 4 = c div 64"
    using lt by simp_all
  show "a div 4 < 64" "c mod 64 < 64" using assms(1) by (linarith, simp)
qed

lemma b64_values_encode:
  "\<exists>ns. b64_values (b64url_encode bs) = Some ns \<and> b64_bytes ns = bs"
proof (induction bs rule: b64url_encode.induct)
  case 1
  then show ?case by simp
next
  case (2 a)
  note six = sextets [OF byte_lt [of a] byte_lt [of a] byte_lt [of a]]
  show ?case by (simp add: b64_value_char six del: mult_eq_if)
next
  case (3 a b)
  note six = sextets [OF byte_lt [of a] byte_lt [of b] byte_lt [of a]]
  show ?case by (simp add: b64_value_char six)
next
  case (4 a b c rest)
  then obtain ns where ns: "b64_values (b64url_encode rest) = Some ns" "b64_bytes ns = rest" by blast
  note six = sextets [OF byte_lt [of a] byte_lt [of b] byte_lt [of c]]
  show ?case by (simp add: b64_value_char six ns)
qed

lemma takeWhile_plain: "\<forall>c \<in> set s. c \<noteq> x \<Longrightarrow> takeWhile (\<lambda>c. c \<noteq> x) (s @ replicate n x) = s"
  by (induction s) (auto simp: takeWhile_eq_Nil_iff)

lemma dropWhile_plain: "\<forall>c \<in> set s. c \<noteq> x \<Longrightarrow> dropWhile (\<lambda>c. c \<noteq> x) (s @ replicate n x) = replicate n x"
  by (induction s) (auto simp: dropWhile_eq_self_iff)

lemma length_b64url_encode: "length (b64url_encode bs) mod 4 \<noteq> 1"
  by (induction bs rule: b64url_encode.induct) simp_all

lemma b64url_decode_encode [simp]: "b64url_decode (b64url_encode bs) = Some bs"
proof -
  let ?s = "b64url_encode bs"
  let ?n = "nat ((- int (length ?s)) mod 4)"
  have plain: "\<forall>c \<in> set ?s. c \<noteq> CHR ''=''" using b64url_encode_chars by blast
  have pad: "b64_padding_ok (length ?s) ?n"
  proof -
    have "length ?s mod 4 = 0 \<or> length ?s mod 4 = 2 \<or> length ?s mod 4 = 3"
      using length_b64url_encode [of bs] by presburger
    then show ?thesis
    proof (elim disjE)
      assume a: "length ?s mod 4 = 0"
      then have "(- int (length ?s)) mod 4 = 0" by presburger
      then show ?thesis using a by (simp add: b64_padding_ok_def)
    next
      assume a: "length ?s mod 4 = 2"
      then have "(- int (length ?s)) mod 4 = 2" by presburger
      then show ?thesis using a by (simp add: b64_padding_ok_def numeral_2_eq_2)
    next
      assume a: "length ?s mod 4 = 3"
      then have "(- int (length ?s)) mod 4 = 1" by presburger
      then show ?thesis using a by (simp add: b64_padding_ok_def numeral_3_eq_3)
    qed
  qed
  obtain ns where "b64_values ?s = Some ns" "b64_bytes ns = bs" using b64_values_encode by blast
  then show ?thesis
    unfolding b64url_decode_def b64_strict_decode_def Let_def
    using pad by (simp add: takeWhile_plain [OF plain] dropWhile_plain [OF plain] list_all_iff)
qed

section \<open>Splitting\<close>

text \<open>\<open>s.split(c)\<close> and \<open>s.split(c, maxsplit=1)\<close>.\<close>

fun split_on :: "char \<Rightarrow> string \<Rightarrow> string list" where
  "split_on d [] = [[]]"
| "split_on d (c # cs) = (if c = d then [] # split_on d cs
     else (case split_on d cs of p # ps \<Rightarrow> (c # p) # ps | [] \<Rightarrow> [[c]]))"

fun split_once :: "char \<Rightarrow> string \<Rightarrow> (string \<times> string) option" where
  "split_once d [] = None"
| "split_once d (c # cs) = (if c = d then Some ([], cs)
     else (case split_once d cs of Some (a, b) \<Rightarrow> Some (c # a, b) | None \<Rightarrow> None))"

lemma split_on_plain: "\<forall>c \<in> set a. c \<noteq> d \<Longrightarrow> split_on d a = [a]"
  by (induction a) auto

lemma split_on_append: "\<forall>c \<in> set a. c \<noteq> d \<Longrightarrow> split_on d (a @ d # b) = a # split_on d b"
  by (induction a) auto

lemma split_once_append: "\<forall>c \<in> set a. c \<noteq> d \<Longrightarrow> split_once d (a @ d # b) = Some (a, b)"
  by (induction a) auto

section \<open>Integers\<close>

definition digit_value :: "char \<Rightarrow> nat option" where
  "digit_value c = (let n = byte_value c in if 48 \<le> n \<and> n \<le> 57 then Some (n - 48) else None)"

text \<open>\<open>int(s)\<close>: surrounding white space, a sign, and digits with single underscores between them. In an ASCII
  string the separators 28 to 31 are not white space.\<close>

definition py_space :: "bool \<Rightarrow> char \<Rightarrow> bool" where
  "py_space wide c \<longleftrightarrow>
     (let n = byte_value c
      in (9 \<le> n \<and> n \<le> 13) \<or> n = 32 \<or> wide \<and> (28 \<le> n \<and> n \<le> 31 \<or> n = 133 \<or> n = 160))"

definition py_strip :: "string \<Rightarrow> string" where
  "py_strip s =
     (let space = py_space (\<exists>c \<in> set s. 128 \<le> byte_value c)
      in rev (dropWhile space (rev (dropWhile space s))))"

fun py_digits :: "int \<Rightarrow> string \<Rightarrow> int option" where
  "py_digits acc [] = Some acc"
| "py_digits acc (c # cs) =
     (case digit_value c of Some d \<Rightarrow> py_digits (10 * acc + int d) cs
      | None \<Rightarrow> if c = CHR ''_'' then (case cs of [] \<Rightarrow> None
          | e # es \<Rightarrow> (case digit_value e of Some d \<Rightarrow> py_digits (10 * acc + int d) es | None \<Rightarrow> None)) else None)"

definition py_natural :: "string \<Rightarrow> int option" where
  "py_natural s = (case s of [] \<Rightarrow> None
     | c # cs \<Rightarrow> (case digit_value c of Some d \<Rightarrow> py_digits (int d) cs | None \<Rightarrow> None))"

definition py_int :: "string \<Rightarrow> int option" where
  "py_int s =
     (case py_strip s of [] \<Rightarrow> None
      | c # cs \<Rightarrow> if c = CHR ''-'' then map_option uminus (py_natural cs)
          else if c = CHR ''+'' then py_natural cs else py_natural (c # cs))"

text \<open>\<open>s.isdecimal()\<close>\<close>

definition isdecimal :: "string \<Rightarrow> bool" where
  "isdecimal s \<longleftrightarrow> s \<noteq> [] \<and> list_all (\<lambda>c. digit_value c \<noteq> None) s"

lemma digit_value_all: "\<forall>n \<in> set [0..<10]. digit_value (hex_digit n) = Some n \<and> hex_digit n \<noteq> CHR ''_''
    \<and> hex_digit n \<noteq> CHR ''-'' \<and> hex_digit n \<noteq> CHR ''+'' \<and> hex_digit n \<noteq> CHR ''.'' \<and> \<not> py_space True (hex_digit n) \<and> \<not> py_space False (hex_digit n)"
  by code_simp

lemma digit_value_hex: "n < 10 \<Longrightarrow> digit_value (hex_digit n) = Some n"
  using digit_value_all by simp

lemma show_nat_chars: "c \<in> set (show_nat n) \<Longrightarrow> \<exists>k < 10. c = hex_digit k"
proof (induction n rule: show_nat.induct)
  case (1 n)
  from "1.prems" have "c \<in> set (show_nat (n div 10)) \<and> \<not> n < 10 \<or> c = hex_digit n \<and> n < 10 \<or> c = hex_digit (n mod 10)"
    by (subst (asm) show_nat.simps) (auto split: if_splits)
  moreover have "n mod 10 < 10" by simp
  ultimately show ?case using "1.IH" by blast
qed

lemma show_nat_nonempty: "show_nat n \<noteq> []"
  by (subst show_nat.simps) auto

lemma py_digits_append: "\<forall>c \<in> set s. digit_value c \<noteq> None \<Longrightarrow>
  py_digits acc (s @ t) = (case py_digits acc s of Some n \<Rightarrow> py_digits n t | None \<Rightarrow> None)"
  by (induction s arbitrary: acc) auto

lemma py_digits_show: "py_digits 0 (show_nat n) = Some (int n)"
proof (induction n rule: show_nat.induct)
  case (1 n)
  show ?case
  proof (cases "n < 10")
    case True
    then show ?thesis by (subst show_nat.simps) (simp add: digit_value_hex)
  next
    case False
    have "\<forall>c \<in> set (show_nat (n div 10)). digit_value c \<noteq> None" using show_nat_chars digit_value_hex by fastforce
    moreover have "10 * int (n div 10) + int (n mod 10) = int n" by (simp add: zdiv_int zmod_int)
    ultimately show ?thesis using False 1 by (subst show_nat.simps) (simp add: py_digits_append digit_value_hex)
  qed
qed

lemma py_natural_show: "py_natural (show_nat n) = Some (int n)"
proof -
  obtain c cs where s: "show_nat n = c # cs" using show_nat_nonempty by (meson neq_Nil_conv)
  then obtain k where "k < 10" "c = hex_digit k" using show_nat_chars [of c n] by auto
  then show ?thesis using py_digits_show [of n] by (simp add: s py_natural_def digit_value_hex)
qed

lemma show_nat_no_space: "c \<in> set (show_nat n) \<Longrightarrow> \<not> py_space wide c \<and> c \<noteq> CHR ''-'' \<and> c \<noteq> CHR ''+'' \<and> c \<noteq> CHR ''.''"
  using show_nat_chars [of c n] digit_value_all by (cases wide) fastforce+

lemma dropWhile_none: "\<forall>c \<in> set s. \<not> p c \<Longrightarrow> dropWhile p s = s"
  by (cases s) auto

lemma py_strip_none: "\<forall>c \<in> set s. \<forall>wide. \<not> py_space wide c \<Longrightarrow> py_strip s = s"
  by (simp add: py_strip_def Let_def dropWhile_none)

lemma show_int_chars: "c \<in> set (show_int i) \<Longrightarrow> \<not> py_space wide c \<and> c \<noteq> CHR ''.''"
proof -
  have "\<not> py_space wide (CHR ''-'')" by (simp add: py_space_def)
  then show "c \<in> set (show_int i) \<Longrightarrow> \<not> py_space wide c \<and> c \<noteq> CHR ''.''"
    using show_nat_no_space by (auto simp: show_int_def split: if_splits)
qed

lemma py_int_show [simp]: "py_int (show_int i) = Some i"
proof -
  have strip: "py_strip (show_int i) = show_int i" using show_int_chars py_strip_none by blast
  show ?thesis
  proof (cases "i < 0")
    case True
    then show ?thesis by (simp add: py_int_def strip) (simp add: show_int_def py_natural_show)
  next
    case False
    then obtain c cs where s: "show_int i = c # cs" "show_nat (nat i) = c # cs"
      using show_nat_nonempty [of "nat i"] by (cases "show_nat (nat i)") (auto simp: show_int_def)
    then have "c \<noteq> CHR ''-''" "c \<noteq> CHR ''+''" using show_nat_no_space [of c "nat i"] by auto
    with False s py_natural_show [of "nat i"] show ?thesis unfolding py_int_def strip by simp
  qed
qed

end
