(* ===== verification/Service_Tokens.thy ===== *)
theory Service_Tokens
  imports Encoding Canonical
begin

text \<open>
  \<open>core/principals.py\<close>, the identity errors of \<open>core/errors.py\<close>, and the Ed25519 service tokens of
  \<open>core/jwt.py\<close>. Pydantic's JSON printer and parser of the two token models and the Ed25519 functions are the
  fields of a \<open>token_codec\<close>.

  Main results: a token that the issuer returns is accepted by a verifier of the same issuer until thirty
  seconds after its expiry, and what a verifier accepts was signed with an allow-listed key, carries the
  required scopes and is inside its time window.
\<close>

section \<open>Principals, scopes and errors\<close>

datatype principal_kind =
  Kind_BFF | Kind_GITHUB_COLLECTOR | Kind_GITHUB_VERIFIER | Kind_WINDOWS_WORKER | Kind_ADMIN_SESSION

datatype scope =
  BFF_AUTH | BFF_READ | ADMIN_COMMAND | COLLECTOR_MATERIALIZE | COLLECTOR_RESERVE | COLLECTOR_CLAIM
| COLLECTOR_PAGE_COMMIT | COLLECTOR_HEARTBEAT | COLLECTOR_COMPLETE | VERIFY_READ | VERIFY_WRITE
| RELEASE_ACTIVATION_EVIDENCE_VERIFY | WORKER_LEASE | WORKER_HEARTBEAT | WORKER_ACK

fun scope_text :: "scope \<Rightarrow> string" where
  "scope_text BFF_AUTH = ''bff:auth''"
| "scope_text BFF_READ = ''bff:read''"
| "scope_text ADMIN_COMMAND = ''admin:command''"
| "scope_text COLLECTOR_MATERIALIZE = ''collector:materialize''"
| "scope_text COLLECTOR_RESERVE = ''collector:reserve''"
| "scope_text COLLECTOR_CLAIM = ''collector:claim''"
| "scope_text COLLECTOR_PAGE_COMMIT = ''collector:page_commit''"
| "scope_text COLLECTOR_HEARTBEAT = ''collector:heartbeat''"
| "scope_text COLLECTOR_COMPLETE = ''collector:complete''"
| "scope_text VERIFY_READ = ''verify:read''"
| "scope_text VERIFY_WRITE = ''verify:write''"
| "scope_text RELEASE_ACTIVATION_EVIDENCE_VERIFY = ''release:activation_evidence_verify''"
| "scope_text WORKER_LEASE = ''worker:lease''"
| "scope_text WORKER_HEARTBEAT = ''worker:heartbeat''"
| "scope_text WORKER_ACK = ''worker:ack''"

definition all_scopes :: "scope list" where
  "all_scopes = [BFF_AUTH, BFF_READ, ADMIN_COMMAND, COLLECTOR_MATERIALIZE, COLLECTOR_RESERVE, COLLECTOR_CLAIM,
     COLLECTOR_PAGE_COMMIT, COLLECTOR_HEARTBEAT, COLLECTOR_COMPLETE, VERIFY_READ, VERIFY_WRITE,
     RELEASE_ACTIVATION_EVIDENCE_VERIFY, WORKER_LEASE, WORKER_HEARTBEAT, WORKER_ACK]"

text \<open>\<open>tuple(sorted(scopes, key=str))\<close>\<close>

definition sorted_scopes :: "scope set \<Rightarrow> scope list" where
  "sorted_scopes S = sort_key scope_text (filter (\<lambda>s. s \<in> S) all_scopes)"

record principal =
  pr_id :: string
  pr_kind :: principal_kind
  pr_credential_version :: string

datatype identity_error_code =
  INVALID_REQUEST | INVALID_TOKEN | INVALID_CREDENTIAL | INVALID_CREDENTIAL_VERSION | INVALID_SCOPE
| REPLAYED_NONCE | RATE_LIMITED | INVALID_OIDC_CLAIMS | STALE_REQUEST | SESSION_EXPIRED | SESSION_REVOKED
| CSRF_REJECTED | SERVICE_UNAVAILABLE

fun status_for_identity_error :: "identity_error_code \<Rightarrow> int" where
  "status_for_identity_error INVALID_REQUEST = 422"
| "status_for_identity_error INVALID_SCOPE = 422"
| "status_for_identity_error INVALID_TOKEN = 401"
| "status_for_identity_error INVALID_CREDENTIAL = 401"
| "status_for_identity_error INVALID_CREDENTIAL_VERSION = 401"
| "status_for_identity_error STALE_REQUEST = 401"
| "status_for_identity_error INVALID_OIDC_CLAIMS = 403"
| "status_for_identity_error SESSION_EXPIRED = 403"
| "status_for_identity_error SESSION_REVOKED = 403"
| "status_for_identity_error CSRF_REJECTED = 403"
| "status_for_identity_error REPLAYED_NONCE = 409"
| "status_for_identity_error RATE_LIMITED = 429"
| "status_for_identity_error SERVICE_UNAVAILABLE = 503"

text \<open>What the token functions raise: \<open>TokenRejectedError\<close>, or Pydantic's error for claims that break their model.\<close>

datatype token_error = Token_Rejected | Claims_Invalid

text \<open>An \<open>IdentityError\<close> with its code and retry delay, or an exception that no handler of the application
  translates: a rejected database statement, more than one row, a token error, a \<open>TypeError\<close> or a \<open>ValueError\<close>.\<close>

datatype identity_fault =
  Identity_Error identity_error_code "int option"
| Integrity_Failure
| Multiple_Rows
| Token_Failure token_error
| Type_Failure
| Value_Failure

abbreviation refuse :: "identity_error_code \<Rightarrow> identity_fault" where
  "refuse code \<equiv> Identity_Error code None"

section \<open>Tokens\<close>

definition TOKEN_SKEW_SECONDS :: int where "TOKEN_SKEW_SECONDS = 30"

text \<open>The algorithm and type of a header are literals.\<close>

record token_header =
  th_key_id :: string

record access_claims =
  ac_issuer :: string
  ac_subject :: string
  ac_audience :: string
  ac_scopes :: "scope list"
  ac_jwt_id :: string
  ac_issued_at :: int
  ac_not_before :: int
  ac_expires_at :: int
  ac_credential_version :: string
  ac_principal_kind :: principal_kind

record issue_token_request =
  it_principal :: principal
  it_audience :: string
  it_scopes :: "scope set"
  it_now :: datetime
  it_lifetime :: duration

record verify_token_request =
  vt_token :: string
  vt_audience :: string
  vt_required_scopes :: "scope set"
  vt_now :: datetime

record ('sk, 'pk) token_codec =
  dump_header :: "token_header \<Rightarrow> string"
  parse_header :: "string \<Rightarrow> token_header option"
  dump_claims :: "access_claims \<Rightarrow> string"
  parse_claims :: "string \<Rightarrow> access_claims option"
  ed25519_sign :: "'sk \<Rightarrow> string \<Rightarrow> string"
  ed25519_verify :: "'pk \<Rightarrow> string \<Rightarrow> string \<Rightarrow> bool"

record 'sk token_issuer =
  ti_issuer :: string
  ti_active_key_id :: string
  ti_private_key :: 'sk

record 'pk token_verifier =
  tv_issuer :: string
  tv_public_keys :: "string \<Rightarrow> 'pk option"

text \<open>The constraints of the two models.\<close>

definition valid_header :: "token_header \<Rightarrow> bool" where
  "valid_header h \<longleftrightarrow> th_key_id h \<noteq> []"

definition valid_claims :: "access_claims \<Rightarrow> bool" where
  "valid_claims c \<longleftrightarrow> ac_issuer c \<noteq> [] \<and> ac_audience c \<noteq> [] \<and> ac_scopes c \<noteq> [] \<and> ac_jwt_id c \<noteq> []"

definition timestamp_of :: "datetime \<Rightarrow> token_error + int" where
  "timestamp_of t = (case t of Naive _ \<Rightarrow> Inl Token_Rejected | Aware u off \<Rightarrow> Inr (trunc_seconds u))"

definition issued_claims :: "'sk token_issuer \<Rightarrow> issue_token_request \<Rightarrow> uuid \<Rightarrow> int \<Rightarrow> access_claims" where
  "issued_claims issuer r jti now =
     \<lparr>ac_issuer = ti_issuer issuer, ac_subject = pr_id (it_principal r), ac_audience = it_audience r,
      ac_scopes = sorted_scopes (it_scopes r), ac_jwt_id = uuid_str jti, ac_issued_at = now, ac_not_before = now,
      ac_expires_at = now + trunc_seconds (it_lifetime r),
      ac_credential_version = pr_credential_version (it_principal r), ac_principal_kind = pr_kind (it_principal r)\<rparr>"

definition signing_input :: "('sk, 'pk) token_codec \<Rightarrow> token_header \<Rightarrow> access_claims \<Rightarrow> string" where
  "signing_input codec h c = b64url_encode (dump_header codec h) @ ''.'' @ b64url_encode (dump_claims codec c)"

definition issue_token ::
    "('sk, 'pk) token_codec \<Rightarrow> 'sk token_issuer \<Rightarrow> issue_token_request \<Rightarrow> uuid \<Rightarrow> token_error + string" where
  "issue_token codec issuer r jti =
     (if it_lifetime r \<le> 0 \<or> it_scopes r = {} then Inl Token_Rejected
      else case timestamp_of (it_now r) of Inl e \<Rightarrow> Inl e
      | Inr now \<Rightarrow>
          let claims = issued_claims issuer r jti now; header = \<lparr>th_key_id = ti_active_key_id issuer\<rparr>;
              body = signing_input codec header claims
          in if \<not> valid_claims claims \<or> \<not> valid_header header then Inl Claims_Invalid
             else Inr (body @ ''.'' @ b64url_encode (ed25519_sign codec (ti_private_key issuer) body)))"

definition token_time_invalid :: "access_claims \<Rightarrow> int \<Rightarrow> bool" where
  "token_time_invalid c now \<longleftrightarrow>
     ac_issued_at c > now + TOKEN_SKEW_SECONDS \<or> ac_not_before c > now + TOKEN_SKEW_SECONDS
     \<or> ac_expires_at c < now - TOKEN_SKEW_SECONDS \<or> ac_expires_at c \<le> ac_not_before c"

definition verify_token ::
    "('sk, 'pk) token_codec \<Rightarrow> 'pk token_verifier \<Rightarrow> verify_token_request \<Rightarrow> token_error + access_claims" where
  "verify_token codec verifier r =
     (case split_on (CHR ''.'') (vt_token r) of
        [s0, s1, s2] \<Rightarrow>
          (case (Option.bind (b64url_decode s0) (parse_header codec), Option.bind (b64url_decode s1) (parse_claims codec),
                 b64url_decode s2) of
             (Some header, Some claims, Some signature) \<Rightarrow>
               (case tv_public_keys verifier (th_key_id header) of None \<Rightarrow> Inl Token_Rejected
                | Some key \<Rightarrow>
                    if \<not> ed25519_verify codec key signature (s0 @ ''.'' @ s1) then Inl Token_Rejected
                    else case timestamp_of (vt_now r) of Inl e \<Rightarrow> Inl e
                    | Inr now \<Rightarrow>
                        if token_time_invalid claims now \<or> ac_issuer claims \<noteq> tv_issuer verifier
                           \<or> ac_audience claims \<noteq> vt_audience r \<or> \<not> vt_required_scopes r \<subseteq> set (ac_scopes claims)
                        then Inl Token_Rejected else Inr claims)
           | _ \<Rightarrow> Inl Token_Rejected)
      | _ \<Rightarrow> Inl Token_Rejected)"

record principal_credential_state =
  pc_principal_id :: string
  pc_active_versions :: "string set"
  pc_revoked :: bool

definition enforce_credential_state :: "access_claims \<Rightarrow> principal_credential_state \<Rightarrow> token_error + unit" where
  "enforce_credential_state c s =
     (if pc_revoked s \<or> pc_principal_id s \<noteq> ac_subject c \<or> ac_credential_version c \<notin> pc_active_versions s
      then Inl Token_Rejected else Inr ())"

section \<open>Facts\<close>

lemma all_scopes_mem [simp]: "s \<in> set all_scopes"
  by (cases s) (simp_all add: all_scopes_def)

lemma sorted_scopes_set [simp]: "set (sorted_scopes S) = S"
  by (auto simp: sorted_scopes_def)

lemma sorted_scopes_nonempty: "sorted_scopes S = [] \<longleftrightarrow> S = {}"
  by (metis set_empty sorted_scopes_set)

text \<open>What the codec promises: parsing undoes printing on models that satisfy their constraints, the parser
  returns only such models, and a signature verifies under the matching key.\<close>

definition codec_parses :: "('sk, 'pk) token_codec \<Rightarrow> bool" where
  "codec_parses codec \<longleftrightarrow>
     (\<forall>h. valid_header h \<longrightarrow> parse_header codec (dump_header codec h) = Some h)
     \<and> (\<forall>c. valid_claims c \<longrightarrow> parse_claims codec (dump_claims codec c) = Some c)"

definition key_pair :: "('sk, 'pk) token_codec \<Rightarrow> 'sk \<Rightarrow> 'pk \<Rightarrow> bool" where
  "key_pair codec sk pk \<longleftrightarrow> (\<forall>m. ed25519_verify codec pk (ed25519_sign codec sk m) m)"

lemma issue_tokenD:
  assumes "issue_token codec issuer r jti = Inr token"
  obtains now body header claims where "timestamp_of (it_now r) = Inr now"
    "claims = issued_claims issuer r jti now" "header = \<lparr>th_key_id = ti_active_key_id issuer\<rparr>"
    "valid_claims claims" "valid_header header" "body = signing_input codec header claims"
    "token = body @ ''.'' @ b64url_encode (ed25519_sign codec (ti_private_key issuer) body)"
    "0 < it_lifetime r" "it_scopes r \<noteq> {}"
  using assms unfolding issue_token_def Let_def by (auto split: if_splits sum.splits)

lemma verify_tokenD:
  assumes "verify_token codec verifier r = Inr claims"
  obtains s0 s1 s2 header key signature now where "split_on (CHR ''.'') (vt_token r) = [s0, s1, s2]"
    "Option.bind (b64url_decode s0) (parse_header codec) = Some header"
    "Option.bind (b64url_decode s1) (parse_claims codec) = Some claims" "b64url_decode s2 = Some signature"
    "tv_public_keys verifier (th_key_id header) = Some key" "ed25519_verify codec key signature (s0 @ ''.'' @ s1)"
    "timestamp_of (vt_now r) = Inr now" "\<not> token_time_invalid claims now" "ac_issuer claims = tv_issuer verifier"
    "ac_audience claims = vt_audience r" "vt_required_scopes r \<subseteq> set (ac_scopes claims)"
  using assms unfolding verify_token_def
  by (auto split: list.splits option.splits prod.splits if_splits sum.splits)

lemma encoded_plain: "\<forall>c \<in> set (b64url_encode bs). c \<noteq> CHR ''.''"
  using b64url_encode_chars by blast

lemma split_token:
  "split_on (CHR ''.'') (b64url_encode a @ ''.'' @ b64url_encode b @ ''.'' @ b64url_encode c)
     = [b64url_encode a, b64url_encode b, b64url_encode c]"
  using split_on_append [OF encoded_plain [of a]] split_on_append [OF encoded_plain [of b]]
    split_on_plain [OF encoded_plain [of c]] by simp

lemma signing_input_claims:
  assumes "codec_parses codec" and "valid_claims c"
    and "s0 @ ''.'' @ s1 = signing_input codec h c" and "\<forall>x \<in> set s0. x \<noteq> CHR ''.''"
  shows "Option.bind (b64url_decode s1) (parse_claims codec) = Some c"
proof -
  have "split_once (CHR ''.'') (s0 @ ''.'' @ s1) = Some (s0, s1)"
    using split_once_append [OF assms(4), of s1] by simp
  moreover have "split_once (CHR ''.'') (signing_input codec h c)
      = Some (b64url_encode (dump_header codec h), b64url_encode (dump_claims codec c))"
    using split_once_append [OF encoded_plain] by (simp add: signing_input_def)
  ultimately have "s1 = b64url_encode (dump_claims codec c)" using assms(3) by simp
  then show ?thesis using assms(1,2) by (simp add: codec_parses_def)
qed

lemma split_on_parts: "x \<in> set (split_on d s) \<Longrightarrow> \<forall>c \<in> set x. c \<noteq> d"
proof (induction s arbitrary: x)
  case (Cons a s)
  then show ?case by (cases "split_on d s") (auto split: if_splits, blast)
qed simp

text \<open>The round trip, for a key that verifies the signature of the issued token.\<close>

lemma signed_token_verifies:
  assumes codec: "codec_parses codec"
    and pair: "ed25519_verify codec key (ed25519_sign codec (ti_private_key issuer) body0) body0"
      "body0 = signing_input codec \<lparr>th_key_id = ti_active_key_id issuer\<rparr> (issued_claims issuer r jti (trunc_seconds t))"
    and issued: "issue_token codec issuer r jti = Inr token" "it_now r = Aware t off"
    and keys: "tv_public_keys verifier (ti_active_key_id issuer) = Some key" "tv_issuer verifier = ti_issuer issuer"
    and scopes: "required \<subseteq> it_scopes r" and whole: "usec_per_second \<le> it_lifetime r"
    and time: "trunc_seconds t \<le> trunc_seconds u + TOKEN_SKEW_SECONDS"
      "trunc_seconds u \<le> trunc_seconds t + trunc_seconds (it_lifetime r) + TOKEN_SKEW_SECONDS"
  shows "verify_token codec verifier
     \<lparr>vt_token = token, vt_audience = it_audience r, vt_required_scopes = required, vt_now = Aware u off'\<rparr>
    = Inr (issued_claims issuer r jti (trunc_seconds t))"
proof -
  from issued(1) obtain now body header claims where *: "timestamp_of (it_now r) = Inr now"
    "claims = issued_claims issuer r jti now" "header = \<lparr>th_key_id = ti_active_key_id issuer\<rparr>"
    "valid_claims claims" "valid_header header" "body = signing_input codec header claims"
    "token = body @ ''.'' @ b64url_encode (ed25519_sign codec (ti_private_key issuer) body)" by (rule issue_tokenD)
  have now: "now = trunc_seconds t" using *(1) issued(2) by (simp add: timestamp_of_def)
  have "1 \<le> trunc_seconds (it_lifetime r)" using whole by (simp add: trunc_seconds_def)
  then have fine: "\<not> token_time_invalid claims (trunc_seconds u)"
    using time by (simp add: *(2) now token_time_invalid_def issued_claims_def)
  have split: "split_on (CHR ''.'') token = [b64url_encode (dump_header codec header), b64url_encode (dump_claims codec claims),
      b64url_encode (ed25519_sign codec (ti_private_key issuer) body)]"
    using split_token by (simp add: *(6,7) signing_input_def)
  have parsed: "parse_header codec (dump_header codec header) = Some header"
    "parse_claims codec (dump_claims codec claims) = Some claims" using codec *(4,5) by (simp_all add: codec_parses_def)
  have signed: "ed25519_verify codec key (ed25519_sign codec (ti_private_key issuer) body)
      (b64url_encode (dump_header codec header) @ ''.'' @ b64url_encode (dump_claims codec claims))"
    using pair *(2,3,6) now by (simp add: signing_input_def)
  have held: "ac_issuer claims = tv_issuer verifier" "ac_audience claims = it_audience r" "required \<subseteq> set (ac_scopes claims)"
    using scopes keys(2) by (simp_all add: *(2) issued_claims_def)
  have kid: "tv_public_keys verifier (th_key_id header) = Some key" using keys(1) *(3) by simp
  show ?thesis
    unfolding verify_token_def using split parsed signed held kid fine
    by (simp add: timestamp_of_def) (simp add: *(2) now)
qed

lemma issued_token_verifies:
  assumes codec: "codec_parses codec" and pair: "key_pair codec (ti_private_key issuer) key"
    and issued: "issue_token codec issuer r jti = Inr token" "it_now r = Aware t off"
    and keys: "tv_public_keys verifier (ti_active_key_id issuer) = Some key" "tv_issuer verifier = ti_issuer issuer"
    and scopes: "required \<subseteq> it_scopes r" and whole: "usec_per_second \<le> it_lifetime r"
    and time: "trunc_seconds t \<le> trunc_seconds u + TOKEN_SKEW_SECONDS"
      "trunc_seconds u \<le> trunc_seconds t + trunc_seconds (it_lifetime r) + TOKEN_SKEW_SECONDS"
  shows "verify_token codec verifier
     \<lparr>vt_token = token, vt_audience = it_audience r, vt_required_scopes = required, vt_now = Aware u off'\<rparr>
    = Inr (issued_claims issuer r jti (trunc_seconds t))"
  by (rule signed_token_verifies [OF codec _ refl issued keys scopes whole time])
    (use pair in \<open>simp add: key_pair_def\<close>)

text \<open>If the accepted signatures are only those on the signing inputs of the claims in \<open>issued\<close>, an accepted
  token carries claims of \<open>issued\<close>.\<close>

definition unforgeable :: "('sk, 'pk) token_codec \<Rightarrow> 'pk token_verifier \<Rightarrow> access_claims set \<Rightarrow> bool" where
  "unforgeable codec verifier issued \<longleftrightarrow>
     (\<forall>kid key signature m. tv_public_keys verifier kid = Some key \<longrightarrow> ed25519_verify codec key signature m \<longrightarrow>
        (\<exists>h. \<exists>c \<in> issued. valid_claims c \<and> m = signing_input codec h c))"

lemma accepted_token_issued:
  assumes "codec_parses codec" and "unforgeable codec verifier issued" and "verify_token codec verifier r = Inr claims"
  shows "claims \<in> issued"
proof -
  obtain s0 s1 s2 key signature and header :: token_header where v: "split_on (CHR ''.'') (vt_token r) = [s0, s1, s2]"
    "Option.bind (b64url_decode s1) (parse_claims codec) = Some claims"
    "tv_public_keys verifier (th_key_id header) = Some key" "ed25519_verify codec key signature (s0 @ ''.'' @ s1)"
    by (rule verify_tokenD [OF assms(3)]) (erule (3) that)
  obtain h c where c: "c \<in> issued" "valid_claims c" "s0 @ ''.'' @ s1 = signing_input codec h c"
    using assms(2) v(3,4) unfolding unforgeable_def by blast
  have "\<forall>x \<in> set s0. x \<noteq> CHR ''.''" using split_on_parts [of s0 "CHR ''.''" "vt_token r"] v(1) by simp
  then have "Option.bind (b64url_decode s1) (parse_claims codec) = Some c"
    using signing_input_claims [OF assms(1) c(2,3)] by simp
  with v(2) c(1) show ?thesis by simp
qed

end
