(* ===== verification/Identity_Stores.thy ===== *)
theory Identity_Stores
  imports Service_Tokens Transaction
begin

text \<open>
  \<open>services/identity/ports.py\<close> and its PostgreSQL adapters: one-use nonces and fixed-window rate limits
  (\<open>sql_replay.py\<close>), login failures (\<open>sql_admin_rate_limit.py\<close>), principals and worker approvals
  (\<open>sql_principals.py\<close>), on the rows of \<open>db/auth_models.py\<close>.

  A statement sees two clocks of the database: \<open>now()\<close>, the start of its transaction, and
  \<open>clock_timestamp()\<close>. A check constraint is tested on the proposed row before a conflict is looked for. The
  locales \<open>nonce_store\<close> and \<open>rate_limiter\<close> are the contracts of the two ports.
\<close>

section \<open>Nonces\<close>

datatype nonce_purpose = Nonce_GITHUB_EXCHANGE | Nonce_WORKER_EXCHANGE | Nonce_BFF_EXCHANGE | Nonce_SESSION_ROTATION

definition nonce_purpose_of :: "string \<Rightarrow> nonce_purpose option" where
  "nonce_purpose_of namespace =
     (if namespace = ''github-oidc'' then Some Nonce_GITHUB_EXCHANGE
      else if namespace = ''worker-bootstrap'' then Some Nonce_WORKER_EXCHANGE
      else if namespace = ''bff'' then Some Nonce_BFF_EXCHANGE else None)"

record nonce_row =
  on_purpose :: nonce_purpose
  on_nonce_hash :: string
  on_expires_at :: instant

record db_time =
  tx_now :: instant
  clock :: instant

definition nonce_digest :: "string \<Rightarrow> string \<Rightarrow> string" where
  "nonce_digest namespace key = sha256 (namespace @ [char_of (0 :: nat)] @ key)"

abbreviation nonce_key :: "nonce_row \<Rightarrow> nonce_purpose \<times> string" where
  "nonce_key r \<equiv> (on_purpose r, on_nonce_hash r)"

definition consume_once ::
    "db_time \<Rightarrow> string \<Rightarrow> string \<Rightarrow> instant \<Rightarrow> nonce_row list \<Rightarrow> (identity_fault + bool) \<times> nonce_row list" where
  "consume_once t namespace key retain_until rows =
     (case nonce_purpose_of namespace of None \<Rightarrow> (Inr False, rows)
      | Some purpose \<Rightarrow>
          let new = \<lparr>on_purpose = purpose, on_nonce_hash = nonce_digest namespace key, on_expires_at = retain_until\<rparr>
          in if retain_until \<le> tx_now t then (Inl Integrity_Failure, rows)
             else (case row_of nonce_key (nonce_key new) rows of
                 None \<Rightarrow> (Inr True, rows @ [new])
               | Some row \<Rightarrow> if on_expires_at row \<le> clock t then (Inr True, put_row nonce_key new rows)
                   else (Inr False, rows)))"

definition nonce_held :: "nonce_row list \<Rightarrow> string \<Rightarrow> string \<Rightarrow> instant option" where
  "nonce_held rows namespace key =
     (case nonce_purpose_of namespace of None \<Rightarrow> None
      | Some purpose \<Rightarrow> map_option on_expires_at (row_of nonce_key (purpose, nonce_digest namespace key) rows))"

text \<open>The contract: a consumed nonce is held until its retention, no call releases a nonce that is held and not
  expired, and a held nonce is refused.\<close>

locale nonce_store =
  fixes consume :: "db_time \<Rightarrow> string \<Rightarrow> string \<Rightarrow> instant \<Rightarrow> 's \<Rightarrow> (identity_fault + bool) \<times> 's"
    and held :: "'s \<Rightarrow> string \<Rightarrow> string \<Rightarrow> instant option"
  assumes consumed_held: "consume t ns k u s = (Inr True, s') \<Longrightarrow> held s' ns k = Some u"
    and held_kept: "held s ns' k' = Some u' \<Longrightarrow> clock t < u' \<Longrightarrow> consume t ns k u s = (r, s') \<Longrightarrow> held s' ns' k' = Some u'"
    and held_refused: "held s ns k = Some u' \<Longrightarrow> clock t < u' \<Longrightarrow> consume t ns k u s = (r, s') \<Longrightarrow> r \<noteq> Inr True"
begin

text \<open>A sequence of calls, and their answers.\<close>

fun consume_all :: "(db_time \<times> string \<times> string \<times> instant) list \<Rightarrow> 's \<Rightarrow> (identity_fault + bool) list \<times> 's" where
  "consume_all [] s = ([], s)"
| "consume_all ((t, ns, k, u) # cs) s =
     (case consume t ns k u s of (r, s') \<Rightarrow> (case consume_all cs s' of (rs, s'') \<Rightarrow> (r # rs, s'')))"

lemma consume_all_kept:
  assumes "held s ns k = Some u" and "\<forall>(t, _) \<in> set cs. clock t < u"
  shows "held (snd (consume_all cs s)) ns k = Some u"
  using assms
proof (induction cs arbitrary: s)
  case (Cons c cs)
  obtain t ns' k' u' where c: "c = (t, ns', k', u')" by (cases c)
  obtain r s' where step: "consume t ns' k' u' s = (r, s')" by (rule prod.exhaust)
  have "held s' ns k = Some u" using held_kept [OF Cons.prems(1) _ step] Cons.prems(2) c by simp
  with Cons.IH [of s'] Cons.prems(2) show ?case by (cases "consume_all cs s'") (simp add: c step)
qed simp

text \<open>Between a successful consumption and the end of the retention, no other succeeds for the same key.\<close>

lemma never_twice:
  assumes first: "consume t ns k u s = (Inr True, s')" and calls: "\<forall>(t, _) \<in> set cs. clock t < u"
    and again: "consume t2 ns k u2 (snd (consume_all cs s')) = (r, s2)" and "clock t2 < u"
  shows "r \<noteq> Inr True"
  using held_refused [OF consume_all_kept [OF consumed_held [OF first] calls] assms(4) again] .

end

lemma consume_once_cases:
  assumes "consume_once t ns k u s = (r, s')"
  obtains "r \<noteq> Inr True" "s' = s"
  | p new where "nonce_purpose_of ns = Some p" "r = Inr True" "s' = put_row nonce_key new s"
      "new = \<lparr>on_purpose = p, on_nonce_hash = nonce_digest ns k, on_expires_at = u\<rparr>" "tx_now t < u"
      "\<forall>row. row_of nonce_key (nonce_key new) s = Some row \<longrightarrow> on_expires_at row \<le> clock t"
proof (cases "nonce_purpose_of ns")
  case None
  then have "r = Inr False" "s' = s" using assms by (simp_all add: consume_once_def)
  then show thesis using that(1) by simp
next
  case (Some p)
  let ?new = "\<lparr>on_purpose = p, on_nonce_hash = nonce_digest ns k, on_expires_at = u\<rparr>"
  show thesis
  proof (cases "row_of nonce_key (nonce_key ?new) s")
    case None
    then have put: "s @ [?new] = put_row nonce_key ?new s" by (simp add: put_row_def row_of_None)
    show thesis
    proof (cases "u \<le> tx_now t")
      case True
      then have "r = Inl Integrity_Failure" "s' = s" using assms Some by (simp_all add: consume_once_def)
      then show thesis using that(1) by simp
    next
      case False
      then have "r = Inr True" "s' = put_row nonce_key ?new s"
        using assms Some None put by (simp_all add: consume_once_def)
      then show thesis using that(2) [OF Some] False None by simp
    qed
  next
    case (Some row)
    show thesis
    proof (cases "tx_now t < u \<and> on_expires_at row \<le> clock t")
      case True
      then have "r = Inr True" "s' = put_row nonce_key ?new s"
        using assms \<open>nonce_purpose_of ns = Some p\<close> Some by (simp_all add: consume_once_def)
      then show thesis using that(2) [OF \<open>nonce_purpose_of ns = Some p\<close>] True Some by simp
    next
      case False
      then have "r \<noteq> Inr True" "s' = s"
        using assms \<open>nonce_purpose_of ns = Some p\<close> Some by (auto simp: consume_once_def Let_def split: if_splits)
      then show thesis using that(1) by simp
    qed
  qed
qed

interpretation sql_nonce: nonce_store consume_once nonce_held
proof
  fix t ns k u s s'
  assume "consume_once t ns k u s = (Inr True, s')"
  then show "nonce_held s' ns k = Some u"
    by (rule consume_once_cases) (auto simp: nonce_held_def row_of_put)
next
  fix s ns' k' u' t ns k u s' and r :: "identity_fault + bool"
  assume held: "nonce_held s ns' k' = Some u'" and live: "clock t < u'" and run: "consume_once t ns k u s = (r, s')"
  from run show "nonce_held s' ns' k' = Some u'"
  proof (cases rule: consume_once_cases)
    case 1
    then show ?thesis using held by simp
  next
    case (2 p new)
    then show ?thesis using held live
      by (auto simp: nonce_held_def row_of_put split: option.splits)
  qed
  show "r \<noteq> Inr True" if "nonce_held s ns k = Some u'"
    using run that live by (cases rule: consume_once_cases) (auto simp: nonce_held_def)
qed

section \<open>Fixed windows\<close>

record rate_limit_rule =
  rr_bucket :: string
  rr_limit :: int
  rr_window_seconds :: int

record rate_limit_decision =
  rd_allowed :: bool
  rd_retry_after_seconds :: int

record rate_row =
  rl_client_hash :: string
  rl_bucket_start :: instant
  rl_bucket_end :: instant
  rl_failure_count :: int
  rl_locked_until :: "instant option"
  rl_updated_at :: instant

abbreviation rate_key :: "rate_row \<Rightarrow> string \<times> instant" where
  "rate_key r \<equiv> (rl_client_hash r, rl_bucket_start r)"

definition window_start :: "int \<Rightarrow> instant \<Rightarrow> instant" where
  "window_start w now = (let timestamp = trunc_seconds now in seconds (timestamp - timestamp mod w))"

text \<open>\<open>max(1, ceil((end - now).total_seconds()))\<close>\<close>

definition retry_after :: "instant \<Rightarrow> instant \<Rightarrow> int" where
  "retry_after until now = max 1 (- ((now - until) div usec_per_second))"

definition rate_client_hash :: "rate_limit_rule \<Rightarrow> string \<Rightarrow> string" where
  "rate_client_hash rule key = sha256 (rr_bucket rule @ [char_of (0 :: nat)] @ key)"

definition consume_allowance ::
    "string \<Rightarrow> rate_limit_rule \<Rightarrow> instant \<Rightarrow> rate_row list \<Rightarrow> rate_limit_decision \<times> rate_row list" where
  "consume_allowance key rule now rows =
     (let start = window_start (rr_window_seconds rule) now; until = start + seconds (rr_window_seconds rule);
          hash = rate_client_hash rule key;
          row = (case row_of rate_key (hash, start) rows of
              None \<Rightarrow> \<lparr>rl_client_hash = hash, rl_bucket_start = start, rl_bucket_end = until, rl_failure_count = 1,
                rl_locked_until = None, rl_updated_at = now\<rparr>
            | Some row \<Rightarrow> row\<lparr>rl_failure_count := rl_failure_count row + 1, rl_updated_at := now\<rparr>)
      in (\<lparr>rd_allowed = rl_failure_count row \<le> rr_limit rule, rd_retry_after_seconds = retry_after until now\<rparr>,
          put_row rate_key row rows))"

definition window_count :: "string \<Rightarrow> instant \<Rightarrow> rate_row list \<Rightarrow> int" where
  "window_count hash start rows = (case row_of rate_key (hash, start) rows of None \<Rightarrow> 0 | Some r \<Rightarrow> rl_failure_count r)"

lemma window_count_put:
  "window_count h s (put_row rate_key row rows)
     = (if rate_key row = (h, s) then rl_failure_count row else window_count h s rows)"
  by (simp add: window_count_def row_of_put eq_commute del: prod.inject)

lemma window_count_None: "row_of rate_key (h, s) rows = None \<Longrightarrow> window_count h s rows = 0"
  by (simp add: window_count_def)

lemma window_count_Some: "row_of rate_key (h, s) rows = Some r \<Longrightarrow>
  window_count h s rows = rl_failure_count r \<and> rl_client_hash r = h \<and> rl_bucket_start r = s"
  using row_of_SomeD [of rate_key "(h, s)" rows r] by (simp add: window_count_def)

lemma consume_allowance_put:
  obtains row where "snd (consume_allowance key rule now rows) = put_row rate_key row rows"
    "rl_client_hash row = rate_client_hash rule key" "rl_bucket_start row = window_start (rr_window_seconds rule) now"
    "rl_failure_count row = window_count (rate_client_hash rule key) (window_start (rr_window_seconds rule) now) rows + 1"
    "rd_allowed (fst (consume_allowance key rule now rows)) \<longleftrightarrow> rl_failure_count row \<le> rr_limit rule"
proof (cases "row_of rate_key (rate_client_hash rule key, window_start (rr_window_seconds rule) now) rows")
  case None
  show thesis
    by (rule that [of "\<lparr>rl_client_hash = rate_client_hash rule key,
        rl_bucket_start = window_start (rr_window_seconds rule) now,
        rl_bucket_end = window_start (rr_window_seconds rule) now + seconds (rr_window_seconds rule),
        rl_failure_count = 1, rl_locked_until = None, rl_updated_at = now\<rparr>"])
      (simp_all add: consume_allowance_def Let_def None window_count_None [OF None])
next
  case (Some r)
  show thesis
    by (rule that [of "r\<lparr>rl_failure_count := rl_failure_count r + 1, rl_updated_at := now\<rparr>"])
      (use window_count_Some [OF Some] in \<open>simp_all add: consume_allowance_def Let_def Some\<close>)
qed

lemma consume_allowance_facts:
  "rd_allowed (fst (consume_allowance key rule now rows)) \<longleftrightarrow>
     window_count (rate_client_hash rule key) (window_start (rr_window_seconds rule) now) rows < rr_limit rule"
  "window_count h s (snd (consume_allowance key rule now rows)) = window_count h s rows
     + (if h = rate_client_hash rule key \<and> s = window_start (rr_window_seconds rule) now then 1 else 0)"
  by (rule consume_allowance_put [of key rule now rows]; auto simp: window_count_put)+

text \<open>The answers of a sequence of requests, and how many of one client, rule and window were granted.\<close>

fun consume_requests :: "(string \<times> rate_limit_rule \<times> instant) list \<Rightarrow> rate_row list \<Rightarrow> rate_limit_decision list \<times> rate_row list" where
  "consume_requests [] rows = ([], rows)"
| "consume_requests ((key, rule, now) # rs) rows =
     (case consume_allowance key rule now rows of (d, rows') \<Rightarrow>
        (case consume_requests rs rows' of (ds, rows'') \<Rightarrow> (d # ds, rows'')))"

definition granted_in :: "string \<Rightarrow> rate_limit_rule \<Rightarrow> instant
    \<Rightarrow> (string \<times> rate_limit_rule \<times> instant) list \<Rightarrow> rate_limit_decision list \<Rightarrow> nat" where
  "granted_in key rule start rs ds = length (filter (\<lambda>((k, r, now), d).
     k = key \<and> r = rule \<and> window_start (rr_window_seconds rule) now = start \<and> rd_allowed d) (zip rs ds))"

lemma granted_bound:
  "int (granted_in key rule start rs (fst (consume_requests rs rows)))
     \<le> max 0 (rr_limit rule - window_count (rate_client_hash rule key) start rows)"
proof (induction rs arbitrary: rows)
  case Nil
  then show ?case by (simp add: granted_in_def)
next
  case (Cons c rs)
  obtain k r now where c: "c = (k, r, now)" by (cases c)
  obtain d rows' where step: "consume_allowance k r now rows = (d, rows')" by (rule prod.exhaust)
  have IH: "int (granted_in key rule start rs (fst (consume_requests rs rows')))
      \<le> max 0 (rr_limit rule - window_count (rate_client_hash rule key) start rows')" by (rule Cons.IH)
  have count: "window_count (rate_client_hash rule key) start rows' = window_count (rate_client_hash rule key) start rows
      + (if rate_client_hash rule key = rate_client_hash r k \<and> start = window_start (rr_window_seconds r) now then 1 else 0)"
    using consume_allowance_facts(2) [of "rate_client_hash rule key" start k r now rows] by (simp add: step)
  have allowed: "rd_allowed d \<longleftrightarrow> window_count (rate_client_hash r k) (window_start (rr_window_seconds r) now) rows < rr_limit r"
    using consume_allowance_facts(1) [of k r now rows] by (simp add: step)
  have "granted_in key rule start (c # rs) (fst (consume_requests (c # rs) rows))
      = (if k = key \<and> r = rule \<and> window_start (rr_window_seconds rule) now = start \<and> rd_allowed d then 1 else 0)
        + granted_in key rule start rs (fst (consume_requests rs rows'))"
    by (simp add: c step granted_in_def split: prod.split)
  then show ?case
  proof (cases "k = key \<and> r = rule \<and> window_start (rr_window_seconds rule) now = start \<and> rd_allowed d")
    case True
    then have "window_count (rate_client_hash rule key) start rows' = window_count (rate_client_hash rule key) start rows + 1"
      "window_count (rate_client_hash rule key) start rows < rr_limit rule" using count allowed by auto
    then show ?thesis using IH \<open>granted_in key rule start (c # rs) _ = _\<close> True by simp
  next
    case False
    have "window_count (rate_client_hash rule key) start rows \<le> window_count (rate_client_hash rule key) start rows'"
      using count by simp
    then show ?thesis using IH \<open>granted_in key rule start (c # rs) _ = _\<close> False by auto
  qed
qed

text \<open>The contract of the port: a window grants at most its limit.\<close>

locale rate_limiter =
  fixes consume :: "string \<Rightarrow> rate_limit_rule \<Rightarrow> instant \<Rightarrow> 's \<Rightarrow> rate_limit_decision \<times> 's"
    and used :: "string \<Rightarrow> rate_limit_rule \<Rightarrow> instant \<Rightarrow> 's \<Rightarrow> int"
  assumes allowed_iff: "rd_allowed (fst (consume k r now s)) \<longleftrightarrow> used k r (window_start (rr_window_seconds r) now) s < rr_limit r"
    and counted: "used k r (window_start (rr_window_seconds r) now) (snd (consume k r now s))
        = used k r (window_start (rr_window_seconds r) now) s + 1"
    and used_mono: "used k r w s \<le> used k r w (snd (consume k' r' now s))"
begin

lemma exhausted_stays:
  assumes "rr_limit r \<le> used k r (window_start (rr_window_seconds r) now) s"
  shows "\<not> rd_allowed (fst (consume k r now s))"
    and "rr_limit r \<le> used k r (window_start (rr_window_seconds r) now) (snd (consume k' r' now' s))"
  using assms allowed_iff [of k r now s] used_mono [of k r _ s k' r' now'] by (auto intro: order_trans)

end

interpretation sql_rate: rate_limiter consume_allowance "\<lambda>k r. window_count (rate_client_hash r k)"
  by unfold_locales (simp_all add: consume_allowance_facts)

section \<open>Login failures\<close>

definition LOGIN_FAILURE_LIMIT :: int where "LOGIN_FAILURE_LIMIT = 5"
definition LOGIN_FAILURE_WINDOW_SECONDS :: int where "LOGIN_FAILURE_WINDOW_SECONDS = 900"

definition login_client_hash :: "string \<Rightarrow> string \<Rightarrow> string" where
  "login_client_hash secret client_ip = hmac_sha256 secret (''admin-login-client-v1'' @ [char_of (0 :: nat)] @ client_ip)"

abbreviation login_bucket :: "instant \<Rightarrow> instant" where
  "login_bucket now \<equiv> window_start LOGIN_FAILURE_WINDOW_SECONDS now"

definition login_is_allowed :: "string \<Rightarrow> string \<Rightarrow> instant \<Rightarrow> rate_row list \<Rightarrow> bool" where
  "login_is_allowed secret client_ip now rows =
     (case row_of rate_key (login_client_hash secret client_ip, login_bucket now) rows of None \<Rightarrow> True
      | Some row \<Rightarrow> rl_failure_count row < LOGIN_FAILURE_LIMIT
          \<and> (case rl_locked_until row of None \<Rightarrow> True | Some u \<Rightarrow> u \<le> now))"

definition record_login_failure :: "string \<Rightarrow> string \<Rightarrow> instant \<Rightarrow> rate_row list \<Rightarrow> bool \<times> rate_row list" where
  "record_login_failure secret client_ip now rows =
     (let hash = login_client_hash secret client_ip; start = login_bucket now;
          until = start + seconds LOGIN_FAILURE_WINDOW_SECONDS;
          row = (case row_of rate_key (hash, start) rows of
              None \<Rightarrow> \<lparr>rl_client_hash = hash, rl_bucket_start = start, rl_bucket_end = until, rl_failure_count = 1,
                rl_locked_until = None, rl_updated_at = now\<rparr>
            | Some row \<Rightarrow> row\<lparr>rl_failure_count := rl_failure_count row + 1,
                rl_locked_until := if rl_failure_count row + 1 \<ge> LOGIN_FAILURE_LIMIT then Some until else rl_locked_until row,
                rl_updated_at := now\<rparr>)
      in (rl_failure_count row < LOGIN_FAILURE_LIMIT, put_row rate_key row rows))"

definition clear_login_failures :: "string \<Rightarrow> string \<Rightarrow> rate_row list \<Rightarrow> rate_row list" where
  "clear_login_failures secret client_ip rows =
     filter (\<lambda>r. rl_client_hash r \<noteq> login_client_hash secret client_ip) rows"

section \<open>Principals and approvals\<close>

datatype domain_principal_kind =
  Principal_GITHUB_COLLECTOR | Principal_GITHUB_VERIFIER | Principal_WINDOWS_WORKER | Principal_BFF | Principal_ADMIN

fun domain_kind_of :: "principal_kind \<Rightarrow> domain_principal_kind option" where
  "domain_kind_of Kind_BFF = Some Principal_BFF"
| "domain_kind_of Kind_GITHUB_COLLECTOR = Some Principal_GITHUB_COLLECTOR"
| "domain_kind_of Kind_GITHUB_VERIFIER = Some Principal_GITHUB_VERIFIER"
| "domain_kind_of Kind_WINDOWS_WORKER = Some Principal_WINDOWS_WORKER"
| "domain_kind_of Kind_ADMIN_SESSION = None"

record principal_row =
  sp_id :: uuid
  sp_kind :: domain_principal_kind
  sp_subject :: string
  sp_active :: bool
  sp_revoked_at :: "instant option"

record credential_row =
  cv_id :: uuid
  cv_principal_id :: uuid
  cv_version :: string
  cv_active :: bool
  cv_valid_from :: instant
  cv_valid_until :: instant
  cv_revoked_at :: "instant option"

datatype capability_kind = Capability_AUTOMATION_TERMS | Capability_OTHER
datatype proof_status = Worker_Proof_APPROVED | Worker_Proof_OTHER

record worker_proof_row =
  wp_id :: uuid
  wp_principal_id :: "uuid option"
  wp_kind :: capability_kind
  wp_status :: proof_status
  wp_effective_at :: "instant option"
  wp_expires_at :: "instant option"
  wp_revoked_at :: "instant option"

record identity_db =
  idb_nonces :: "nonce_row list"
  idb_rates :: "rate_row list"
  idb_principals :: "principal_row list"
  idb_credentials :: "credential_row list"
  idb_proofs :: "worker_proof_row list"

record principal_authorization_request =
  pa_principal_id :: string
  pa_credential_version :: string
  pa_checked_at :: instant

record github_principal_registration =
  gp_principal_id :: string
  gp_kind :: principal_kind
  gp_credential_version :: string
  gp_valid_from :: instant
  gp_valid_until :: instant

definition principal_live :: "principal_row \<Rightarrow> bool" where
  "principal_live p \<longleftrightarrow> sp_active p \<and> sp_revoked_at p = None"

definition credential_live :: "credential_row \<Rightarrow> bool" where
  "credential_live c \<longleftrightarrow> cv_active c \<and> cv_revoked_at c = None"

definition credential_current :: "instant \<Rightarrow> credential_row \<Rightarrow> bool" where
  "credential_current t c \<longleftrightarrow> credential_live c \<and> cv_valid_from c \<le> t \<and> t < cv_valid_until c"

definition authorizing_rows :: "principal_authorization_request \<Rightarrow> identity_db \<Rightarrow> (principal_row \<times> credential_row) list" where
  "authorizing_rows r db =
     filter (\<lambda>(p, c). cv_principal_id c = sp_id p \<and> sp_subject p = pa_principal_id r \<and> principal_live p
         \<and> cv_version c = pa_credential_version r \<and> credential_current (pa_checked_at r) c)
       (List.product (idb_principals db) (idb_credentials db))"

text \<open>\<open>scalar_one_or_none\<close>\<close>

definition authorize_principal :: "principal_authorization_request \<Rightarrow> identity_db \<Rightarrow> identity_fault + bool" where
  "authorize_principal r db = (case authorizing_rows r db of [] \<Rightarrow> Inr False | [_] \<Rightarrow> Inr True | _ \<Rightarrow> Inl Multiple_Rows)"

text \<open>\<open>register\<close>: the ids are those of the rows that may be inserted, which must be unused. A new credential must
  have a window, as its check constraint says.\<close>

definition register_credential ::
    "uuid \<Rightarrow> uuid \<Rightarrow> github_principal_registration \<Rightarrow> identity_db \<Rightarrow> (identity_fault + bool) \<times> identity_db" where
  "register_credential new_id principal_id r db =
     (case List.find (\<lambda>c. cv_principal_id c = principal_id \<and> cv_version c = gp_credential_version r) (idb_credentials db) of
        None \<Rightarrow>
          (if gp_valid_until r \<le> gp_valid_from r \<or> new_id \<in> cv_id ` set (idb_credentials db) then (Inl Integrity_Failure, db)
           else (Inr True, db\<lparr>idb_credentials := idb_credentials db @
             [\<lparr>cv_id = new_id, cv_principal_id = principal_id, cv_version = gp_credential_version r, cv_active = True,
               cv_valid_from = gp_valid_from r, cv_valid_until = gp_valid_until r, cv_revoked_at = None\<rparr>]\<rparr>))
      | Some c \<Rightarrow>
          if \<not> credential_live c then (Inr False, db)
          else (Inr (cv_valid_from c \<le> gp_valid_from r),
            db\<lparr>idb_credentials := put_row cv_id (c\<lparr>cv_valid_until := max (cv_valid_until c) (gp_valid_until r)\<rparr>)
              (idb_credentials db)\<rparr>))"

definition register_principal ::
    "uuid \<times> uuid \<Rightarrow> github_principal_registration \<Rightarrow> identity_db \<Rightarrow> (identity_fault + bool) \<times> identity_db" where
  "register_principal ids r db =
     (case domain_kind_of (gp_kind r) of None \<Rightarrow> (Inr False, db)
      | Some kind \<Rightarrow>
          (case List.find (\<lambda>p. sp_kind p = kind \<and> sp_subject p = gp_principal_id r) (idb_principals db) of
             None \<Rightarrow>
               if fst ids \<in> sp_id ` set (idb_principals db) then (Inl Integrity_Failure, db)
               else (case register_credential (snd ids) (fst ids) r (db\<lparr>idb_principals := idb_principals db @
                   [\<lparr>sp_id = fst ids, sp_kind = kind, sp_subject = gp_principal_id r, sp_active = True,
                     sp_revoked_at = None\<rparr>]\<rparr>) of
                  (Inl e, _) \<Rightarrow> (Inl e, db) | (Inr b, db') \<Rightarrow> (Inr b, db'))
           | Some p \<Rightarrow> if \<not> principal_live p then (Inr False, db) else register_credential (snd ids) (sp_id p) r db))"

record worker_approval_request =
  wa_worker_id :: string
  wa_capability_proof_id :: string
  wa_credential_version :: string
  wa_checked_at :: instant

definition approving_rows ::
    "worker_approval_request \<Rightarrow> uuid \<Rightarrow> identity_db \<Rightarrow> (worker_proof_row \<times> principal_row \<times> credential_row) list" where
  "approving_rows r proof_id db =
     filter (\<lambda>(w, p, c). wp_principal_id w = Some (sp_id p) \<and> cv_principal_id c = sp_id p \<and> wp_id w = proof_id
         \<and> wp_kind w = Capability_AUTOMATION_TERMS \<and> wp_status w = Worker_Proof_APPROVED
         \<and> (case wp_effective_at w of None \<Rightarrow> False | Some t \<Rightarrow> t \<le> wa_checked_at r)
         \<and> (case wp_expires_at w of None \<Rightarrow> False | Some t \<Rightarrow> wa_checked_at r < t) \<and> wp_revoked_at w = None
         \<and> sp_kind p = Principal_WINDOWS_WORKER \<and> sp_subject p = ''worker:'' @ wa_worker_id r \<and> principal_live p
         \<and> cv_version c = wa_credential_version r \<and> credential_current (wa_checked_at r) c)
       (List.product (idb_proofs db) (List.product (idb_principals db) (idb_credentials db)))"

text \<open>\<open>UUID(text)\<close> is the argument \<open>parse_uuid\<close>.\<close>

definition authorize_worker ::
    "(string \<Rightarrow> uuid option) \<Rightarrow> worker_approval_request \<Rightarrow> identity_db \<Rightarrow> identity_fault + bool" where
  "authorize_worker parse_uuid r db =
     (case parse_uuid (wa_capability_proof_id r) of None \<Rightarrow> Inr False
      | Some proof_id \<Rightarrow> (case approving_rows r proof_id db of [] \<Rightarrow> Inr False | [_] \<Rightarrow> Inr True | _ \<Rightarrow> Inl Multiple_Rows))"

end
