(* ===== verification/Token_Exchange.thy ===== *)
theory Token_Exchange
  imports Identity_Stores
begin

text \<open>
  The three exchanges that mint service tokens (\<open>bff.py\<close>, \<open>github.py\<close>, \<open>windows.py\<close>, \<open>exchanges.py\<close> under
  \<open>services/identity/\<close>), the authorization of a presented token (\<open>services/dashboard/sql_authorizer.py\<close>,
  \<open>security.py\<close>), the cron credential (\<open>cron.py\<close>) and the deployed policy
  (\<open>wiring/identity_dependencies.py\<close>).

  A handler runs several transactions, so what it committed before it raised stays: handlers return the new
  state also with an error. The state records, besides the tables, the claims that the private key has signed.
  The verifier of GitHub's RS256 tokens is an argument; the run id and attempt it returns are ASCII text.
\<close>

section \<open>Server-side frontend\<close>

definition BFF_TOKEN_TTL_SECONDS :: int where "BFF_TOKEN_TTL_SECONDS = 300"
definition BFF_NONCE_RETENTION_SECONDS :: int where "BFF_NONCE_RETENTION_SECONDS = 600"

definition BFF_EXCHANGE_RULE :: rate_limit_rule where
  "BFF_EXCHANGE_RULE = \<lparr>rr_bucket = ''bff-exchange'', rr_limit = 60, rr_window_seconds = 60\<rparr>"

definition BFF_FAILURE_RULE :: rate_limit_rule where
  "BFF_FAILURE_RULE = \<lparr>rr_bucket = ''bff-nonce-failure'', rr_limit = 10, rr_window_seconds = 60\<rparr>"

definition BFF_SCOPE_ALLOWLIST :: "scope set list" where
  "BFF_SCOPE_ALLOWLIST = [{BFF_AUTH, BFF_READ}, {ADMIN_COMMAND}]"

datatype credential_state = Credential_ACTIVE | Credential_GRACE | Credential_REVOKED

record bff_credential =
  bc_version :: string
  bc_verifier :: string
  bc_state :: credential_state

definition bff_credential_from_secret :: "string \<Rightarrow> string \<Rightarrow> credential_state \<Rightarrow> bff_credential" where
  "bff_credential_from_secret version secret state = \<lparr>bc_version = version, bc_verifier = sha256 secret, bc_state = state\<rparr>"

record bff_exchange_request =
  bx_credential_version :: string
  bx_presented_credential :: string
  bx_request_nonce :: string
  bx_requested_scopes :: "scope set"
  bx_deployment_identity :: string

record service_authorization =
  sa_principal_id :: string
  sa_kind :: principal_kind
  sa_credential_version :: string
  sa_scopes :: "scope set"

fun state_allows_exchange :: "credential_state \<Rightarrow> bool" where
  "state_allows_exchange Credential_ACTIVE = True"
| "state_allows_exchange Credential_GRACE = True"
| "state_allows_exchange Credential_REVOKED = False"

text \<open>The loop keeps the last match.\<close>

definition match_credential :: "bff_credential list \<Rightarrow> bff_exchange_request \<Rightarrow> bff_credential option" where
  "match_credential credentials r =
     List.find (\<lambda>c. bc_version c = bx_credential_version r \<and> bc_verifier c = sha256 (bx_presented_credential r)) (rev credentials)"

definition authorize_bff ::
    "bff_credential list \<Rightarrow> db_time \<Rightarrow> bff_exchange_request \<Rightarrow> instant \<Rightarrow> identity_db
      \<Rightarrow> (identity_fault + service_authorization) \<times> identity_db" where
  "authorize_bff credentials t r now db =
     (case consume_allowance (bx_deployment_identity r) BFF_EXCHANGE_RULE now (idb_rates db) of (rate, rates) \<Rightarrow>
        let db1 = db\<lparr>idb_rates := rates\<rparr>
        in if \<not> rd_allowed rate then (Inl (Identity_Error RATE_LIMITED (Some (rd_retry_after_seconds rate))), db1)
           else if bx_requested_scopes r \<notin> set BFF_SCOPE_ALLOWLIST then (Inl (refuse INVALID_SCOPE), db1)
           else (case Option.bind (match_credential credentials r) (\<lambda>c. if state_allows_exchange (bc_state c) then Some c else None) of
              None \<Rightarrow>
                (case consume_allowance (bx_deployment_identity r) BFF_FAILURE_RULE now (idb_rates db1) of (failure, rates) \<Rightarrow>
                   (Inl (if rd_allowed failure then refuse INVALID_CREDENTIAL
                         else Identity_Error RATE_LIMITED (Some (rd_retry_after_seconds failure))), db1\<lparr>idb_rates := rates\<rparr>))
            | Some c \<Rightarrow>
                (case consume_once t ''bff'' (bx_request_nonce r) (now + seconds BFF_NONCE_RETENTION_SECONDS) (idb_nonces db1) of
                   (Inl e, _) \<Rightarrow> (Inl e, db1)
                 | (Inr consumed, nonces) \<Rightarrow>
                     (if \<not> consumed then (Inl (refuse REPLAYED_NONCE), db1)
                      else (Inr \<lparr>sa_principal_id = ''bff:'' @ bx_deployment_identity r, sa_kind = Kind_BFF,
                        sa_credential_version = bc_version c, sa_scopes = bx_requested_scopes r\<rparr>, db1\<lparr>idb_nonces := nonces\<rparr>)))))"

section \<open>GitHub workflows\<close>

definition GITHUB_OIDC_ISSUER :: string where "GITHUB_OIDC_ISSUER = ''https://token.actions.githubusercontent.com''"
definition GITHUB_OIDC_AUDIENCE :: string where "GITHUB_OIDC_AUDIENCE = ''monitor-control''"
definition GITHUB_TOKEN_TTL_SECONDS :: int where "GITHUB_TOKEN_TTL_SECONDS = 600"

record github_claims =
  gc_issuer :: string
  gc_audience :: string
  gc_repository :: string
  gc_workflow_ref :: string
  gc_git_ref :: string
  gc_environment :: "string option"
  gc_run_id :: string
  gc_run_attempt :: string
  gc_jwt_id :: string
  gc_issued_at :: int
  gc_not_before :: int
  gc_expires_at :: int

record github_workflow_rule =
  gw_workflow_ref :: string
  gw_git_ref :: string
  gw_environment :: string
  gw_scopes :: "scope set"

record github_claim_policy =
  gp_repository :: string
  gp_workflows :: "github_workflow_rule list"

record github_authorization =
  ga_principal_id :: string
  ga_kind :: principal_kind
  ga_scopes :: "scope set"
  ga_replay_key :: string
  ga_retain_until :: instant

definition github_time_valid :: "github_claims \<Rightarrow> instant \<Rightarrow> bool" where
  "github_time_valid c now \<longleftrightarrow>
     (let now_seconds = trunc_seconds now
      in gc_issued_at c \<le> now_seconds + TOKEN_SKEW_SECONDS \<and> gc_not_before c \<le> now_seconds + TOKEN_SKEW_SECONDS
         \<and> gc_expires_at c \<ge> now_seconds - TOKEN_SKEW_SECONDS \<and> gc_expires_at c > gc_not_before c)"

definition github_rule :: "github_claim_policy \<Rightarrow> github_claims \<Rightarrow> github_workflow_rule option" where
  "github_rule policy c =
     List.find (\<lambda>w. gw_workflow_ref w = gc_workflow_ref c \<and> gw_git_ref w = gc_git_ref c \<and> Some (gw_environment w) = gc_environment c)
       (gp_workflows policy)"

definition github_replay_key :: "github_claims \<Rightarrow> string" where
  "github_replay_key c = gc_run_id c @ ''|'' @ gc_workflow_ref c @ ''|'' @ gc_run_attempt c @ ''|'' @ gc_jwt_id c"

text \<open>The range of \<open>datetime.fromtimestamp\<close>: the years 1 to 9999.\<close>

definition MIN_TIMESTAMP :: int where "MIN_TIMESTAMP = - 62135596800"
definition MAX_TIMESTAMP :: int where "MAX_TIMESTAMP = 253402300799"

definition validate_verified_claims :: "github_claim_policy \<Rightarrow> github_claims \<Rightarrow> instant \<Rightarrow> identity_fault + github_authorization" where
  "validate_verified_claims policy c now =
     (case github_rule policy c of None \<Rightarrow> Inl (refuse INVALID_OIDC_CLAIMS)
      | Some rule \<Rightarrow>
          if gc_issuer c \<noteq> GITHUB_OIDC_ISSUER \<or> gc_audience c \<noteq> GITHUB_OIDC_AUDIENCE \<or> gc_repository c \<noteq> gp_repository policy
             \<or> \<not> isdecimal (gc_run_id c) \<or> \<not> isdecimal (gc_run_attempt c) \<or> \<not> github_time_valid c now
          then Inl (refuse INVALID_OIDC_CLAIMS)
          else if \<not> (MIN_TIMESTAMP \<le> gc_expires_at c \<and> gc_expires_at c \<le> MAX_TIMESTAMP) then Inl Value_Failure
          else Inr \<lparr>ga_principal_id = ''github:'' @ gc_repository c @ '':'' @ gc_run_id c,
            ga_kind = (if VERIFY_READ \<in> gw_scopes rule \<or> VERIFY_WRITE \<in> gw_scopes rule then Kind_GITHUB_VERIFIER else Kind_GITHUB_COLLECTOR),
            ga_scopes = gw_scopes rule, ga_replay_key = github_replay_key c, ga_retain_until = seconds (gc_expires_at c)\<rparr>)"

definition authorize_github ::
    "github_claim_policy \<Rightarrow> db_time \<Rightarrow> github_claims \<Rightarrow> instant \<Rightarrow> identity_db
      \<Rightarrow> (identity_fault + github_authorization) \<times> identity_db" where
  "authorize_github policy t c now db =
     (case validate_verified_claims policy c now of Inl e \<Rightarrow> (Inl e, db)
      | Inr a \<Rightarrow>
          (case consume_once t ''github-oidc'' (ga_replay_key a) (ga_retain_until a) (idb_nonces db) of
             (Inl e, _) \<Rightarrow> (Inl e, db)
           | (Inr consumed, nonces) \<Rightarrow>
               if consumed then (Inr a, db\<lparr>idb_nonces := nonces\<rparr>) else (Inl (refuse REPLAYED_NONCE), db)))"

section \<open>Windows workers\<close>

definition WORKER_REQUEST_MAX_AGE_SECONDS :: int where "WORKER_REQUEST_MAX_AGE_SECONDS = 120"
definition WORKER_TOKEN_TTL_SECONDS :: int where "WORKER_TOKEN_TTL_SECONDS = 600"

record worker_bootstrap_request =
  wb_worker_id :: string
  wb_capability_proof_id :: string
  wb_timestamp :: datetime
  wb_nonce :: string
  wb_credential_version :: string
  wb_signature :: string

text \<open>\<open>pattern=r"^[0-9a-f]{64}$"\<close>\<close>

definition lower_hex64 :: "string \<Rightarrow> bool" where
  "lower_hex64 s \<longleftrightarrow> length s = 64 \<and> list_all (\<lambda>c. c \<in> set hex_chars) s"

definition worker_signing_payload :: "worker_bootstrap_request \<Rightarrow> int \<Rightarrow> string" where
  "worker_signing_payload r timestamp = join_with ''\<newline>''
     [''worker-bootstrap-v1'', wb_worker_id r, wb_capability_proof_id r, show_int timestamp, wb_nonce r, wb_credential_version r]"

definition worker_scopes :: "scope set" where "worker_scopes = {WORKER_LEASE, WORKER_HEARTBEAT, WORKER_ACK}"

definition worker_stale :: "instant \<Rightarrow> instant \<Rightarrow> bool" where
  "worker_stale now sent \<longleftrightarrow> now - sent > seconds WORKER_REQUEST_MAX_AGE_SECONDS \<or> now - sent < - seconds TOKEN_SKEW_SECONDS"

text \<open>Subtracting a time without a zone from \<open>now\<close> raises a \<open>TypeError\<close>.\<close>

definition verify_worker ::
    "(string \<Rightarrow> string option) \<Rightarrow> worker_bootstrap_request \<Rightarrow> instant \<Rightarrow> identity_fault + service_authorization" where
  "verify_worker secrets r now =
     (case wb_timestamp r of Naive _ \<Rightarrow> Inl Type_Failure
      | Aware sent _ \<Rightarrow>
          if worker_stale now sent then Inl (refuse STALE_REQUEST)
          else case fromhex (wb_signature r) of None \<Rightarrow> Inl Value_Failure
          | Some supplied \<Rightarrow>
              (case secrets (wb_credential_version r) of None \<Rightarrow> Inl (refuse INVALID_CREDENTIAL)
               | Some secret \<Rightarrow>
                   if hmac_sha256 secret (worker_signing_payload r (trunc_seconds sent)) \<noteq> supplied
                   then Inl (refuse INVALID_CREDENTIAL)
                   else Inr \<lparr>sa_principal_id = ''worker:'' @ wb_worker_id r, sa_kind = Kind_WINDOWS_WORKER,
                     sa_credential_version = wb_credential_version r, sa_scopes = worker_scopes\<rparr>))"

definition authorize_worker_exchange ::
    "(string \<Rightarrow> string option) \<Rightarrow> (string \<Rightarrow> uuid option) \<Rightarrow> db_time \<Rightarrow> worker_bootstrap_request \<Rightarrow> instant \<Rightarrow> identity_db
      \<Rightarrow> (identity_fault + service_authorization) \<times> identity_db" where
  "authorize_worker_exchange secrets parse_uuid t r now db =
     (case verify_worker secrets r now of Inl e \<Rightarrow> (Inl e, db)
      | Inr verified \<Rightarrow>
          (case authorize_worker parse_uuid \<lparr>wa_worker_id = wb_worker_id r, wa_capability_proof_id = wb_capability_proof_id r,
                 wa_credential_version = wb_credential_version r, wa_checked_at = now\<rparr> db of
             Inl e \<Rightarrow> (Inl e, db)
           | Inr False \<Rightarrow> (Inl (refuse INVALID_CREDENTIAL), db)
           | Inr True \<Rightarrow>
               (case consume_once t ''worker-bootstrap'' (wb_nonce r) (now + minutes 10) (idb_nonces db) of
                  (Inl e, _) \<Rightarrow> (Inl e, db)
                | (Inr consumed, nonces) \<Rightarrow>
                    if consumed then (Inr verified, db\<lparr>idb_nonces := nonces\<rparr>) else (Inl (refuse REPLAYED_NONCE), db))))"

end
