(* ===== verification/Identity_Exchange.thy ===== *)
theory Identity_Exchange
  imports Token_Exchange
begin

text \<open>
  The exchange service (\<open>services/identity/exchanges.py\<close>), the authorization of a presented token
  (\<open>services/dashboard/sql_authorizer.py\<close>, \<open>security.py\<close>), the cron credential (\<open>services/identity/cron.py\<close>)
  and the deployed GitHub policy (\<open>wiring/identity_dependencies.py\<close>), with the properties of the whole path
  from a credential to an authorized call.

  A handler runs several transactions, so what it committed before it raised stays: handlers return the new
  state also with an error. The state records, besides the tables, the claims that the private key has signed.
  The verifier of GitHub's RS256 tokens is an argument.
\<close>

section \<open>Exchanges\<close>

record ('sk, 'pk) exchange_env =
  xe_codec :: "('sk, 'pk) token_codec"
  xe_issuer :: "'sk token_issuer"
  xe_audience :: string
  xe_bff_credentials :: "bff_credential list"
  xe_github_policy :: github_claim_policy
  xe_github_credential_version :: string
  xe_verify_oidc :: "string \<Rightarrow> identity_fault + github_claims"
  xe_worker_secrets :: "string \<Rightarrow> string option"
  xe_parse_uuid :: "string \<Rightarrow> uuid option"

record exchange_state =
  xs_db :: identity_db
  xs_signed :: "access_claims list"

text \<open>What one call draws: the two clocks, the ids of new rows and of the token.\<close>

record exchange_draw =
  xd_time :: db_time
  xd_ids :: "uuid \<times> uuid"
  xd_jti :: uuid

record exchange_response =
  xr_access_token :: string
  xr_expires_at :: instant
  xr_scope :: "scope list"

definition mint ::
    "('sk, 'pk) exchange_env \<Rightarrow> principal \<Rightarrow> scope set \<Rightarrow> instant \<Rightarrow> int \<Rightarrow> uuid \<Rightarrow> exchange_state
      \<Rightarrow> (identity_fault + exchange_response) \<times> exchange_state" where
  "mint env p scopes now lifetime jti s =
     (let request = \<lparr>it_principal = p, it_audience = xe_audience env, it_scopes = scopes, it_now = Aware now 0,
            it_lifetime = seconds lifetime\<rparr>
      in case issue_token (xe_codec env) (xe_issuer env) request jti of
           Inl e \<Rightarrow> (Inl (Token_Failure e), s)
         | Inr token \<Rightarrow>
             (Inr \<lparr>xr_access_token = token, xr_expires_at = now + seconds lifetime, xr_scope = sorted_scopes scopes\<rparr>,
              s\<lparr>xs_signed := xs_signed s @ [issued_claims (xe_issuer env) request jti (trunc_seconds now)]\<rparr>))"

definition register_and_mint ::
    "('sk, 'pk) exchange_env \<Rightarrow> principal \<Rightarrow> scope set \<Rightarrow> instant \<Rightarrow> int \<Rightarrow> exchange_draw \<Rightarrow> exchange_state
      \<Rightarrow> (identity_fault + exchange_response) \<times> exchange_state" where
  "register_and_mint env p scopes now lifetime draw s =
     (case register_principal (xd_ids draw) \<lparr>gp_principal_id = pr_id p, gp_kind = pr_kind p,
             gp_credential_version = pr_credential_version p, gp_valid_from = now, gp_valid_until = now + seconds lifetime\<rparr> (xs_db s) of
        (Inl e, db) \<Rightarrow> (Inl e, s\<lparr>xs_db := db\<rparr>)
      | (Inr registered, db) \<Rightarrow>
          if \<not> registered then (Inl (refuse INVALID_CREDENTIAL), s\<lparr>xs_db := db\<rparr>)
          else mint env p scopes now lifetime (xd_jti draw) (s\<lparr>xs_db := db\<rparr>))"

definition exchange_bff ::
    "('sk, 'pk) exchange_env \<Rightarrow> exchange_draw \<Rightarrow> bff_exchange_request \<Rightarrow> instant \<Rightarrow> exchange_state
      \<Rightarrow> (identity_fault + exchange_response) \<times> exchange_state" where
  "exchange_bff env draw command now s =
     (case authorize_bff (xe_bff_credentials env) (xd_time draw) command now (xs_db s) of
        (Inl e, db) \<Rightarrow> (Inl e, s\<lparr>xs_db := db\<rparr>)
      | (Inr a, db) \<Rightarrow> register_and_mint env
          \<lparr>pr_id = sa_principal_id a, pr_kind = Kind_BFF, pr_credential_version = sa_credential_version a\<rparr>
          (sa_scopes a) now BFF_TOKEN_TTL_SECONDS draw (s\<lparr>xs_db := db\<rparr>))"

definition exchange_github ::
    "('sk, 'pk) exchange_env \<Rightarrow> exchange_draw \<Rightarrow> string \<Rightarrow> instant \<Rightarrow> exchange_state
      \<Rightarrow> (identity_fault + exchange_response) \<times> exchange_state" where
  "exchange_github env draw oidc_token now s =
     (case xe_verify_oidc env oidc_token of Inl e \<Rightarrow> (Inl e, s)
      | Inr claims \<Rightarrow>
          (case authorize_github (xe_github_policy env) (xd_time draw) claims now (xs_db s) of
             (Inl e, db) \<Rightarrow> (Inl e, s\<lparr>xs_db := db\<rparr>)
           | (Inr a, db) \<Rightarrow> register_and_mint env
               \<lparr>pr_id = ga_principal_id a, pr_kind = ga_kind a, pr_credential_version = xe_github_credential_version env\<rparr>
               (ga_scopes a) now GITHUB_TOKEN_TTL_SECONDS draw (s\<lparr>xs_db := db\<rparr>)))"

definition exchange_worker ::
    "('sk, 'pk) exchange_env \<Rightarrow> exchange_draw \<Rightarrow> worker_bootstrap_request \<Rightarrow> instant \<Rightarrow> exchange_state
      \<Rightarrow> (identity_fault + exchange_response) \<times> exchange_state" where
  "exchange_worker env draw r now s =
     (case authorize_worker_exchange (xe_worker_secrets env) (xe_parse_uuid env) (xd_time draw) r now (xs_db s) of
        (Inl e, db) \<Rightarrow> (Inl e, s\<lparr>xs_db := db\<rparr>)
      | (Inr a, db) \<Rightarrow> mint env
          \<lparr>pr_id = sa_principal_id a, pr_kind = Kind_WINDOWS_WORKER, pr_credential_version = sa_credential_version a\<rparr>
          (sa_scopes a) now WORKER_TOKEN_TTL_SECONDS (xd_jti draw) (s\<lparr>xs_db := db\<rparr>))"

text \<open>One call of the service, successful or not.\<close>

inductive exchange_call :: "('sk, 'pk) exchange_env \<Rightarrow> exchange_draw \<Rightarrow> exchange_state \<Rightarrow> exchange_state \<Rightarrow> bool" for env draw where
  bff_call: "exchange_call env draw s (snd (exchange_bff env draw command now s))"
| github_call: "exchange_call env draw s (snd (exchange_github env draw oidc_token now s))"
| worker_call: "exchange_call env draw s (snd (exchange_worker env draw r now s))"

definition exchange_step :: "('sk, 'pk) exchange_env \<Rightarrow> exchange_state \<Rightarrow> exchange_state \<Rightarrow> bool" where
  "exchange_step env s s' \<longleftrightarrow> (\<exists>draw. exchange_call env draw s s')"

text \<open>Calls whose statements the database executed at times below a limit.\<close>

definition exchange_step_before :: "('sk, 'pk) exchange_env \<Rightarrow> instant \<Rightarrow> exchange_state \<Rightarrow> exchange_state \<Rightarrow> bool" where
  "exchange_step_before env limit s s' \<longleftrightarrow> (\<exists>draw. clock (xd_time draw) < limit \<and> exchange_call env draw s s')"

section \<open>Authorization\<close>

text \<open>\<open>bearer_token\<close>\<close>

definition bearer_token :: "string option \<Rightarrow> identity_fault + string" where
  "bearer_token authorization =
     (case authorization of None \<Rightarrow> Inl (refuse INVALID_TOKEN)
      | Some text \<Rightarrow> if take 7 text = ''Bearer '' \<and> drop 7 text \<noteq> [] then Inr (drop 7 text) else Inl (refuse INVALID_TOKEN))"

definition authorize_scope ::
    "('sk, 'pk) token_codec \<Rightarrow> 'pk token_verifier \<Rightarrow> string \<Rightarrow> string \<Rightarrow> scope \<Rightarrow> instant \<Rightarrow> identity_db
      \<Rightarrow> identity_fault + string \<times> scope set" where
  "authorize_scope codec verifier audience token scope now db =
     (case verify_token codec verifier
             \<lparr>vt_token = token, vt_audience = audience, vt_required_scopes = {scope}, vt_now = Aware now 0\<rparr> of
        Inl _ \<Rightarrow> Inl (refuse INVALID_TOKEN)
      | Inr claims \<Rightarrow>
          (case authorize_principal \<lparr>pa_principal_id = ac_subject claims, pa_credential_version = ac_credential_version claims,
                  pa_checked_at = now\<rparr> db of
             Inl e \<Rightarrow> Inl e
           | Inr authorized \<Rightarrow>
               if authorized then Inr (ac_subject claims, set (ac_scopes claims)) else Inl (refuse INVALID_TOKEN)))"

definition require_scope ::
    "('sk, 'pk) token_codec \<Rightarrow> 'pk token_verifier \<Rightarrow> string \<Rightarrow> string option \<Rightarrow> scope \<Rightarrow> instant \<Rightarrow> identity_db
      \<Rightarrow> identity_fault + string \<times> scope set" where
  "require_scope codec verifier audience authorization scope now db =
     (case bearer_token authorization of Inl e \<Rightarrow> Inl e
      | Inr token \<Rightarrow> authorize_scope codec verifier audience token scope now db)"

definition verify_cron :: "string \<Rightarrow> string option \<Rightarrow> identity_fault + unit" where
  "verify_cron expected_secret authorization =
     (let supplied = (case authorization of None \<Rightarrow> [] | Some text \<Rightarrow> if take 7 text = ''Bearer '' then drop 7 text else [])
      in if sha256 expected_secret \<noteq> sha256 supplied then Inl (refuse INVALID_CREDENTIAL) else Inr ())"

section \<open>Deployment\<close>

definition COLLECTOR_SCOPES :: "scope set" where
  "COLLECTOR_SCOPES = {COLLECTOR_MATERIALIZE, COLLECTOR_RESERVE, COLLECTOR_CLAIM, COLLECTOR_PAGE_COMMIT,
     COLLECTOR_HEARTBEAT, COLLECTOR_COMPLETE}"

definition VERIFIER_SCOPES :: "scope set" where "VERIFIER_SCOPES = {VERIFY_READ, VERIFY_WRITE}"

text \<open>\<open>pattern in s\<close>\<close>

fun contains_text :: "string \<Rightarrow> string \<Rightarrow> bool" where
  "contains_text pattern [] \<longleftrightarrow> pattern = []"
| "contains_text pattern (c # cs) \<longleftrightarrow> take (length pattern) (c # cs) = pattern \<or> contains_text pattern cs"

definition workflow_rule :: "string \<times> string \<times> string \<Rightarrow> identity_fault + github_workflow_rule" where
  "workflow_rule = (\<lambda>(workflow_ref, git_ref, environment).
     if contains_text ''/collect.yml@'' workflow_ref
     then Inr \<lparr>gw_workflow_ref = workflow_ref, gw_git_ref = git_ref, gw_environment = environment, gw_scopes = COLLECTOR_SCOPES\<rparr>
     else if contains_text ''/verify.yml@'' workflow_ref
     then Inr \<lparr>gw_workflow_ref = workflow_ref, gw_git_ref = git_ref, gw_environment = environment, gw_scopes = VERIFIER_SCOPES\<rparr>
     else Inl Value_Failure)"

text \<open>\<open>zip(..., strict=True)\<close> raises on lists of different lengths.\<close>

definition github_policy :: "string \<Rightarrow> string list \<Rightarrow> string list \<Rightarrow> string list \<Rightarrow> identity_fault + github_claim_policy" where
  "github_policy repository workflow_refs allowed_refs allowed_environments =
     (if length workflow_refs \<noteq> length allowed_refs \<or> length workflow_refs \<noteq> length allowed_environments then Inl Value_Failure
      else case seq_result workflow_rule (zip workflow_refs (zip allowed_refs allowed_environments)) of
        Inl e \<Rightarrow> Inl e
      | Inr rules \<Rightarrow> if rules = [] then Inl Value_Failure else Inr \<lparr>gp_repository = repository, gp_workflows = rules\<rparr>)"

section \<open>What the key signs\<close>

text \<open>The policy of the tokens: kind, scopes and lifetime.\<close>

definition minted_within_policy :: "access_claims \<Rightarrow> bool" where
  "minted_within_policy c \<longleftrightarrow> ac_not_before c = ac_issued_at c \<and>
     (case ac_principal_kind c of
        Kind_BFF \<Rightarrow> set (ac_scopes c) \<in> {{BFF_AUTH, BFF_READ}, {ADMIN_COMMAND}} \<and> ac_expires_at c = ac_issued_at c + 300
      | Kind_GITHUB_COLLECTOR \<Rightarrow> set (ac_scopes c) = COLLECTOR_SCOPES \<and> ac_expires_at c = ac_issued_at c + 600
      | Kind_GITHUB_VERIFIER \<Rightarrow> set (ac_scopes c) = VERIFIER_SCOPES \<and> ac_expires_at c = ac_issued_at c + 600
      | Kind_WINDOWS_WORKER \<Rightarrow> set (ac_scopes c) = worker_scopes \<and> ac_expires_at c = ac_issued_at c + 600
      | Kind_ADMIN_SESSION \<Rightarrow> False)"

definition deployed :: "('sk, 'pk) exchange_env \<Rightarrow> bool" where
  "deployed env \<longleftrightarrow> (\<exists>repository refs git_refs environments.
     github_policy repository refs git_refs environments = Inr (xe_github_policy env))"

lemma workflow_rule_scopes:
  "workflow_rule w = Inr rule \<Longrightarrow> gw_scopes rule = COLLECTOR_SCOPES \<or> gw_scopes rule = VERIFIER_SCOPES"
  by (auto simp: workflow_rule_def split: prod.splits if_splits)

lemma deployed_scopes:
  assumes "deployed env" and "rule \<in> set (gp_workflows (xe_github_policy env))"
  shows "gw_scopes rule = COLLECTOR_SCOPES \<or> gw_scopes rule = VERIFIER_SCOPES"
proof -
  obtain repository refs git_refs environments where
    policy: "github_policy repository refs git_refs environments = Inr (xe_github_policy env)"
    using assms(1) by (auto simp: deployed_def)
  obtain triples where "seq_result workflow_rule triples = Inr (gp_workflows (xe_github_policy env))"
  proof (cases "seq_result workflow_rule (zip refs (zip git_refs environments))")
    case (Inr rules)
    then have "xe_github_policy env = \<lparr>gp_repository = repository, gp_workflows = rules\<rparr>"
      using policy by (simp add: github_policy_def split: if_splits)
    then show thesis using that [of "zip refs (zip git_refs environments)"] Inr by simp
  qed (use policy in \<open>simp add: github_policy_def split: if_splits\<close>)
  then obtain w where "workflow_rule w = Inr rule" using assms(2) seq_result_Inr_ex by metis
  then show ?thesis by (rule workflow_rule_scopes)
qed

lemma mint_cases:
  assumes "mint env p scopes now lifetime jti s = (r, s')"
  obtains (failed) e where "r = Inl e" "s' = s"
  | (minted) request token where "request = \<lparr>it_principal = p, it_audience = xe_audience env, it_scopes = scopes,
        it_now = Aware now 0, it_lifetime = seconds lifetime\<rparr>"
      "issue_token (xe_codec env) (xe_issuer env) request jti = Inr token"
      "r = Inr \<lparr>xr_access_token = token, xr_expires_at = now + seconds lifetime, xr_scope = sorted_scopes scopes\<rparr>"
      "s' = s\<lparr>xs_signed := xs_signed s @ [issued_claims (xe_issuer env) request jti (trunc_seconds now)]\<rparr>"
  using assms unfolding mint_def Let_def by (auto split: sum.splits)

lemma register_and_mint_cases:
  assumes "register_and_mint env p scopes now lifetime draw s = (r, s')"
  obtains (failed) e where "r = Inl e" "xs_signed s' = xs_signed s"
  | (minted) db where "register_principal (xd_ids draw) \<lparr>gp_principal_id = pr_id p, gp_kind = pr_kind p,
        gp_credential_version = pr_credential_version p, gp_valid_from = now, gp_valid_until = now + seconds lifetime\<rparr> (xs_db s)
          = (Inr True, db)" "mint env p scopes now lifetime (xd_jti draw) (s\<lparr>xs_db := db\<rparr>) = (r, s')"
  using assms unfolding register_and_mint_def by (auto split: sum.splits prod.splits if_splits)

lemma trunc_whole [simp]: "trunc_seconds (seconds n) = n"
  by (simp add: trunc_seconds_def seconds_def minus_mult_left del: mult_minus_left)

lemma mint_signs:
  assumes "mint env p scopes now lifetime jti s = (r, s')"
    and "\<And>request. it_principal request = p \<Longrightarrow> it_scopes request = scopes \<Longrightarrow> it_lifetime request = seconds lifetime \<Longrightarrow>
      minted_within_policy (issued_claims (xe_issuer env) request jti (trunc_seconds now))"
    and "\<forall>c \<in> set (xs_signed s). minted_within_policy c"
  shows "\<forall>c \<in> set (xs_signed s'). minted_within_policy c"
  using assms(1) by (cases rule: mint_cases) (use assms(2,3) in auto)

lemma register_and_mint_signs:
  assumes "register_and_mint env p scopes now lifetime draw s = (r, s')"
    and "\<And>request. it_principal request = p \<Longrightarrow> it_scopes request = scopes \<Longrightarrow> it_lifetime request = seconds lifetime \<Longrightarrow>
      minted_within_policy (issued_claims (xe_issuer env) request (xd_jti draw) (trunc_seconds now))"
    and "\<forall>c \<in> set (xs_signed s). minted_within_policy c"
  shows "\<forall>c \<in> set (xs_signed s'). minted_within_policy c"
  using assms(1)
proof (cases rule: register_and_mint_cases)
  case failed
  then show ?thesis using assms(3) by simp
next
  case (minted db)
  show ?thesis by (rule mint_signs [OF minted(2) assms(2)]) (use assms(3) in auto)
qed

lemma authorize_bffD:
  assumes "authorize_bff cs t r now db = (Inr a, db')"
  obtains rates c nonces where "bx_requested_scopes r \<in> set BFF_SCOPE_ALLOWLIST"
    "match_credential cs r = Some c" "state_allows_exchange (bc_state c)"
    "snd (consume_allowance (bx_deployment_identity r) BFF_EXCHANGE_RULE now (idb_rates db)) = rates"
    "rd_allowed (fst (consume_allowance (bx_deployment_identity r) BFF_EXCHANGE_RULE now (idb_rates db)))"
    "consume_once t ''bff'' (bx_request_nonce r) (now + seconds BFF_NONCE_RETENTION_SECONDS) (idb_nonces db) = (Inr True, nonces)"
    "a = \<lparr>sa_principal_id = ''bff:'' @ bx_deployment_identity r, sa_kind = Kind_BFF,
        sa_credential_version = bc_version c, sa_scopes = bx_requested_scopes r\<rparr>"
    "db' = db\<lparr>idb_rates := rates, idb_nonces := nonces\<rparr>"
proof -
  obtain rate rates where rate: "consume_allowance (bx_deployment_identity r) BFF_EXCHANGE_RULE now (idb_rates db) = (rate, rates)"
    by (rule prod.exhaust)
  note run = assms [unfolded authorize_bff_def rate Let_def prod.case]
  have allowed: "rd_allowed rate" "bx_requested_scopes r \<in> set BFF_SCOPE_ALLOWLIST"
    using run by (simp_all split: if_splits)
  show thesis
  proof (cases "Option.bind (match_credential cs r) (\<lambda>c. if state_allows_exchange (bc_state c) then Some c else None)")
    case None
    then show thesis using run allowed by (simp split: prod.splits)
  next
    case (Some c)
    then have c: "match_credential cs r = Some c" "state_allows_exchange (bc_state c)"
      by (auto simp: bind_eq_Some_conv split: if_splits)
    obtain x nonces where nonce: "consume_once t ''bff'' (bx_request_nonce r) (now + seconds BFF_NONCE_RETENTION_SECONDS)
        (idb_nonces db) = (x, nonces)" by (rule prod.exhaust)
    have "x = Inr True" and a: "a = \<lparr>sa_principal_id = ''bff:'' @ bx_deployment_identity r, sa_kind = Kind_BFF,
        sa_credential_version = bc_version c, sa_scopes = bx_requested_scopes r\<rparr>"
        "db' = db\<lparr>idb_rates := rates, idb_nonces := nonces\<rparr>"
      using run allowed Some nonce by (auto split: sum.splits if_splits)
    then show thesis using that [OF allowed(2) c] rate allowed(1) nonce by simp
  qed
qed

lemma authorize_bff_scopes:
  assumes "authorize_bff cs t r now db = (Inr a, db')"
  shows "sa_scopes a \<in> {{BFF_AUTH, BFF_READ}, {ADMIN_COMMAND}}"
  by (rule authorize_bffD [OF assms]) (simp add: BFF_SCOPE_ALLOWLIST_def)

lemma authorize_githubD:
  assumes "authorize_github policy t c now db = (Inr a, db')"
  obtains nonces where "validate_verified_claims policy c now = Inr a"
    "consume_once t ''github-oidc'' (ga_replay_key a) (ga_retain_until a) (idb_nonces db) = (Inr True, nonces)"
    "db' = db\<lparr>idb_nonces := nonces\<rparr>"
  using assms unfolding authorize_github_def by (auto split: sum.splits prod.splits if_splits)

lemma validate_verified_claimsD:
  assumes "validate_verified_claims policy c now = Inr a"
  obtains rule where "rule \<in> set (gp_workflows policy)" "ga_scopes a = gw_scopes rule" "github_time_valid c now"
    "ga_kind a = (if VERIFY_READ \<in> gw_scopes rule \<or> VERIFY_WRITE \<in> gw_scopes rule then Kind_GITHUB_VERIFIER else Kind_GITHUB_COLLECTOR)"
    "ga_replay_key a = github_replay_key c" "ga_retain_until a = seconds (gc_expires_at c)"
    "ga_principal_id a = ''github:'' @ gc_repository c @ '':'' @ gc_run_id c" "gc_repository c = gp_repository policy"
  using assms unfolding validate_verified_claims_def github_rule_def
  by (auto split: option.splits if_splits dest: find_SomeD)

lemma authorize_worker_exchangeD:
  assumes "authorize_worker_exchange secrets parse t r now db = (Inr a, db')"
  obtains nonces where "verify_worker secrets r now = Inr a"
    "authorize_worker parse \<lparr>wa_worker_id = wb_worker_id r, wa_capability_proof_id = wb_capability_proof_id r,
                 wa_credential_version = wb_credential_version r, wa_checked_at = now\<rparr> db = Inr True"
    "consume_once t ''worker-bootstrap'' (wb_nonce r) (now + minutes 10) (idb_nonces db) = (Inr True, nonces)"
    "db' = db\<lparr>idb_nonces := nonces\<rparr>"
  using assms unfolding authorize_worker_exchange_def by (auto split: sum.splits prod.splits if_splits bool.splits)

lemma exchange_call_policy:
  assumes "deployed env" and "exchange_call env draw s s'" and "\<forall>c \<in> set (xs_signed s). minted_within_policy c"
  shows "\<forall>c \<in> set (xs_signed s'). minted_within_policy c"
  using assms(2)
proof cases
  case (bff_call command now)
  show ?thesis
  proof (cases "authorize_bff (xe_bff_credentials env) (xd_time draw) command now (xs_db s)")
    case (Pair r db)
    show ?thesis
    proof (cases r)
      case (Inl e)
      then show ?thesis using bff_call assms(3) Pair by (simp add: exchange_bff_def)
    next
      case (Inr a)
      have scopes: "sa_scopes a \<in> {{BFF_AUTH, BFF_READ}, {ADMIN_COMMAND}}" using authorize_bff_scopes Pair Inr by blast
      have run: "register_and_mint env \<lparr>pr_id = sa_principal_id a, pr_kind = Kind_BFF, pr_credential_version = sa_credential_version a\<rparr>
          (sa_scopes a) now BFF_TOKEN_TTL_SECONDS draw (s\<lparr>xs_db := db\<rparr>)
        = (fst (exchange_bff env draw command now s), s')" using bff_call Pair Inr by (simp add: exchange_bff_def)
      show ?thesis
        by (rule register_and_mint_signs [OF run])
          (use scopes assms(3) in \<open>auto simp: minted_within_policy_def issued_claims_def BFF_TOKEN_TTL_SECONDS_def\<close>)
    qed
  qed
next
  case (github_call token now)
  show ?thesis
  proof (cases "xe_verify_oidc env token")
    case (Inl e)
    then show ?thesis using github_call assms(3) by (simp add: exchange_github_def)
  next
    case claims: (Inr claims)
    show ?thesis
    proof (cases "authorize_github (xe_github_policy env) (xd_time draw) claims now (xs_db s)")
      case (Pair r db)
      show ?thesis
      proof (cases r)
        case (Inl e)
        then show ?thesis using github_call assms(3) Pair claims by (simp add: exchange_github_def)
      next
        case (Inr a)
        obtain nonces where "validate_verified_claims (xe_github_policy env) claims now = Inr a"
          using authorize_githubD Pair Inr by metis
        then obtain rule where rule: "rule \<in> set (gp_workflows (xe_github_policy env))" "ga_scopes a = gw_scopes rule"
          "ga_kind a = (if VERIFY_READ \<in> gw_scopes rule \<or> VERIFY_WRITE \<in> gw_scopes rule then Kind_GITHUB_VERIFIER else Kind_GITHUB_COLLECTOR)"
          by (rule validate_verified_claimsD)
        have scopes: "gw_scopes rule = COLLECTOR_SCOPES \<or> gw_scopes rule = VERIFIER_SCOPES"
          by (rule deployed_scopes [OF assms(1) rule(1)])
        have run: "register_and_mint env \<lparr>pr_id = ga_principal_id a, pr_kind = ga_kind a,
            pr_credential_version = xe_github_credential_version env\<rparr> (ga_scopes a) now GITHUB_TOKEN_TTL_SECONDS draw (s\<lparr>xs_db := db\<rparr>)
          = (fst (exchange_github env draw token now s), s')" using github_call Pair Inr claims by (simp add: exchange_github_def)
        show ?thesis
          by (rule register_and_mint_signs [OF run])
            (use scopes rule assms(3) in \<open>auto simp: minted_within_policy_def issued_claims_def GITHUB_TOKEN_TTL_SECONDS_def
              COLLECTOR_SCOPES_def VERIFIER_SCOPES_def\<close>)
      qed
    qed
  qed
next
  case (worker_call request now)
  show ?thesis
  proof (cases "authorize_worker_exchange (xe_worker_secrets env) (xe_parse_uuid env) (xd_time draw) request now (xs_db s)")
    case (Pair r db)
    show ?thesis
    proof (cases r)
      case (Inl e)
      then show ?thesis using worker_call assms(3) Pair by (simp add: exchange_worker_def)
    next
      case (Inr a)
      have "verify_worker (xe_worker_secrets env) request now = Inr a" using authorize_worker_exchangeD Pair Inr by metis
      then have scopes: "sa_scopes a = worker_scopes"
        by (auto simp: verify_worker_def split: datetime.splits option.splits if_splits)
      have run: "mint env \<lparr>pr_id = sa_principal_id a, pr_kind = Kind_WINDOWS_WORKER, pr_credential_version = sa_credential_version a\<rparr>
          (sa_scopes a) now WORKER_TOKEN_TTL_SECONDS (xd_jti draw) (s\<lparr>xs_db := db\<rparr>)
        = (fst (exchange_worker env draw request now s), s')" using worker_call Pair Inr by (simp add: exchange_worker_def)
      show ?thesis
        by (rule mint_signs [OF run])
          (use scopes assms(3) in \<open>auto simp: minted_within_policy_def issued_claims_def WORKER_TOKEN_TTL_SECONDS_def\<close>)
    qed
  qed
qed

interpretation exchange: transition_system "\<lambda>s. xs_signed s = []" "exchange_step env"
    "\<lambda>s. deployed env \<longrightarrow> (\<forall>c \<in> set (xs_signed s). minted_within_policy c)" for env
  by unfold_locales (auto simp: exchange_step_def dest: exchange_call_policy)

end
