(* ===== verification/Identity_Authority.thy ===== *)
theory Identity_Authority
  imports Identity_Exchange
begin

text \<open>
  Properties of the way from a credential to an authorized call: what an accepted token can do and where it came
  from, that a fresh token works, and that a GitHub token and a worker request are exchanged once.
\<close>

section \<open>Where authority comes from\<close>

lemma authorize_principal_live:
  assumes "authorize_principal r db = Inr True"
  obtains p c where "p \<in> set (idb_principals db)" "c \<in> set (idb_credentials db)" "sp_subject p = pa_principal_id r"
    "principal_live p" "cv_principal_id c = sp_id p" "cv_version c = pa_credential_version r"
    "credential_current (pa_checked_at r) c"
proof -
  obtain pc where "authorizing_rows r db = [pc]"
    using assms by (auto simp: authorize_principal_def split: list.splits)
  then have "pc \<in> set (authorizing_rows r db)" by simp
  then show thesis using that by (auto simp: authorizing_rows_def)
qed

lemma authorize_scopeD:
  assumes "authorize_scope codec verifier audience token scope now db = Inr (subject, scopes)"
  obtains claims where "verify_token codec verifier
      \<lparr>vt_token = token, vt_audience = audience, vt_required_scopes = {scope}, vt_now = Aware now 0\<rparr> = Inr claims"
    "authorize_principal \<lparr>pa_principal_id = ac_subject claims, pa_credential_version = ac_credential_version claims,
        pa_checked_at = now\<rparr> db = Inr True" "subject = ac_subject claims" "scopes = set (ac_scopes claims)"
  using assms unfolding authorize_scope_def by (auto split: sum.splits if_splits bool.splits)

text \<open>(C20) Accepted.\<close>

theorem accepted_tokens_within_authority:
  assumes "xs_signed s0 = []" and "(exchange_step env)\<^sup>*\<^sup>* s0 s" and "deployed env" and "codec_parses (xe_codec env)"
    and "unforgeable (xe_codec env) verifier (set (xs_signed s))"
    and "authorize_scope (xe_codec env) verifier audience token scope now db = Inr (subject, scopes)"
  shows "\<exists>c \<in> set (xs_signed s). \<exists>p \<in> set (idb_principals db). minted_within_policy c
    \<and> scope \<in> scopes \<and> scopes = set (ac_scopes c) \<and> subject = ac_subject c
    \<and> ac_issued_at c - TOKEN_SKEW_SECONDS \<le> trunc_seconds now \<and> trunc_seconds now \<le> ac_expires_at c + TOKEN_SKEW_SECONDS
    \<and> sp_subject p = subject \<and> principal_live p"
proof -
  from assms(6) obtain claims where v: "verify_token (xe_codec env) verifier
      \<lparr>vt_token = token, vt_audience = audience, vt_required_scopes = {scope}, vt_now = Aware now 0\<rparr> = Inr claims"
    and a: "authorize_principal \<lparr>pa_principal_id = ac_subject claims, pa_credential_version = ac_credential_version claims,
        pa_checked_at = now\<rparr> db = Inr True" and s: "subject = ac_subject claims" "scopes = set (ac_scopes claims)"
    by (rule authorize_scopeD)
  have c: "claims \<in> set (xs_signed s)" by (rule accepted_token_issued [OF assms(4,5) v])
  moreover have "minted_within_policy claims" using exchange.reachable_inv [OF assms(1,2)] assms(3) c by blast
  moreover have "scope \<in> set (ac_scopes claims) \<and> \<not> token_time_invalid claims (trunc_seconds now)"
    using v by (rule verify_tokenD) (auto simp: timestamp_of_def)
  moreover obtain p where "p \<in> set (idb_principals db)" "sp_subject p = subject" "principal_live p"
    using authorize_principal_live [OF a] s(1) by (metis principal_authorization_request.select_convs(1))
  ultimately show ?thesis using s by (intro bexI [of _ claims] bexI [of _ p]) (auto simp: token_time_invalid_def)
qed

section \<open>A fresh token works\<close>

text \<open>The unique constraints of the two tables, and the prefix of the frontend's subjects, which no other path uses.\<close>

definition principals_wf :: "identity_db \<Rightarrow> bool" where
  "principals_wf db \<longleftrightarrow> distinct (map sp_id (idb_principals db)) \<and> distinct (map cv_id (idb_credentials db))
     \<and> distinct (map (\<lambda>p. (sp_kind p, sp_subject p)) (idb_principals db))
     \<and> distinct (map (\<lambda>c. (cv_principal_id c, cv_version c)) (idb_credentials db))
     \<and> (\<forall>p \<in> set (idb_principals db). take 4 (sp_subject p) = ''bff:'' \<longrightarrow> sp_kind p = Principal_BFF)"

lemma filter_one:
  assumes "distinct xs" and "\<And>x. x \<in> set xs \<Longrightarrow> P x \<longleftrightarrow> x = a" and "a \<in> set xs"
  shows "filter P xs = [a]"
proof -
  have "filter P xs = filter (\<lambda>x. x = a) xs" using assms(2) by (intro filter_cong) auto
  also have "\<dots> = [a]" using filter_eq_single [OF assms(1,3)] .
  finally show ?thesis .
qed

lemma distinct_product: "distinct xs \<Longrightarrow> distinct ys \<Longrightarrow> distinct (List.product xs ys)"
  by (rule List.distinct_product)

lemma authorize_unique:
  assumes wf: "principals_wf db" and p: "p \<in> set (idb_principals db)" "sp_kind p = Principal_BFF" "principal_live p"
    and bff: "take 4 (sp_subject p) = ''bff:''"
    and c: "c \<in> set (idb_credentials db)" "cv_principal_id c = sp_id p" "credential_current t c"
  shows "authorize_principal \<lparr>pa_principal_id = sp_subject p, pa_credential_version = cv_version c, pa_checked_at = t\<rparr> db = Inr True"
proof -
  let ?r = "\<lparr>pa_principal_id = sp_subject p, pa_credential_version = cv_version c, pa_checked_at = t\<rparr>"
  have dp: "distinct (idb_principals db)" and dc: "distinct (idb_credentials db)"
    using wf by (simp_all add: principals_wf_def distinct_map)
  have same_p: "q = p" if "q \<in> set (idb_principals db)" "sp_subject q = sp_subject p" for q
  proof -
    have "sp_kind q = Principal_BFF" using that wf bff by (auto simp: principals_wf_def)
    then have "(sp_kind q, sp_subject q) = (sp_kind p, sp_subject p)" using that p(2) by simp
    then show ?thesis using wf that(1) p(1) unfolding principals_wf_def by (auto simp: distinct_map dest: inj_onD)
  qed
  have same_c: "d = c" if "d \<in> set (idb_credentials db)" "cv_principal_id d = sp_id p" "cv_version d = cv_version c" for d
  proof -
    have "(cv_principal_id d, cv_version d) = (cv_principal_id c, cv_version c)" using that c(2) by simp
    then show ?thesis using wf that(1) c(1) unfolding principals_wf_def by (auto simp: distinct_map dest: inj_onD)
  qed
  have "authorizing_rows ?r db = [(p, c)]"
    unfolding authorizing_rows_def
  proof (rule filter_one)
    show "distinct (List.product (idb_principals db) (idb_credentials db))" using dp dc by (rule List.distinct_product)
    show "(p, c) \<in> set (List.product (idb_principals db) (idb_credentials db))" using p c by simp
    fix x
    assume "x \<in> set (List.product (idb_principals db) (idb_credentials db))"
    then obtain q d where "x = (q, d)" "q \<in> set (idb_principals db)" "d \<in> set (idb_credentials db)" by auto
    then show "(case x of (q, d) \<Rightarrow> cv_principal_id d = sp_id q \<and> sp_subject q = pa_principal_id ?r \<and> principal_live q
         \<and> cv_version d = pa_credential_version ?r \<and> credential_current (pa_checked_at ?r) d) \<longleftrightarrow> x = (p, c)"
      using same_p same_c p c by auto
  qed
  then show ?thesis by (simp add: authorize_principal_def)
qed

lemma find_none: "List.find P xs = None \<longleftrightarrow> (\<forall>x \<in> set xs. \<not> P x)"
  by (auto simp: find_None_iff)

lemma principals_wf_add_credential:
  assumes "principals_wf db" and "cv_id c \<notin> cv_id ` set (idb_credentials db)"
    and "\<forall>d \<in> set (idb_credentials db). \<not> (cv_principal_id d = cv_principal_id c \<and> cv_version d = cv_version c)"
  shows "principals_wf (db\<lparr>idb_credentials := idb_credentials db @ [c]\<rparr>)"
  using assms unfolding principals_wf_def by (auto simp: image_iff)

lemma principals_wf_add_principal:
  assumes "principals_wf db" and "sp_id p \<notin> sp_id ` set (idb_principals db)" and "sp_kind p = Principal_BFF"
    and "\<forall>q \<in> set (idb_principals db). \<not> (sp_kind q = Principal_BFF \<and> sp_subject q = sp_subject p)"
  shows "principals_wf (db\<lparr>idb_principals := idb_principals db @ [p]\<rparr>)"
  using assms unfolding principals_wf_def by (auto simp: image_iff)

lemma put_row_keys: "(\<And>y. y \<in> set xs \<Longrightarrow> key y = key x \<Longrightarrow> f y = f x) \<Longrightarrow> key x \<in> key ` set xs \<Longrightarrow> map f (put_row key x xs) = map f xs"
  by (auto simp: put_row_def)

text \<open>A registration leaves the current credential of the principal in the tables.\<close>

lemma register_credential_effect:
  assumes run: "register_credential i q r db = (Inr True, db')" and wf: "principals_wf db"
    and until: "gp_valid_until r = gp_valid_from r + d"
  shows "principals_wf db' \<and> idb_principals db' = idb_principals db
    \<and> (\<exists>c \<in> set (idb_credentials db'). cv_principal_id c = q \<and> cv_version c = gp_credential_version r
        \<and> credential_live c \<and> cv_valid_from c \<le> gp_valid_from r \<and> gp_valid_until r \<le> cv_valid_until c)"
proof (cases "List.find (\<lambda>c. cv_principal_id c = q \<and> cv_version c = gp_credential_version r) (idb_credentials db)")
  case None
  let ?c = "\<lparr>cv_id = i, cv_principal_id = q, cv_version = gp_credential_version r, cv_active = True,
               cv_valid_from = gp_valid_from r, cv_valid_until = gp_valid_until r, cv_revoked_at = None\<rparr>"
  have new: "i \<notin> cv_id ` set (idb_credentials db)" "db' = db\<lparr>idb_credentials := idb_credentials db @ [?c]\<rparr>"
    using run by (simp_all add: register_credential_def None split: if_splits)
  have "\<forall>c \<in> set (idb_credentials db). \<not> (cv_principal_id c = q \<and> cv_version c = gp_credential_version r)"
    using None unfolding find_none .
  then have "principals_wf db'" unfolding new(2) by (intro principals_wf_add_credential [OF wf]) (use new(1) in simp_all)
  moreover have "credential_live ?c" by (simp add: credential_live_def)
  ultimately show ?thesis using new(2) by simp
next
  case (Some c)
  let ?c = "c\<lparr>cv_valid_until := max (cv_valid_until c) (gp_valid_until r)\<rparr>"
  have c: "c \<in> set (idb_credentials db)" "cv_principal_id c = q" "cv_version c = gp_credential_version r"
    using find_SomeD [OF Some] by auto
  have live: "credential_live c" "cv_valid_from c \<le> gp_valid_from r"
    and db': "db' = db\<lparr>idb_credentials := put_row cv_id ?c (idb_credentials db)\<rparr>"
    using run Some by (auto simp: register_credential_def split: if_splits)
  have d: "distinct (map cv_id (idb_credentials db))" using wf by (simp add: principals_wf_def)
  then have uniq: "y = c" if "y \<in> set (idb_credentials db)" "cv_id y = cv_id c" for y
    using that c(1) by (auto simp: distinct_map dest: inj_onD)
  have keys: "map (\<lambda>c. (cv_principal_id c, cv_version c)) (put_row cv_id ?c (idb_credentials db))
      = map (\<lambda>c. (cv_principal_id c, cv_version c)) (idb_credentials db)"
    by (rule put_row_keys) (use uniq c(1) in auto)
  have "principals_wf db'" using wf keys distinct_put [OF d, of ?c] unfolding principals_wf_def db' by simp
  moreover have "?c \<in> set (put_row cv_id ?c (idb_credentials db))" using set_put [OF d] by simp
  ultimately show ?thesis using c live db' by (auto simp: credential_live_def intro!: bexI [of _ ?c])
qed

lemma register_principal_effect:
  assumes run: "register_principal ids r db = (Inr True, db')" and wf: "principals_wf db"
    and until: "gp_valid_until r = gp_valid_from r + d"
    and bff: "gp_kind r = Kind_BFF" "take 4 (gp_principal_id r) = ''bff:''"
  shows "principals_wf db' \<and> (\<exists>p c. p \<in> set (idb_principals db') \<and> c \<in> set (idb_credentials db')
    \<and> sp_kind p = Principal_BFF \<and> sp_subject p = gp_principal_id r \<and> principal_live p \<and> cv_principal_id c = sp_id p
    \<and> cv_version c = gp_credential_version r \<and> credential_live c \<and> cv_valid_from c \<le> gp_valid_from r
    \<and> gp_valid_until r \<le> cv_valid_until c)"
proof (cases "List.find (\<lambda>p. sp_kind p = Principal_BFF \<and> sp_subject p = gp_principal_id r) (idb_principals db)")
  case None
  let ?p = "\<lparr>sp_id = fst ids, sp_kind = Principal_BFF, sp_subject = gp_principal_id r, sp_active = True, sp_revoked_at = None\<rparr>"
  let ?db = "db\<lparr>idb_principals := idb_principals db @ [?p]\<rparr>"
  have new: "fst ids \<notin> sp_id ` set (idb_principals db)" and run': "register_credential (snd ids) (fst ids) r ?db = (Inr True, db')"
    using run by (simp_all add: register_principal_def None bff(1) split: if_splits prod.splits sum.splits)
  have "\<forall>p \<in> set (idb_principals db). \<not> (sp_kind p = Principal_BFF \<and> sp_subject p = gp_principal_id r)"
    using None unfolding find_none .
  then have "principals_wf ?db" by (intro principals_wf_add_principal [OF wf]) (use new in simp_all)
  note effect = register_credential_effect [OF run' this until]
  then obtain c where c: "c \<in> set (idb_credentials db')" "cv_principal_id c = fst ids" "cv_version c = gp_credential_version r"
    "credential_live c" "cv_valid_from c \<le> gp_valid_from r" "gp_valid_until r \<le> cv_valid_until c" by blast
  moreover have "?p \<in> set (idb_principals db')" "principal_live ?p" using effect by (simp_all add: principal_live_def)
  ultimately show ?thesis using effect by (intro conjI exI [of _ ?p] exI [of _ c]) simp_all
next
  case (Some p)
  then have p: "p \<in> set (idb_principals db)" "sp_kind p = Principal_BFF" "sp_subject p = gp_principal_id r"
    using find_SomeD [OF Some] by auto
  have live: "principal_live p" and run': "register_credential (snd ids) (sp_id p) r db = (Inr True, db')"
    using run by (simp_all add: register_principal_def Some bff(1) split: if_splits)
  note effect = register_credential_effect [OF run' wf until]
  then obtain c where "c \<in> set (idb_credentials db')" "cv_principal_id c = sp_id p" "cv_version c = gp_credential_version r"
    "credential_live c" "cv_valid_from c \<le> gp_valid_from r" "gp_valid_until r \<le> cv_valid_until c" by blast
  then show ?thesis using effect p live by (intro conjI exI [of _ p] exI [of _ c]) simp_all
qed

lemma trunc_add_seconds: "0 \<le> t \<Longrightarrow> 0 \<le> n \<Longrightarrow> trunc_seconds (t + seconds n) = trunc_seconds t + n"
  by (simp add: trunc_seconds_def seconds_def)

lemma trunc_mono:
  assumes "s \<le> t"
  shows "trunc_seconds s \<le> trunc_seconds t"
proof (cases "0 \<le> s")
  case True
  then show ?thesis using assms zdiv_mono1 [of s t usec_per_second] by (simp add: trunc_seconds_def)
next
  case False
  then have "0 \<le> (- s) div usec_per_second" by (simp add: pos_imp_zdiv_nonneg_iff)
  moreover have "0 \<le> t div usec_per_second" if "0 \<le> t" using that by (simp add: pos_imp_zdiv_nonneg_iff)
  moreover have "(- t) div usec_per_second \<le> (- s) div usec_per_second" using assms by (intro zdiv_mono1) simp_all
  ultimately show ?thesis using False by (auto simp: trunc_seconds_def)
qed

lemma fresh_token_authorizes:
  assumes codec: "codec_parses (xe_codec env)" "key_pair (xe_codec env) (ti_private_key (xe_issuer env)) key"
    and keys: "tv_public_keys verifier (ti_active_key_id (xe_issuer env)) = Some key" "tv_issuer verifier = ti_issuer (xe_issuer env)"
    and wf: "principals_wf (xs_db s)" and now: "0 \<le> now"
    and run: "exchange_bff env draw command now s = (Inr response, s')"
    and scope: "scope \<in> bx_requested_scopes command" and later: "now \<le> later" "later < xr_expires_at response"
  shows "authorize_scope (xe_codec env) verifier (xe_audience env) (xr_access_token response) scope later (xs_db s')
    = Inr (''bff:'' @ bx_deployment_identity command, bx_requested_scopes command)"
proof -
  obtain x db where bff: "authorize_bff (xe_bff_credentials env) (xd_time draw) command now (xs_db s) = (x, db)" by (rule prod.exhaust)
  obtain a where x: "x = Inr a" using run bff by (cases x) (auto simp: exchange_bff_def)
  from bff x have bff': "authorize_bff (xe_bff_credentials env) (xd_time draw) command now (xs_db s) = (Inr a, db)" by simp
  have a: "sa_principal_id a = ''bff:'' @ bx_deployment_identity command" "sa_scopes a = bx_requested_scopes command"
    and same: "idb_principals db = idb_principals (xs_db s)" "idb_credentials db = idb_credentials (xs_db s)"
    by (rule authorize_bffD [OF bff'], simp)+
  have wf': "principals_wf db" using wf same by (simp add: principals_wf_def)
  let ?p = "\<lparr>pr_id = sa_principal_id a, pr_kind = Kind_BFF, pr_credential_version = sa_credential_version a\<rparr>"
  have rm: "register_and_mint env ?p (sa_scopes a) now BFF_TOKEN_TTL_SECONDS draw (s\<lparr>xs_db := db\<rparr>) = (Inr response, s')"
    using run bff x by (simp add: exchange_bff_def)
  from rm obtain db2 where reg: "register_principal (xd_ids draw) \<lparr>gp_principal_id = pr_id ?p, gp_kind = pr_kind ?p,
        gp_credential_version = pr_credential_version ?p, gp_valid_from = now,
        gp_valid_until = now + seconds BFF_TOKEN_TTL_SECONDS\<rparr> db = (Inr True, db2)"
    and mint: "mint env ?p (sa_scopes a) now BFF_TOKEN_TTL_SECONDS (xd_jti draw) (s\<lparr>xs_db := db2\<rparr>) = (Inr response, s')"
    by (cases rule: register_and_mint_cases) auto
  from mint obtain request where request: "request = \<lparr>it_principal = ?p, it_audience = xe_audience env, it_scopes = sa_scopes a,
        it_now = Aware now 0, it_lifetime = seconds BFF_TOKEN_TTL_SECONDS\<rparr>"
      and token: "issue_token (xe_codec env) (xe_issuer env) request (xd_jti draw) = Inr (xr_access_token response)"
      and expires: "xr_expires_at response = now + seconds BFF_TOKEN_TTL_SECONDS" and s': "xs_db s' = db2"
    by (cases rule: mint_cases) auto
  obtain p c where p: "principals_wf db2" "p \<in> set (idb_principals db2)" "c \<in> set (idb_credentials db2)"
    "sp_kind p = Principal_BFF" "sp_subject p = sa_principal_id a" "principal_live p" "cv_principal_id c = sp_id p"
    "cv_version c = sa_credential_version a" "credential_live c" "cv_valid_from c \<le> now"
    "now + seconds BFF_TOKEN_TTL_SECONDS \<le> cv_valid_until c"
    using register_principal_effect [OF reg wf', of "seconds BFF_TOKEN_TTL_SECONDS"] a(1) by auto
  have current: "credential_current later c" using p(9-11) later expires by (simp add: credential_current_def)
  have "trunc_seconds later \<le> trunc_seconds now + BFF_TOKEN_TTL_SECONDS"
    using trunc_mono [of later "now + seconds BFF_TOKEN_TTL_SECONDS"] later(2) expires now trunc_add_seconds [of now BFF_TOKEN_TTL_SECONDS]
    by (simp add: BFF_TOKEN_TTL_SECONDS_def)
  moreover have "trunc_seconds now \<le> trunc_seconds later" using later(1) by (rule trunc_mono)
  ultimately have time: "trunc_seconds now \<le> trunc_seconds later + TOKEN_SKEW_SECONDS"
    "trunc_seconds later \<le> trunc_seconds now + trunc_seconds (it_lifetime request) + TOKEN_SKEW_SECONDS"
    by (simp_all add: request TOKEN_SKEW_SECONDS_def)
  have req: "it_now request = Aware now 0" "{scope} \<subseteq> it_scopes request" "usec_per_second \<le> it_lifetime request"
    using scope a(2) by (simp_all add: request seconds_def BFF_TOKEN_TTL_SECONDS_def)
  have verified: "verify_token (xe_codec env) verifier \<lparr>vt_token = xr_access_token response, vt_audience = xe_audience env,
      vt_required_scopes = {scope}, vt_now = Aware later 0\<rparr>
    = Inr (issued_claims (xe_issuer env) request (xd_jti draw) (trunc_seconds now))"
    using issued_token_verifies [OF codec token req(1) keys req(2,3) time] by (simp add: request)
  have "authorize_principal \<lparr>pa_principal_id = sp_subject p, pa_credential_version = cv_version c, pa_checked_at = later\<rparr> db2 = Inr True"
    by (rule authorize_unique [OF p(1,2,4,6) _ p(3,7) current]) (simp add: p(5) a(1))
  then show ?thesis
    unfolding authorize_scope_def using verified
    by (simp add: s' issued_claims_def request p(5,8) a)
qed

text \<open>(C21) Fresh.\<close>

theorem exchanged_token_authorizes:
  assumes "codec_parses (xe_codec env)" and "key_pair (xe_codec env) (ti_private_key (xe_issuer env)) key"
    and "tv_public_keys verifier (ti_active_key_id (xe_issuer env)) = Some key" and "tv_issuer verifier = ti_issuer (xe_issuer env)"
    and "principals_wf (xs_db s)" and "0 \<le> now"
    and "exchange_bff env draw command now s = (Inr response, s')"
    and "scope \<in> bx_requested_scopes command" and "now \<le> later" and "later < xr_expires_at response"
  shows "authorize_scope (xe_codec env) verifier (xe_audience env) (xr_access_token response) scope later (xs_db s')
    = Inr (''bff:'' @ bx_deployment_identity command, bx_requested_scopes command)"
  using assms by (rule fresh_token_authorizes)

section \<open>One use\<close>

lemma register_credential_nonces: "idb_nonces (snd (register_credential i q r db)) = idb_nonces db"
  by (simp add: register_credential_def split: option.splits)

lemma register_principal_nonces: "idb_nonces (snd (register_principal ids r db)) = idb_nonces db"
proof (cases "domain_kind_of (gp_kind r)")
  case None
  then show ?thesis by (simp add: register_principal_def)
next
  case (Some kind)
  show ?thesis
  proof (cases "List.find (\<lambda>p. sp_kind p = kind \<and> sp_subject p = gp_principal_id r) (idb_principals db)")
    case None
    let ?db = "db\<lparr>idb_principals := idb_principals db @
        [\<lparr>sp_id = fst ids, sp_kind = kind, sp_subject = gp_principal_id r, sp_active = True, sp_revoked_at = None\<rparr>]\<rparr>"
    obtain x db' where run: "register_credential (snd ids) (fst ids) r ?db = (x, db')" by (rule prod.exhaust)
    then have "idb_nonces db' = idb_nonces db" using register_credential_nonces [of "snd ids" "fst ids" r ?db] by simp
    with Some None run show ?thesis by (simp add: register_principal_def split: sum.split)
  next
    case (Some p)
    with \<open>domain_kind_of (gp_kind r) = Some kind\<close> show ?thesis
      by (simp add: register_principal_def register_credential_nonces)
  qed
qed

lemma mint_db [simp]: "xs_db (snd (mint env p scopes now lifetime jti s)) = xs_db s"
  by (simp add: mint_def Let_def split: sum.split)

lemma register_and_mint_nonces:
  "idb_nonces (xs_db (snd (register_and_mint env p scopes now lifetime draw s))) = idb_nonces (xs_db s)"
proof -
  let ?r = "\<lparr>gp_principal_id = pr_id p, gp_kind = pr_kind p, gp_credential_version = pr_credential_version p,
      gp_valid_from = now, gp_valid_until = now + seconds lifetime\<rparr>"
  obtain x db where reg: "register_principal (xd_ids draw) ?r (xs_db s) = (x, db)" by (rule prod.exhaust)
  then have "idb_nonces db = idb_nonces (xs_db s)" using register_principal_nonces [of "xd_ids draw" ?r "xs_db s"] by simp
  then show ?thesis using reg by (simp add: register_and_mint_def split: sum.split)
qed

text \<open>A call changes the nonces by at most one consumption.\<close>

definition consumes_at_most_once :: "db_time \<Rightarrow> nonce_row list \<Rightarrow> nonce_row list \<Rightarrow> bool" where
  "consumes_at_most_once t rows rows' \<longleftrightarrow> rows' = rows \<or> (\<exists>ns k u. consume_once t ns k u rows = (Inr True, rows'))"

lemma consume_once_idle: "consume_once t ns k u rows = (r, rows') \<Longrightarrow> r \<noteq> Inr True \<Longrightarrow> rows' = rows"
  by (erule consume_once_cases) auto

lemma authorize_bff_nonces: "consumes_at_most_once t (idb_nonces db) (idb_nonces (snd (authorize_bff cs t r now db)))"
proof (cases "authorize_bff cs t r now db")
  case (Pair x db')
  show ?thesis
  proof (cases x)
    case (Inl e)
    have "idb_nonces db' = idb_nonces db" using Pair Inl
      by (auto simp: authorize_bff_def Let_def split: prod.splits if_splits option.splits sum.splits)
    then show ?thesis using Pair by (simp add: consumes_at_most_once_def)
  next
    case (Inr a)
    then have "authorize_bff cs t r now db = (Inr a, db')" using Pair by simp
    then show ?thesis by (rule authorize_bffD) (use Pair in \<open>auto simp: consumes_at_most_once_def\<close>)
  qed
qed

lemma authorize_github_nonces: "consumes_at_most_once t (idb_nonces db) (idb_nonces (snd (authorize_github p t c now db)))"
  by (auto simp: authorize_github_def consumes_at_most_once_def split: sum.splits prod.splits)

lemma authorize_worker_nonces:
  "consumes_at_most_once t (idb_nonces db) (idb_nonces (snd (authorize_worker_exchange secrets parse t r now db)))"
  by (auto simp: authorize_worker_exchange_def consumes_at_most_once_def split: sum.splits prod.splits bool.splits)

lemma exchange_call_nonces:
  assumes "exchange_call env draw s s'"
  shows "consumes_at_most_once (xd_time draw) (idb_nonces (xs_db s)) (idb_nonces (xs_db s'))"
  using assms
proof cases
  case (bff_call command now)
  then show ?thesis using authorize_bff_nonces [of "xd_time draw" "xs_db s" "xe_bff_credentials env" command now]
    by (auto simp: exchange_bff_def register_and_mint_nonces split: prod.splits sum.splits)
next
  case (github_call token now)
  show ?thesis
  proof (cases "xe_verify_oidc env token")
    case (Inl e)
    then show ?thesis using github_call by (simp add: exchange_github_def consumes_at_most_once_def)
  next
    case (Inr c)
    then show ?thesis using github_call authorize_github_nonces [of "xd_time draw" "xs_db s" "xe_github_policy env" c now]
      by (auto simp: exchange_github_def register_and_mint_nonces split: prod.splits sum.splits)
  qed
next
  case (worker_call r now)
  then show ?thesis
    using authorize_worker_nonces [of "xd_time draw" "xs_db s" "xe_worker_secrets env" "xe_parse_uuid env" r now]
    by (auto simp: exchange_worker_def mint_db split: prod.splits sum.splits)
qed

lemma held_through_calls:
  assumes "(exchange_step_before env limit)\<^sup>*\<^sup>* s s'" and "nonce_held (idb_nonces (xs_db s)) ns k = Some u" and "limit \<le> u"
  shows "nonce_held (idb_nonces (xs_db s')) ns k = Some u"
  using assms(1)
proof (induction rule: rtranclp_induct)
  case base
  show ?case by (rule assms(2))
next
  case (step x y)
  then obtain draw where draw: "clock (xd_time draw) < limit" "exchange_call env draw x y"
    by (auto simp: exchange_step_before_def)
  from exchange_call_nonces [OF draw(2)] show ?case
    unfolding consumes_at_most_once_def
  proof (elim disjE exE)
    fix ns' k' u'
    assume "consume_once (xd_time draw) ns' k' u' (idb_nonces (xs_db x)) = (Inr True, idb_nonces (xs_db y))"
    then show ?thesis using sql_nonce.held_kept [OF step.IH] draw(1) assms(3) by (meson less_le_trans)
  qed (use step.IH in simp)
qed

lemma register_and_mint_held:
  "nonce_held (idb_nonces (xs_db (snd (register_and_mint env p scopes now lifetime draw s)))) ns k
    = nonce_held (idb_nonces (xs_db s)) ns k"
  by (simp add: register_and_mint_nonces)

lemma exchange_githubD:
  assumes "exchange_github env draw token now s = (Inr response, s')" and "xe_verify_oidc env token = Inr claims"
  obtains nonces where "github_time_valid claims now"
    "consume_once (xd_time draw) ''github-oidc'' (github_replay_key claims) (seconds (gc_expires_at claims)) (idb_nonces (xs_db s))
       = (Inr True, nonces)" "idb_nonces (xs_db s') = nonces"
proof -
  obtain x db where auth: "authorize_github (xe_github_policy env) (xd_time draw) claims now (xs_db s) = (x, db)" by (rule prod.exhaust)
  obtain a where x: "x = Inr a" using assms auth by (cases x) (auto simp: exchange_github_def)
  from auth x obtain nonces where v: "validate_verified_claims (xe_github_policy env) claims now = Inr a"
    "consume_once (xd_time draw) ''github-oidc'' (ga_replay_key a) (ga_retain_until a) (idb_nonces (xs_db s)) = (Inr True, nonces)"
    "db = (xs_db s)\<lparr>idb_nonces := nonces\<rparr>" using authorize_githubD by metis
  from v(1) have "github_time_valid claims now" "ga_replay_key a = github_replay_key claims"
    "ga_retain_until a = seconds (gc_expires_at claims)" by (rule validate_verified_claimsD, simp)+
  moreover have "idb_nonces (xs_db s') = nonces"
    using assms auth x v(3) register_and_mint_nonces [of env _ _ now GITHUB_TOKEN_TTL_SECONDS draw "s\<lparr>xs_db := db\<rparr>"]
    by (simp add: exchange_github_def) (metis (no_types, lifting) exchange_state.simps identity_db.simps snd_conv)
  ultimately show thesis using that v(2) by simp
qed

text \<open>(C22) OIDC.\<close>

theorem oidc_token_exchanged_once:
  assumes claims: "xe_verify_oidc env token = Inr claims"
    and first: "exchange_github env draw token now s = (Inr response, s1)"
    and between: "(exchange_step_before env (seconds (gc_expires_at claims)))\<^sup>*\<^sup>* s1 s2"
    and moment: "clock (xd_time draw2) < seconds (gc_expires_at claims) \<or> seconds (gc_expires_at claims) \<le> tx_now (xd_time draw2)"
  shows "\<exists>e. fst (exchange_github env draw2 token now2 s2) = Inl e"
proof (rule ccontr)
  assume "\<nexists>e. fst (exchange_github env draw2 token now2 s2) = Inl e"
  then obtain response2 s3 where second: "exchange_github env draw2 token now2 s2 = (Inr response2, s3)"
    by (metis sumE prod.collapse)
  let ?u = "seconds (gc_expires_at claims)"
  obtain nonces where n1: "consume_once (xd_time draw) ''github-oidc'' (github_replay_key claims) ?u (idb_nonces (xs_db s)) = (Inr True, nonces)"
    "idb_nonces (xs_db s1) = nonces" by (rule exchange_githubD [OF first claims])
  obtain nonces2 where n2: "consume_once (xd_time draw2) ''github-oidc'' (github_replay_key claims) ?u (idb_nonces (xs_db s2)) = (Inr True, nonces2)"
    by (rule exchange_githubD [OF second claims])
  have "nonce_held (idb_nonces (xs_db s1)) ''github-oidc'' (github_replay_key claims) = Some ?u"
    using sql_nonce.consumed_held [OF n1(1)] n1(2) by simp
  then have held: "nonce_held (idb_nonces (xs_db s2)) ''github-oidc'' (github_replay_key claims) = Some ?u"
    by (rule held_through_calls [OF between]) simp
  from moment show False
  proof
    assume "clock (xd_time draw2) < ?u"
    then show False using sql_nonce.held_refused [OF held _ n2] by simp
  next
    assume late: "?u \<le> tx_now (xd_time draw2)"
    from n2 show False by (rule consume_once_cases) (use late in auto)
  qed
qed

text \<open>(C26) Skew.\<close>

theorem oidc_skew_unusable:
  assumes "xe_verify_oidc env token = Inr claims"
    and "validate_verified_claims (xe_github_policy env) claims now = Inr a"
    and "seconds (gc_expires_at claims) \<le> tx_now (xd_time draw)"
  shows "exchange_github env draw token now s = (Inl Integrity_Failure, s)"
proof -
  have "ga_retain_until a = seconds (gc_expires_at claims)" by (rule validate_verified_claimsD [OF assms(2)])
  then have "consume_once (xd_time draw) ''github-oidc'' (ga_replay_key a) (ga_retain_until a) (idb_nonces (xs_db s))
      = (Inl Integrity_Failure, idb_nonces (xs_db s))"
    using assms(3) by (simp add: consume_once_def nonce_purpose_of_def)
  then show ?thesis using assms(1,2) by (simp add: exchange_github_def authorize_github_def)
qed

lemma exchange_workerD:
  assumes "exchange_worker env draw r now s = (Inr response, s')"
  obtains sent off nonces where "wb_timestamp r = Aware sent off" "\<not> worker_stale now sent"
    "consume_once (xd_time draw) ''worker-bootstrap'' (wb_nonce r) (now + minutes 10) (idb_nonces (xs_db s)) = (Inr True, nonces)"
    "idb_nonces (xs_db s') = nonces"
proof -
  obtain x db where auth: "authorize_worker_exchange (xe_worker_secrets env) (xe_parse_uuid env) (xd_time draw) r now (xs_db s) = (x, db)"
    by (rule prod.exhaust)
  obtain a where x: "x = Inr a" using assms auth by (cases x) (auto simp: exchange_worker_def)
  from auth x obtain nonces where v: "verify_worker (xe_worker_secrets env) r now = Inr a"
    "consume_once (xd_time draw) ''worker-bootstrap'' (wb_nonce r) (now + minutes 10) (idb_nonces (xs_db s)) = (Inr True, nonces)"
    "db = (xs_db s)\<lparr>idb_nonces := nonces\<rparr>" using authorize_worker_exchangeD by metis
  obtain sent off where "wb_timestamp r = Aware sent off" "\<not> worker_stale now sent"
    using v(1) by (auto simp: verify_worker_def split: datetime.splits if_splits)
  moreover have "xs_db s' = db"
  proof -
    have "mint env \<lparr>pr_id = sa_principal_id a, pr_kind = Kind_WINDOWS_WORKER, pr_credential_version = sa_credential_version a\<rparr>
        (sa_scopes a) now WORKER_TOKEN_TTL_SECONDS (xd_jti draw) (s\<lparr>xs_db := db\<rparr>) = (Inr response, s')"
      using assms auth x by (simp add: exchange_worker_def)
    from arg_cong [OF this, of "\<lambda>x. xs_db (snd x)"] show ?thesis by simp
  qed
  ultimately show thesis using that v by simp
qed

text \<open>Worker.\<close>

theorem worker_request_exchanged_once:
  assumes first: "exchange_worker env draw r now s = (Inr response, s1)"
    and between: "(exchange_step_before env (now + minutes 10))\<^sup>*\<^sup>* s1 s2"
    and drift: "clock (xd_time draw2) < now2 + seconds 450"
  shows "\<exists>e. fst (exchange_worker env draw2 r now2 s2) = Inl e"
proof (rule ccontr)
  assume "\<nexists>e. fst (exchange_worker env draw2 r now2 s2) = Inl e"
  then obtain response2 s3 where second: "exchange_worker env draw2 r now2 s2 = (Inr response2, s3)"
    by (metis sumE prod.collapse)
  obtain sent off nonces where n1: "wb_timestamp r = Aware sent off" "\<not> worker_stale now sent"
    "consume_once (xd_time draw) ''worker-bootstrap'' (wb_nonce r) (now + minutes 10) (idb_nonces (xs_db s)) = (Inr True, nonces)"
    "idb_nonces (xs_db s1) = nonces" by (rule exchange_workerD [OF first])
  obtain sent2 off2 nonces2 where n2: "wb_timestamp r = Aware sent2 off2" "\<not> worker_stale now2 sent2"
    "consume_once (xd_time draw2) ''worker-bootstrap'' (wb_nonce r) (now2 + minutes 10) (idb_nonces (xs_db s2)) = (Inr True, nonces2)"
    by (rule exchange_workerD [OF second])
  have "nonce_held (idb_nonces (xs_db s1)) ''worker-bootstrap'' (wb_nonce r) = Some (now + minutes 10)"
    using sql_nonce.consumed_held [OF n1(3)] n1(4) by simp
  then have held: "nonce_held (idb_nonces (xs_db s2)) ''worker-bootstrap'' (wb_nonce r) = Some (now + minutes 10)"
    by (rule held_through_calls [OF between]) simp
  have "clock (xd_time draw2) < now + minutes 10"
    using n1(1,2) n2(1,2) drift
    by (simp add: worker_stale_def WORKER_REQUEST_MAX_AGE_SECONDS_def TOKEN_SKEW_SECONDS_def duration_defs)
  then show False using sql_nonce.held_refused [OF held _ n2(3)] by simp
qed

end
