(* ===== verification/Identity_Examples.thy ===== *)
theory Identity_Examples
  imports Identity_Authority
begin
text \<open>Concrete instances: a token codec, a deployment and its exchanges, with the witnesses of \<open>Identity_Authority\<close>.\<close>

section \<open>A codec\<close>

text \<open>A concrete codec: the text fields in base64, separated by dots.\<close>

definition all_kinds :: "principal_kind list" where
  "all_kinds = [Kind_BFF, Kind_GITHUB_COLLECTOR, Kind_GITHUB_VERIFIER, Kind_WINDOWS_WORKER, Kind_ADMIN_SESSION]"

definition code_of :: "'a list \<Rightarrow> 'a \<Rightarrow> char" where
  "code_of xs x = char_of (65 + length (takeWhile (\<lambda>y. y \<noteq> x) xs))"

definition of_code :: "'a list \<Rightarrow> char \<Rightarrow> 'a" where
  "of_code xs c = xs ! (of_char c - 65)"

lemma of_code_scope: "of_code all_scopes (code_of all_scopes s) = s"
  by (cases s) (simp_all add: of_code_def code_of_def all_scopes_def)

lemma of_code_kind: "of_code all_kinds (code_of all_kinds k) = k"
  by (cases k) (simp_all add: of_code_def code_of_def all_kinds_def)

lemma of_code_scopes: "map (of_code all_scopes \<circ> code_of all_scopes) ss = ss"
  by (simp add: map_idI of_code_scope)

definition example_fields :: "access_claims \<Rightarrow> string list" where
  "example_fields c = [ac_issuer c, ac_subject c, ac_audience c, map (code_of all_scopes) (ac_scopes c), ac_jwt_id c,
     show_int (ac_issued_at c), show_int (ac_not_before c), show_int (ac_expires_at c), ac_credential_version c,
     [code_of all_kinds (ac_principal_kind c)]]"

definition example_parse :: "string \<Rightarrow> access_claims option" where
  "example_parse s =
     (case those (map b64url_decode (split_on (CHR ''.'') s)) of
        Some [a, b, c, d, e, f, g, h, i, j] \<Rightarrow>
          (case (py_int f, py_int g, py_int h) of
             (Some iat, Some nbf, Some until) \<Rightarrow> Some
               \<lparr>ac_issuer = a, ac_subject = b, ac_audience = c, ac_scopes = map (of_code all_scopes) d, ac_jwt_id = e,
                ac_issued_at = iat, ac_not_before = nbf, ac_expires_at = until, ac_credential_version = i,
                ac_principal_kind = of_code all_kinds (hd j)\<rparr>
           | _ \<Rightarrow> None)
      | _ \<Rightarrow> None)"

definition example_codec :: "(unit, string list) token_codec" where
  "example_codec = \<lparr>dump_header = th_key_id, parse_header = (\<lambda>s. Some \<lparr>th_key_id = s\<rparr>),
     dump_claims = (\<lambda>c. join_with ''.'' (map b64url_encode (example_fields c))), parse_claims = example_parse,
     ed25519_sign = (\<lambda>_ m. []), ed25519_verify = (\<lambda>known _ m. known = [] \<or> m \<in> set known)\<rparr>"

lemma split_join_encoded: "xs \<noteq> [] \<Longrightarrow> split_on (CHR ''.'') (join_with ''.'' (map b64url_encode xs)) = map b64url_encode xs"
proof (induction xs rule: list_nonempty_induct)
  case (single x)
  then show ?case by (simp add: split_on_plain encoded_plain)
next
  case (cons x xs)
  then obtain y ys where xs: "xs = y # ys" by (cases xs) auto
  then show ?case using cons.IH split_on_append [OF encoded_plain [of x]] by simp
qed

lemma example_codec_parses: "codec_parses example_codec"
proof -
  have "example_parse (join_with ''.'' (map b64url_encode (example_fields c))) = Some c" for c
  proof -
    have "those (map b64url_decode (map b64url_encode xs)) = Some xs" for xs by (induction xs) simp_all
    moreover have "example_fields c \<noteq> []" by (simp add: example_fields_def)
    ultimately have "those (map b64url_decode (split_on (CHR ''.'') (join_with ''.'' (map b64url_encode (example_fields c)))))
        = Some (example_fields c)" by (metis split_join_encoded)
    then show ?thesis unfolding example_parse_def by (simp add: example_fields_def of_code_scopes of_code_kind)
  qed
  then show ?thesis by (simp add: codec_parses_def example_codec_def)
qed

definition example_env :: "(unit, string list) exchange_env" where
  "example_env = \<lparr>xe_codec = example_codec,
     xe_issuer = \<lparr>ti_issuer = ''monitor-api'', ti_active_key_id = ''k1'', ti_private_key = ()\<rparr>, xe_audience = ''https://api'',
     xe_bff_credentials = [bff_credential_from_secret ''v1'' ''secret'' Credential_ACTIVE],
     xe_github_policy = \<lparr>gp_repository = ''owner/monitor'', gp_workflows = [\<lparr>gw_workflow_ref = ''w/collect.yml@main'',
        gw_git_ref = ''main'', gw_environment = ''production'', gw_scopes = COLLECTOR_SCOPES\<rparr>]\<rparr>,
     xe_github_credential_version = ''1'',
     xe_verify_oidc = (\<lambda>_. Inr \<lparr>gc_issuer = GITHUB_OIDC_ISSUER, gc_audience = GITHUB_OIDC_AUDIENCE,
        gc_repository = ''owner/monitor'', gc_workflow_ref = ''w/collect.yml@main'', gc_git_ref = ''main'',
        gc_environment = Some ''production'', gc_run_id = ''12'', gc_run_attempt = ''1'', gc_jwt_id = ''j'',
        gc_issued_at = 1000, gc_not_before = 1000, gc_expires_at = 1600\<rparr>),
     xe_worker_secrets = [''v1'' \<mapsto> ''secret''], xe_parse_uuid = (\<lambda>_. Some 7)\<rparr>"

definition empty_identity :: exchange_state where
  "empty_identity = \<lparr>xs_db = \<lparr>idb_nonces = [], idb_rates = [], idb_principals = [], idb_credentials = [], idb_proofs = []\<rparr>,
     xs_signed = []\<rparr>"

definition example_draw :: "instant \<Rightarrow> exchange_draw" where
  "example_draw t = \<lparr>xd_time = \<lparr>tx_now = t, clock = t\<rparr>, xd_ids = (1, 2), xd_jti = 3\<rparr>"

definition example_command :: bff_exchange_request where
  "example_command = \<lparr>bx_credential_version = ''v1'', bx_presented_credential = ''secret'', bx_request_nonce = ''n'',
     bx_requested_scopes = {ADMIN_COMMAND}, bx_deployment_identity = ''web''\<rparr>"

lemma window_start_nonneg_first [simp]: "consume_allowance k r now [] =
   (\<lparr>rd_allowed = 1 \<le> rr_limit r, rd_retry_after_seconds = retry_after (window_start (rr_window_seconds r) now + seconds (rr_window_seconds r)) now\<rparr>,
    [\<lparr>rl_client_hash = rate_client_hash r k, rl_bucket_start = window_start (rr_window_seconds r) now,
      rl_bucket_end = window_start (rr_window_seconds r) now + seconds (rr_window_seconds r), rl_failure_count = 1,
                rl_locked_until = None, rl_updated_at = now\<rparr>])"
  by (simp add: consume_allowance_def Let_def put_row_def)

lemma uuid_str_nonempty: "uuid_str u \<noteq> []"
  by (simp add: uuid_str_def Let_def)

lemma sorted_one: "sorted_scopes {ADMIN_COMMAND} = [ADMIN_COMMAND]"
  by (simp add: sorted_scopes_def all_scopes_def)

lemmas example_defs = example_env_def example_command_def example_draw_def empty_identity_def

lemma example_authorized:
  "\<exists>db. authorize_bff (xe_bff_credentials example_env) (xd_time (example_draw (seconds 1000))) example_command (seconds 1000)
       (xs_db empty_identity)
     = (Inr \<lparr>sa_principal_id = ''bff:web'', sa_kind = Kind_BFF, sa_credential_version = ''v1'', sa_scopes = {ADMIN_COMMAND}\<rparr>, db)
     \<and> idb_principals db = [] \<and> idb_credentials db = []"
proof -
  have matched: "match_credential (xe_bff_credentials example_env) example_command
      = Some (bff_credential_from_secret ''v1'' ''secret'' Credential_ACTIVE)"
    by (simp add: match_credential_def example_defs bff_credential_from_secret_def)
  have nonce: "consume_once \<lparr>tx_now = seconds 1000, clock = seconds 1000\<rparr> ''bff'' ''n'' (seconds 1000 + seconds 600) []
      = (Inr True, [\<lparr>on_purpose = Nonce_BFF_EXCHANGE, on_nonce_hash = nonce_digest ''bff'' ''n'', on_expires_at = seconds 1000 + seconds 600\<rparr>])"
    by (simp add: consume_once_def nonce_purpose_of_def Let_def seconds_def)
  show ?thesis
    unfolding authorize_bff_def matched
    by (simp add: Let_def example_defs nonce BFF_SCOPE_ALLOWLIST_def BFF_EXCHANGE_RULE_def BFF_NONCE_RETENTION_SECONDS_def
        bff_credential_from_secret_def)
qed

definition example_claims :: access_claims where
  "example_claims = \<lparr>ac_issuer = ''monitor-api'', ac_subject = ''bff:web'', ac_audience = ''https://api'',
     ac_scopes = [ADMIN_COMMAND], ac_jwt_id = uuid_str 3, ac_issued_at = 1000, ac_not_before = 1000, ac_expires_at = 1300,
     ac_credential_version = ''v1'', ac_principal_kind = Kind_BFF\<rparr>"

lemma example_claims_valid: "valid_claims example_claims"
  by (simp add: valid_claims_def example_claims_def uuid_str_nonempty)

definition example_request :: issue_token_request where
  "example_request = \<lparr>it_principal = \<lparr>pr_id = ''bff:web'', pr_kind = Kind_BFF, pr_credential_version = ''v1''\<rparr>,
     it_audience = ''https://api'', it_scopes = {ADMIN_COMMAND}, it_now = Aware (seconds 1000) 0, it_lifetime = seconds 300\<rparr>"

lemma example_issued: "issued_claims (xe_issuer example_env) example_request 3 1000 = example_claims"
  by (simp add: issued_claims_def example_claims_def example_env_def sorted_one example_request_def)

lemma example_token: "\<exists>token. issue_token example_codec (xe_issuer example_env) example_request 3 = Inr token"
proof -
  have "timestamp_of (it_now example_request) = Inr 1000" by (simp add: example_request_def timestamp_of_def)
  moreover have "0 < it_lifetime example_request" "it_scopes example_request \<noteq> {}" by (simp_all add: example_request_def seconds_def)
  moreover have "valid_header \<lparr>th_key_id = ti_active_key_id (xe_issuer example_env)\<rparr>" by (simp add: valid_header_def example_env_def)
  ultimately show ?thesis using example_claims_valid by (simp add: issue_token_def example_issued Let_def)
qed

lemma example_exchange:
  obtains response s1 where
    "exchange_bff example_env (example_draw (seconds 1000)) example_command (seconds 1000) empty_identity = (Inr response, s1)"
    "xr_expires_at response = seconds 1300" "xs_signed s1 = [example_claims]"
    "issue_token example_codec (xe_issuer example_env) example_request 3 = Inr (xr_access_token response)"
    "idb_principals (xs_db s1) = [\<lparr>sp_id = 1, sp_kind = Principal_BFF, sp_subject = ''bff:web'', sp_active = True, sp_revoked_at = None\<rparr>]"
    "idb_credentials (xs_db s1) = [\<lparr>cv_id = 2, cv_principal_id = 1, cv_version = ''v1'', cv_active = True,
        cv_valid_from = seconds 1000, cv_valid_until = seconds 1000 + seconds 300, cv_revoked_at = None\<rparr>]"
proof -
  obtain db where auth: "authorize_bff (xe_bff_credentials example_env) (xd_time (example_draw (seconds 1000))) example_command
      (seconds 1000) (xs_db empty_identity)
     = (Inr \<lparr>sa_principal_id = ''bff:web'', sa_kind = Kind_BFF, sa_credential_version = ''v1'', sa_scopes = {ADMIN_COMMAND}\<rparr>, db)"
    "idb_principals db = []" "idb_credentials db = []" using example_authorized by blast
  let ?db2 = "db\<lparr>idb_principals := [\<lparr>sp_id = 1, sp_kind = Principal_BFF, sp_subject = ''bff:web'', sp_active = True, sp_revoked_at = None\<rparr>],
      idb_credentials := [\<lparr>cv_id = 2, cv_principal_id = 1, cv_version = ''v1'', cv_active = True,
        cv_valid_from = seconds 1000, cv_valid_until = seconds 1000 + seconds 300, cv_revoked_at = None\<rparr>]\<rparr>"
  have reg: "register_principal (1, 2) \<lparr>gp_principal_id = ''bff:web'', gp_kind = Kind_BFF, gp_credential_version = ''v1'',
      gp_valid_from = seconds 1000, gp_valid_until = seconds 1000 + seconds 300\<rparr> db = (Inr True, ?db2)"
    by (simp add: register_principal_def register_credential_def auth(2,3) seconds_def)
  obtain token where token: "issue_token example_codec (xe_issuer example_env) example_request 3 = Inr token" using example_token by blast
  let ?response = "\<lparr>xr_access_token = token, xr_expires_at = seconds 1000 + seconds 300, xr_scope = sorted_scopes {ADMIN_COMMAND}\<rparr>"
  have "mint example_env (it_principal example_request) {ADMIN_COMMAND} (seconds 1000) 300 3 (empty_identity\<lparr>xs_db := ?db2\<rparr>)
      = (Inr ?response, empty_identity\<lparr>xs_db := ?db2, xs_signed := [example_claims]\<rparr>)"
    using token example_issued by (simp add: mint_def Let_def example_env_def empty_identity_def example_request_def)
  then have "exchange_bff example_env (example_draw (seconds 1000)) example_command (seconds 1000) empty_identity
      = (Inr ?response, empty_identity\<lparr>xs_db := ?db2, xs_signed := [example_claims]\<rparr>)"
    using auth(1) reg by (simp add: exchange_bff_def register_and_mint_def BFF_TOKEN_TTL_SECONDS_def example_request_def)
      (simp add: example_draw_def)
  then show thesis by (rule that) (simp_all add: token seconds_def)
qed

definition example_verifier :: "string list token_verifier" where
  "example_verifier = \<lparr>tv_issuer = ''monitor-api'',
     tv_public_keys = [''k1'' \<mapsto> [signing_input example_codec \<lparr>th_key_id = ''k1''\<rparr> example_claims]]\<rparr>"

definition trusting_verifier :: "string list token_verifier" where
  "trusting_verifier = \<lparr>tv_issuer = ''monitor-api'', tv_public_keys = [''k1'' \<mapsto> []]\<rparr>"


text \<open>The key of the verifier is the list of the messages that were signed; an empty list stands for any message.\<close>

lemma example_deployed: "deployed example_env"
proof -
  have "github_policy ''owner/monitor'' [''w/collect.yml@main''] [''main''] [''production''] = Inr (xe_github_policy example_env)"
    by (simp add: github_policy_def workflow_rule_def example_env_def)
  then show ?thesis unfolding deployed_def by blast
qed

lemma example_principals_wf: "principals_wf (xs_db empty_identity)"
  by (simp add: principals_wf_def empty_identity_def)

theorem exchanged_token_authorizes_witness:
  "\<exists>token db. authorize_scope example_codec trusting_verifier ''https://api'' token ADMIN_COMMAND (seconds 1299) db
     = Inr (''bff:web'', {ADMIN_COMMAND})"
proof -
  obtain response s1 where "exchange_bff example_env (example_draw (seconds 1000)) example_command (seconds 1000) empty_identity
      = (Inr response, s1)" "xr_expires_at response = seconds 1300" by (rule example_exchange)
  moreover have "key_pair example_codec (ti_private_key (xe_issuer example_env)) []"
    by (simp add: key_pair_def example_codec_def)
  ultimately show ?thesis
    using exchanged_token_authorizes [of example_env "[]" trusting_verifier empty_identity "seconds 1000"
        "example_draw (seconds 1000)" example_command response s1 ADMIN_COMMAND "seconds 1299"]
      example_codec_parses example_principals_wf
    by (simp add: trusting_verifier_def example_env_def example_command_def seconds_def) blast
qed

theorem accepted_tokens_within_authority_witness:
  "\<exists>token db. \<exists>c. authorize_scope example_codec example_verifier ''https://api'' token ADMIN_COMMAND (seconds 1010) db
     = Inr (''bff:web'', {ADMIN_COMMAND}) \<and> minted_within_policy c \<and> ac_subject c = ''bff:web''"
proof -
  obtain response s1 where run: "exchange_bff example_env (example_draw (seconds 1000)) example_command (seconds 1000) empty_identity
      = (Inr response, s1)" "xs_signed s1 = [example_claims]"
      "issue_token example_codec (xe_issuer example_env) example_request 3 = Inr (xr_access_token response)"
      "idb_principals (xs_db s1) = [\<lparr>sp_id = 1, sp_kind = Principal_BFF, sp_subject = ''bff:web'', sp_active = True, sp_revoked_at = None\<rparr>]"
      "idb_credentials (xs_db s1) = [\<lparr>cv_id = 2, cv_principal_id = 1, cv_version = ''v1'', cv_active = True,
        cv_valid_from = seconds 1000, cv_valid_until = seconds 1000 + seconds 300, cv_revoked_at = None\<rparr>]"
    by (rule example_exchange)
  have step: "exchange_step example_env empty_identity s1"
    using exchange_call.bff_call [of example_env "example_draw (seconds 1000)" empty_identity example_command "seconds 1000"] run(1)
    by (auto simp: exchange_step_def)
  have "verify_token example_codec example_verifier \<lparr>vt_token = xr_access_token response, vt_audience = it_audience example_request,
      vt_required_scopes = {ADMIN_COMMAND}, vt_now = Aware (seconds 1010) 0\<rparr>
    = Inr (issued_claims (xe_issuer example_env) example_request 3 (trunc_seconds (seconds 1000)))"
    by (rule signed_token_verifies [OF example_codec_parses _ refl run(3)])
      (simp_all add: example_issued, simp_all add: example_request_def example_verifier_def example_codec_def example_env_def
        seconds_def TOKEN_SKEW_SECONDS_def trunc_seconds_def)
  then have verified: "verify_token example_codec example_verifier \<lparr>vt_token = xr_access_token response, vt_audience = ''https://api'',
      vt_required_scopes = {ADMIN_COMMAND}, vt_now = Aware (seconds 1010) 0\<rparr> = Inr example_claims"
    by (simp add: example_issued) (simp add: example_request_def)
  have "authorize_principal \<lparr>pa_principal_id = ''bff:web'', pa_credential_version = ''v1'', pa_checked_at = seconds 1010\<rparr> (xs_db s1) = Inr True"
    by (simp add: authorize_principal_def authorizing_rows_def run(4,5) principal_live_def credential_current_def
        credential_live_def seconds_def)
  then have auth: "authorize_scope example_codec example_verifier ''https://api'' (xr_access_token response) ADMIN_COMMAND (seconds 1010) (xs_db s1)
      = Inr (''bff:web'', {ADMIN_COMMAND})"
    unfolding authorize_scope_def verified by (simp add: example_claims_def)
  have "unforgeable example_codec example_verifier (set (xs_signed s1))"
    unfolding unforgeable_def run(2) using example_claims_valid
    by (auto simp: example_verifier_def example_codec_def split: if_splits)
  then have "\<exists>c \<in> set (xs_signed s1). \<exists>p \<in> set (idb_principals (xs_db s1)). minted_within_policy c
      \<and> ADMIN_COMMAND \<in> {ADMIN_COMMAND} \<and> {ADMIN_COMMAND} = set (ac_scopes c) \<and> ''bff:web'' = ac_subject c
      \<and> ac_issued_at c - TOKEN_SKEW_SECONDS \<le> trunc_seconds (seconds 1010)
      \<and> trunc_seconds (seconds 1010) \<le> ac_expires_at c + TOKEN_SKEW_SECONDS \<and> sp_subject p = ''bff:web'' \<and> principal_live p"
    using accepted_tokens_within_authority [of empty_identity example_env s1 example_verifier "''https://api''" "xr_access_token response"
        ADMIN_COMMAND "seconds 1010" "xs_db s1" "''bff:web''" "{ADMIN_COMMAND}"] step example_deployed example_codec_parses auth
    by (simp add: example_env_def empty_identity_def r_into_rtranclp)
  then show ?thesis using auth by metis
qed

text \<open>A GitHub token that expires at second 1600.\<close>

definition example_github_claims :: github_claims where
  "example_github_claims = \<lparr>gc_issuer = GITHUB_OIDC_ISSUER, gc_audience = GITHUB_OIDC_AUDIENCE,
        gc_repository = ''owner/monitor'', gc_workflow_ref = ''w/collect.yml@main'', gc_git_ref = ''main'',
        gc_environment = Some ''production'', gc_run_id = ''12'', gc_run_attempt = ''1'', gc_jwt_id = ''j'',
        gc_issued_at = 1000, gc_not_before = 1000, gc_expires_at = 1600\<rparr>"

lemma example_verified_oidc: "xe_verify_oidc example_env t = Inr example_github_claims"
  by (simp add: example_env_def example_github_claims_def)

lemma example_github_valid:
  assumes "970 \<le> n" and "n \<le> 1630"
  shows "\<exists>a. validate_verified_claims (xe_github_policy example_env) example_github_claims (seconds n) = Inr a
    \<and> ga_kind a = Kind_GITHUB_COLLECTOR \<and> ga_replay_key a = github_replay_key example_github_claims
    \<and> ga_retain_until a = seconds 1600 \<and> ga_scopes a = COLLECTOR_SCOPES"
  using assms
  by (simp add: validate_verified_claims_def github_rule_def example_env_def example_github_claims_def github_time_valid_def
      isdecimal_def digit_value_def TOKEN_SKEW_SECONDS_def MIN_TIMESTAMP_def MAX_TIMESTAMP_def COLLECTOR_SCOPES_def)

lemma sorted_scopes_Nil: "sorted_scopes COLLECTOR_SCOPES \<noteq> []"
  by (simp add: sorted_scopes_nonempty COLLECTOR_SCOPES_def)

lemma example_mints:
  assumes "scopes \<noteq> {}" and "0 < n"
  shows "\<exists>response s'. mint example_env p scopes (seconds t) n 3 s = (Inr response, s')"
proof -
  have "sorted_scopes scopes \<noteq> []" using assms(1) by (simp add: sorted_scopes_nonempty)
  then show ?thesis using assms uuid_str_nonempty [of 3]
    by (simp add: mint_def issue_token_def Let_def timestamp_of_def valid_claims_def issued_claims_def valid_header_def)
      (simp add: example_env_def seconds_def)
qed

lemma example_github_exchange:
  "\<exists>response s1. exchange_github example_env (example_draw (seconds 1200)) ''t'' (seconds 1200) empty_identity = (Inr response, s1)"
proof -
  obtain a where a: "validate_verified_claims (xe_github_policy example_env) example_github_claims (seconds 1200) = Inr a"
    "ga_kind a = Kind_GITHUB_COLLECTOR" "ga_replay_key a = github_replay_key example_github_claims" "ga_retain_until a = seconds 1600"
    "ga_scopes a = COLLECTOR_SCOPES" using example_github_valid [of 1200] by auto
  have auth: "\<exists>db. authorize_github (xe_github_policy example_env) (xd_time (example_draw (seconds 1200))) example_github_claims
      (seconds 1200) (xs_db empty_identity) = (Inr a, db) \<and> idb_principals db = [] \<and> idb_credentials db = []"
    by (simp add: authorize_github_def a consume_once_def nonce_purpose_of_def Let_def example_draw_def empty_identity_def)
      (simp add: seconds_def)
  then obtain db where db: "authorize_github (xe_github_policy example_env) (xd_time (example_draw (seconds 1200))) example_github_claims
      (seconds 1200) (xs_db empty_identity) = (Inr a, db)" "idb_principals db = []" "idb_credentials db = []" by blast
  let ?p = "\<lparr>pr_id = ga_principal_id a, pr_kind = ga_kind a, pr_credential_version = xe_github_credential_version example_env\<rparr>"
  have "\<exists>db2. register_principal (1, 2) \<lparr>gp_principal_id = ga_principal_id a, gp_kind = ga_kind a,
      gp_credential_version = xe_github_credential_version example_env, gp_valid_from = seconds 1200,
      gp_valid_until = seconds 1200 + seconds 600\<rparr> db = (Inr True, db2)"
    by (simp add: register_principal_def register_credential_def a db seconds_def)
  then obtain db2 where db2: "register_principal (1, 2) \<lparr>gp_principal_id = ga_principal_id a, gp_kind = ga_kind a,
      gp_credential_version = xe_github_credential_version example_env, gp_valid_from = seconds 1200,
      gp_valid_until = seconds 1200 + seconds 600\<rparr> db = (Inr True, db2)" by blast
  have ids: "xd_ids (example_draw (seconds 1200)) = (1, 2)" "xd_jti (example_draw (seconds 1200)) = 3" by (simp_all add: example_draw_def)
  obtain response s' where "mint example_env ?p (ga_scopes a) (seconds 1200) 600 3 (empty_identity\<lparr>xs_db := db2\<rparr>) = (Inr response, s')"
    using example_mints [of "ga_scopes a" 600 ?p 1200 "empty_identity\<lparr>xs_db := db2\<rparr>"] a(5) by (auto simp: COLLECTOR_SCOPES_def)
  then show ?thesis using db(1) db2
    by (simp add: exchange_github_def example_verified_oidc register_and_mint_def GITHUB_TOKEN_TTL_SECONDS_def ids)
qed

theorem oidc_token_exchanged_once_witness:
  "\<exists>s e. fst (exchange_github example_env (example_draw (seconds 1500)) ''t'' (seconds 1500) s) = Inl e"
proof -
  obtain response s1 where "exchange_github example_env (example_draw (seconds 1200)) ''t'' (seconds 1200) empty_identity = (Inr response, s1)"
    using example_github_exchange by blast
  from oidc_token_exchanged_once [OF example_verified_oidc this rtranclp.rtrancl_refl, of "example_draw (seconds 1500)" "seconds 1500"]
  obtain e where "fst (exchange_github example_env (example_draw (seconds 1500)) ''t'' (seconds 1500) s1) = Inl e"
    by (auto simp: example_draw_def example_github_claims_def seconds_def)
  then show ?thesis by blast
qed

theorem oidc_skew_unusable_witness:
  "exchange_github example_env (example_draw (seconds 1610)) ''t'' (seconds 1610) empty_identity = (Inl Integrity_Failure, empty_identity)"
proof -
  obtain a where "validate_verified_claims (xe_github_policy example_env) example_github_claims (seconds 1610) = Inr a"
    using example_github_valid [of 1610] by auto
  from oidc_skew_unusable [OF example_verified_oidc this] show ?thesis
    by (simp add: example_draw_def example_github_claims_def seconds_def)
qed

text \<open>A signed worker request, and the rows that approve it.\<close>

definition example_worker_request :: worker_bootstrap_request where
  "example_worker_request =
     (let r = \<lparr>wb_worker_id = ''w1'', wb_capability_proof_id = ''p'', wb_timestamp = Aware (seconds 1000) 0, wb_nonce = ''n'',
            wb_credential_version = ''v1'', wb_signature = []\<rparr>
      in r\<lparr>wb_signature := hexdigest (hmac_sha256 ''secret'' (worker_signing_payload r 1000))\<rparr>)"

definition example_worker_state :: exchange_state where
  "example_worker_state = \<lparr>xs_db = \<lparr>idb_nonces = [], idb_rates = [],
     idb_principals = [\<lparr>sp_id = 1, sp_kind = Principal_WINDOWS_WORKER, sp_subject = ''worker:w1'', sp_active = True, sp_revoked_at = None\<rparr>],
     idb_credentials = [\<lparr>cv_id = 2, cv_principal_id = 1, cv_version = ''v1'', cv_active = True, cv_valid_from = 0,
        cv_valid_until = seconds 9000, cv_revoked_at = None\<rparr>],
     idb_proofs = [\<lparr>wp_id = 7, wp_principal_id = Some 1, wp_kind = Capability_AUTOMATION_TERMS, wp_status = Worker_Proof_APPROVED,
        wp_effective_at = Some 0, wp_expires_at = Some (seconds 9000), wp_revoked_at = None\<rparr>]\<rparr>, xs_signed = []\<rparr>"

lemma example_worker_exchange:
  "\<exists>response s1. exchange_worker example_env (example_draw (seconds 1010)) example_worker_request (seconds 1010) example_worker_state
     = (Inr response, s1)"
proof -
  let ?a = "\<lparr>sa_principal_id = ''worker:w1'', sa_kind = Kind_WINDOWS_WORKER, sa_credential_version = ''v1'', sa_scopes = worker_scopes\<rparr>"
  have payload: "worker_signing_payload example_worker_request 1000 = worker_signing_payload (example_worker_request\<lparr>wb_signature := []\<rparr>) 1000"
    by (simp add: worker_signing_payload_def)
  have verified: "verify_worker (xe_worker_secrets example_env) example_worker_request (seconds 1010) = Inr ?a"
    by (simp add: verify_worker_def example_worker_request_def Let_def worker_signing_payload_def example_env_def)
      (simp add: worker_stale_def seconds_def WORKER_REQUEST_MAX_AGE_SECONDS_def TOKEN_SKEW_SECONDS_def trunc_seconds_def)
  have approved: "authorize_worker (xe_parse_uuid example_env) \<lparr>wa_worker_id = ''w1'', wa_capability_proof_id = ''p'',
      wa_credential_version = ''v1'', wa_checked_at = seconds 1010\<rparr> (xs_db example_worker_state) = Inr True"
    by (simp add: authorize_worker_def approving_rows_def example_env_def example_worker_state_def principal_live_def
        credential_current_def credential_live_def seconds_def)
  have nonce: "\<exists>nonces. consume_once (xd_time (example_draw (seconds 1010))) ''worker-bootstrap'' ''n'' (seconds 1010 + minutes 10) []
      = (Inr True, nonces)"
    by (simp add: consume_once_def nonce_purpose_of_def Let_def example_draw_def minutes_def)
  have request: "wb_worker_id example_worker_request = ''w1''" "wb_capability_proof_id example_worker_request = ''p''"
    "wb_credential_version example_worker_request = ''v1''" "wb_nonce example_worker_request = ''n''"
    by (simp_all add: example_worker_request_def Let_def)
  have "\<exists>db. authorize_worker_exchange (xe_worker_secrets example_env) (xe_parse_uuid example_env) (xd_time (example_draw (seconds 1010)))
      example_worker_request (seconds 1010) (xs_db example_worker_state) = (Inr ?a, db)"
    using nonce approved by (auto simp: authorize_worker_exchange_def verified request) (simp add: example_worker_state_def)
  then obtain db where db: "authorize_worker_exchange (xe_worker_secrets example_env) (xe_parse_uuid example_env)
      (xd_time (example_draw (seconds 1010))) example_worker_request (seconds 1010) (xs_db example_worker_state) = (Inr ?a, db)" by blast
  then show ?thesis
    using example_mints [of worker_scopes 600 "\<lparr>pr_id = ''worker:w1'', pr_kind = Kind_WINDOWS_WORKER, pr_credential_version = ''v1''\<rparr>"
        1010 "example_worker_state\<lparr>xs_db := db\<rparr>"]
    by (simp add: exchange_worker_def WORKER_TOKEN_TTL_SECONDS_def example_draw_def worker_scopes_def)
qed

theorem worker_request_exchanged_once_witness:
  "\<exists>s e. fst (exchange_worker example_env (example_draw (seconds 1100)) example_worker_request (seconds 1100) s) = Inl e"
proof -
  obtain response s1 where "exchange_worker example_env (example_draw (seconds 1010)) example_worker_request (seconds 1010) example_worker_state
     = (Inr response, s1)" using example_worker_exchange by blast
  from worker_request_exchanged_once [OF this rtranclp.rtrancl_refl, of "example_draw (seconds 1100)" "seconds 1100"]
  obtain e where "fst (exchange_worker example_env (example_draw (seconds 1100)) example_worker_request (seconds 1100) s1) = Inl e"
    by (auto simp: example_draw_def seconds_def)
  then show ?thesis by blast
qed

end
