(* ===== verification/Admin_Sessions.thy ===== *)
theory Admin_Sessions
  imports Identity_Exchange
begin

text \<open>
  Administrator sessions (\<open>services/identity/sessions.py\<close>, \<open>sql_admin_sessions.py\<close>), the login
  (\<open>admin.py\<close>) and the handlers in front of them (\<open>admin_handlers.py\<close>, the headers of \<open>api/routes/auth.py\<close> and
  \<open>api/routes/commands.py\<close>).

  The random token, session id and principal id are arguments, as are the check of a bracketed host by
  \<open>ipaddress\<close> and Argon2's verification. A handler reads the clock once. A session row keeps the columns that the
  statements read.
\<close>

section \<open>Sessions\<close>

definition SESSION_LIFETIME :: duration where "SESSION_LIFETIME = hours 8"
definition SESSION_ROTATION_AGE :: duration where "SESSION_ROTATION_AGE = hours 4"
definition CSRF_BUCKET_SECONDS :: int where "CSRF_BUCKET_SECONDS = 900"

datatype session_state = Session_ACTIVE | Session_REVOKED

record admin_session_record =
  as_id :: string
  as_token_digest :: string
  as_csrf_seed :: string
  as_credential_version :: string
  as_issued_at :: instant
  as_rotate_at :: instant
  as_expires_at :: instant
  as_state :: session_state

definition hash_session_token :: "string \<Rightarrow> string" where
  "hash_session_token token = sha256 token"

definition evaluate_session :: "admin_session_record \<Rightarrow> string \<Rightarrow> instant \<Rightarrow> string set \<Rightarrow> identity_fault + bool" where
  "evaluate_session r token now active_versions =
     (if as_token_digest r \<noteq> hash_session_token token then Inl (refuse INVALID_CREDENTIAL)
      else case as_state r of
        Session_REVOKED \<Rightarrow> Inl (refuse SESSION_REVOKED)
      | Session_ACTIVE \<Rightarrow>
          if as_credential_version r \<notin> active_versions then Inl (refuse SESSION_REVOKED)
          else if as_expires_at r \<le> now then Inl (refuse SESSION_EXPIRED)
          else Inr (as_rotate_at r \<le> now))"

section \<open>Request origins\<close>

text \<open>The scheme and network location of \<open>urllib.parse.urlsplit\<close>.\<close>

definition ascii_letter :: "char \<Rightarrow> bool" where
  "ascii_letter c \<longleftrightarrow> (let n = byte_value c in (65 \<le> n \<and> n \<le> 90) \<or> (97 \<le> n \<and> n \<le> 122))"

definition ascii_lower :: "char \<Rightarrow> char" where
  "ascii_lower c = (if 65 \<le> byte_value c \<and> byte_value c \<le> 90 then char_of (byte_value c + 32) else c)"

definition scheme_char :: "char \<Rightarrow> bool" where
  "scheme_char c \<longleftrightarrow> ascii_letter c \<or> digit_value c \<noteq> None \<or> c \<in> {CHR ''+'', CHR ''-'', CHR ''.''}"

definition split_scheme :: "string \<Rightarrow> string \<times> string" where
  "split_scheme url =
     (case split_once (CHR '':'') url of
        Some (c # cs, rest) \<Rightarrow>
          if ascii_letter c \<and> list_all scheme_char (c # cs) then (map ascii_lower (c # cs), rest) else ([], url)
      | _ \<Rightarrow> ([], url))"

text \<open>A bracketed host is checked by \<open>_check_bracketed_netloc\<close>.\<close>

definition url_netloc :: "(string \<Rightarrow> bool) \<Rightarrow> string \<Rightarrow> string option" where
  "url_netloc bracketed_ok rest =
     (if take 2 rest \<noteq> ''//'' then Some []
      else let netloc = takeWhile (\<lambda>c. c \<notin> {CHR ''/'', CHR ''?'', CHR ''#''}) (drop 2 rest);
               opens = CHR ''['' \<in> set netloc; closes = CHR '']'' \<in> set netloc
           in if opens \<noteq> closes \<or> opens \<and> \<not> bracketed_ok netloc then None else Some netloc)"

definition url_origin :: "(string \<Rightarrow> bool) \<Rightarrow> string \<Rightarrow> string option" where
  "url_origin bracketed_ok url =
     (let clean = filter (\<lambda>c. byte_value c \<notin> {9, 10, 13}) (dropWhile (\<lambda>c. byte_value c \<le> 32) url);
          (scheme, rest) = split_scheme clean
      in map_option (\<lambda>netloc. scheme @ ''://'' @ netloc) (url_netloc bracketed_ok rest))"

definition origin_is_allowed :: "(string \<Rightarrow> bool) \<Rightarrow> string set \<Rightarrow> string option \<Rightarrow> string option \<Rightarrow> identity_fault + bool" where
  "origin_is_allowed bracketed_ok allowed origin referer =
     (case origin of Some text \<Rightarrow> Inr (text \<in> allowed)
      | None \<Rightarrow> (case referer of None \<Rightarrow> Inr False
          | Some url \<Rightarrow> (case url_origin bracketed_ok url of None \<Rightarrow> Inl Value_Failure | Some text \<Rightarrow> Inr (text \<in> allowed))))"

section \<open>CSRF tokens\<close>

definition csrf_bucket :: "instant \<Rightarrow> int" where
  "csrf_bucket now = trunc_seconds now div CSRF_BUCKET_SECONDS"

definition csrf_signature :: "string \<Rightarrow> admin_session_record \<Rightarrow> int \<Rightarrow> string" where
  "csrf_signature secret r bucket =
     hmac_sha256 secret (join_with ''\<newline>'' [''admin-csrf-v1'', as_id r, show_int bucket, as_csrf_seed r])"

definition issue_csrf :: "string \<Rightarrow> admin_session_record \<Rightarrow> instant \<Rightarrow> string" where
  "issue_csrf secret r now =
     (let bucket = csrf_bucket now in show_int bucket @ ''.'' @ b64url_encode (csrf_signature secret r bucket))"

definition verify_csrf ::
    "(string \<Rightarrow> bool) \<Rightarrow> string \<Rightarrow> string set \<Rightarrow> admin_session_record \<Rightarrow> string \<Rightarrow> string option \<Rightarrow> string option \<Rightarrow> instant
      \<Rightarrow> identity_fault + unit" where
  "verify_csrf bracketed_ok secret allowed r token origin referer now =
     (case origin_is_allowed bracketed_ok allowed origin referer of Inl e \<Rightarrow> Inl e
      | Inr ok \<Rightarrow>
          if \<not> ok then Inl (refuse CSRF_REJECTED)
          else case split_once (CHR ''.'') token of None \<Rightarrow> Inl (refuse CSRF_REJECTED)
          | Some (raw_bucket, encoded) \<Rightarrow>
              (case (py_int raw_bucket, b64url_decode encoded) of
                 (Some bucket, Some supplied) \<Rightarrow>
                   if bucket \<notin> {csrf_bucket now, csrf_bucket now - 1} \<or> csrf_signature secret r bucket \<noteq> supplied
                   then Inl (refuse CSRF_REJECTED) else Inr ()
               | _ \<Rightarrow> Inl (refuse CSRF_REJECTED)))"

section \<open>The session store\<close>

record session_row =
  ar_id :: uuid
  ar_token_hash :: string
  ar_expires_at :: instant
  ar_rotated_at :: "instant option"
  ar_revoked_at :: "instant option"
  ar_created_at :: instant

record admin_db =
  ad_identity :: identity_db
  ad_sessions :: "session_row list"

record session_store =
  ss_secret :: string
  ss_version :: string
  ss_allowed_origins :: "string set"
  ss_bracketed_ok :: "string \<Rightarrow> bool"

record session_draw =
  sd_token :: string
  sd_session_id :: uuid
  sd_principal_id :: uuid

type_synonym 'a admin_action = "(admin_db, identity_fault, 'a) action"

definition csrf_seed :: "session_store \<Rightarrow> uuid \<Rightarrow> string \<Rightarrow> string" where
  "csrf_seed store session_id digest =
     hmac_sha256 (ss_secret store)
       (''admin-csrf-seed-v1'' @ [char_of (0 :: nat)] @ the (fromhex (uuid_hex session_id)) @ digest)"

definition record_of_row :: "session_store \<Rightarrow> session_row \<Rightarrow> admin_session_record" where
  "record_of_row store row =
     \<lparr>as_id = uuid_str (ar_id row), as_token_digest = ar_token_hash row,
      as_csrf_seed = csrf_seed store (ar_id row) (ar_token_hash row), as_credential_version = ss_version store,
      as_issued_at = ar_created_at row, as_rotate_at = ar_created_at row + SESSION_ROTATION_AGE,
      as_expires_at = ar_expires_at row,
      as_state = (if ar_revoked_at row \<noteq> None then Session_REVOKED else Session_ACTIVE)\<rparr>"

text \<open>The principal of the single administrator, inserted unless a row of its kind and subject exists.\<close>

definition admin_principal :: "uuid \<Rightarrow> uuid admin_action" where
  "admin_principal new_id db =
     (let principals = idb_principals (ad_identity db);
          rows = (if \<exists>p \<in> set principals. sp_kind p = Principal_ADMIN \<and> sp_subject p = ''single-admin'' then principals
            else principals @ [\<lparr>sp_id = new_id, sp_kind = Principal_ADMIN, sp_subject = ''single-admin'', sp_active = True,
              sp_revoked_at = None\<rparr>])
      in case List.find (\<lambda>p. sp_kind p = Principal_ADMIN \<and> sp_subject p = ''single-admin'' \<and> principal_live p) rows of
           None \<Rightarrow> Inl (refuse SERVICE_UNAVAILABLE)
         | Some p \<Rightarrow> Inr (sp_id p, db\<lparr>ad_identity := (ad_identity db)\<lparr>idb_principals := rows\<rparr>\<rparr>))"

definition new_session_row :: "session_draw \<Rightarrow> instant \<Rightarrow> session_row" where
  "new_session_row draw now =
     \<lparr>ar_id = sd_session_id draw, ar_token_hash = hash_session_token (sd_token draw), ar_expires_at = now + SESSION_LIFETIME,
      ar_rotated_at = None, ar_revoked_at = None, ar_created_at = now\<rparr>"

text \<open>\<open>_create_in_session\<close>: the digest of the token is unique, and so is the id.\<close>

definition create_session :: "session_store \<Rightarrow> instant \<Rightarrow> session_draw \<Rightarrow> (string \<times> admin_session_record) admin_action" where
  "create_session store now draw db =
     (case admin_principal (sd_principal_id draw) db of Inl e \<Rightarrow> Inl e
      | Inr (_, db') \<Rightarrow>
          let row = new_session_row draw now
          in if ar_id row \<in> ar_id ` set (ad_sessions db) \<or> ar_token_hash row \<in> ar_token_hash ` set (ad_sessions db)
             then Inl Integrity_Failure
             else Inr ((sd_token draw, record_of_row store row), db'\<lparr>ad_sessions := ad_sessions db @ [row]\<rparr>))"

definition locked_session :: "string \<Rightarrow> session_row admin_action" where
  "locked_session digest db =
     (case row_of ar_token_hash digest (ad_sessions db) of None \<Rightarrow> Inl (refuse INVALID_CREDENTIAL) | Some row \<Rightarrow> Inr (row, db))"

definition evaluate_row :: "session_store \<Rightarrow> string \<Rightarrow> instant \<Rightarrow> session_row \<Rightarrow> identity_fault + bool" where
  "evaluate_row store token now row = evaluate_session (record_of_row store row) token now {ss_version store}"

definition retire_row :: "instant \<Rightarrow> bool \<Rightarrow> session_row \<Rightarrow> session_row" where
  "retire_row now rotated row =
     row\<lparr>ar_revoked_at := Some now, ar_rotated_at := if rotated then Some now else ar_rotated_at row\<rparr>"

definition access_session ::
    "session_store \<Rightarrow> string \<Rightarrow> instant \<Rightarrow> bool \<Rightarrow> session_draw \<Rightarrow> (admin_session_record \<times> string option) admin_action" where
  "access_session store token now may_rotate draw =
     and_then (locked_session (hash_session_token token)) (\<lambda>row.
     and_then (attempt (evaluate_row store token now row)) (\<lambda>due.
       if \<not> due \<or> \<not> may_rotate then give (record_of_row store row, None)
       else and_then (create_session store now draw) (\<lambda>(replacement, r).
            and_then (change (\<lambda>db. db\<lparr>ad_sessions := put_row ar_id (retire_row now True row) (ad_sessions db)\<rparr>))
              (\<lambda>_. give (r, Some replacement)))))"

definition check_session_csrf ::
    "session_store \<Rightarrow> string \<Rightarrow> string \<Rightarrow> string option \<Rightarrow> string option \<Rightarrow> instant \<Rightarrow> session_row admin_action" where
  "check_session_csrf store token csrf origin referer now =
     and_then (locked_session (hash_session_token token)) (\<lambda>row.
     and_then (attempt (evaluate_row store token now row)) (\<lambda>_.
     and_then (attempt (verify_csrf (ss_bracketed_ok store) (ss_secret store) (ss_allowed_origins store)
        (record_of_row store row) csrf origin referer now)) (\<lambda>_. give row)))"

definition verify_session_csrf ::
    "session_store \<Rightarrow> string \<Rightarrow> string \<Rightarrow> string option \<Rightarrow> string option \<Rightarrow> instant \<Rightarrow> admin_session_record admin_action" where
  "verify_session_csrf store token csrf origin referer now =
     and_then (check_session_csrf store token csrf origin referer now) (\<lambda>row. give (record_of_row store row))"

definition revoke_session ::
    "session_store \<Rightarrow> string \<Rightarrow> string \<Rightarrow> string option \<Rightarrow> string option \<Rightarrow> instant \<Rightarrow> unit admin_action" where
  "revoke_session store token csrf origin referer now =
     and_then (check_session_csrf store token csrf origin referer now)
       (\<lambda>row. change (\<lambda>db. db\<lparr>ad_sessions := put_row ar_id (retire_row now False row) (ad_sessions db)\<rparr>))"

section \<open>Handlers\<close>

record admin_handlers =
  ah_authorize :: "string \<Rightarrow> scope \<Rightarrow> instant \<Rightarrow> identity_db \<Rightarrow> identity_fault + string \<times> scope set"
  ah_verify_password :: "string \<Rightarrow> bool"
  ah_secret :: string
  ah_store :: session_store

record session_response =
  sr_session_token :: "string option"
  sr_expires_at :: instant
  sr_csrf_token :: string
  sr_rotated :: bool

abbreviation rate_limited :: identity_fault where
  "rate_limited \<equiv> Identity_Error RATE_LIMITED (Some LOGIN_FAILURE_WINDOW_SECONDS)"

abbreviation login_rows :: "admin_db \<Rightarrow> rate_row list" where
  "login_rows db \<equiv> idb_rates (ad_identity db)"

abbreviation set_login_rows :: "rate_row list \<Rightarrow> admin_db \<Rightarrow> admin_db" where
  "set_login_rows rows db \<equiv> db\<lparr>ad_identity := (ad_identity db)\<lparr>idb_rates := rows\<rparr>\<rparr>"

text \<open>A login checks the limit in one transaction and records its result in others. \<open>login_settle\<close> is what follows
  the check, so that logins can be interleaved between the two.\<close>

definition login_settle ::
    "admin_handlers \<Rightarrow> string \<Rightarrow> string \<Rightarrow> instant \<Rightarrow> session_draw \<Rightarrow> admin_db \<Rightarrow> (identity_fault + session_response) \<times> admin_db" where
  "login_settle h password client_ip now draw db =
     (if \<not> ah_verify_password h password then
        (case record_login_failure (ah_secret h) client_ip now (login_rows db) of (still_allowed, rows) \<Rightarrow>
           (Inl (if still_allowed then refuse INVALID_CREDENTIAL else rate_limited), set_login_rows rows db))
      else let db1 = set_login_rows (clear_login_failures (ah_secret h) client_ip (login_rows db)) db
           in case create_session (ah_store h) now draw db1 of
                Inl e \<Rightarrow> (Inl e, db1)
              | Inr ((token, r), db2) \<Rightarrow>
                  (Inr \<lparr>sr_session_token = Some token, sr_expires_at = as_expires_at r,
                     sr_csrf_token = issue_csrf (ss_secret (ah_store h)) r now, sr_rotated = False\<rparr>, db2))"

definition handle_login ::
    "admin_handlers \<Rightarrow> string \<Rightarrow> string \<Rightarrow> string \<Rightarrow> instant \<Rightarrow> session_draw \<Rightarrow> admin_db \<Rightarrow> (identity_fault + session_response) \<times> admin_db" where
  "handle_login h bff_token password client_ip now draw db =
     (case ah_authorize h bff_token BFF_AUTH now (ad_identity db) of Inl e \<Rightarrow> (Inl e, db)
      | Inr _ \<Rightarrow>
          if \<not> login_is_allowed (ah_secret h) client_ip now (login_rows db) then (Inl rate_limited, db)
          else login_settle h password client_ip now draw db)"

definition committed :: "'a admin_action \<Rightarrow> admin_db \<Rightarrow> (identity_fault + 'a) \<times> admin_db" where
  "committed m db = (case m db of Inl e \<Rightarrow> (Inl e, db) | Inr (x, db') \<Rightarrow> (Inr x, db'))"

definition handle_session ::
    "admin_handlers \<Rightarrow> string \<Rightarrow> string \<Rightarrow> instant \<Rightarrow> session_draw \<Rightarrow> admin_db \<Rightarrow> (identity_fault + session_response) \<times> admin_db" where
  "handle_session h bff_token token now draw db =
     (case ah_authorize h bff_token BFF_AUTH now (ad_identity db) of Inl e \<Rightarrow> (Inl e, db)
      | Inr _ \<Rightarrow>
          (case committed (access_session (ah_store h) token now True draw) db of
             (Inl e, db') \<Rightarrow> (Inl e, db')
           | (Inr (r, replacement), db') \<Rightarrow>
               (Inr \<lparr>sr_session_token = replacement, sr_expires_at = as_expires_at r,
                  sr_csrf_token = issue_csrf (ss_secret (ah_store h)) r now, sr_rotated = (replacement \<noteq> None)\<rparr>, db')))"

definition handle_logout ::
    "admin_handlers \<Rightarrow> string \<Rightarrow> string \<Rightarrow> string \<Rightarrow> string option \<Rightarrow> string option \<Rightarrow> instant \<Rightarrow> admin_db
      \<Rightarrow> (identity_fault + unit) \<times> admin_db" where
  "handle_logout h bff_token token csrf origin referer now db =
     (case ah_authorize h bff_token BFF_AUTH now (ad_identity db) of Inl e \<Rightarrow> (Inl e, db)
      | Inr _ \<Rightarrow> committed (revoke_session (ah_store h) token csrf origin referer now) db)"

text \<open>The authorization of an administrator command, with the headers its route requires.\<close>

definition authorize_admin_command ::
    "admin_handlers \<Rightarrow> string option \<Rightarrow> string option \<Rightarrow> string option \<Rightarrow> string option \<Rightarrow> string option \<Rightarrow> instant \<Rightarrow> admin_db
      \<Rightarrow> identity_fault + unit" where
  "authorize_admin_command h authorization session_token csrf_token origin referer now db =
     (case (session_token, csrf_token) of
        (Some token, Some csrf) \<Rightarrow>
          (case bearer_token authorization of Inl e \<Rightarrow> Inl e
           | Inr bff_token \<Rightarrow>
               (case ah_authorize h bff_token ADMIN_COMMAND now (ad_identity db) of Inl e \<Rightarrow> Inl e
                | Inr _ \<Rightarrow> map_sum id (\<lambda>_. ()) (verify_session_csrf (ah_store h) token csrf origin referer now db)))
      | _ \<Rightarrow> Inl (refuse INVALID_TOKEN))"

end
