(* ===== verification/Admin_Security.thy ===== *)
theory Admin_Security
  imports Admin_Sessions
begin

text \<open>
  What protects the administrator: the life of a CSRF token, the end of a session, the limit on failed logins, and
  two gaps: a session does not notice the rotation of the credential version, and the login limit does not bound
  attempts that run concurrently.
\<close>

section \<open>CSRF tokens\<close>

lemma csrf_token_parts:
  "split_once (CHR ''.'') (issue_csrf secret r t) = Some (show_int (csrf_bucket t), b64url_encode (csrf_signature secret r (csrf_bucket t)))"
proof -
  have "\<forall>c \<in> set (show_int (csrf_bucket t)). c \<noteq> CHR ''.''" using show_int_chars by blast
  then show ?thesis using split_once_append by (simp add: issue_csrf_def Let_def)
qed

lemma csrf_bucket_near:
  assumes "0 \<le> t" and "t \<le> u"
  shows "u - t \<le> seconds CSRF_BUCKET_SECONDS \<Longrightarrow> csrf_bucket u \<in> {csrf_bucket t, csrf_bucket t + 1}"
    and "csrf_bucket u \<in> {csrf_bucket t, csrf_bucket t + 1} \<Longrightarrow> u - t < seconds (2 * CSRF_BUCKET_SECONDS)"
proof -
  have eq: "csrf_bucket x = x div 900000000" if "0 \<le> x" for x
    using that zdiv_zmult2_eq [of 900 x 1000000] by (simp add: csrf_bucket_def trunc_seconds_def CSRF_BUCKET_SECONDS_def)
  have u: "0 \<le> u" using assms by simp
  let ?b = "900000000 :: int"
  have div: "t = ?b * (t div ?b) + t mod ?b" "0 \<le> t mod ?b" "t mod ?b < ?b"
    "u = ?b * (u div ?b) + u mod ?b" "0 \<le> u mod ?b" "u mod ?b < ?b" by simp_all
  have le: "t div ?b \<le> u div ?b" using assms(2) by (rule zdiv_mono1) simp
  show "csrf_bucket u \<in> {csrf_bucket t, csrf_bucket t + 1}" if "u - t \<le> seconds CSRF_BUCKET_SECONDS"
  proof -
    have "u - t \<le> ?b" using that by (simp add: seconds_def CSRF_BUCKET_SECONDS_def)
    then have "u div ?b < t div ?b + 2" using div by linarith
    then show ?thesis using le by (auto simp: eq assms(1) u)
  qed
  show "u - t < seconds (2 * CSRF_BUCKET_SECONDS)" if "csrf_bucket u \<in> {csrf_bucket t, csrf_bucket t + 1}"
  proof -
    have "u div ?b \<le> t div ?b + 1" using that by (auto simp: eq assms(1) u)
    then have "u - t < 2 * ?b" using div by linarith
    then show ?thesis by (simp add: seconds_def CSRF_BUCKET_SECONDS_def)
  qed
qed

lemma verify_issued_csrf:
  assumes "origin_is_allowed bk allowed origin referer = Inr True"
  shows "verify_csrf bk secret allowed r (issue_csrf secret r t) origin referer u
    = (if csrf_bucket u \<in> {csrf_bucket t, csrf_bucket t + 1} then Inr () else Inl (refuse CSRF_REJECTED))"
  using assms by (auto simp: verify_csrf_def csrf_token_parts)

text \<open>(C25) Life.\<close>

theorem csrf_token_life:
  assumes "origin_is_allowed bk allowed origin referer = Inr True" and "0 \<le> t" and "t \<le> u"
  shows "(u - t \<le> minutes 15 \<longrightarrow> verify_csrf bk secret allowed r (issue_csrf secret r t) origin referer u = Inr ())
    \<and> (minutes 30 \<le> u - t \<longrightarrow> verify_csrf bk secret allowed r (issue_csrf secret r t) origin referer u = Inl (refuse CSRF_REJECTED))"
  using csrf_bucket_near [OF assms(2,3)]
  by (auto simp: verify_issued_csrf [OF assms(1)] duration_defs CSRF_BUCKET_SECONDS_def)

section \<open>The end of a session\<close>

text \<open>One call of a handler, or the second half of a login.\<close>

inductive admin_step :: "admin_handlers \<Rightarrow> admin_db \<Rightarrow> admin_db \<Rightarrow> bool" for h where
  login: "admin_step h db (snd (handle_login h bff password ip now draw db))"
| settle: "admin_step h db (snd (login_settle h password ip now draw db))"
| session: "admin_step h db (snd (handle_session h bff token now draw db))"
| logout: "admin_step h db (snd (handle_logout h bff token csrf origin referer now db))"

definition sessions_wf :: "admin_db \<Rightarrow> bool" where
  "sessions_wf db \<longleftrightarrow> distinct (map ar_id (ad_sessions db)) \<and> distinct (map ar_token_hash (ad_sessions db))
     \<and> (\<forall>r \<in> set (ad_sessions db). ar_expires_at r = ar_created_at r + SESSION_LIFETIME)"

text \<open>Rows are never removed; a row keeps its identity and times, and a revoked row does not change.\<close>

definition session_continues :: "session_row \<Rightarrow> session_row \<Rightarrow> bool" where
  "session_continues r r' \<longleftrightarrow> ar_id r' = ar_id r \<and> ar_token_hash r' = ar_token_hash r \<and> ar_created_at r' = ar_created_at r
     \<and> ar_expires_at r' = ar_expires_at r \<and> (ar_revoked_at r \<noteq> None \<longrightarrow> r' = r)"

definition sessions_grow :: "admin_db \<Rightarrow> admin_db \<Rightarrow> bool" where
  "sessions_grow db db' \<longleftrightarrow> (sessions_wf db \<longrightarrow> sessions_wf db'
     \<and> (\<forall>r \<in> set (ad_sessions db). \<exists>r' \<in> set (ad_sessions db'). session_continues r r'))"

lemma session_continues_refl [simp]: "session_continues r r"
  by (simp add: session_continues_def)

lemma session_continues_trans: "session_continues r s \<Longrightarrow> session_continues s t \<Longrightarrow> session_continues r t"
  by (auto simp: session_continues_def)

lemma sessions_grow_same:
  assumes "ad_sessions db' = ad_sessions db"
  shows "sessions_grow db db'"
proof -
  have "\<exists>r' \<in> set (ad_sessions db'). session_continues r r'" if "r \<in> set (ad_sessions db)" for r
    using that assms by (intro bexI [of _ r]) simp_all
  then show ?thesis using assms by (simp add: sessions_grow_def sessions_wf_def)
qed

lemma sessions_grow_trans: "sessions_grow a b \<Longrightarrow> sessions_grow b c \<Longrightarrow> sessions_grow a c"
  unfolding sessions_grow_def using session_continues_trans by meson

lemma create_sessionD:
  assumes "create_session store now draw db = Inr ((token, r), db')"
  obtains row where "row = new_session_row draw now" "ad_sessions db' = ad_sessions db @ [row]" "token = sd_token draw"
    "r = record_of_row store row" "ar_id row \<notin> ar_id ` set (ad_sessions db)" "ar_token_hash row \<notin> ar_token_hash ` set (ad_sessions db)"
  using assms unfolding create_session_def Let_def by (auto split: sum.splits if_splits)

lemma create_session_grows:
  assumes "create_session store now draw db = Inr (x, db')"
  shows "sessions_grow db db'"
proof -
  obtain token r where x: "x = (token, r)" by (cases x)
  obtain row where row: "row = new_session_row draw now" "ad_sessions db' = ad_sessions db @ [row]"
    "ar_id row \<notin> ar_id ` set (ad_sessions db)" "ar_token_hash row \<notin> ar_token_hash ` set (ad_sessions db)"
    by (rule create_sessionD [OF assms [unfolded x]])
  have "ar_expires_at row = ar_created_at row + SESSION_LIFETIME" by (simp add: row(1) new_session_row_def)
  moreover have "\<exists>r' \<in> set (ad_sessions db'). session_continues r r'" if "r \<in> set (ad_sessions db)" for r
    using that row(2) by (intro bexI [of _ r]) simp_all
  ultimately show ?thesis using row(2-4) by (auto simp: sessions_grow_def sessions_wf_def)
qed

lemma retire_grows:
  assumes "row \<in> set (ad_sessions db)" and "ar_revoked_at row = None"
    and "ad_sessions db' = put_row ar_id (retire_row now b row) (ad_sessions db)"
  shows "sessions_grow db db'"
proof -
  let ?new = "retire_row now b row"
  have new: "ar_id ?new = ar_id row" "ar_token_hash ?new = ar_token_hash row" "session_continues row ?new"
    "ar_expires_at ?new = ar_expires_at row" "ar_created_at ?new = ar_created_at row"
    using assms(2) by (simp_all add: retire_row_def session_continues_def)
  show ?thesis
    unfolding sessions_grow_def
  proof (intro impI conjI ballI)
    assume wf: "sessions_wf db"
    then have d: "distinct (map ar_id (ad_sessions db))" by (simp add: sessions_wf_def)
    have put: "put_row ar_id ?new (ad_sessions db) = map (\<lambda>y. if ar_id y = ar_id row then ?new else y) (ad_sessions db)"
      using assms(1) by (auto simp: put_row_def new(1))
    have same: "y = row" if "y \<in> set (ad_sessions db)" "ar_id y = ar_id row" for y
      using d that assms(1) by (auto simp: distinct_map dest: inj_onD)
    then have "map ar_token_hash (put_row ar_id ?new (ad_sessions db)) = map ar_token_hash (ad_sessions db)"
      unfolding put by (auto simp: new(2))
    moreover have "distinct (map ar_id (put_row ar_id ?new (ad_sessions db)))" by (rule distinct_put [OF d])
    moreover have "\<forall>r \<in> set (put_row ar_id ?new (ad_sessions db)). ar_expires_at r = ar_created_at r + SESSION_LIFETIME"
      using wf assms(1) unfolding put by (auto simp: sessions_wf_def new(4,5))
    ultimately show "sessions_wf db'" using wf assms(3) by (simp add: sessions_wf_def)
    fix r assume r: "r \<in> set (ad_sessions db)"
    show "\<exists>r' \<in> set (ad_sessions db'). session_continues r r'"
    proof (cases "ar_id r = ar_id row")
      case True
      then have "r = row" using same r by blast
      then show ?thesis using r new(3) unfolding assms(3) put by (intro bexI [of _ ?new]) auto
    next
      case False
      then show ?thesis using r unfolding assms(3) put by (intro bexI [of _ r]) auto
    qed
  qed
qed

lemma locked_sessionD: "locked_session digest db = Inr (row, db') \<Longrightarrow> db' = db \<and> row \<in> set (ad_sessions db) \<and> ar_token_hash row = digest
    \<and> row_of ar_token_hash digest (ad_sessions db) = Some row"
  by (auto simp: locked_session_def split: option.splits dest: row_of_SomeD)

lemma evaluate_row_iff:
  "evaluate_row store token now row = Inr due \<longleftrightarrow> ar_token_hash row = hash_session_token token \<and> ar_revoked_at row = None
     \<and> now < ar_expires_at row \<and> (due \<longleftrightarrow> ar_created_at row + SESSION_ROTATION_AGE \<le> now)"
  by (auto simp: evaluate_row_def evaluate_session_def record_of_row_def split: option.splits)

lemma access_sessionD:
  assumes "access_session store token now may draw db = Inr ((r, replacement), db')"
  obtains (kept) row where "row_of ar_token_hash (hash_session_token token) (ad_sessions db) = Some row" "replacement = None" "db' = db"
      "r = record_of_row store row" "evaluate_row store token now row = Inr (ar_created_at row + SESSION_ROTATION_AGE \<le> now)"
  | (rotated) row db1 new where "row_of ar_token_hash (hash_session_token token) (ad_sessions db) = Some row" "replacement = Some new"
      "evaluate_row store token now row = Inr True" "create_session store now draw db = Inr ((new, r), db1)" "may"
      "db' = db1\<lparr>ad_sessions := put_row ar_id (retire_row now True row) (ad_sessions db1)\<rparr>"
proof -
  obtain row due where row: "row_of ar_token_hash (hash_session_token token) (ad_sessions db) = Some row"
    "evaluate_row store token now row = Inr due"
    and rest: "(if \<not> due \<or> \<not> may then give (record_of_row store row, None)
       else and_then (create_session store now draw) (\<lambda>(replacement, r).
            and_then (change (\<lambda>db. db\<lparr>ad_sessions := put_row ar_id (retire_row now True row) (ad_sessions db)\<rparr>))
              (\<lambda>_. give (r, Some replacement)))) db = Inr ((r, replacement), db')"
    using assms unfolding access_session_def by (auto simp: and_then_Inr dest!: locked_sessionD)
  have due: "due \<longleftrightarrow> ar_created_at row + SESSION_ROTATION_AGE \<le> now" using row(2) by (simp add: evaluate_row_iff)
  show thesis
  proof (cases "\<not> due \<or> \<not> may")
    case True
    then have "r = record_of_row store row \<and> replacement = None \<and> db' = db" using rest by auto
    then show thesis using kept [OF row(1)] row(2) due by simp
  next
    case False
    then obtain new db1 where "create_session store now draw db = Inr ((new, r), db1)" "replacement = Some new"
      "db' = db1\<lparr>ad_sessions := put_row ar_id (retire_row now True row) (ad_sessions db1)\<rparr>"
      using rest by (auto simp: and_then_Inr)
    then show thesis using rotated [OF row(1)] row(2) False by simp
  qed
qed

lemma check_session_csrfD:
  assumes "check_session_csrf store token csrf origin referer now db = Inr (row, db')"
  shows "db' = db \<and> row_of ar_token_hash (hash_session_token token) (ad_sessions db) = Some row
    \<and> (\<exists>due. evaluate_row store token now row = Inr due)"
  using assms unfolding check_session_csrf_def by (auto simp: and_then_Inr dest!: locked_sessionD)

lemma revoke_sessionD:
  assumes "revoke_session store token csrf origin referer now db = Inr (u, db')"
  obtains row due where "row_of ar_token_hash (hash_session_token token) (ad_sessions db) = Some row"
    "evaluate_row store token now row = Inr due"
    "db' = db\<lparr>ad_sessions := put_row ar_id (retire_row now False row) (ad_sessions db)\<rparr>"
  using assms unfolding revoke_session_def by (auto simp: and_then_Inr dest!: check_session_csrfD)

lemma access_session_grows:
  assumes "access_session store token now may draw db = Inr (x, db')"
  shows "sessions_grow db db'"
proof -
  obtain r replacement where x: "x = (r, replacement)" by (cases x)
  from assms [unfolded x] show ?thesis
  proof (cases rule: access_sessionD)
    case kept
    then show ?thesis by (simp add: sessions_grow_same)
  next
    case (rotated row db1 new)
    then have row: "row \<in> set (ad_sessions db)" "ar_revoked_at row = None"
      using row_of_SomeD [OF rotated(1)] by (auto simp: evaluate_row_iff)
    obtain fresh where "ad_sessions db1 = ad_sessions db @ [fresh]" using create_sessionD [OF rotated(4)] by metis
    then have "row \<in> set (ad_sessions db1)" using row(1) by simp
    then have "sessions_grow db1 db'" using retire_grows [of row db1 db' now True] row(2) rotated(6) by simp
    then show ?thesis using create_session_grows [OF rotated(4)] sessions_grow_trans by blast
  qed
qed

lemma revoke_session_grows:
  assumes "revoke_session store token csrf origin referer now db = Inr (u, db')"
  shows "sessions_grow db db'"
proof -
  obtain row due where row: "row_of ar_token_hash (hash_session_token token) (ad_sessions db) = Some row"
    "evaluate_row store token now row = Inr due"
    "db' = db\<lparr>ad_sessions := put_row ar_id (retire_row now False row) (ad_sessions db)\<rparr>" by (rule revoke_sessionD [OF assms])
  then show ?thesis using retire_grows [of row db db' now False] row_of_SomeD [OF row(1)] by (simp add: evaluate_row_iff)
qed

lemma committed_grows: "(\<And>x db'. m db = Inr (x, db') \<Longrightarrow> sessions_grow db db') \<Longrightarrow> sessions_grow db (snd (committed m db))"
  by (auto simp: committed_def sessions_grow_same split: sum.split)

lemma settle_grows: "sessions_grow db (snd (login_settle h password ip now draw db))"
proof (cases "ah_verify_password h password")
  case False
  then show ?thesis by (auto simp: login_settle_def intro: sessions_grow_same split: prod.split)
next
  case True
  let ?db = "set_login_rows (clear_login_failures (ah_secret h) ip (login_rows db)) db"
  have same: "sessions_grow db ?db" by (rule sessions_grow_same) simp
  show ?thesis
  proof (cases "create_session (ah_store h) now draw ?db")
    case (Inl e)
    then show ?thesis using True same by (simp add: login_settle_def Let_def)
  next
    case (Inr x)
    obtain token r db2 where x: "x = ((token, r), db2)" by (metis prod.collapse)
    have "sessions_grow ?db db2" using create_session_grows Inr x by blast
    then show ?thesis using True same Inr x sessions_grow_trans by (auto simp: login_settle_def Let_def)
  qed
qed

lemma handle_session_snd: "snd (handle_session h bff token now draw db) = db
  \<or> snd (handle_session h bff token now draw db) = snd (committed (access_session (ah_store h) token now True draw) db)"
  by (auto simp: handle_session_def split: sum.splits prod.splits)

lemma handle_logout_snd: "snd (handle_logout h bff token csrf origin referer now db) = db
  \<or> snd (handle_logout h bff token csrf origin referer now db)
      = snd (committed (revoke_session (ah_store h) token csrf origin referer now) db)"
  by (auto simp: handle_logout_def split: sum.splits)

lemma admin_step_grows: "admin_step h db db' \<Longrightarrow> sessions_grow db db'"
proof (induction rule: admin_step.induct)
  case (login db bff password ip now draw)
  show ?case using settle_grows by (auto simp: handle_login_def intro: sessions_grow_same split: sum.split)
next
  case (settle db password ip now draw)
  show ?case by (rule settle_grows)
next
  case (session db bff token now draw)
  have "sessions_grow db (snd (committed (access_session (ah_store h) token now True draw) db))"
    by (rule committed_grows) (rule access_session_grows)
  then show ?case using handle_session_snd [of h bff token now draw db] sessions_grow_same [of db db] by metis
next
  case (logout db bff token csrf origin referer now)
  have "sessions_grow db (snd (committed (revoke_session (ah_store h) token csrf origin referer now) db))"
    by (rule committed_grows) (rule revoke_session_grows)
  then show ?case using handle_logout_snd [of h bff token csrf origin referer now db] sessions_grow_same [of db db] by metis
qed

lemma admin_steps_grow: "(admin_step h)\<^sup>*\<^sup>* db db' \<Longrightarrow> sessions_grow db db'"
  by (induction rule: rtranclp_induct) (auto intro: sessions_grow_same sessions_grow_trans admin_step_grows)

interpretation admin_sessions: transition_system sessions_wf "admin_step h" sessions_wf for h
  by unfold_locales (auto dest: admin_step_grows simp: sessions_grow_def)

text \<open>A token whose row is revoked is refused.\<close>

definition token_dead :: "string \<Rightarrow> admin_db \<Rightarrow> bool" where
  "token_dead token db \<longleftrightarrow> (\<exists>r \<in> set (ad_sessions db). ar_token_hash r = hash_session_token token \<and> ar_revoked_at r \<noteq> None)"

lemma token_dead_stays:
  assumes "token_dead token db" and "sessions_wf db" and "sessions_grow db db'"
  shows "token_dead token db'"
proof -
  obtain r where "r \<in> set (ad_sessions db)" "ar_token_hash r = hash_session_token token" "ar_revoked_at r \<noteq> None"
    using assms(1) by (auto simp: token_dead_def)
  moreover from this obtain r' where "r' \<in> set (ad_sessions db')" "session_continues r r'"
    using assms(2,3) unfolding sessions_grow_def by blast
  ultimately show ?thesis by (auto simp: token_dead_def session_continues_def)
qed

lemma token_dead_row:
  assumes "token_dead token db" and "sessions_wf db"
  shows "\<exists>row. row_of ar_token_hash (hash_session_token token) (ad_sessions db) = Some row \<and> ar_revoked_at row \<noteq> None"
proof -
  obtain r where "r \<in> set (ad_sessions db)" "ar_token_hash r = hash_session_token token" "ar_revoked_at r \<noteq> None"
    using assms(1) by (auto simp: token_dead_def)
  then show ?thesis using row_of_mem [of ar_token_hash "ad_sessions db" r] assms(2) by (auto simp: sessions_wf_def)
qed

lemma token_dead_refused:
  assumes dead: "token_dead token db" and wf: "sessions_wf db"
  shows "access_session store token now may draw db = Inl (refuse SESSION_REVOKED)"
    and "check_session_csrf store token csrf origin referer now db = Inl (refuse SESSION_REVOKED)"
proof -
  obtain row where row: "row_of ar_token_hash (hash_session_token token) (ad_sessions db) = Some row" "ar_revoked_at row \<noteq> None"
    using token_dead_row [OF dead wf] by blast
  have "evaluate_row store token now row = Inl (refuse SESSION_REVOKED)"
    using row_of_SomeD [OF row(1)] row(2) by (simp add: evaluate_row_def evaluate_session_def record_of_row_def)
  then show "access_session store token now may draw db = Inl (refuse SESSION_REVOKED)"
    "check_session_csrf store token csrf origin referer now db = Inl (refuse SESSION_REVOKED)"
    using row(1) by (simp_all add: access_session_def check_session_csrf_def locked_session_def and_then_def attempt_def)
qed

lemma retired_token_dead:
  assumes "row \<in> set (ad_sessions db)" and "ar_token_hash row = hash_session_token token"
    and "ad_sessions db' = put_row ar_id (retire_row now b row) (ad_sessions db)"
  shows "token_dead token db'"
proof -
  have "ar_id (retire_row now b row) = ar_id row" by (simp add: retire_row_def)
  then have "retire_row now b row \<in> set (put_row ar_id (retire_row now b row) (ad_sessions db))"
    using assms(1) by (auto simp: put_row_def image_iff)
  then show ?thesis using assms(2,3) unfolding token_dead_def by (intro bexI [of _ "retire_row now b row"]) (simp_all add: retire_row_def)
qed

lemma logout_dead:
  assumes "fst (handle_logout h bff token csrf origin referer now db) = Inr ()"
  shows "token_dead token (snd (handle_logout h bff token csrf origin referer now db))"
proof -
  let ?db = "snd (handle_logout h bff token csrf origin referer now db)"
  obtain u where "revoke_session (ah_store h) token csrf origin referer now db = Inr (u, ?db)"
    using assms by (auto simp: handle_logout_def committed_def split: sum.splits)
  then obtain row due where row: "row_of ar_token_hash (hash_session_token token) (ad_sessions db) = Some row"
    "?db = db\<lparr>ad_sessions := put_row ar_id (retire_row now False row) (ad_sessions db)\<rparr>" by (rule revoke_sessionD)
  show ?thesis by (rule retired_token_dead [of row db token _ now False]) (use row row_of_SomeD [OF row(1)] in simp_all)
qed

lemma rotation_dead:
  assumes "fst (handle_session h bff token now draw db) = Inr response" and "sr_rotated response"
  shows "token_dead token (snd (handle_session h bff token now draw db))"
proof -
  let ?db = "snd (handle_session h bff token now draw db)"
  obtain r new where "access_session (ah_store h) token now True draw db = Inr ((r, Some new), ?db)"
    using assms by (auto simp: handle_session_def committed_def split: sum.splits prod.splits option.splits)
  then show ?thesis
  proof (cases rule: access_sessionD)
    case (rotated row db2 new')
    obtain fresh where "ad_sessions db2 = ad_sessions db @ [fresh]" using create_sessionD [OF rotated(4)] by metis
    then have "row \<in> set (ad_sessions db2)" using row_of_SomeD [OF rotated(1)] by simp
    then show ?thesis
      by (rule retired_token_dead [of row db2 token _ now True]) (use rotated(6) row_of_SomeD [OF rotated(1)] in simp_all)
  qed simp
qed

text \<open>(C23) End.\<close>

theorem ended_session_never_accepted:
  assumes wf: "sessions_wf db"
    and ended: "fst (handle_logout h bff token csrf origin referer now db) = Inr () \<and> db1 = snd (handle_logout h bff token csrf origin referer now db)
      \<or> (\<exists>response. fst (handle_session h bff token now draw db) = Inr response \<and> sr_rotated response)
        \<and> db1 = snd (handle_session h bff token now draw db)"
    and later: "(admin_step h)\<^sup>*\<^sup>* db1 db2"
  shows "(\<exists>e. fst (handle_session h bff' token now' draw' db2) = Inl e)
    \<and> (\<exists>e. authorize_admin_command h authorization (Some token) csrf' origin' referer' now' db2 = Inl e)"
proof -
  have "token_dead token db1 \<and> admin_step h db db1"
    using ended
  proof (elim disjE conjE exE)
    assume "fst (handle_logout h bff token csrf origin referer now db) = Inr ()"
      "db1 = snd (handle_logout h bff token csrf origin referer now db)"
    then show ?thesis by (simp add: logout_dead admin_step.logout)
  next
    fix response
    assume "fst (handle_session h bff token now draw db) = Inr response" "sr_rotated response"
      "db1 = snd (handle_session h bff token now draw db)"
    then show ?thesis by (simp add: rotation_dead admin_step.session)
  qed
  then have wf1: "sessions_wf db1" "token_dead token db1" using admin_step_grows wf by (auto simp: sessions_grow_def)
  then have "sessions_wf db2" "token_dead token db2"
    using admin_steps_grow [OF later] token_dead_stays by (auto simp: sessions_grow_def)
  note refused = token_dead_refused [OF this(2,1)]
  have "\<exists>e. fst (handle_session h bff' token now' draw' db2) = Inl e"
    by (simp add: handle_session_def committed_def refused split: sum.split)
  moreover have "\<exists>e. authorize_admin_command h authorization (Some token) csrf' origin' referer' now' db2 = Inl e"
    by (simp add: authorize_admin_command_def verify_session_csrf_def and_then_def refused split: sum.split option.split)
  ultimately show ?thesis by blast
qed


section \<open>Rotation of the credential version\<close>

lemma record_version: "as_id (record_of_row (store\<lparr>ss_version := v\<rparr>) row) = as_id (record_of_row store row)"
  "as_csrf_seed (record_of_row (store\<lparr>ss_version := v\<rparr>) row) = as_csrf_seed (record_of_row store row)"
  by (simp_all add: record_of_row_def csrf_seed_def)

lemma verify_csrf_cong: "as_id r = as_id r' \<Longrightarrow> as_csrf_seed r = as_csrf_seed r' \<Longrightarrow> verify_csrf bk secret allowed r = verify_csrf bk secret allowed r'"
  by (intro ext) (simp add: verify_csrf_def csrf_signature_def split: sum.split option.split)

lemma evaluate_row_version: "evaluate_row (store\<lparr>ss_version := v\<rparr>) = evaluate_row store"
  by (intro ext) (simp add: evaluate_row_def evaluate_session_def record_of_row_def)

lemma check_session_version: "check_session_csrf (store\<lparr>ss_version := v\<rparr>) = check_session_csrf store"
  by (intro ext) (simp add: check_session_csrf_def evaluate_row_version verify_csrf_cong [OF record_version])

text \<open>(C27) Rotation.\<close>

theorem session_survives_credential_rotation:
  "authorize_admin_command (h\<lparr>ah_store := (ah_store h)\<lparr>ss_version := v\<rparr>\<rparr>) authorization token csrf origin referer now db
     = authorize_admin_command h authorization token csrf origin referer now db"
  by (simp add: authorize_admin_command_def verify_session_csrf_def check_session_version and_then_def give_def split: option.split sum.split)

section \<open>Failed logins\<close>

type_synonym login_attempt = "string \<times> instant \<times> session_draw"

text \<open>Attempts of one client, one after the other.\<close>

fun run_logins :: "admin_handlers \<Rightarrow> string \<Rightarrow> string \<Rightarrow> login_attempt list \<Rightarrow> admin_db \<Rightarrow> (identity_fault + session_response) list \<times> admin_db" where
  "run_logins h bff ip [] db = ([], db)"
| "run_logins h bff ip ((password, now, draw) # attempts) db =
     (case handle_login h bff password ip now draw db of (answer, db') \<Rightarrow>
        (case run_logins h bff ip attempts db' of (answers, db'') \<Rightarrow> (answer # answers, db'')))"

text \<open>The row of a bucket after \<open>n\<close> failures.\<close>

definition failed_times :: "string \<Rightarrow> string \<Rightarrow> instant \<Rightarrow> nat \<Rightarrow> rate_row list \<Rightarrow> bool" where
  "failed_times secret ip bucket n rows \<longleftrightarrow>
     (case row_of rate_key (login_client_hash secret ip, bucket) rows of None \<Rightarrow> n = 0
      | Some row \<Rightarrow> 0 < n \<and> rl_failure_count row = int n \<and> (n < 5 \<longrightarrow> rl_locked_until row = None))"

lemma failed_times_allowed:
  "failed_times secret ip (login_bucket now) n rows \<Longrightarrow> login_is_allowed secret ip now rows \<longleftrightarrow> n < 5"
  by (auto simp: failed_times_def login_is_allowed_def LOGIN_FAILURE_LIMIT_def split: option.splits)

lemma failed_times_record:
  assumes "failed_times secret ip (login_bucket now) n rows"
  shows "fst (record_login_failure secret ip now rows) \<longleftrightarrow> n < 4"
    and "failed_times secret ip (login_bucket now) (Suc n) (snd (record_login_failure secret ip now rows))"
proof -
  let ?key = "(login_client_hash secret ip, login_bucket now)"
  have "(fst (record_login_failure secret ip now rows) \<longleftrightarrow> n < 4)
    \<and> failed_times secret ip (login_bucket now) (Suc n) (snd (record_login_failure secret ip now rows))"
  proof (cases "row_of rate_key ?key rows")
    case None
    then show ?thesis using assms
      by (simp add: failed_times_def record_login_failure_def Let_def LOGIN_FAILURE_LIMIT_def row_of_put)
  next
    case (Some row)
    then have row: "rl_client_hash row = fst ?key" "rl_bucket_start row = snd ?key" "rl_failure_count row = int n"
      "n < 5 \<longrightarrow> rl_locked_until row = None"
      using window_count_Some [OF Some] assms by (simp_all add: failed_times_def)
    then show ?thesis using Some
      by (simp add: failed_times_def record_login_failure_def Let_def LOGIN_FAILURE_LIMIT_def row_of_put)
  qed
  then show "fst (record_login_failure secret ip now rows) \<longleftrightarrow> n < 4"
    "failed_times secret ip (login_bucket now) (Suc n) (snd (record_login_failure secret ip now rows))" by simp_all
qed

lemma handle_login_authorized:
  assumes "ah_authorize h bff BFF_AUTH now (ad_identity db) = Inr x"
  shows "handle_login h bff password ip now draw db
    = (if login_is_allowed (ah_secret h) ip now (login_rows db) then login_settle h password ip now draw db else (Inl rate_limited, db))"
  by (simp add: handle_login_def assms)

lemma wrong_login:
  assumes auth: "\<And>t db. \<exists>x. ah_authorize h bff BFF_AUTH t db = Inr x" and "\<not> ah_verify_password h password"
    and failed: "failed_times (ah_secret h) ip (login_bucket now) n (login_rows db)"
  shows "\<exists>db'. handle_login h bff password ip now draw db = (Inl (if n < 4 then refuse INVALID_CREDENTIAL else rate_limited), db')
    \<and> failed_times (ah_secret h) ip (login_bucket now) (if n < 5 then Suc n else n) (login_rows db')"
proof -
  obtain x where x: "ah_authorize h bff BFF_AUTH now (ad_identity db) = Inr x" using auth by blast
  note handle = handle_login_authorized [OF x, of password ip draw]
  obtain ok rows where rec: "record_login_failure (ah_secret h) ip now (login_rows db) = (ok, rows)" by (rule prod.exhaust)
  have settled: "login_settle h password ip now draw db = (Inl (if n < 4 then refuse INVALID_CREDENTIAL else rate_limited), set_login_rows rows db)"
    "failed_times (ah_secret h) ip (login_bucket now) (Suc n) rows"
    using failed_times_record [OF failed] assms(2) by (simp_all add: rec login_settle_def)
  show ?thesis
  proof (cases "n < 5")
    case True
    then show ?thesis using handle settled failed_times_allowed [OF failed] by simp
  next
    case False
    then show ?thesis using handle failed failed_times_allowed [OF failed] by simp
  qed
qed

lemma wrong_logins:
  assumes auth: "\<And>t db. \<exists>x. ah_authorize h bff BFF_AUTH t db = Inr x"
  shows "failed_times (ah_secret h) ip bucket n (login_rows db)
    \<Longrightarrow> list_all (\<lambda>(password, now, draw). \<not> ah_verify_password h password \<and> login_bucket now = bucket) attempts
    \<Longrightarrow> \<exists>db' m. run_logins h bff ip attempts db
          = (replicate (min (4 - n) (length attempts)) (Inl (refuse INVALID_CREDENTIAL))
              @ replicate (length attempts - (4 - n)) (Inl rate_limited), db')
      \<and> failed_times (ah_secret h) ip bucket m (login_rows db') \<and> (5 \<le> n + length attempts \<longrightarrow> 5 \<le> m)"
proof (induction attempts arbitrary: db n)
  case Nil
  then show ?case by auto
next
  case (Cons c attempts)
  obtain password now draw where c: "c = (password, now, draw)" by (cases c)
  have wrong: "\<not> ah_verify_password h password" "login_bucket now = bucket" using Cons.prems(2) c by simp_all
  let ?n = "if n < 5 then Suc n else n"
  obtain db1 where step: "handle_login h bff password ip now draw db = (Inl (if n < 4 then refuse INVALID_CREDENTIAL else rate_limited), db1)"
    "failed_times (ah_secret h) ip bucket ?n (login_rows db1)"
    using wrong_login [OF auth wrong(1), of ip now n db draw] Cons.prems(1) wrong(2) by auto
  obtain db' m where rest: "run_logins h bff ip attempts db1
      = (replicate (min (4 - ?n) (length attempts)) (Inl (refuse INVALID_CREDENTIAL))
          @ replicate (length attempts - (4 - ?n)) (Inl rate_limited), db')"
    "failed_times (ah_secret h) ip bucket m (login_rows db')" "5 \<le> ?n + length attempts \<longrightarrow> 5 \<le> m"
    using Cons.IH [OF step(2)] Cons.prems(2) by auto
  have run: "run_logins h bff ip (c # attempts) db
      = (Inl (if n < 4 then refuse INVALID_CREDENTIAL else rate_limited)
          # replicate (min (4 - ?n) (length attempts)) (Inl (refuse INVALID_CREDENTIAL))
          @ replicate (length attempts - (4 - ?n)) (Inl rate_limited), db')"
    by (simp add: c step(1) rest(1))
  have "Inl (if n < 4 then refuse INVALID_CREDENTIAL else rate_limited)
          # replicate (min (4 - ?n) (length attempts)) (Inl (refuse INVALID_CREDENTIAL))
          @ replicate (length attempts - (4 - ?n)) (Inl rate_limited)
      = replicate (min (4 - n) (length (c # attempts))) (Inl (refuse INVALID_CREDENTIAL) :: identity_fault + session_response)
              @ replicate (length (c # attempts) - (4 - n)) (Inl rate_limited)"
  proof (cases "n < 4")
    case True
    then have "min (4 - n) (length (c # attempts)) = Suc (min (4 - ?n) (length attempts))"
      "length (c # attempts) - (4 - n) = length attempts - (4 - ?n)" by auto
    then show ?thesis using True by simp
  qed simp
  then show ?case using run rest(2,3) by (intro exI [of _ db'] exI [of _ m]) auto
qed

text \<open>(C24) Lockout.\<close>

theorem login_lockout:
  assumes "\<And>t db. \<exists>x. ah_authorize h bff BFF_AUTH t db = Inr x"
    and "row_of rate_key (login_client_hash (ah_secret h) ip, bucket) (login_rows db) = None"
    and "list_all (\<lambda>(password, now, draw). \<not> ah_verify_password h password \<and> login_bucket now = bucket) attempts"
    and "5 \<le> length attempts" and "login_bucket now = bucket"
  shows "\<exists>db'. run_logins h bff ip attempts db
        = (replicate 4 (Inl (refuse INVALID_CREDENTIAL)) @ replicate (length attempts - 4) (Inl rate_limited), db')
      \<and> handle_login h bff password ip now draw db' = (Inl rate_limited, db')"
proof -
  have "failed_times (ah_secret h) ip bucket 0 (login_rows db)" using assms(2) by (simp add: failed_times_def)
  from wrong_logins [OF assms(1) this assms(3)] assms(4) obtain db' m where run: "run_logins h bff ip attempts db
      = (replicate 4 (Inl (refuse INVALID_CREDENTIAL)) @ replicate (length attempts - 4) (Inl rate_limited), db')"
    "failed_times (ah_secret h) ip bucket m (login_rows db')" "5 \<le> m" by (auto simp: min_def)
  obtain x where "ah_authorize h bff BFF_AUTH now (ad_identity db') = Inr x" using assms(1) by blast
  then have "handle_login h bff password ip now draw db' = (Inl rate_limited, db')"
    using handle_login_authorized [of h bff now db' x password ip draw] failed_times_allowed [of "ah_secret h" ip now m] run(2,3) assms(5) by simp
  then show ?thesis using run(1) by blast
qed

text \<open>Logins that run at once: each passes the limit at its \<open>Gate\<close>, and its password is compared at its \<open>Settle\<close>.\<close>

datatype login_event = Gate nat | Settle nat

fun run_events ::
    "admin_handlers \<Rightarrow> string \<Rightarrow> instant \<Rightarrow> (nat \<Rightarrow> string \<times> session_draw) \<Rightarrow> login_event list \<Rightarrow> nat set \<Rightarrow> admin_db
      \<Rightarrow> (identity_fault + session_response) list \<times> admin_db" where
  "run_events h ip now logins [] passed db = ([], db)"
| "run_events h ip now logins (Gate i # es) passed db =
     run_events h ip now logins es (if login_is_allowed (ah_secret h) ip now (login_rows db) then insert i passed else passed) db"
| "run_events h ip now logins (Settle i # es) passed db =
     (case (if i \<in> passed then login_settle h (fst (logins i)) ip now (snd (logins i)) db else (Inl rate_limited, db)) of
        (answer, db') \<Rightarrow> (case run_events h ip now logins es passed db' of (answers, db'') \<Rightarrow> (answer # answers, db'')))"

lemma gates_pass:
  "login_is_allowed (ah_secret h) ip now (login_rows db) \<Longrightarrow>
     run_events h ip now logins (map Gate xs @ es) passed db = run_events h ip now logins es (set xs \<union> passed) db"
  by (induction xs arbitrary: passed) simp_all

lemma create_session_rates:
  assumes "create_session store now draw db = Inr ((token, r), db')"
  shows "\<exists>db''. create_session store now draw (set_login_rows rows db) = Inr ((token, r), db'')"
  using assms by (auto simp: create_session_def admin_principal_def Let_def split: option.splits if_splits)

lemma settle_after_failures:
  "set xs \<subseteq> passed \<Longrightarrow> (\<And>i. i \<in> set xs \<Longrightarrow> \<not> ah_verify_password h (fst (logins i)))
    \<Longrightarrow> \<exists>rows answers. length answers = length xs
      \<and> run_events h ip now logins (map Settle xs @ es) passed db
        = (answers @ fst (run_events h ip now logins es passed (set_login_rows rows db)),
           snd (run_events h ip now logins es passed (set_login_rows rows db)))"
proof (induction xs arbitrary: db)
  case Nil
  then show ?case by (intro exI [of _ "login_rows db"] exI [of _ "[]"]) simp
next
  case (Cons i xs)
  obtain ok rows1 where rec: "record_login_failure (ah_secret h) ip now (login_rows db) = (ok, rows1)" by (rule prod.exhaust)
  obtain e where settle: "login_settle h (fst (logins i)) ip now (snd (logins i)) db = (Inl e, set_login_rows rows1 db)"
    using Cons.prems(2) by (simp add: login_settle_def rec)
  obtain rows answers where IH: "length answers = length xs" "run_events h ip now logins (map Settle xs @ es) passed (set_login_rows rows1 db)
        = (answers @ fst (run_events h ip now logins es passed (set_login_rows rows db)),
           snd (run_events h ip now logins es passed (set_login_rows rows db)))"
    using Cons.IH [of "set_login_rows rows1 db"] Cons.prems by auto
  have "run_events h ip now logins (map Settle (i # xs) @ es) passed db
      = ((Inl e # answers) @ fst (run_events h ip now logins es passed (set_login_rows rows db)),
           snd (run_events h ip now logins es passed (set_login_rows rows db)))"
    using Cons.prems(1) by (simp add: settle IH(2))
  then show ?case using IH(1) by (intro exI [of _ rows] exI [of _ "Inl e # answers"]) simp
qed

text \<open>(C28) Race.\<close>

theorem login_limit_not_atomic:
  assumes "login_is_allowed (ah_secret h) ip now (login_rows db)"
    and "\<And>i. i < n \<Longrightarrow> \<not> ah_verify_password h (fst (logins i))" and "ah_verify_password h (fst (logins n))"
    and "create_session (ah_store h) now (snd (logins n)) db = Inr ((token, r), db1)"
  shows "\<exists>answers response db'. run_events h ip now logins (map Gate [0..<Suc n] @ map Settle [0..<Suc n]) {} db
      = (answers @ [Inr response], db') \<and> length answers = n \<and> sr_session_token response = Some token"
proof -
  have "run_events h ip now logins (map Gate [0..<Suc n] @ map Settle [0..<Suc n]) {} db
      = run_events h ip now logins (map Settle [0..<n] @ [Settle n]) {0..<Suc n} db"
    using gates_pass [OF assms(1), of logins "[0..<Suc n]" "map Settle [0..<Suc n]" "{}"] by (simp add: atLeast0_lessThan_Suc)
  moreover obtain rows answers where "length answers = n"
    "run_events h ip now logins (map Settle [0..<n] @ [Settle n]) {0..<Suc n} db
        = (answers @ fst (run_events h ip now logins [Settle n] {0..<Suc n} (set_login_rows rows db)),
           snd (run_events h ip now logins [Settle n] {0..<Suc n} (set_login_rows rows db)))"
    using settle_after_failures [of "[0..<n]" "{0..<Suc n}" h logins ip now "[Settle n]" db] assms(2) by auto
  moreover obtain db2 where "create_session (ah_store h) now (snd (logins n))
      (set_login_rows (clear_login_failures (ah_secret h) ip rows) db) = Inr ((token, r), db2)"
    using create_session_rates [OF assms(4)] by blast
  ultimately show ?thesis using assms(3) by (simp add: login_settle_def Let_def)
qed

end
