(* ===== verification/Admin_Examples.thy ===== *)
theory Admin_Examples
  imports Admin_Security Identity_Examples
begin

text \<open>Concrete administrators: the witnesses of \<open>Admin_Security\<close>.\<close>

definition example_store :: session_store where
  "example_store = \<lparr>ss_secret = ''s'', ss_version = ''v1'', ss_allowed_origins = {''https://admin''}, ss_bracketed_ok = (\<lambda>_. False)\<rparr>"

definition example_handlers :: admin_handlers where
  "example_handlers = \<lparr>ah_authorize = (\<lambda>_ _ _ _. Inr (''bff:web'', {BFF_AUTH, ADMIN_COMMAND})),
     ah_verify_password = (\<lambda>p. p = ''right''), ah_secret = ''s'', ah_store = example_store\<rparr>"

definition example_session_draw :: session_draw where
  "example_session_draw = \<lparr>sd_token = ''token'', sd_session_id = 1, sd_principal_id = 2\<rparr>"

definition example_row :: session_row where
  "example_row = new_session_row example_session_draw (seconds 1000)"

definition example_admin :: "session_row list \<Rightarrow> admin_db" where
  "example_admin rows = \<lparr>ad_identity = xs_db empty_identity, ad_sessions = rows\<rparr>"

lemma example_origin: "origin_is_allowed (ss_bracketed_ok example_store) (ss_allowed_origins example_store) (Some ''https://admin'') referer = Inr True"
  by (simp add: origin_is_allowed_def example_store_def)

theorem csrf_token_life_witness:
  "let r = record_of_row example_store example_row; csrf = issue_csrf ''s'' r (seconds 1000)
   in verify_csrf (\<lambda>_. False) ''s'' {''https://admin''} r csrf (Some ''https://admin'') None (seconds 1500) = Inr ()
    \<and> verify_csrf (\<lambda>_. False) ''s'' {''https://admin''} r csrf (Some ''https://admin'') None (seconds 2800) = Inl (refuse CSRF_REJECTED)"
  using csrf_token_life [of "\<lambda>_. False" "{''https://admin''}" "Some ''https://admin''" None "seconds 1000" "seconds 1500"
      "''s''" "record_of_row example_store example_row"]
    csrf_token_life [of "\<lambda>_. False" "{''https://admin''}" "Some ''https://admin''" None "seconds 1000" "seconds 2800"
      "''s''" "record_of_row example_store example_row"]
  by (simp add: origin_is_allowed_def duration_defs Let_def)

lemma example_logout:
  "fst (handle_logout example_handlers ''b'' ''token'' (issue_csrf ''s'' (record_of_row example_store example_row) (seconds 1000))
     (Some ''https://admin'') None (seconds 1100) (example_admin [example_row])) = Inr ()"
proof -
  let ?csrf = "issue_csrf (ss_secret example_store) (record_of_row example_store example_row) (seconds 1000)"
  have found: "locked_session (hash_session_token ''token'') (example_admin [example_row]) = Inr (example_row, example_admin [example_row])"
    by (simp add: locked_session_def row_of_def example_admin_def example_row_def new_session_row_def example_session_draw_def)
  have live: "evaluate_row example_store ''token'' (seconds 1100) example_row = Inr False"
    by (simp add: evaluate_row_iff example_row_def new_session_row_def example_session_draw_def SESSION_LIFETIME_def
        SESSION_ROTATION_AGE_def duration_defs)
  have "csrf_bucket (seconds 1100) \<in> {csrf_bucket (seconds 1000), csrf_bucket (seconds 1000) + 1}"
    by (simp add: csrf_bucket_def trunc_seconds_def seconds_def CSRF_BUCKET_SECONDS_def)
  then have csrf: "verify_csrf (ss_bracketed_ok example_store) (ss_secret example_store) (ss_allowed_origins example_store)
      (record_of_row example_store example_row) ?csrf (Some ''https://admin'') None (seconds 1100) = Inr ()"
    using verify_issued_csrf [OF example_origin] by simp
  have "ss_secret example_store = ''s''" by (simp add: example_store_def)
  then show ?thesis using found live csrf
    by (simp add: handle_logout_def example_handlers_def committed_def revoke_session_def check_session_csrf_def and_then_def
        attempt_def give_def change_def)
qed

theorem ended_session_never_accepted_witness:
  "\<exists>db e. fst (handle_session example_handlers ''b'' ''token'' (seconds 1200) example_session_draw db) = Inl e"
proof -
  have "sessions_wf (example_admin [example_row])"
    by (simp add: sessions_wf_def example_admin_def example_row_def new_session_row_def)
  from ended_session_never_accepted [OF this disjI1 rtranclp.rtrancl_refl, OF conjI, OF example_logout refl]
  show ?thesis by blast
qed

theorem login_lockout_witness:
  "\<exists>db'. handle_login example_handlers ''b'' ''right'' ''ip'' (seconds 1100) example_session_draw db' = (Inl rate_limited, db')"
proof -
  let ?attempts = "replicate 6 (''wrong'', seconds 1000, example_session_draw)"
  have bucket: "login_bucket (seconds 1000) = seconds 900" "login_bucket (seconds 1100) = seconds 900"
    by (simp_all add: window_start_def trunc_seconds_def seconds_def LOGIN_FAILURE_WINDOW_SECONDS_def Let_def)
  have "list_all (\<lambda>(password, now, draw). \<not> ah_verify_password example_handlers password \<and> login_bucket now = seconds 900) ?attempts"
    by (simp add: example_handlers_def bucket list_all_iff)
  then have "\<exists>db'. run_logins example_handlers ''b'' ''ip'' ?attempts (example_admin [])
        = (replicate 4 (Inl (refuse INVALID_CREDENTIAL)) @ replicate (length ?attempts - 4) (Inl rate_limited), db')
      \<and> handle_login example_handlers ''b'' ''right'' ''ip'' (seconds 1100) example_session_draw db' = (Inl rate_limited, db')"
    by (intro login_lockout) (simp_all add: bucket example_handlers_def example_admin_def empty_identity_def row_of_def)
  then show ?thesis by blast
qed

theorem login_limit_not_atomic_witness:
  "\<exists>answers response db'. run_events example_handlers ''ip'' (seconds 1000) (\<lambda>i. (if i < 7 then ''wrong'' else ''right'', example_session_draw))
      (map Gate [0..<8] @ map Settle [0..<8]) {} (example_admin []) = (answers @ [Inr response], db')
    \<and> length answers = 7 \<and> sr_session_token response = Some ''token''"
proof -
  have "\<exists>r db1. create_session (ah_store example_handlers) (seconds 1000) example_session_draw (example_admin []) = Inr ((''token'', r), db1)"
    by (simp add: create_session_def admin_principal_def example_admin_def empty_identity_def Let_def example_session_draw_def
        principal_live_def)
  then obtain r db1 where "create_session (ah_store example_handlers) (seconds 1000) example_session_draw (example_admin [])
      = Inr ((''token'', r), db1)" by blast
  moreover have "login_is_allowed (ah_secret example_handlers) ''ip'' (seconds 1000) (login_rows (example_admin []))"
    by (simp add: login_is_allowed_def example_admin_def empty_identity_def row_of_def)
  ultimately show ?thesis
    using login_limit_not_atomic [of example_handlers "''ip''" "seconds 1000" "example_admin []" 7
        "\<lambda>i. (if i < 7 then ''wrong'' else ''right'', example_session_draw)" "''token''" r db1]
    by (simp add: example_handlers_def)
qed

end
