(* ===== verification/Spec2Isabelle.thy ===== *)
theory Spec2Isabelle
  imports Stream_Recovery Slots Analysis_Queue Benchmark Report_History Daily_Progress Retention_Memory Retention_Blocked
    Identity_Examples Admin_Security Admin_Examples
begin

text \<open>
  Verification of the prediction market community monitor: the Python service under \<open>src/apps/api/app\<close>.

  \<^bold>\<open>The program.\<close> The service collects posts from reviewed communities, analyses them, publishes a daily
  report and deletes raw content after a bounded time. Four pipelines share one PostgreSQL database, behind one
  identity service.

  \<^item> \<^emph>\<open>Collection\<close> (\<open>collection/\<close>). Slots on a three-hour grid and operators create commands. A command is
    reserved, dispatched to an external worker, claimed and kept alive by heartbeats. The worker sends pages;
    each page transaction normalises the items, classifies them against the current revisions, appends to the
    run's hash chain and advances a checkpoint under compare-and-set. Completion verifies the persisted chain
    and finalises every run; a stale pass does the same for abandoned commands. A second grid verifies freshness.
  \<^item> \<^emph>\<open>Analysis\<close> (\<open>analysis/\<close>). Every new post version is queued for the model under leases and a retry
    schedule, behind a capability gate and a human-labelled benchmark.
  \<^item> \<^emph>\<open>Reporting\<close> (\<open>reporting/\<close>). For a Seoul calendar day the assembler reads one snapshot into a
    self-contained manifest, the formula projects the report from it, and the repository appends a version
    only after it has been reproduced from the retained bytes. The daily cron drives reports and retention.
  \<^item> \<^emph>\<open>Retention\<close> (\<open>reporting/retention*.py\<close>). Raw rows are replaced by tombstones after thirty days, report
    graphs are removed after their own retention.
  \<^item> \<^emph>\<open>Identity\<close> (\<open>services/identity/\<close>, \<open>core/jwt.py\<close>). The web frontend, the GitHub workflows and the Windows
    worker each exchange a credential of their own for a signed token that lives for minutes and carries scopes;
    every scoped request presents the token and is checked against the principals and credential versions in the
    database. The administrator logs in with a password and holds a session and a CSRF token beside the token of
    the frontend.

  \<^bold>\<open>Theories.\<close>

  \<^item> Foundations: \<open>Prelude\<close> (time, loops that raise, the locales \<open>transition_system\<close> and \<open>slot_grid\<close>),
    \<open>Transaction\<close> (actions on a state that roll back when they raise, tables keyed by id), \<open>Digest\<close> (SHA-256
    and hexadecimal text, computed from its specification), \<open>Canonical\<close> (\<open>services/configuration/canonical.py\<close>),
    \<open>Domain_Enums\<close> (\<open>domain/enums.py\<close>), \<open>Encoding\<close> (the base64 and integer texts of Python that tokens use).
  \<^item> Collection: \<open>Collection_Base\<close> (\<open>base.py\<close>, \<open>authorization.py\<close>), \<open>Dispatch\<close> (\<open>commands.py\<close>,
    \<open>dispatch.py\<close>), \<open>Checkpoint\<close> (\<open>checkpoint.py\<close>, \<open>claim_policy.py\<close>), \<open>Normalizer\<close> (\<open>normalizer.py\<close>),
    \<open>Pages\<close> (the page planner), \<open>Completion\<close> (\<open>completion*.py\<close>, \<open>recovery.py\<close>), \<open>Page_Store\<close> (the page
    transaction and its streams), \<open>Stream_Recovery\<close> (completion and recovery of the streams that page
    transactions built), \<open>Slots\<close> (\<open>slots.py\<close>, \<open>verification.py\<close>).
  \<^item> Analysis: \<open>Capability\<close>, \<open>Analysis_Queue\<close>, \<open>Benchmark\<close> (the files of the same names in \<open>analysis/\<close>).
  \<^item> Reporting: \<open>Report_Model\<close>, \<open>Decimal_Ratio\<close>, \<open>Report_Coverage\<close>, \<open>Report_Manifest\<close>, \<open>Report_Envelope\<close>,
    \<open>Report_Formula\<close>, \<open>Report_Assembly\<close> (windows, inputs, coverage, manifest, envelope, formula and the
    assembler), \<open>Report_Repository\<close> and \<open>Report_History\<close> (both repositories and their common contract),
    \<open>Daily_Jobs\<close>, \<open>Daily_Run\<close>, \<open>Daily_Progress\<close> (the job table, one cron invocation, its liveness).
  \<^item> Retention: \<open>Retention_Policy\<close> (\<open>retention.py\<close>, the policy over its port), \<open>Retention_Contract\<close> (what a store
    promises: the evidence no pass may touch, as the locale \<open>retention_laws\<close>), \<open>Retention_Memory\<close> (the in-memory
    adapter, which interprets it), \<open>Retention_Tables\<close> and \<open>Retention_SQL\<close> (the rows the PostgreSQL adapter touches
    with their constraints and triggers, its fifteen operations and the coordinator), \<open>Retention_Blocked\<close> (what
    these constraints prevent the adapter from deleting).
  \<^item> Identity: \<open>Service_Tokens\<close> (\<open>core/jwt.py\<close>, \<open>principals.py\<close>, \<open>errors.py\<close>), \<open>Identity_Stores\<close> (nonces, rate
    limits, principals and approvals: the ports and their PostgreSQL adapters, with the locales \<open>nonce_store\<close> and
    \<open>rate_limiter\<close>), \<open>Token_Exchange\<close> (\<open>bff.py\<close>, \<open>github.py\<close>, \<open>windows.py\<close>), \<open>Identity_Exchange\<close>
    (\<open>exchanges.py\<close>, the scope authorizer, the cron secret, the workflow policy), \<open>Identity_Authority\<close> (which
    tokens the system can sign and accept, and what is exchanged once), \<open>Admin_Sessions\<close> and \<open>Admin_Security\<close>
    (\<open>sessions.py\<close>, \<open>sql_admin_sessions.py\<close>, \<open>admin_handlers.py\<close> and what protects the administrator),
    \<open>Identity_Examples\<close> and \<open>Admin_Examples\<close> (concrete deployments for the witnesses).

  \<^bold>\<open>Correspondence.\<close> A dataclass or Pydantic model is a record, an enumeration a datatype, a function that
  raises returns a sum whose left side is the error, a handler is a function from the old state to the new
  one. Timestamps are integers of microseconds; a Seoul date is a number of days; a UUID is a 128 bit word;
  strings are their UTF-8 bytes. Database rows that a transaction locks are the fields of an explicit state,
  and a transaction that raises leaves the state as it was. Row locks and advisory locks appear as the serial
  order of the transactions that take them. Every theory names its source files and its abstractions.

  \<^bold>\<open>What the lemmas show.\<close> Invariants hold in every state a component can reach, by rule induction over its
  step relation: the command life cycle, the page stream, the analysis queue, the job table, the history of
  reports, the sessions. Safety results say which committed state excludes which other: the hash chain determines the pages,
  a checkpoint revision is used once, a superseded lease cannot finish, a stored report can be reproduced, an
  accepted token was signed by this service within the policy of its kind, a session that ended stays ended.
  Liveness results say that an operation succeeds: the stale pass, a reconciliation, a healthy cron
  invocation. Equivalences relate optimised code to a specification: rankings to a total order, the SQL
  repository to the in-memory one, two materialisation passes to one. Error results state exactly what is
  refused, and record the places where the code does not do what its documents say.

  \<^bold>\<open>Bounds.\<close> All recursion is structural or has a termination proof with a measure; there is no fuel. A cron
  invocation covers at most seven dates, as in \<open>MAX_CATCH_UP_DAYS\<close>. Digests are not assumed injective:
  results that need it conclude with an explicit collision.

  \<^bold>\<open>Database.\<close> Where a result rests on the schema, the constraint is part of the model of the statement: a
    foreign key with \<open>ON DELETE RESTRICT\<close> fails a delete at once while a row refers to the target, and the triggers
    of the migrations that make reports, pages and manifests immutable fail every update or delete.

  \<^bold>\<open>Parameters.\<close> Unicode NFC and case folding, gzip, Pydantic's parsers and its texts of timestamps, random
  ids and lease tokens, Ed25519, the JSON of tokens, the verification of a GitHub token against the published keys
  (\<open>github_oidc.py\<close>), Argon2, the check of a bracketed host, the clock, and the rows returned by a query are arguments of the definitions. Where a
  property needs one of their laws (decompression undoes compression, parsing undoes printing, ids are
  fresh), the law is a named hypothesis and a witness shows it can hold.

  \<^bold>\<open>Not modelled.\<close> HTTP routes and dependency wiring (glue around the services); the collection adapters of
  the communities and the collector client (HTTP and HTML of third parties); source activation and dispatch
  reservations of releases; configuration loaders; dashboard reads (SQL queries); the SQL text of the queries that
  assemble a report; table declarations and migrations other than the constraints the properties use; the release
  and deployment scripts under \<open>scripts/\<close> (subprocesses, HTTP and files); the web client.
\<close>

end
